(* ===== verification/Prelude.thy ===== *)
theory Prelude
  imports Main "HOL-Library.Word"
begin

unbundle bit_operations_syntax

text \<open>
  Shared vocabulary of the development: the byte type of Go, the result of a Go call
  that returns a value and an error, and lemmas on lists and words that several
  components use.

  Go strings and byte slices are sequences of bytes.  Data that the code handles as
  numbers (wire frames, checksums) is a list of 8-bit words; text that the code
  compares and cuts (identifiers, paths, commands) is an Isabelle \<open>string\<close>, whose
  characters are exactly the 256 bytes.  \<open>bytes_of\<close> and \<open>string_of\<close> are Go's
  conversions between the two, which never change a byte.
\<close>

type_synonym byte = "8 word"

named_theorems io_simps \<open>equations of the reading and writing primitives\<close>

subsection \<open>Strings as bytes\<close>

definition byte_of :: "char \<Rightarrow> byte" where
  "byte_of c = of_nat (of_char c)"

definition char_of_byte :: "byte \<Rightarrow> char" where
  "char_of_byte b = char_of (unat b)"

definition bytes_of :: "string \<Rightarrow> byte list" where
  "bytes_of s = map byte_of s"

definition string_of :: "byte list \<Rightarrow> string" where
  "string_of bs = map char_of_byte bs"

lemma unat_byte_of: "unat (byte_of c) = of_char c"
proof -
  have "of_char c mod 256 < (256 :: nat)" by (rule mod_less_divisor) simp
  then have "(of_char c :: nat) < 256" by simp
  then show ?thesis by (simp add: byte_of_def unat_of_nat)
qed

lemma char_of_byte_of [simp]: "char_of_byte (byte_of c) = c"
  by (simp add: char_of_byte_def unat_byte_of)

lemma byte_of_char_of_byte [simp]: "byte_of (char_of_byte b) = b"
proof -
  have "unat b < 256" using unsigned_less [of b, where 'a = nat] by simp
  then show ?thesis by (simp add: byte_of_def char_of_byte_def)
qed

lemma string_of_bytes_of [simp]: "string_of (bytes_of s) = s"
  by (simp add: string_of_def bytes_of_def comp_def)

lemma bytes_of_string_of [simp]: "bytes_of (string_of bs) = bs"
  by (simp add: string_of_def bytes_of_def comp_def)

lemma length_bytes_of [simp]: "length (bytes_of s) = length s"
  by (simp add: bytes_of_def)

lemma length_string_of [simp]: "length (string_of bs) = length bs"
  by (simp add: string_of_def)

lemma string_of_append [simp]: "string_of (xs @ ys) = string_of xs @ string_of ys"
  by (simp add: string_of_def)

lemma bytes_of_append [simp]: "bytes_of (xs @ ys) = bytes_of xs @ bytes_of ys"
  by (simp add: bytes_of_def)

lemma byte_of_inject: "byte_of c = byte_of d \<longleftrightarrow> c = d"
  by (metis char_of_byte_of)

lemma bytes_of_inject [simp]: "bytes_of s = bytes_of t \<longleftrightarrow> s = t"
  by (metis string_of_bytes_of)

subsection \<open>All values of a byte\<close>

text \<open>
  A fact about one byte is decided by trying its 256 values: a predicate that holds of
  every element of \<open>all_bytes\<close> holds of every byte.
\<close>

definition all_bytes :: "byte list" where
  "all_bytes = map of_nat [0..<256]"

lemma in_all_bytes: "b \<in> set all_bytes"
proof -
  have "unat b < 256" using unsigned_less [of b, where 'a = nat] by simp
  then have "unat b \<in> set [0..<256]" by simp
  then have "(of_nat (unat b) :: byte) \<in> of_nat ` set [0..<256]" by (rule imageI)
  moreover have "of_nat (unat b) = b" by simp
  ultimately show ?thesis by (simp only: all_bytes_def set_map)
qed

lemma all_bytes_table:
  "all_bytes =
    [0x00, 0x01, 0x02, 0x03, 0x04, 0x05, 0x06, 0x07, 0x08, 0x09, 0x0A, 0x0B, 0x0C, 0x0D, 0x0E, 0x0F,
     0x10, 0x11, 0x12, 0x13, 0x14, 0x15, 0x16, 0x17, 0x18, 0x19, 0x1A, 0x1B, 0x1C, 0x1D, 0x1E, 0x1F,
     0x20, 0x21, 0x22, 0x23, 0x24, 0x25, 0x26, 0x27, 0x28, 0x29, 0x2A, 0x2B, 0x2C, 0x2D, 0x2E, 0x2F,
     0x30, 0x31, 0x32, 0x33, 0x34, 0x35, 0x36, 0x37, 0x38, 0x39, 0x3A, 0x3B, 0x3C, 0x3D, 0x3E, 0x3F,
     0x40, 0x41, 0x42, 0x43, 0x44, 0x45, 0x46, 0x47, 0x48, 0x49, 0x4A, 0x4B, 0x4C, 0x4D, 0x4E, 0x4F,
     0x50, 0x51, 0x52, 0x53, 0x54, 0x55, 0x56, 0x57, 0x58, 0x59, 0x5A, 0x5B, 0x5C, 0x5D, 0x5E, 0x5F,
     0x60, 0x61, 0x62, 0x63, 0x64, 0x65, 0x66, 0x67, 0x68, 0x69, 0x6A, 0x6B, 0x6C, 0x6D, 0x6E, 0x6F,
     0x70, 0x71, 0x72, 0x73, 0x74, 0x75, 0x76, 0x77, 0x78, 0x79, 0x7A, 0x7B, 0x7C, 0x7D, 0x7E, 0x7F,
     0x80, 0x81, 0x82, 0x83, 0x84, 0x85, 0x86, 0x87, 0x88, 0x89, 0x8A, 0x8B, 0x8C, 0x8D, 0x8E, 0x8F,
     0x90, 0x91, 0x92, 0x93, 0x94, 0x95, 0x96, 0x97, 0x98, 0x99, 0x9A, 0x9B, 0x9C, 0x9D, 0x9E, 0x9F,
     0xA0, 0xA1, 0xA2, 0xA3, 0xA4, 0xA5, 0xA6, 0xA7, 0xA8, 0xA9, 0xAA, 0xAB, 0xAC, 0xAD, 0xAE, 0xAF,
     0xB0, 0xB1, 0xB2, 0xB3, 0xB4, 0xB5, 0xB6, 0xB7, 0xB8, 0xB9, 0xBA, 0xBB, 0xBC, 0xBD, 0xBE, 0xBF,
     0xC0, 0xC1, 0xC2, 0xC3, 0xC4, 0xC5, 0xC6, 0xC7, 0xC8, 0xC9, 0xCA, 0xCB, 0xCC, 0xCD, 0xCE, 0xCF,
     0xD0, 0xD1, 0xD2, 0xD3, 0xD4, 0xD5, 0xD6, 0xD7, 0xD8, 0xD9, 0xDA, 0xDB, 0xDC, 0xDD, 0xDE, 0xDF,
     0xE0, 0xE1, 0xE2, 0xE3, 0xE4, 0xE5, 0xE6, 0xE7, 0xE8, 0xE9, 0xEA, 0xEB, 0xEC, 0xED, 0xEE, 0xEF,
     0xF0, 0xF1, 0xF2, 0xF3, 0xF4, 0xF5, 0xF6, 0xF7, 0xF8, 0xF9, 0xFA, 0xFB, 0xFC, 0xFD, 0xFE, 0xFF]"
  by (simp add: all_bytes_def upt_rec)

lemma byte_cases_list: "list_all P all_bytes \<Longrightarrow> P b"
  using in_all_bytes [of b] by (simp add: list_all_iff)

subsection \<open>Words\<close>

lemma xor_cancel_left: "a XOR b = a XOR c \<longleftrightarrow> b = (c :: 'a :: len word)"
  by (metis xor.left_commute xor_self_eq xor.right_neutral)

lemma xor_cancel_right: "b XOR a = c XOR a \<longleftrightarrow> b = (c :: 'a :: len word)"
  by (metis xor.commute xor_cancel_left)

subsection \<open>Operations with state and errors\<close>

text \<open>
  A Go function that changes state and returns a value or an error: from a state to the
  outcome and the state after it.  The state an error leaves behind is kept.
\<close>

type_synonym ('s, 'e, 'a) act = "'s \<Rightarrow> ('e + 'a) \<times> 's"

definition ret :: "'a \<Rightarrow> ('s, 'e, 'a) act" where
  "ret x = (\<lambda>s. (Inr x, s))"

definition throw :: "'e \<Rightarrow> ('s, 'e, 'a) act" where
  "throw e = (\<lambda>s. (Inl e, s))"

text \<open>\<open>andThen m f\<close>: run \<open>m\<close>; on an error return it, otherwise go on with \<open>f\<close>.\<close>

definition andThen :: "('s, 'e, 'a) act \<Rightarrow> ('a \<Rightarrow> ('s, 'e, 'b) act) \<Rightarrow> ('s, 'e, 'b) act" where
  "andThen m f = (\<lambda>s. case m s of (Inl e, s1) \<Rightarrow> (Inl e, s1) | (Inr x, s1) \<Rightarrow> f x s1)"

text \<open>A loop over a list whose body may fail.\<close>

fun forEach :: "('b \<Rightarrow> ('s, 'e, unit) act) \<Rightarrow> 'b list \<Rightarrow> ('s, 'e, unit) act" where
  "forEach f [] = ret ()"
| "forEach f (x # xs) = andThen (f x) (\<lambda>_. forEach f xs)"

text \<open>
  \<open>attempt m\<close> gives the outcome of \<open>m\<close>, error or value, to the code that examines it;
  \<open>always m f\<close> is a deferred call: \<open>f\<close> runs after \<open>m\<close> whatever its outcome, which stays.
\<close>

definition attempt :: "('s, 'e, 'a) act \<Rightarrow> ('s, 'e, 'e + 'a) act" where
  "attempt m = (\<lambda>s. case m s of (x, s1) \<Rightarrow> (Inr x, s1))"

definition always :: "('s, 'e, 'a) act \<Rightarrow> ('s, 'e, unit) act \<Rightarrow> ('s, 'e, 'a) act" where
  "always m f = (\<lambda>s. case m s of (x, s1) \<Rightarrow> (x, snd (f s1)))"

text \<open>An outcome that is already known.\<close>

definition outcome :: "'e + 'a \<Rightarrow> ('s, 'e, 'a) act" where
  "outcome x = (\<lambda>s. (x, s))"

text \<open>A part of the state, as the code that looks at it sees it.\<close>

definition asks :: "('s \<Rightarrow> 'a) \<Rightarrow> ('s, 'e, 'a) act" where
  "asks f = (\<lambda>s. (Inr (f s), s))"

lemma andThen_Inr:
  assumes "andThen m f s = (Inr y, s')"
  obtains x s1 where "m s = (Inr x, s1)" "f x s1 = (Inr y, s')"
  using assms by (auto simp: andThen_def split: prod.splits sum.splits)

lemma andThen_step: "m s = (Inr x, s') \<Longrightarrow> andThen m f s = f x s'"
  by (simp add: andThen_def)

lemma andThen_stop: "m s = (Inl e, s') \<Longrightarrow> andThen m f s = (Inl e, s')"
  by (simp add: andThen_def)

lemma andThen_ret [simp]: "andThen (ret x) f = f x"
  by (simp add: andThen_def ret_def)

lemma ret_Inr [simp]: "ret x s = (Inr y, s') \<longleftrightarrow> y = x \<and> s' = s"
  by (auto simp: ret_def)

lemma throw_Inr [simp]: "throw e s \<noteq> (Inr y, s')"
  by (simp add: throw_def)

subsection \<open>What an operation preserves\<close>

text \<open>
  \<open>keeps rel m\<close>: whatever the outcome of \<open>m\<close>, the state before and the state after are
  related by \<open>rel\<close>.  For a preorder the operations that keep it compose.
\<close>

definition keeps :: "('s \<Rightarrow> 's \<Rightarrow> bool) \<Rightarrow> ('s, 'e, 'a) act \<Rightarrow> bool" where
  "keeps rel m \<longleftrightarrow> (\<forall>s. rel s (snd (m s)))"

locale preserved =
  fixes rel :: "'s \<Rightarrow> 's \<Rightarrow> bool"
  assumes refl: "rel s s"
    and trans: "rel s t \<Longrightarrow> rel t u \<Longrightarrow> rel s u"
begin

lemma keepsD: "keeps rel m \<Longrightarrow> m s = (x, s') \<Longrightarrow> rel s s'"
  unfolding keeps_def by (metis snd_conv)

lemma keepsI: "(\<And>s x s'. m s = (x, s') \<Longrightarrow> rel s s') \<Longrightarrow> keeps rel m"
  unfolding keeps_def by (metis prod.collapse)

lemma keeps_ret: "keeps rel (ret x)"
  by (simp add: keeps_def ret_def refl)

lemma keeps_throw: "keeps rel (throw e)"
  by (simp add: keeps_def throw_def refl)

lemma keeps_andThen: "keeps rel m \<Longrightarrow> (\<And>x. keeps rel (f x)) \<Longrightarrow> keeps rel (andThen m f)"
  unfolding keeps_def andThen_def
  by (simp split: prod.splits sum.splits) (metis trans snd_conv)

lemma keeps_if: "(b \<Longrightarrow> keeps rel m) \<Longrightarrow> (\<not> b \<Longrightarrow> keeps rel n) \<Longrightarrow> keeps rel (if b then m else n)"
  by simp

lemma keeps_attempt: "keeps rel m \<Longrightarrow> keeps rel (attempt m)"
  by (simp add: keeps_def attempt_def split: prod.splits) (metis snd_conv)

lemma keeps_always: "keeps rel m \<Longrightarrow> keeps rel f \<Longrightarrow> keeps rel (always m f)"
  by (simp add: keeps_def always_def split: prod.splits) (metis trans snd_conv)

lemma keeps_outcome: "keeps rel (outcome x)"
  by (simp add: keeps_def outcome_def refl)

lemma keeps_asks: "keeps rel (asks f)"
  by (simp add: keeps_def asks_def refl)

lemma keeps_forEach: "(\<And>x. keeps rel (f x)) \<Longrightarrow> keeps rel (forEach f xs)"
  by (induction xs) (auto intro!: keeps_ret keeps_andThen)

end

subsection \<open>Pre- and postconditions\<close>

text \<open>
  \<open>spec P m E Q\<close>: from a state with \<open>P\<close>, \<open>m\<close> ends in a state with \<open>E\<close> when it fails and with \<open>Q x\<close>
  when it returns \<open>x\<close>.
\<close>

definition spec :: "('s \<Rightarrow> bool) \<Rightarrow> ('s, 'e, 'a) act \<Rightarrow> ('s \<Rightarrow> bool) \<Rightarrow> ('a \<Rightarrow> 's \<Rightarrow> bool) \<Rightarrow> bool" where
  "spec P m E Q \<longleftrightarrow> (\<forall>s. P s \<longrightarrow> (case m s of (Inl _, s') \<Rightarrow> E s' | (Inr x, s') \<Rightarrow> Q x s'))"

lemma specI:
  "(\<And>s e s'. P s \<Longrightarrow> m s = (Inl e, s') \<Longrightarrow> E s') \<Longrightarrow> (\<And>s x s'. P s \<Longrightarrow> m s = (Inr x, s') \<Longrightarrow> Q x s') \<Longrightarrow> spec P m E Q"
  by (auto simp: spec_def split: prod.split sum.split)

lemma specD: "spec P m E Q \<Longrightarrow> P s \<Longrightarrow> m s = (Inr x, s') \<Longrightarrow> Q x s'"
  by (auto simp: spec_def)

lemma specE: "spec P m E Q \<Longrightarrow> P s \<Longrightarrow> m s = (Inl e, s') \<Longrightarrow> E s'"
  by (auto simp: spec_def)

lemma spec_ret: "(\<And>s. P s \<Longrightarrow> Q x s) \<Longrightarrow> spec P (ret x) E Q"
  by (simp add: spec_def ret_def)

lemma spec_throw: "(\<And>s. P s \<Longrightarrow> E s) \<Longrightarrow> spec P (throw e) E Q"
  by (simp add: spec_def throw_def)

lemma spec_andThen: "spec P m E Q \<Longrightarrow> (\<And>x. spec (Q x) (f x) E Q') \<Longrightarrow> spec P (andThen m f) E Q'"
  by (fastforce simp: spec_def andThen_def split: prod.splits sum.splits)

lemma spec_attempt: "spec P m (\<lambda>s. \<forall>e. Q (Inl e) s) (\<lambda>x. Q (Inr x)) \<Longrightarrow> spec P (attempt m) E Q"
  unfolding spec_def attempt_def
proof (intro allI impI)
  fix s
  assume "\<forall>s. P s \<longrightarrow> (case m s of (Inl _, s') \<Rightarrow> \<forall>e. Q (Inl e) s' | (Inr x, s') \<Rightarrow> Q (Inr x) s')" "P s"
  then show "case case m s of (x, s1) \<Rightarrow> (Inr x, s1) of (Inl _, s') \<Rightarrow> E s' | (Inr x, s') \<Rightarrow> Q x s'"
    by (cases "m s"; cases "fst (m s)") auto
qed

lemma spec_outcome:
  "(\<And>e s. x = Inl e \<Longrightarrow> P s \<Longrightarrow> E s) \<Longrightarrow> (\<And>y s. x = Inr y \<Longrightarrow> P s \<Longrightarrow> Q y s) \<Longrightarrow> spec P (outcome x) E Q"
  by (auto simp: spec_def outcome_def split: sum.split)

lemma spec_always:
  "spec P m E' Q' \<Longrightarrow> spec E' f E (\<lambda>_. E) \<Longrightarrow> (\<And>x. spec (Q' x) f (Q x) (\<lambda>_. Q x)) \<Longrightarrow> spec P (always m f) E Q"
proof (rule specI)
  fix s e s'
  assume m: "spec P m E' Q'" and f: "spec E' f E (\<lambda>_. E)" and s: "P s" "always m f s = (Inl e, s')"
  then obtain s1 where s1: "m s = (Inl e, s1)" "s' = snd (f s1)"
    by (cases "m s") (auto simp: always_def)
  with specE [OF m s(1)] have "E' s1" by simp
  with f s1 show "E s'" by (cases "f s1"; cases "fst (f s1)") (auto dest: specD specE)
next
  fix s x s'
  assume m: "spec P m E' Q'" and f: "\<And>x. spec (Q' x) f (Q x) (\<lambda>_. Q x)" and s: "P s" "always m f s = (Inr x, s')"
  then obtain s1 where s1: "m s = (Inr x, s1)" "s' = snd (f s1)"
    by (cases "m s") (auto simp: always_def)
  with specD [OF m s(1)] have "Q' x s1" by simp
  with f [of x] s1 show "Q x s'" by (cases "f s1"; cases "fst (f s1)") (auto dest: specD specE)
qed

lemma spec_if: "(b \<Longrightarrow> spec P m E Q) \<Longrightarrow> (\<not> b \<Longrightarrow> spec P n E Q) \<Longrightarrow> spec P (if b then m else n) E Q"
  by simp

lemma spec_weaken:
  "spec P m E Q \<Longrightarrow> (\<And>s. P' s \<Longrightarrow> P s) \<Longrightarrow> (\<And>s. E s \<Longrightarrow> E' s) \<Longrightarrow> (\<And>x s. Q x s \<Longrightarrow> Q' x s) \<Longrightarrow> spec P' m E' Q'"
  by (fastforce simp: spec_def split: prod.splits sum.splits)

lemma spec_conj:
  "spec P m E Q \<Longrightarrow> spec P' m E' Q' \<Longrightarrow> spec (\<lambda>s. P s \<and> P' s) m (\<lambda>s. E s \<and> E' s) (\<lambda>x s. Q x s \<and> Q' x s)"
  by (fastforce simp: spec_def split: prod.splits sum.splits)

lemma spec_False: "(\<And>s. \<not> P s) \<Longrightarrow> spec P m E Q"
  by (simp add: spec_def)

end
