(* ===== verification/GoEncoding.thy ===== *)
theory GoEncoding
  imports Prelude
begin

text \<open>
  The parts of Go's standard library that turn numbers into bytes and back, as the code
  uses them: \<open>encoding/hex\<close>, \<open>encoding/binary\<close> (little endian 32 bit, big endian 16
  bit) and \<open>hash/crc32\<close> with the IEEE polynomial.
\<close>

subsection \<open>encoding/hex\<close>

definition hex_digit :: "byte \<Rightarrow> byte" where
  "hex_digit n = (if n < 10 then 0x30 + n else 0x57 + n)"

fun hex_encode :: "byte list \<Rightarrow> byte list" where
  "hex_encode [] = []"
| "hex_encode (b # bs) = hex_digit (drop_bit 4 b) # hex_digit (b AND 15) # hex_encode bs"

definition hex_value :: "byte \<Rightarrow> byte option" where
  "hex_value c =
     (if 0x30 \<le> c \<and> c \<le> 0x39 then Some (c - 0x30)
      else if 0x61 \<le> c \<and> c \<le> 0x66 then Some (c - 0x57)
      else if 0x41 \<le> c \<and> c \<le> 0x46 then Some (c - 0x37)
      else None)"

text \<open>\<open>None\<close> is Go's InvalidByteError or ErrLength; no caller distinguishes them.\<close>

fun hex_decode :: "byte list \<Rightarrow> byte list option" where
  "hex_decode [] = Some []"
| "hex_decode [_] = None"
| "hex_decode (h # l # cs) =
     (case (hex_value h, hex_value l, hex_decode cs) of
        (Some a, Some b, Some bs) \<Rightarrow> Some ((push_bit 4 a OR b) # bs)
      | _ \<Rightarrow> None)"

lemma hex_value_digit: "n < 16 \<Longrightarrow> hex_value (hex_digit n) = Some n"
proof -
  have "list_all (\<lambda>n. n < 16 \<longrightarrow> hex_value (hex_digit n) = Some n) all_bytes"
    by (simp add: all_bytes_table hex_value_def hex_digit_def)
  then show "n < 16 \<Longrightarrow> hex_value (hex_digit n) = Some n"
    using byte_cases_list [of "\<lambda>n. n < 16 \<longrightarrow> hex_value (hex_digit n) = Some n"] by blast
qed

lemma nibbles: "drop_bit 4 b < (16 :: byte) \<and> b AND 15 < (16 :: byte) \<and> push_bit 4 (drop_bit 4 b) OR (b AND 15) = (b :: byte)"
proof -
  have "list_all (\<lambda>b. drop_bit 4 b < (16 :: byte) \<and> b AND 15 < (16 :: byte)
      \<and> push_bit 4 (drop_bit 4 b) OR (b AND 15) = (b :: byte)) all_bytes"
    by (simp add: all_bytes_table)
  then show ?thesis by (rule byte_cases_list)
qed

lemma hex_decode_encode [simp]: "hex_decode (hex_encode bs) = Some bs"
  by (induction bs) (simp_all add: hex_value_digit nibbles)

lemma length_hex_encode [simp]: "length (hex_encode bs) = 2 * length bs"
  by (induction bs) simp_all

lemma hex_decode_length: "hex_decode cs = Some bs \<Longrightarrow> length cs = 2 * length bs"
  by (induction cs arbitrary: bs rule: hex_decode.induct) (auto split: option.splits)

lemma hex_encode_inject: "hex_encode a = hex_encode b \<longleftrightarrow> a = b"
  by (metis hex_decode_encode option.inject)

subsection \<open>encoding/binary\<close>

type_synonym quad = "byte \<times> byte \<times> byte \<times> byte"

definition le_put32 :: "32 word \<Rightarrow> quad" where
  "le_put32 w = (ucast w, ucast (drop_bit 8 w), ucast (drop_bit 16 w), ucast (drop_bit 24 w))"

fun le_get32 :: "quad \<Rightarrow> 32 word" where
  "le_get32 (a, b, c, d) =
     ucast a OR push_bit 8 (ucast b) OR push_bit 16 (ucast c) OR push_bit 24 (ucast d)"

definition be_put16 :: "16 word \<Rightarrow> byte list" where
  "be_put16 w = [ucast (drop_bit 8 w), ucast w]"

definition be_get16 :: "byte \<Rightarrow> byte \<Rightarrow> 16 word" where
  "be_get16 a b = push_bit 8 (ucast a) OR ucast b"

fun quad_list :: "quad \<Rightarrow> byte list" where
  "quad_list (a, b, c, d) = [a, b, c, d]"

lemma length_quad_list [simp]: "length (quad_list q) = 4"
  by (cases q) simp

lemma length_be_put16 [simp]: "length (be_put16 w) = 2"
  by (simp add: be_put16_def)

lemma le_get_put32 [simp]: "le_get32 (le_put32 w) = w"
proof (rule bit_word_eqI)
  fix n assume "n < LENGTH(32)"
  then show "bit (le_get32 (le_put32 w)) n = bit w n"
    by (cases "n < 8"; cases "n < 16"; cases "n < 24")
      (auto simp: le_put32_def bit_simps not_le not_less)
qed

lemma be_get_put16 [simp]: "be_get16 (ucast (drop_bit 8 w)) (ucast w) = w"
proof (rule bit_word_eqI)
  fix n assume "n < LENGTH(16)"
  then show "bit (be_get16 (ucast (drop_bit 8 w)) (ucast w)) n = bit w n"
    by (auto simp: be_get16_def bit_simps not_le not_less)
qed

lemma le_put32_inject [simp]: "le_put32 v = le_put32 w \<longleftrightarrow> v = w"
  by (metis le_get_put32)

declare le_get32.simps [simp del]

subsection \<open>hash/crc32, IEEE\<close>

definition crc32_step :: "32 word \<Rightarrow> 32 word" where
  "crc32_step crc =
     (if crc AND 1 \<noteq> 0 then drop_bit 1 crc XOR 0xEDB88320 else drop_bit 1 crc)"

definition crc32_byte :: "32 word \<Rightarrow> byte \<Rightarrow> 32 word" where
  "crc32_byte crc v = (crc32_step ^^ 8) (crc XOR ucast v)"

definition crc32_IEEE :: "byte list \<Rightarrow> 32 word" where
  "crc32_IEEE bs = NOT (foldl crc32_byte (NOT 0) bs)"

end
