(* ===== verification/ZmodemCodec.thy ===== *)
theory ZmodemCodec
  imports GoEncoding
begin

text \<open>
  \<open>internal/transfer/zmodem/codec.go\<close>: the ZMODEM wire format.

  A reader is the list of bytes still to come and the error that the stream delivers
  once they are used up (\<open>EOF\<close> for a closed peer, any other error for a broken or
  cancelled transport).  Every reading function takes both and returns a value or an
  error together with the bytes it has left unread, on the error paths too, because
  the receiver goes on reading after a damaged data packet.  The writing functions are
  given by the bytes they hand to the writer.
\<close>

subsection \<open>Frame types and constants\<close>

abbreviation "ZRQINIT \<equiv> (0 :: byte)"
abbreviation "ZRINIT \<equiv> (1 :: byte)"
abbreviation "ZSINIT \<equiv> (2 :: byte)"
abbreviation "ZACK \<equiv> (3 :: byte)"
abbreviation "ZFILE \<equiv> (4 :: byte)"
abbreviation "ZSKIP \<equiv> (5 :: byte)"
abbreviation "ZNAK \<equiv> (6 :: byte)"
abbreviation "ZABORT \<equiv> (7 :: byte)"
abbreviation "ZFIN \<equiv> (8 :: byte)"
abbreviation "ZRPOS \<equiv> (9 :: byte)"
abbreviation "ZDATA \<equiv> (10 :: byte)"
abbreviation "ZEOF \<equiv> (11 :: byte)"
abbreviation "ZFERR \<equiv> (12 :: byte)"
abbreviation "ZCRC \<equiv> (13 :: byte)"

abbreviation "zdle \<equiv> (0x18 :: byte)"
abbreviation "ZCRCE \<equiv> (0x68 :: byte)"
abbreviation "ZCRCG \<equiv> (0x69 :: byte)"
abbreviation "ZCRCQ \<equiv> (0x6A :: byte)"
abbreviation "ZCRCW \<equiv> (0x6B :: byte)"

text \<open>The characters the code writes as Go rune literals.\<close>

abbreviation "star \<equiv> (0x2A :: byte)"
abbreviation "XON \<equiv> (0x11 :: byte)"
abbreviation "XOFF \<equiv> (0x13 :: byte)"
abbreviation "kindA \<equiv> (0x41 :: byte)"
abbreviation "kindB \<equiv> (0x42 :: byte)"
abbreviation "kindC \<equiv> (0x43 :: byte)"
abbreviation "CR \<equiv> (0x0D :: byte)"
abbreviation "LF \<equiv> (0x0A :: byte)"
abbreviation "ell \<equiv> (0x6C :: byte)"
abbreviation "emm \<equiv> (0x6D :: byte)"

record header =
  hType :: byte
  hData :: quad
  hCRC32 :: bool

definition hPosition :: "header \<Rightarrow> 32 word" where
  "hPosition h = le_get32 (hData h)"

definition Position :: "byte \<Rightarrow> 32 word \<Rightarrow> header" where
  "Position kind pos = \<lparr>hType = kind, hData = le_put32 pos, hCRC32 = False\<rparr>"

text \<open>
  The errors of the protocol engine in \<open>transfer.go\<close>, in the order of the source, and
  those of a codec call: the first four come from the transport, the file system and
  the context.
\<close>

datatype transfer_error =
    ExpectedZRINIT byte
  | ZFINHandshakeFailed
  | NotRegularOrTooLarge
  | InvalidCRCRange
  | InvalidResumeOffset
  | IncorrectAck
  | InvalidRestartOffset
  | TooManyRetries
  | UnexpectedAck byte
  | ExpectedNextFile byte
  | ExpectedZRQINIT byte
  | UnsafeFileName
  | MissingFileSize
  | InvalidFileSize
  | IncompatibleDestination
  | PrefixDiffers
  | DataWithoutFile
  | UnexpectedDataPosition
  | DataExceedsSize
  | IncompleteFile
  | EndedBeforeCompletion
  | MissingFinalOO
  | RemoteAborted
  | UnexpectedHeader byte
  | UnexpectedResumeResponse byte
  | MetadataChanged
  | TooManyRepeatedHeaders

datatype zerr =
    EOF
  | UnexpectedEOF
  | IOError nat
  | ContextError
  | TransferCancelled
  | InvalidZDLEEscape byte
  | InvalidHex
  | HeaderCRC32Mismatch
  | HeaderCRC16Mismatch
  | HeaderNotFound
  | DataCRC32Mismatch
  | DataCRC16Mismatch
  | InvalidDataEscape
  | DataTooLarge
  | Protocol transfer_error

subsection \<open>Checksums\<close>

definition crc16_step :: "16 word \<Rightarrow> 16 word" where
  "crc16_step crc =
     (if crc AND 0x8000 \<noteq> 0 then push_bit 1 crc XOR 0x1021 else push_bit 1 crc)"

definition CRC16 :: "byte list \<Rightarrow> 16 word" where
  "CRC16 b = foldl (\<lambda>crc v. (crc16_step ^^ 8) (crc XOR push_bit 8 (ucast v))) 0 b"

subsection \<open>Writing\<close>

definition header_bytes :: "header \<Rightarrow> byte list" where
  "header_bytes h =
     (let raw = hType h # quad_list (hData h);
          crc = CRC16 raw
      in [star, star, zdle, kindB]
         @ hex_encode (raw @ [ucast (drop_bit 8 crc), ucast crc])
         @ [CR, LF]
         @ (if hType h \<noteq> ZFIN \<and> hType h \<noteq> ZACK then [XON] else []))"

definition escape_byte :: "byte \<Rightarrow> byte list" where
  "escape_byte v =
     (if v = 0x7F then [zdle, ell]
      else if v = 0xFF then [zdle, emm]
      else if v AND 0x60 = 0 then [zdle, v XOR 0x40]
      else [v])"

fun escape :: "byte list \<Rightarrow> byte list" where
  "escape [] = []"
| "escape (v # b) = escape_byte v @ escape b"

definition checksum :: "bool \<Rightarrow> byte list \<Rightarrow> byte list" where
  "checksum useCRC32 checked =
     (if useCRC32 then quad_list (le_put32 (crc32_IEEE checked))
      else be_put16 (CRC16 checked))"

definition data_bytes :: "byte list \<Rightarrow> byte \<Rightarrow> bool \<Rightarrow> byte list" where
  "data_bytes data fin useCRC32 =
     escape data @ [zdle, fin] @ escape (checksum useCRC32 (data @ [fin]))
     @ (if fin = ZCRCW then [XON] else [])"

definition cancel_bytes :: "byte list" where
  "cancel_bytes = [zdle, zdle, zdle, zdle, zdle, zdle, zdle, zdle, 8, 8, 8, 8, 8, 8, 8, 8]"

subsection \<open>Reading bytes\<close>

text \<open>\<open>Codec.raw\<close> skips the flow-control bytes.\<close>

fun raw :: "zerr \<Rightarrow> byte list \<Rightarrow> (zerr + byte) \<times> byte list" where
  "raw e [] = (Inl e, [])"
| "raw e (b # bs) = (if b \<noteq> XON \<and> b \<noteq> XOFF then (Inr b, bs) else raw e bs)"

definition escaped :: "zerr \<Rightarrow> byte list \<Rightarrow> (zerr + byte) \<times> byte list" where
  "escaped e bs =
     (case raw e bs of
        (Inl x, r) \<Rightarrow> (Inl x, r)
      | (Inr b, r) \<Rightarrow>
          if b \<noteq> zdle then (Inr b, r)
          else (case raw e r of
                  (Inl x, r1) \<Rightarrow> (Inl x, r1)
                | (Inr v, r1) \<Rightarrow>
                    if v = ell then (Inr 0x7F, r1)
                    else if v = emm then (Inr 0xFF, r1)
                    else if v = zdle then (Inl TransferCancelled, r1)
                    else if v AND 0x60 = 0x40 then (Inr (v XOR 0x40), r1)
                    else (Inl (InvalidZDLEEscape v), r1)))"

text \<open>The loops that fill a buffer of a fixed size with \<open>escaped\<close> bytes.\<close>

fun escaped_n :: "zerr \<Rightarrow> nat \<Rightarrow> byte list \<Rightarrow> (zerr + byte list) \<times> byte list" where
  "escaped_n e 0 bs = (Inr [], bs)"
| "escaped_n e (Suc n) bs =
     (case escaped e bs of
        (Inl x, r) \<Rightarrow> (Inl x, r)
      | (Inr b, r) \<Rightarrow>
          (case escaped_n e n r of
             (Inl x, r1) \<Rightarrow> (Inl x, r1)
           | (Inr cs, r1) \<Rightarrow> (Inr (b # cs), r1)))"

text \<open>\<open>io.ReadFull\<close>: \<open>EOF\<close> in the middle of the buffer is \<open>UnexpectedEOF\<close>.\<close>

definition read_full :: "zerr \<Rightarrow> nat \<Rightarrow> byte list \<Rightarrow> (zerr + byte list) \<times> byte list" where
  "read_full e n bs =
     (if n \<le> length bs then (Inr (take n bs), drop n bs)
      else (Inl (if e = EOF \<and> bs \<noteq> [] then UnexpectedEOF else e), []))"

lemma raw_decreases: "raw e bs = (Inr b, r) \<Longrightarrow> length r < length bs"
  by (induction e bs rule: raw.induct) (auto split: if_splits)

lemma raw_decreases_rev: "(Inr b, r) = raw e bs \<Longrightarrow> length r < length bs"
  by (rule raw_decreases) (rule sym)

lemma raw_length_le: "raw e bs = (x, r) \<Longrightarrow> length r \<le> length bs"
  by (induction e bs rule: raw.induct) (auto split: if_splits)

lemma raw_error: "raw e bs = (Inl x, r) \<Longrightarrow> x = e \<and> r = []"
  by (induction e bs rule: raw.induct) (auto split: if_splits)

declare raw.simps(2) [simp del]

subsection \<open>ReadHeader\<close>

text \<open>\<open>for { b = raw(); if b != '*' { break } }\<close>\<close>

function skip_stars :: "zerr \<Rightarrow> byte list \<Rightarrow> (zerr + byte) \<times> byte list" where
  "skip_stars e bs =
     (case raw e bs of
        (Inl x, r) \<Rightarrow> (Inl x, r)
      | (Inr b, r) \<Rightarrow> if b \<noteq> star then (Inr b, r) else skip_stars e r)"
  by pat_completeness auto
termination
  by (relation "measure (\<lambda>(e, bs). length bs)") (auto dest: raw_decreases_rev)

declare skip_stars.simps [simp del]

text \<open>The checks on the decoded bytes of a header: five bytes and their checksum.\<close>

definition check_header :: "bool \<Rightarrow> byte list \<Rightarrow> zerr + header" where
  "check_header crc32 rw =
     (if crc32
      then (if crc32_IEEE (take 5 rw) \<noteq> le_get32 (rw ! 5, rw ! 6, rw ! 7, rw ! 8)
            then Inl HeaderCRC32Mismatch
            else Inr \<lparr>hType = rw ! 0, hData = (rw ! 1, rw ! 2, rw ! 3, rw ! 4), hCRC32 = True\<rparr>)
      else (if CRC16 (take 5 rw) \<noteq> be_get16 (rw ! 5) (rw ! 6)
            then Inl HeaderCRC16Mismatch
            else Inr \<lparr>hType = rw ! 0, hData = (rw ! 1, rw ! 2, rw ! 3, rw ! 4), hCRC32 = False\<rparr>))"

text \<open>After a hex header: a carriage return and a line feed, each of them optional.\<close>

definition hex_trailer :: "zerr \<Rightarrow> byte list \<Rightarrow> (zerr + unit) \<times> byte list" where
  "hex_trailer e bs =
     (case bs of
        [] \<Rightarrow> (Inl e, [])
      | b # r \<Rightarrow>
          if b = CR
          then (case r of
                  [] \<Rightarrow> (Inl e, [])
                | b1 # r1 \<Rightarrow> (Inr (), if b1 AND 0x7F \<noteq> LF then r else r1))
          else (Inr (), bs))"

definition hex_header :: "zerr \<Rightarrow> byte list \<Rightarrow> (zerr + header) \<times> byte list" where
  "hex_header e bs =
     (case read_full e 14 bs of
        (Inl x, r) \<Rightarrow> (Inl x, r)
      | (Inr encoded, r) \<Rightarrow>
          (case hex_decode encoded of
             None \<Rightarrow> (Inl InvalidHex, r)
           | Some rw \<Rightarrow>
               (case check_header False rw of
                  Inl x \<Rightarrow> (Inl x, r)
                | Inr h \<Rightarrow>
                    (case hex_trailer e r of
                       (Inl x, r1) \<Rightarrow> (Inl x, r1)
                     | (Inr _, r1) \<Rightarrow> (Inr h, r1)))))"

definition bin_header :: "zerr \<Rightarrow> byte \<Rightarrow> byte list \<Rightarrow> (zerr + header) \<times> byte list" where
  "bin_header e kind bs =
     (case escaped_n e (if kind = kindC then 9 else 7) bs of
        (Inl x, r) \<Rightarrow> (Inl x, r)
      | (Inr rw, r) \<Rightarrow> (check_header (kind = kindC) rw, r))"

text \<open>
  One pass of the outer loop: \<open>None\<close> is \<open>continue\<close>, \<open>Some\<close> is \<open>return\<close>.
\<close>

definition header_attempt :: "zerr \<Rightarrow> byte list \<Rightarrow> (zerr + header) option \<times> byte list" where
  "header_attempt e bs =
     (case raw e bs of
        (Inl x, r) \<Rightarrow> (Some (Inl x), r)
      | (Inr b, r) \<Rightarrow>
          if b = zdle \<and> take 4 r = [zdle, zdle, zdle, zdle] then (Some (Inl TransferCancelled), r)
          else if b \<noteq> star then (None, r)
          else (case skip_stars e r of
                  (Inl x, r1) \<Rightarrow> (Some (Inl x), r1)
                | (Inr b1, r1) \<Rightarrow>
                    if b1 \<noteq> zdle then (None, r1)
                    else (case raw e r1 of
                            (Inl x, r2) \<Rightarrow> (Some (Inl x), r2)
                          | (Inr kind, r2) \<Rightarrow>
                              if kind = kindB
                              then (case hex_header e r2 of (x, r3) \<Rightarrow> (Some x, r3))
                              else if kind = kindA \<or> kind = kindC
                              then (case bin_header e kind r2 of (x, r3) \<Rightarrow> (Some x, r3))
                              else (None, r2))))"

text \<open>\<open>left\<close> counts the passes that remain of \<open>skipped < 65536\<close>.\<close>

fun read_header_loop :: "nat \<Rightarrow> zerr \<Rightarrow> byte list \<Rightarrow> (zerr + header) \<times> byte list" where
  "read_header_loop left e bs =
     (if left = 0 then (Inl HeaderNotFound, bs)
      else (case header_attempt e bs of
              (None, r) \<Rightarrow> read_header_loop (left - 1) e r
            | (Some x, r) \<Rightarrow> (x, r)))"

declare read_header_loop.simps [simp del]

definition read_header :: "zerr \<Rightarrow> byte list \<Rightarrow> (zerr + header) \<times> byte list" where
  "read_header e bs = read_header_loop 65536 e bs"

subsection \<open>ReadData\<close>

definition finish_data ::
    "zerr \<Rightarrow> bool \<Rightarrow> byte list \<Rightarrow> byte \<Rightarrow> byte list \<Rightarrow> (zerr + byte list \<times> byte) \<times> byte list" where
  "finish_data e useCRC32 data v bs =
     (case escaped_n e (if useCRC32 then 4 else 2) bs of
        (Inl x, r) \<Rightarrow> (Inl x, r)
      | (Inr check, r) \<Rightarrow>
          (let checked = data @ [v]
           in if useCRC32
              then (if crc32_IEEE checked \<noteq> le_get32 (check ! 0, check ! 1, check ! 2, check ! 3)
                    then (Inl DataCRC32Mismatch, r) else (Inr (data, v), r))
              else (if CRC16 checked \<noteq> be_get16 (check ! 0) (check ! 1)
                    then (Inl DataCRC16Mismatch, r) else (Inr (data, v), r))))"

function read_data_loop ::
    "zerr \<Rightarrow> bool \<Rightarrow> byte list \<Rightarrow> byte list \<Rightarrow> (zerr + byte list \<times> byte) \<times> byte list" where
  "read_data_loop e useCRC32 data bs =
     (if length data \<le> 1024 * 1024
      then (case raw e bs of
              (Inl x, r) \<Rightarrow> (Inl x, r)
            | (Inr b, r) \<Rightarrow>
                if b \<noteq> zdle then read_data_loop e useCRC32 (data @ [b]) r
                else (case raw e r of
                        (Inl x, r1) \<Rightarrow> (Inl x, r1)
                      | (Inr v, r1) \<Rightarrow>
                          if ZCRCE \<le> v \<and> v \<le> ZCRCW then finish_data e useCRC32 data v r1
                          else if v = ell then read_data_loop e useCRC32 (data @ [0x7F]) r1
                          else if v = emm then read_data_loop e useCRC32 (data @ [0xFF]) r1
                          else if v = zdle then (Inl TransferCancelled, r1)
                          else if v AND 0x60 \<noteq> 0x40 then (Inl InvalidDataEscape, r1)
                          else read_data_loop e useCRC32 (data @ [v XOR 0x40]) r1))
      else (Inl DataTooLarge, bs))"
  by pat_completeness auto
termination
  by (relation "measure (\<lambda>(e, c, data, bs). length bs)")
    (auto dest!: raw_decreases_rev)

declare read_data_loop.simps [simp del]

definition read_data :: "zerr \<Rightarrow> bool \<Rightarrow> byte list \<Rightarrow> (zerr + byte list \<times> byte) \<times> byte list" where
  "read_data e useCRC32 bs = read_data_loop e useCRC32 [] bs"

subsection \<open>Escaping is transparent\<close>

text \<open>
  The bytes that \<open>raw\<close> hands on as they are.  Everything the encoder emits is one, so
  a reader of encoded data never drops a byte.
\<close>

definition plain :: "byte \<Rightarrow> bool" where
  "plain b \<longleftrightarrow> b \<noteq> XON \<and> b \<noteq> XOFF"

lemma raw_plain [simp]: "plain b \<Longrightarrow> raw e (b # bs) = (Inr b, bs)"
  by (simp add: plain_def raw.simps)

lemma plain_zdle [simp]: "plain zdle"
  by (simp add: plain_def)

text \<open>The shape of an escaped byte, to be checked on every value.\<close>

definition escape_sound :: "byte \<Rightarrow> bool" where
  "escape_sound v \<longleftrightarrow>
     (case escape_byte v of
        [b] \<Rightarrow> b = v \<and> plain b \<and> b \<noteq> zdle
      | [b, c] \<Rightarrow> b = zdle \<and> plain c \<and> c \<noteq> zdle \<and> \<not> (ZCRCE \<le> c \<and> c \<le> ZCRCW)
           \<and> (if c = ell then v = 0x7F else if c = emm then v = 0xFF
              else c AND 0x60 = 0x40 \<and> c XOR 0x40 = v)
      | _ \<Rightarrow> False)"

lemma escape_sound: "escape_sound v"
proof -
  have "list_all escape_sound all_bytes"
    by (simp add: all_bytes_table escape_sound_def escape_byte_def plain_def)
  then show ?thesis by (rule byte_cases_list)
qed

text \<open>The two shapes of an escaped byte, as a rule for case analysis.\<close>

lemma escape_byte_cases:
  obtains (literal) "escape_byte v = [v]" "plain v" "v \<noteq> zdle"
  | (coded) c where "escape_byte v = [zdle, c]" "plain c" "c \<noteq> zdle" "\<not> (ZCRCE \<le> c \<and> c \<le> ZCRCW)"
      "c = ell \<Longrightarrow> v = 0x7F" "c = emm \<Longrightarrow> v = 0xFF"
      "c \<noteq> ell \<Longrightarrow> c \<noteq> emm \<Longrightarrow> c AND 0x60 = 0x40 \<and> c XOR 0x40 = v"
proof -
  have "escape_sound v" by (rule escape_sound)
  then show ?thesis
    unfolding escape_sound_def
    by (auto split: list.splits if_splits intro: literal coded)
qed

lemma escaped_escape_byte [io_simps]: "escaped e (escape_byte v @ bs) = (Inr v, bs)"
  by (cases v rule: escape_byte_cases) (auto simp: escaped_def plain_def)

lemma escaped_n_escape [io_simps]:
  "escaped_n e (length ds) (escape ds @ bs) = (Inr ds, bs)"
  by (induction ds) (simp_all add: io_simps)

lemma escape_byte_plain: "x \<in> set (escape_byte v) \<Longrightarrow> plain x"
  by (cases v rule: escape_byte_cases) (auto simp: plain_def)

lemma escape_plain: "x \<in> set (escape ds) \<Longrightarrow> plain x"
  by (induction ds) (auto dest: escape_byte_plain)

subsection \<open>Round trip of a data packet\<close>

lemma read_data_loop_literal:
  "length acc \<le> 1024 * 1024 \<Longrightarrow> plain v \<Longrightarrow> v \<noteq> zdle \<Longrightarrow>
   read_data_loop e c acc (v # bs) = read_data_loop e c (acc @ [v]) bs"
  by (simp add: read_data_loop.simps [of e c acc "v # bs"])

lemma read_data_loop_coded:
  assumes "length acc \<le> 1024 * 1024" "plain x" "x \<noteq> zdle" "\<not> (ZCRCE \<le> x \<and> x \<le> ZCRCW)"
    and "x = ell \<Longrightarrow> v = 0x7F" "x = emm \<Longrightarrow> v = 0xFF"
    and "x \<noteq> ell \<Longrightarrow> x \<noteq> emm \<Longrightarrow> x AND 0x60 = 0x40 \<and> x XOR 0x40 = v"
  shows "read_data_loop e c acc (zdle # x # bs) = read_data_loop e c (acc @ [v]) bs"
  using assms by (auto simp: read_data_loop.simps [of e c acc "zdle # x # bs"])

lemma read_data_loop_escape_byte:
  "length acc \<le> 1024 * 1024 \<Longrightarrow>
   read_data_loop e c acc (escape_byte v @ bs) = read_data_loop e c (acc @ [v]) bs"
  by (cases v rule: escape_byte_cases)
    (simp_all add: read_data_loop_literal read_data_loop_coded)

lemma read_data_loop_escape:
  "length acc + length ds \<le> 1024 * 1024 \<Longrightarrow>
   read_data_loop e c acc (escape ds @ bs) = read_data_loop e c (acc @ ds) bs"
  by (induction ds arbitrary: acc) (simp_all add: read_data_loop_escape_byte)

lemma read_data_loop_end:
  assumes "length data \<le> 1024 * 1024" "ZCRCE \<le> fin" "fin \<le> ZCRCW"
  shows "read_data_loop e c data (zdle # fin # bs) = finish_data e c data fin bs"
proof -
  have "plain fin" using assms by (auto simp: plain_def)
  then show ?thesis
    using assms by (simp add: read_data_loop.simps [of e c data "zdle # fin # bs"])
qed

lemma length_checksum [simp]: "length (checksum c ds) = (if c then 4 else 2)"
  by (simp add: checksum_def)

lemma escaped_n_checksum:
  "escaped_n e (if c then 4 else 2) (escape (checksum c ds) @ bs) = (Inr (checksum c ds), bs)"
  using escaped_n_escape [of e "checksum c ds" bs] by simp

text \<open>What \<open>finish_data\<close> does with a checksum that was computed over \<open>ds\<close>.\<close>

lemma le_get32_nth_put32:
  "le_get32 (quad_list (le_put32 w) ! 0, quad_list (le_put32 w) ! 1,
             quad_list (le_put32 w) ! 2, quad_list (le_put32 w) ! 3) = w"
  using le_get_put32 [of w] by (cases "le_put32 w") simp

lemma be_get16_nth_put16: "be_get16 (be_put16 w ! 0) (be_put16 w ! 1) = w"
  by (simp add: be_put16_def)

lemma finish_data_checksum:
  "finish_data e c data fin (escape (checksum c ds) @ bs) =
     (if c then (if crc32_IEEE (data @ [fin]) = crc32_IEEE ds then Inr (data, fin) else Inl DataCRC32Mismatch)
      else (if CRC16 (data @ [fin]) = CRC16 ds then Inr (data, fin) else Inl DataCRC16Mismatch), bs)"
proof (cases c)
  case True
  then show ?thesis
    using escaped_n_checksum [of e True ds bs]
    by (simp add: finish_data_def checksum_def le_get32_nth_put32 [simplified])
next
  case False
  then show ?thesis
    using escaped_n_checksum [of e False ds bs]
    by (simp add: finish_data_def checksum_def be_get16_nth_put16 [simplified])
qed

lemma read_data_packet:
  assumes "length data \<le> 1024 * 1024" "ZCRCE \<le> fin" "fin \<le> ZCRCW"
  shows "read_data e c (escape data @ [zdle, fin] @ escape (checksum c ds) @ bs) =
     (if c then (if crc32_IEEE (data @ [fin]) = crc32_IEEE ds then Inr (data, fin) else Inl DataCRC32Mismatch)
      else (if CRC16 (data @ [fin]) = CRC16 ds then Inr (data, fin) else Inl DataCRC16Mismatch), bs)"
  using assms
  by (simp add: read_data_def read_data_loop_escape read_data_loop_end finish_data_checksum)

lemma read_data_bytes [io_simps]:
  assumes "length data \<le> 1024 * 1024" "ZCRCE \<le> fin" "fin \<le> ZCRCW"
  shows "read_data e c (data_bytes data fin c @ bs) =
           (Inr (data, fin), (if fin = ZCRCW then XON # bs else bs))"
  using read_data_packet [OF assms, of e c "data @ [fin]" "if fin = ZCRCW then XON # bs else bs"]
  by (auto simp: data_bytes_def split: if_splits)

subsection \<open>Round trip of a header\<close>

lemma skip_stars_hit:
  "plain b \<Longrightarrow> b \<noteq> star \<Longrightarrow> skip_stars e (b # bs) = (Inr b, bs)"
  by (simp add: skip_stars.simps [of e "b # bs"])

lemma skip_stars_star: "skip_stars e (star # bs) = skip_stars e bs"
  by (simp add: skip_stars.simps [of e "star # bs"] plain_def)

lemma check_header_encoded:
  "check_header False (t # quad_list q @
     [ucast (drop_bit 8 (CRC16 (t # quad_list q))), ucast (CRC16 (t # quad_list q))])
   = Inr \<lparr>hType = t, hData = q, hCRC32 = False\<rparr>"
  by (cases q) (simp add: check_header_def)

lemma hex_header_encoded:
  assumes "length rw = 7" "check_header False rw = Inr h"
  shows "hex_header e (hex_encode rw @ CR # LF # bs) = (Inr h, bs)"
  using assms by (simp add: hex_header_def read_full_def hex_trailer_def)

lemma header_attempt_hex:
  "header_attempt e (star # star # zdle # kindB # bs) =
     (case hex_header e bs of (x, r) \<Rightarrow> (Some x, r))"
  by (simp add: header_attempt_def skip_stars_star skip_stars_hit plain_def)

lemma read_header_bytes [io_simps]:
  "read_header e (header_bytes h @ bs) =
     (Inr (h\<lparr>hCRC32 := False\<rparr>),
      (if hType h \<noteq> ZFIN \<and> hType h \<noteq> ZACK then XON # bs else bs))"
proof -
  let ?raw = "hType h # quad_list (hData h)"
  let ?rw = "?raw @ [ucast (drop_bit 8 (CRC16 ?raw)), ucast (CRC16 ?raw)]"
  let ?rest = "if hType h \<noteq> ZFIN \<and> hType h \<noteq> ZACK then XON # bs else bs"
  have "header_bytes h @ bs = star # star # zdle # kindB # hex_encode ?rw @ CR # LF # ?rest"
    by (simp add: header_bytes_def Let_def)
  moreover have "hex_header e (hex_encode ?rw @ CR # LF # ?rest) = (Inr (h\<lparr>hCRC32 := False\<rparr>), ?rest)"
    by (rule hex_header_encoded) (simp_all add: check_header_encoded)
  ultimately show ?thesis
    by (simp add: read_header_def read_header_loop.simps [of 65536] header_attempt_hex)
qed

text \<open>
  Flow control bytes before a header, such as the XON that ends the previous frame,
  change nothing.
\<close>

lemma header_attempt_XON: "header_attempt e (XON # bs) = header_attempt e bs"
  by (simp add: header_attempt_def raw.simps)

lemma read_header_XON [io_simps]: "read_header e (XON # bs) = read_header e bs"
  by (simp add: read_header_def read_header_loop.simps [of 65536] header_attempt_XON)

lemma read_data_XON [io_simps]: "read_data e c (XON # bs) = read_data e c bs"
  by (simp add: read_data_def read_data_loop.simps [of e c "[]" "XON # bs"]
      read_data_loop.simps [of e c "[]" bs] raw.simps)

subsection \<open>Reading consumes its input\<close>

lemma escaped_length: "escaped e bs = (x, r) \<Longrightarrow> length r \<le> length bs"
  by (auto simp: escaped_def split: prod.splits sum.splits if_splits
      dest!: raw_length_le)

lemma escaped_n_length: "escaped_n e n bs = (x, r) \<Longrightarrow> length r \<le> length bs"
  by (induction n arbitrary: bs x r)
    (fastforce split: prod.splits sum.splits dest: escaped_length)+

lemma skip_stars_length: "skip_stars e bs = (x, r) \<Longrightarrow> length r \<le> length bs"
proof (induction e bs arbitrary: x r rule: skip_stars.induct)
  case (1 e bs)
  then show ?case
    by (fastforce simp: skip_stars.simps [of e bs] split: prod.splits sum.splits if_splits
        dest: raw_length_le)
qed

lemma read_full_length: "read_full e n bs = (x, r) \<Longrightarrow> length r \<le> length bs"
  by (auto simp: read_full_def split: if_splits)

lemma hex_trailer_length: "hex_trailer e bs = (x, r) \<Longrightarrow> length r \<le> length bs"
  by (auto simp: hex_trailer_def split: list.splits if_splits)

lemma hex_header_length: "hex_header e bs = (x, r) \<Longrightarrow> length r \<le> length bs"
  by (fastforce simp: hex_header_def split: prod.splits sum.splits option.splits
      dest: read_full_length hex_trailer_length)

lemma bin_header_length: "bin_header e k bs = (x, r) \<Longrightarrow> length r \<le> length bs"
  by (fastforce simp: bin_header_def split: prod.splits sum.splits dest: escaped_n_length)

lemma header_attempt_length:
  assumes "header_attempt e bs = (x, r)"
  shows "length r \<le> length bs" and "x = Some (Inr h) \<Longrightarrow> length r < length bs"
proof -
  obtain y r0 where raw: "raw e bs = (y, r0)" by fastforce
  have le: "length r \<le> length r0"
    using assms raw
    by (fastforce simp: header_attempt_def split: prod.splits sum.splits if_splits
        dest: raw_length_le skip_stars_length hex_header_length bin_header_length)
  then show "length r \<le> length bs" using raw_length_le [OF raw] by simp
  assume "x = Some (Inr h)"
  then have "\<exists>b. y = Inr b" using assms raw by (cases y) (auto simp: header_attempt_def)
  then show "length r < length bs" using le raw raw_decreases by fastforce
qed

lemma read_header_loop_length:
  assumes "read_header_loop left e bs = (x, r)"
  shows "length r \<le> length bs" and "x = Inr h \<Longrightarrow> length r < length bs"
proof -
  have "length r \<le> length bs \<and> (x = Inr h \<longrightarrow> length r < length bs)"
    using assms
  proof (induction left e bs rule: read_header_loop.induct)
    case (1 left e bs)
    obtain y r0 where att: "header_attempt e bs = (y, r0)" by fastforce
    note le = header_attempt_length [OF att]
    from 1 att le show ?case
      by (cases y) (fastforce simp: read_header_loop.simps [of left e bs] split: if_splits)+
  qed
  then show "length r \<le> length bs" and "x = Inr h \<Longrightarrow> length r < length bs" by auto
qed

lemma read_header_length: "read_header e bs = (x, r) \<Longrightarrow> length r \<le> length bs"
  and read_header_decreases: "read_header e bs = (Inr h, r) \<Longrightarrow> length r < length bs"
  by (auto simp: read_header_def dest: read_header_loop_length)

lemma finish_data_length: "finish_data e c d v bs = (x, r) \<Longrightarrow> length r \<le> length bs"
  by (auto simp: finish_data_def Let_def split: prod.splits sum.splits if_splits
      dest!: escaped_n_length)

text \<open>One turn of the packet loop: it stops, collects one more byte or reaches the end.\<close>

lemma read_data_loop_cases:
  assumes "read_data_loop e c d bs = (x, r)"
  obtains (large) "1024 * 1024 < length d" "x = Inl DataTooLarge" "r = bs"
  | (stop) err where "x = Inl err" "length r \<le> length bs"
  | (more) v bs' where "length d \<le> 1024 * 1024" "length bs' < length bs"
      "read_data_loop e c (d @ [v]) bs' = (x, r)"
  | (final) v bs' where "length d \<le> 1024 * 1024" "length bs' < length bs"
      "ZCRCE \<le> v" "v \<le> ZCRCW" "finish_data e c d v bs' = (x, r)"
proof -
  note eq = assms [unfolded read_data_loop.simps [of e c d bs]]
  show thesis
  proof (cases "length d \<le> 1024 * 1024")
    case False
    with eq show ?thesis by (intro large) auto
  next
    case d: True
    obtain z r0 where raw0: "raw e bs = (z, r0)" by fastforce
    show ?thesis
    proof (cases z)
      case (Inl err)
      with eq d raw0 raw_length_le [OF raw0] show ?thesis by (intro stop) auto
    next
      case (Inr b)
      note less0 = raw_decreases [OF raw0 [unfolded Inr]]
      show ?thesis
      proof (cases "b = zdle")
        case False
        with eq d raw0 Inr less0 show ?thesis by (intro more [of r0 b]) auto
      next
        case True
        obtain z1 r1 where raw1: "raw e r0 = (z1, r1)" by fastforce
        have less1: "length r1 < length bs" using raw_length_le [OF raw1] less0 by simp
        then have le1: "length r1 \<le> length bs" by simp
        from eq d raw0 Inr True raw1 less1 le1 show ?thesis
          by (cases z1) (auto split: if_splits intro: stop more final)
      qed
    qed
  qed
qed

lemma read_data_loop_length:
  assumes "read_data_loop e c d bs = (x, r)"
  shows "length r \<le> length bs" and "x = Inr y \<Longrightarrow> length r < length bs"
proof -
  have "length r \<le> length bs \<and> (x = Inr y \<longrightarrow> length r < length bs)"
    using assms
  proof (induction bs arbitrary: d rule: length_induct)
    case (1 bs)
    from "1.prems" show ?case
    proof (cases rule: read_data_loop_cases)
      case (more v bs')
      with "1.IH" show ?thesis by fastforce
    next
      case (final v bs')
      then show ?thesis using finish_data_length by fastforce
    qed auto
  qed
  then show "length r \<le> length bs" and "x = Inr y \<Longrightarrow> length r < length bs" by auto
qed

lemma read_data_length: "read_data e c bs = (x, r) \<Longrightarrow> length r \<le> length bs"
  and read_data_decreases: "read_data e c bs = (Inr y, r) \<Longrightarrow> length r < length bs"
  by (auto simp: read_data_def dest: read_data_loop_length)

subsection \<open>Checksums detect a damaged byte\<close>

lemma crc16_step_inj: "crc16_step a = crc16_step b \<Longrightarrow> a = b"
proof -
  assume eq: "crc16_step a = crc16_step b"
  have low: "bit (crc16_step w) 0 = bit w 15" for w
  proof -
    have "w AND 0x8000 \<noteq> 0 \<longleftrightarrow> bit w 15"
      using and_exp_eq_0_iff_not_bit [of w 15] by simp
    then show ?thesis by (simp add: crc16_step_def bit_simps bit_0 even_xor_iff)
  qed
  have top: "w AND 0x8000 \<noteq> 0 \<longleftrightarrow> bit w 15" for w :: "16 word"
    using and_exp_eq_0_iff_not_bit [of w 15] by simp
  from eq have "bit a 15 = bit b 15" by (metis low)
  with eq have shift: "push_bit 1 a = push_bit 1 b"
    by (auto simp: crc16_step_def top simp: xor_cancel_right split: if_splits)
  show "a = b"
  proof (rule bit_word_eqI)
    fix n assume n: "n < LENGTH(16)"
    show "bit a n = bit b n"
    proof (cases "n = 15")
      case True
      with \<open>bit a 15 = bit b 15\<close> show ?thesis by simp
    next
      case False
      with n have "n < 15" by simp
      then show ?thesis
        using n arg_cong [OF shift, of "\<lambda>w. bit w (Suc n)"]
          by (simp only: bit_push_bit_iff) (simp add: possible_bit_word)
    qed
  qed
qed

lemma crc16_steps_inj: "(crc16_step ^^ n) a = (crc16_step ^^ n) b \<Longrightarrow> a = b"
  by (induction n) (auto dest: crc16_step_inj)

lemma ucast_push_inj: "push_bit 8 (ucast v :: 16 word) = push_bit 8 (ucast w) \<Longrightarrow> v = (w :: byte)"
proof (rule bit_word_eqI)
  fix n assume eq: "push_bit 8 (ucast v :: 16 word) = push_bit 8 (ucast w)" and n: "n < LENGTH(8)"
  show "bit v n = bit w n"
    using n arg_cong [OF eq, of "\<lambda>x. bit x (n + 8)"] by (simp add: bit_simps)
qed

text \<open>
  The state of a checksum over a list of bytes, when each byte enters through a step
  that is injective in the byte and in the state: two inputs that differ in one byte
  only leave different states.  Both checksums of the protocol are instances.
\<close>

locale byte_checksum =
  fixes step :: "'s \<Rightarrow> byte \<Rightarrow> 's"
  assumes step_state: "step s v = step t v \<Longrightarrow> s = t"
    and step_byte: "step s v = step s w \<Longrightarrow> v = w"
begin

lemma foldl_state: "foldl step s bs = foldl step t bs \<Longrightarrow> s = t"
  by (induction bs arbitrary: s t) (auto dest: step_state)

lemma one_byte: "foldl step s (xs @ v # ys) = foldl step s (xs @ w # ys) \<longleftrightarrow> v = w"
  by (auto dest: foldl_state step_byte)

end

definition crc16_byte :: "16 word \<Rightarrow> byte \<Rightarrow> 16 word" where
  "crc16_byte crc v = (crc16_step ^^ 8) (crc XOR push_bit 8 (ucast v))"

lemma CRC16_foldl: "CRC16 bs = foldl crc16_byte 0 bs"
  by (simp add: CRC16_def crc16_byte_def [abs_def])

interpretation crc16: byte_checksum crc16_byte
proof
  fix s t v assume "crc16_byte s v = crc16_byte t v"
  then have "s XOR push_bit 8 (ucast v) = t XOR push_bit 8 (ucast v)"
    unfolding crc16_byte_def by (rule crc16_steps_inj)
  then show "s = t" by (simp only: xor_cancel_right)
next
  fix s v w assume "crc16_byte s v = crc16_byte s w"
  then have "s XOR push_bit 8 (ucast v) = s XOR push_bit 8 (ucast w)"
    unfolding crc16_byte_def by (rule crc16_steps_inj)
  then have "push_bit 8 (ucast v :: 16 word) = push_bit 8 (ucast w)"
    by (simp only: xor_cancel_left)
  then show "v = w" by (rule ucast_push_inj)
qed

lemma crc32_step_inj: "crc32_step a = crc32_step b \<Longrightarrow> a = b"
proof -
  assume eq: "crc32_step a = crc32_step b"
  have high: "bit (crc32_step w) 31 = bit w 0" for w
    by (auto simp: crc32_step_def bit_simps and_one_eq bit_0 odd_iff_mod_2_eq_one
        dest: bit_imp_le_length)
  have low: "w AND 1 \<noteq> 0 \<longleftrightarrow> bit w 0" for w :: "32 word"
    by (simp add: and_one_eq bit_0 odd_iff_mod_2_eq_one)
  from eq have b0: "bit a 0 = bit b 0" by (metis high)
  with eq have shift: "drop_bit 1 a = drop_bit 1 b"
    by (auto simp: crc32_step_def low simp: xor_cancel_right split: if_splits)
  show "a = b"
  proof (rule bit_word_eqI)
    fix n assume n: "n < LENGTH(32)"
    show "bit a n = bit b n"
    proof (cases n)
      case 0
      with b0 show ?thesis by simp
    next
      case (Suc m)
      then show ?thesis
        using arg_cong [OF shift, of "\<lambda>w. bit w m"] by (simp add: bit_simps)
    qed
  qed
qed

lemma crc32_steps_inj: "(crc32_step ^^ n) a = (crc32_step ^^ n) b \<Longrightarrow> a = b"
  by (induction n) (auto dest: crc32_step_inj)

lemma ucast_byte_inj: "(ucast v :: 32 word) = ucast w \<Longrightarrow> v = (w :: byte)"
proof (rule bit_word_eqI)
  fix n assume eq: "(ucast v :: 32 word) = ucast w" and n: "n < LENGTH(8)"
  show "bit v n = bit w n"
    using n arg_cong [OF eq, of "\<lambda>x. bit x n"] by (simp add: bit_simps)
qed

interpretation crc32: byte_checksum crc32_byte
proof
  fix s t v assume "crc32_byte s v = crc32_byte t v"
  then have "s XOR ucast v = t XOR ucast v"
    unfolding crc32_byte_def by (rule crc32_steps_inj)
  then show "s = t" by (simp only: xor_cancel_right)
next
  fix s v w assume "crc32_byte s v = crc32_byte s w"
  then have "s XOR ucast v = s XOR ucast w"
    unfolding crc32_byte_def by (rule crc32_steps_inj)
  then have "(ucast v :: 32 word) = ucast w" by (simp only: xor_cancel_left)
  then show "v = w" by (rule ucast_byte_inj)
qed

lemma CRC16_one_byte: "CRC16 (xs @ v # ys) = CRC16 (xs @ w # ys) \<longleftrightarrow> v = w"
  unfolding CRC16_foldl by (rule crc16.one_byte)

lemma crc32_one_byte: "crc32_IEEE (xs @ v # ys) = crc32_IEEE (xs @ w # ys) \<longleftrightarrow> v = w"
  unfolding crc32_IEEE_def by (simp add: crc32.one_byte del: foldl_append foldl.simps)

lemma damaged_packet_rejected:
  assumes "v \<noteq> w" "length (xs @ v # ys) \<le> 1024 * 1024" "ZCRCE \<le> fin" "fin \<le> ZCRCW"
  shows "read_data e c (escape (xs @ v # ys) @ [zdle, fin] @ escape (checksum c (xs @ w # ys @ [fin])) @ bs)
           = (Inl (if c then DataCRC32Mismatch else DataCRC16Mismatch), bs)"
  using read_data_packet [OF assms(2-4), of e c "xs @ w # ys @ [fin]" bs] assms(1)
    CRC16_one_byte [of xs v "ys @ [fin]" w] crc32_one_byte [of xs v "ys @ [fin]" w]
  by simp

subsection \<open>The guarantees\<close>

text \<open>
  Reading what \<open>WriteHeader\<close> wrote gives the header back, whatever its type and data,
  and leaves the rest of the stream, preceded only by the XON that ended the frame.
\<close>

theorem header_round_trip:
  "read_header e (header_bytes h @ bs) =
     (Inr (h\<lparr>hCRC32 := False\<rparr>), (if hType h \<noteq> ZFIN \<and> hType h \<noteq> ZACK then XON # bs else bs))"
  by (rule read_header_bytes)

text \<open>
  C3: Reading what \<open>WriteData\<close> wrote gives the data and the frame end back, for every content
  up to one mebibyte and both checksums: the escaping is transparent and no payload byte can
  be taken for a frame end.
\<close>

theorem data_round_trip:
  assumes "length data \<le> 1024 * 1024" "ZCRCE \<le> fin" "fin \<le> ZCRCW"
  shows "read_data e c (data_bytes data fin c @ bs) =
           (Inr (data, fin), (if fin = ZCRCW then XON # bs else bs))"
  using assms by (rule read_data_bytes)

theorem data_round_trip_witness:
  "read_data EOF True (data_bytes [0x18, 0x0D, 0x7F, 0xFF] ZCRCW True @ [0x2A]) =
     (Inr ([0x18, 0x0D, 0x7F, 0xFF], ZCRCW), [XON, 0x2A])"
  using data_round_trip [of "[0x18, 0x0D, 0x7F, 0xFF]" ZCRCW EOF True "[0x2A]"] by simp

text \<open>
  C4: A data packet in which one byte of the payload was changed on the way, checksum and
  framing intact, is never accepted: \<open>ReadData\<close> reports a checksum mismatch, with CRC-16 and
  with CRC-32.
\<close>

theorem changed_byte_detected:
  assumes "v \<noteq> w" "length (xs @ v # ys) \<le> 1024 * 1024" "ZCRCE \<le> fin" "fin \<le> ZCRCW"
  shows "read_data e c (escape (xs @ v # ys) @ [zdle, fin] @ escape (checksum c (xs @ w # ys @ [fin])) @ bs)
           = (Inl (if c then DataCRC32Mismatch else DataCRC16Mismatch), bs)"
  using assms by (rule damaged_packet_rejected)

theorem changed_byte_detected_witness:
  "read_data EOF False (escape [1, 2, 3] @ [zdle, ZCRCE] @ escape (checksum False [1, 7, 3, ZCRCE]) @ [])
     = (Inl DataCRC16Mismatch, [])"
  using changed_byte_detected [of 2 7 "[1]" "[3]" ZCRCE EOF False "[]"] by simp

end
