(* ===== verification/GoPath.thy ===== *)
theory GoPath
  imports GoStrings
begin

text \<open>
  Go's \<open>path\<close> and \<open>path/filepath\<close> on systems whose separator is the slash: \<open>IsAbs\<close>,
  \<open>Clean\<close>, \<open>Base\<close>, \<open>Dir\<close>, \<open>Join\<close>, \<open>Rel\<close> and \<open>Ext\<close>.  Paths are cut into their
  elements; \<open>Clean\<close> works on the elements with a stack, which is what the library's
  in-place algorithm computes.
\<close>

abbreviation slash :: char where "slash \<equiv> CHR ''/''"

definition IsAbs :: "string \<Rightarrow> bool" where
  "IsAbs p \<longleftrightarrow> HasPrefix p ''/''"

text \<open>The elements of a path, without the empty ones.\<close>

fun elements_from :: "string \<Rightarrow> string \<Rightarrow> string list" where
  "elements_from cur [] = (if cur = [] then [] else [cur])"
| "elements_from cur (c # s) =
     (if c = slash then (if cur = [] then [] else [cur]) @ elements_from [] s
      else elements_from (cur @ [c]) s)"

definition elements :: "string \<Rightarrow> string list" where
  "elements p = elements_from [] p"

text \<open>
  One element of \<open>Clean\<close>: a dot is dropped, a double dot removes the last element that
  can be removed, stays in front of a relative path and vanishes at the root.  The
  stack holds the elements kept so far, the last one first.
\<close>

definition clean_step :: "bool \<Rightarrow> string list \<Rightarrow> string \<Rightarrow> string list" where
  "clean_step rooted stack x =
     (if x = ''.'' then stack
      else if x = ''..''
      then (case stack of
              [] \<Rightarrow> if rooted then [] else [''..'']
            | y # ys \<Rightarrow> if y = ''..'' then x # stack else ys)
      else x # stack)"

definition clean_elements :: "bool \<Rightarrow> string list \<Rightarrow> string list" where
  "clean_elements rooted xs = rev (foldl (clean_step rooted) [] xs)"

definition from_elements :: "bool \<Rightarrow> string list \<Rightarrow> string" where
  "from_elements rooted xs =
     (if rooted then slash # Join xs ''/''
      else if xs = [] then ''.'' else Join xs ''/'')"

definition Clean :: "string \<Rightarrow> string" where
  "Clean p = from_elements (IsAbs p) (clean_elements (IsAbs p) (elements p))"

definition Base :: "string \<Rightarrow> string" where
  "Base p =
     (if p = [] then ''.''
      else if list_all (\<lambda>c. c = slash) p then ''/''
      else last (elements p))"

text \<open>\<open>Dir\<close>: everything up to the last slash, cleaned.\<close>

definition upto_last_slash :: "string \<Rightarrow> string" where
  "upto_last_slash p = rev (dropWhile (\<lambda>c. c \<noteq> slash) (rev p))"

definition Dir :: "string \<Rightarrow> string" where
  "Dir p = Clean (upto_last_slash p)"

text \<open>\<open>Join\<close> ignores empty elements; joining only empty elements gives the empty path.\<close>

definition JoinPath :: "string list \<Rightarrow> string" where
  "JoinPath xs =
     (let ys = filter (\<lambda>x. x \<noteq> []) xs
      in if ys = [] then [] else Clean (Join ys ''/''))"

text \<open>\<open>filepath.Ext\<close>: the suffix from the last dot of the last element on.\<close>

definition Ext :: "string \<Rightarrow> string" where
  "Ext p =
     (let e = rev (takeWhile (\<lambda>c. c \<noteq> slash) (rev p));
          tail = rev (takeWhile (\<lambda>c. c \<noteq> CHR ''.'') (rev e))
      in if CHR ''.'' \<in> set e then CHR ''.'' # tail else [])"

text \<open>
  \<open>filepath.Rel\<close>: after the elements that both paths share, one double dot for every
  element left of the base, then what is left of the target.
\<close>

fun rel_elements :: "string list \<Rightarrow> string list \<Rightarrow> string list option" where
  "rel_elements (b # bs) (t # ts) =
     (if b = t then rel_elements bs ts
      else if b = ''..'' then None
      else Some (map (\<lambda>_. ''..'') (b # bs) @ t # ts))"
| "rel_elements bs [] = Some (map (\<lambda>_. ''..'') bs)"
| "rel_elements [] ts = Some ts"

definition path_elements :: "string \<Rightarrow> string list" where
  "path_elements p = clean_elements (IsAbs p) (elements p)"

definition Rel :: "string \<Rightarrow> string \<Rightarrow> string option" where
  "Rel basepath targpath =
     (if Clean targpath = Clean basepath then Some ''.''
      else if IsAbs basepath \<noteq> IsAbs targpath then None
      else map_option (\<lambda>xs. Join xs ''/'')
             (rel_elements (path_elements basepath)
                (if Clean targpath = ''.'' then [''.''] else path_elements targpath)))"

subsection \<open>Cleaned absolute paths\<close>

text \<open>An element as \<open>elements\<close> gives them: not empty and without a slash.\<close>

definition plain :: "string \<Rightarrow> bool" where
  "plain x \<longleftrightarrow> x \<noteq> [] \<and> slash \<notin> set x"

lemma elements_from_plain: "slash \<notin> set cur \<Longrightarrow> x \<in> set (elements_from cur s) \<Longrightarrow> plain x"
  by (induction cur s rule: elements_from.induct) (auto simp: plain_def split: if_splits)

lemma elements_plain: "x \<in> set (elements p) \<Longrightarrow> plain x"
  unfolding elements_def by (rule elements_from_plain) simp_all

lemma elements_from_word: "slash \<notin> set x \<Longrightarrow> elements_from cur (x @ s) = elements_from (cur @ x) s"
  by (induction x arbitrary: cur) auto

lemma elements_word: "plain x \<Longrightarrow> elements (x @ slash # s) = x # elements s"
  by (simp add: elements_def elements_from_word plain_def)

lemma elements_single: "plain x \<Longrightarrow> elements x = [x]"
  using elements_from_word [of x "[]" "[]"] by (simp add: elements_def plain_def)

lemma elements_slash: "elements (slash # s) = elements s"
  by (simp add: elements_def)

lemma elements_Join: "list_all plain xs \<Longrightarrow> elements (Join xs ''/'') = xs"
proof (induction xs)
  case (Cons x xs)
  then show ?case
    by (cases "xs = []") (simp_all add: elements_single elements_word Join_Cons)
qed (simp add: elements_def)

lemma foldl_clean_set:
  "set (foldl (clean_step r) stack xs) \<subseteq> set stack \<union> set xs"
proof (induction xs arbitrary: stack)
  case (Cons x xs)
  have "set (clean_step r stack x) \<subseteq> set stack \<union> {x}"
    by (auto simp: clean_step_def split: list.splits)
  with Cons [of "clean_step r stack x"] show ?case by auto
qed simp

lemma clean_step_rooted:
  "''.'' \<notin> set stack \<Longrightarrow> ''..'' \<notin> set stack \<Longrightarrow>
     ''.'' \<notin> set (clean_step True stack x) \<and> ''..'' \<notin> set (clean_step True stack x)"
  by (cases stack) (auto simp: clean_step_def)

lemma foldl_clean_rooted:
  "''.'' \<notin> set stack \<Longrightarrow> ''..'' \<notin> set stack \<Longrightarrow>
     ''.'' \<notin> set (foldl (clean_step True) stack xs) \<and> ''..'' \<notin> set (foldl (clean_step True) stack xs)"
  by (induction xs arbitrary: stack) (simp_all add: clean_step_rooted)

lemma foldl_clean_id: "''.'' \<notin> set xs \<Longrightarrow> ''..'' \<notin> set xs \<Longrightarrow> foldl (clean_step r) stack xs = rev xs @ stack"
  by (induction xs arbitrary: stack) (auto simp: clean_step_def)

text \<open>The elements of a cleaned absolute path.\<close>

definition real_elements :: "string list \<Rightarrow> bool" where
  "real_elements xs \<longleftrightarrow> list_all plain xs \<and> ''.'' \<notin> set xs \<and> ''..'' \<notin> set xs"

lemma clean_elements_id: "real_elements xs \<Longrightarrow> clean_elements r xs = xs"
  by (simp add: clean_elements_def foldl_clean_id real_elements_def)

lemma path_elements_real: "IsAbs p \<Longrightarrow> real_elements (path_elements p)"
proof -
  have "set (foldl (clean_step True) [] (elements p)) \<subseteq> set (elements p)"
    using foldl_clean_set [of True "[]" "elements p"] by simp
  moreover assume "IsAbs p"
  ultimately show ?thesis
    using foldl_clean_rooted [of "[]" "elements p"] elements_plain
    by (auto simp: real_elements_def path_elements_def clean_elements_def list_all_iff)
qed

definition abs_path :: "string list \<Rightarrow> string" where
  "abs_path xs = slash # Join xs ''/''"

lemma elements_abs_path: "list_all plain xs \<Longrightarrow> elements (abs_path xs) = xs"
  by (simp add: abs_path_def elements_slash elements_Join)

lemma abs_path_inject: "list_all plain xs \<Longrightarrow> list_all plain ys \<Longrightarrow> abs_path xs = abs_path ys \<longleftrightarrow> xs = ys"
  using elements_abs_path by metis

lemma IsAbs_abs_path [simp]: "IsAbs (abs_path xs)"
  by (simp add: IsAbs_def abs_path_def HasPrefix_def)

lemma Clean_abs: "IsAbs p \<Longrightarrow> Clean p = abs_path (path_elements p)"
  by (simp add: Clean_def from_elements_def abs_path_def path_elements_def)

lemma path_elements_abs_path: "real_elements xs \<Longrightarrow> path_elements (abs_path xs) = xs"
  by (simp add: path_elements_def elements_abs_path real_elements_def clean_elements_id)

lemma Clean_abs_path: "real_elements xs \<Longrightarrow> Clean (abs_path xs) = abs_path xs"
  by (simp add: Clean_abs path_elements_abs_path)

lemma Clean_idem_abs: "IsAbs p \<Longrightarrow> Clean (Clean p) = Clean p"
  using Clean_abs_path [OF path_elements_real] by (simp add: Clean_abs [of p])

text \<open>The relation between two cleaned paths.\<close>

lemma rel_elements_below: "take (length bs) ts = bs \<Longrightarrow> rel_elements bs ts = Some (drop (length bs) ts)"
  by (induction bs ts rule: rel_elements.induct) auto

lemma rel_elements_outside:
  "''..'' \<notin> set bs \<Longrightarrow> take (length bs) ts \<noteq> bs \<Longrightarrow> \<exists>xs. rel_elements bs ts = Some (''..'' # xs)"
proof (induction bs ts rule: rel_elements.induct)
  case (2 bs)
  then show ?case by (cases bs) auto
qed auto

lemma rel_elements_plain:
  "list_all plain ts \<Longrightarrow> rel_elements bs ts = Some xs \<Longrightarrow> list_all plain xs"
  by (induction bs ts arbitrary: xs rule: rel_elements.induct)
    (auto simp: plain_def list_all_iff split: if_splits)

lemma Join_dots:
  assumes "list_all plain xs"
  shows "Join xs ''/'' = ''..'' \<or> HasPrefix (Join xs ''/'') ''../'' \<longleftrightarrow> xs \<noteq> [] \<and> hd xs = ''..''"
proof -
  have dots: "plain ''..''" by (simp add: plain_def)
  show ?thesis
  proof
    assume "Join xs ''/'' = ''..'' \<or> HasPrefix (Join xs ''/'') ''../''"
    then obtain t where "Join xs ''/'' = ''..'' \<or> Join xs ''/'' = ''..'' @ slash # t" by (auto simp: HasPrefix_iff)
    then have "elements (Join xs ''/'') = [''..''] \<or> elements (Join xs ''/'') = ''..'' # elements t"
      using elements_single [OF dots] elements_word [OF dots, of t] by auto
    then show "xs \<noteq> [] \<and> hd xs = ''..''" using elements_Join [OF assms] by auto
  next
    assume "xs \<noteq> [] \<and> hd xs = ''..''"
    then obtain ys where "xs = ''..'' # ys" by (cases xs) auto
    then show "Join xs ''/'' = ''..'' \<or> HasPrefix (Join xs ''/'') ''../''"
      by (cases "ys = []") (simp_all add: Join_Cons HasPrefix_def)
  qed
qed

end
