(* ===== verification/ZmodemSend.thy ===== *)
theory ZmodemSend
  imports ZmodemCodec GoPath
begin

text \<open>
  \<open>internal/transfer/zmodem/transfer.go\<close>, the sending side, and the machine state both
  sides run on.

  The state holds the peer's bytes still to be read, the bytes written to the peer, the
  files (full path to content) and the progress reports.  \<open>faults\<close> is the script of
  the environment: every call that can fail (a write to the peer, a file operation, a
  look at the context) takes the next entry; \<open>Some (k, e)\<close> makes it fail with \<open>e\<close> after
  \<open>k\<close> bytes, \<open>None\<close> and the end of the script let it succeed.  The theorems hold for
  every script and every input, so for every behaviour of peer, disk and cancellation.
  Nobody else writes the files during a transfer.
\<close>

datatype node = Regular "byte list" | NotRegular

record zs =
  zin :: "byte list"
  zin_err :: zerr
  zout :: "byte list"
  faults :: "(nat \<times> zerr) option list"
  disk :: "string \<Rightarrow> node option"
  reports :: "(string \<times> nat \<times> nat) list"

type_synonym 'a io = "(zs, zerr, 'a) act"

subsection \<open>Calls into the environment\<close>

text \<open>A call whose only effect here is that it may fail: \<open>ctx.Err\<close>, \<open>Seek\<close>, \<open>Stat\<close> and so on.\<close>

definition env_call :: "unit io" where
  "env_call = (\<lambda>s. case faults s of
      [] \<Rightarrow> (Inr (), s)
    | None # fs \<Rightarrow> (Inr (), s\<lparr>faults := fs\<rparr>)
    | Some (k, e) # fs \<Rightarrow> (Inl e, s\<lparr>faults := fs\<rparr>))"

definition WriteBytes :: "byte list \<Rightarrow> unit io" where
  "WriteBytes b = (\<lambda>s. case faults s of
      [] \<Rightarrow> (Inr (), s\<lparr>zout := zout s @ b\<rparr>)
    | None # fs \<Rightarrow> (Inr (), s\<lparr>faults := fs, zout := zout s @ b\<rparr>)
    | Some (k, e) # fs \<Rightarrow> (Inl e, s\<lparr>faults := fs, zout := zout s @ take k b\<rparr>))"

definition WriteHeader :: "header \<Rightarrow> unit io" where
  "WriteHeader h = WriteBytes (header_bytes h)"

definition WriteData :: "byte list \<Rightarrow> byte \<Rightarrow> bool \<Rightarrow> unit io" where
  "WriteData data fin useCRC32 = WriteBytes (data_bytes data fin useCRC32)"

definition ReadRaw :: "byte io" where
  "ReadRaw = (\<lambda>s. case raw (zin_err s) (zin s) of (x, r) \<Rightarrow> (x, s\<lparr>zin := r\<rparr>))"

definition ReadHeader :: "header io" where
  "ReadHeader = (\<lambda>s. case read_header (zin_err s) (zin s) of (x, r) \<Rightarrow> (x, s\<lparr>zin := r\<rparr>))"

definition ReadData :: "bool \<Rightarrow> (byte list \<times> byte) io" where
  "ReadData useCRC32 =
     (\<lambda>s. case read_data (zin_err s) useCRC32 (zin s) of (x, r) \<Rightarrow> (x, s\<lparr>zin := r\<rparr>))"

text \<open>\<open>Codec.Cancel\<close> ignores the outcome of its write.\<close>

definition Cancel :: "zs \<Rightarrow> zs" where
  "Cancel s = snd (WriteBytes cancel_bytes s)"

definition report :: "string \<Rightarrow> nat \<Rightarrow> nat \<Rightarrow> zs \<Rightarrow> zs" where
  "report name sofar full s = s\<lparr>reports := reports s @ [(name, sofar, full)]\<rparr>"

text \<open>The deferred cleanup of \<open>Send\<close> and \<open>Receive\<close>: an error cancels the transfer.\<close>

definition cancel_on_error :: "'a io \<Rightarrow> 'a io" where
  "cancel_on_error m = (\<lambda>s. case m s of (Inl e, s1) \<Rightarrow> (Inl e, Cancel s1) | (Inr x, s1) \<Rightarrow> (Inr x, s1))"

subsection \<open>Input never grows\<close>

definition consumes :: "'a io \<Rightarrow> bool" where
  "consumes m \<longleftrightarrow> (\<forall>s. length (zin (snd (m s))) \<le> length (zin s))"

named_theorems consumes_intro \<open>operations that never put input back\<close>

lemma consumesD: "consumes m \<Longrightarrow> m s = (x, s') \<Longrightarrow> length (zin s') \<le> length (zin s)"
  unfolding consumes_def by (metis snd_conv)

lemma consumes_ret [consumes_intro]: "consumes (ret x)"
  by (simp add: consumes_def ret_def)

lemma consumes_throw [consumes_intro]: "consumes (throw e)"
  by (simp add: consumes_def throw_def)

lemma consumes_andThen [consumes_intro]:
  "consumes m \<Longrightarrow> (\<And>x. consumes (f x)) \<Longrightarrow> consumes (andThen m f)"
  unfolding consumes_def andThen_def
  by (simp split: prod.splits sum.splits) (metis le_trans snd_conv)

lemma consumes_if [consumes_intro]:
  "(b \<Longrightarrow> consumes m) \<Longrightarrow> (\<not> b \<Longrightarrow> consumes n) \<Longrightarrow> consumes (if b then m else n)"
  by simp

lemma consumes_env_call [consumes_intro]: "consumes env_call"
  by (auto simp: consumes_def env_call_def split: list.splits option.splits)

lemma consumes_WriteBytes [consumes_intro]: "consumes (WriteBytes b)"
  by (auto simp: consumes_def WriteBytes_def split: list.splits option.splits)

lemma consumes_WriteHeader [consumes_intro]: "consumes (WriteHeader h)"
  by (simp add: WriteHeader_def consumes_intro)

lemma consumes_WriteData [consumes_intro]: "consumes (WriteData d fin c)"
  by (simp add: WriteData_def consumes_intro)

lemma consumes_ReadRaw [consumes_intro]: "consumes ReadRaw"
  by (auto simp: consumes_def ReadRaw_def split: prod.splits dest: raw_length_le)

lemma consumes_ReadHeader [consumes_intro]: "consumes ReadHeader"
  by (auto simp: consumes_def ReadHeader_def split: prod.splits dest: read_header_length)

lemma consumes_ReadData [consumes_intro]: "consumes (ReadData c)"
  by (auto simp: consumes_def ReadData_def split: prod.splits dest: read_data_length)

lemma ReadHeader_decreases: "ReadHeader s = (Inr h, s') \<Longrightarrow> length (zin s') < length (zin s)"
  by (auto simp: ReadHeader_def split: prod.splits dest: read_header_decreases)

lemma ReadData_decreases: "ReadData c s = (Inr d, s') \<Longrightarrow> length (zin s') < length (zin s)"
  by (auto simp: ReadData_def split: prod.splits dest: read_data_decreases)

subsection \<open>sendFile\<close>

text \<open>The file information subpacket, as it goes on the wire.\<close>

definition file_metadata :: "string \<Rightarrow> nat \<Rightarrow> byte list" where
  "file_metadata name len =
     bytes_of (Base name @ [CHR 0x00] @ FormatNat len @ '' 0 100600 0 1 '' @ FormatNat len @ [CHR 0x00])"

text \<open>
  The negotiation after ZFILE.  \<open>None\<close>: the peer skips the file; \<open>Some pos\<close>: send from
  there on.  When the twenty tries are used up without an answer, sending starts at 0.
\<close>

fun await_position :: "byte list \<Rightarrow> nat \<Rightarrow> 32 word option io" where
  "await_position content 0 = ret (Some 0)"
| "await_position content (Suc tries) =
     andThen ReadHeader (\<lambda>h.
       if hType h = ZSKIP then ret None
       else if hType h = ZCRC
       then (let n = (if hPosition h = 0 then length content else unat (hPosition h))
             in if n > length content then throw (Protocol InvalidCRCRange)
                else andThen env_call (\<lambda>_.
                     andThen (WriteHeader (Position ZCRC (crc32_IEEE (take n content)))) (\<lambda>_.
                     await_position content tries)))
       else if hType h = ZRPOS then ret (Some (hPosition h))
       else await_position content tries)"

text \<open>One block: the ZDATA header, up to 8192 bytes, and the answer to it.\<close>

definition send_block :: "byte list \<Rightarrow> 32 word \<Rightarrow> (nat \<times> header) io" where
  "send_block content pos =
     andThen env_call (\<lambda>_.
     andThen env_call (\<lambda>_.
     andThen env_call (\<lambda>_.
       let buf = take 8192 (drop (unat pos) content)
       in if buf = [] then throw UnexpectedEOF
          else andThen (WriteHeader (Position ZDATA pos)) (\<lambda>_.
               andThen (WriteData buf ZCRCW False) (\<lambda>_.
               andThen ReadHeader (\<lambda>h.
               ret (length buf, h)))))))"

lemma send_block_decreases:
  "(Inr y, s') = send_block content pos s \<Longrightarrow> length (zin s') < length (zin s)"
proof -
  assume "(Inr y, s') = send_block content pos s"
  then have "send_block content pos s = (Inr y, s')" by simp
  then show ?thesis
    unfolding send_block_def Let_def
    by (auto elim!: andThen_Inr simp: throw_def ret_def split: if_splits
        dest!: ReadHeader_decreases consumesD [OF consumes_env_call]
          consumesD [OF consumes_WriteHeader] consumesD [OF consumes_WriteData])
qed

lemma send_block_size:
  assumes "send_block content pos s = (Inr (n, h), s')"
  shows "n = min 8192 (length content - unat pos)"
  using assms
  by (auto simp: send_block_def Let_def throw_def ret_def split: if_splits elim!: andThen_Inr)

lemma block_end:
  fixes pos :: "32 word"
  assumes "length content < 2 ^ 32" "unat pos < length content"
    and "n = min 8192 (length content - unat pos)"
  shows "unat (pos + of_nat n) = unat pos + n" "unat pos + n \<le> length content"
proof -
  show le: "unat pos + n \<le> length content" using assms by simp
  have "unat (of_nat n :: 32 word) = n" using assms by (simp add: unat_of_nat)
  then show "unat (pos + of_nat n) = unat pos + n"
    using le assms by (subst unat_add_lem [THEN iffD1]) simp_all
qed

function send_loop :: "string \<Rightarrow> byte list \<Rightarrow> 32 word \<Rightarrow> nat \<Rightarrow> 32 word io" where
  "send_loop name content pos retries s =
     (if unat pos < length content
      then (case send_block content pos s of
              (Inl e, s1) \<Rightarrow> (Inl e, s1)
            | (Inr (n, h), s1) \<Rightarrow>
                if hType h = ZACK
                then (if hPosition h \<noteq> pos + of_nat n then (Inl (Protocol IncorrectAck), s1)
                      else send_loop name content (pos + of_nat n) 0
                             (report (Base name) (unat (pos + of_nat n)) (length content) s1))
                else if hType h = ZRPOS
                then (if unat (hPosition h) > length content then (Inl (Protocol InvalidRestartOffset), s1)
                      else if retries + 1 > 20 then (Inl (Protocol TooManyRetries), s1)
                      else send_loop name content (hPosition h) (retries + 1) s1)
                else (Inl (Protocol (UnexpectedAck (hType h))), s1))
      else (Inr pos, s))"
  by pat_completeness auto
termination
  by (relation "measure (\<lambda>(name, content, pos, retries, s). length (zin s))")
    (auto simp: report_def dest: send_block_decreases)

declare send_loop.simps [simp del]

definition finish_file :: "string \<Rightarrow> byte list \<Rightarrow> 32 word \<Rightarrow> unit io" where
  "finish_file name content pos =
     andThen (WriteHeader (Position ZEOF pos)) (\<lambda>_.
     andThen ReadHeader (\<lambda>h.
       if hType h \<noteq> ZRINIT then throw (Protocol (ExpectedNextFile (hType h)))
       else (\<lambda>s. (Inr (), report (Base name) (length content) (length content) s))))"

definition send_content :: "string \<Rightarrow> byte list \<Rightarrow> unit io" where
  "send_content name content =
     andThen (WriteHeader (Position ZFILE 0)) (\<lambda>_.
     andThen (WriteData (file_metadata name (length content)) ZCRCW False) (\<lambda>_.
     andThen (await_position content 20) (\<lambda>answer.
       case answer of
         None \<Rightarrow> ret ()
       | Some pos \<Rightarrow>
           if unat pos > length content then throw (Protocol InvalidResumeOffset)
           else andThen (send_loop name content pos 0) (\<lambda>pos'. finish_file name content pos'))))"

text \<open>\<open>os.Open\<close> and \<open>Stat\<close>: a path without a file is an error of the operating system.\<close>

definition not_exist :: zerr where
  "not_exist = IOError 2"

definition sendFile :: "string \<Rightarrow> unit io" where
  "sendFile name =
     andThen env_call (\<lambda>_.
     andThen env_call (\<lambda>_ s.
       case disk s name of
         None \<Rightarrow> (Inl not_exist, s)
       | Some NotRegular \<Rightarrow> (Inl (Protocol NotRegularOrTooLarge), s)
       | Some (Regular content) \<Rightarrow>
           if length content > 2 ^ 32 - 1 then (Inl (Protocol NotRegularOrTooLarge), s)
           else send_content name content s))"

fun send_files :: "string list \<Rightarrow> unit io" where
  "send_files [] = ret ()"
| "send_files (name # names) =
     andThen env_call (\<lambda>_. andThen (sendFile name) (\<lambda>_. send_files names))"

fun await_fin :: "nat \<Rightarrow> unit io" where
  "await_fin 0 = throw (Protocol ZFINHandshakeFailed)"
| "await_fin (Suc tries) =
     andThen ReadHeader (\<lambda>h. if hType h = ZFIN then WriteBytes [0x4F, 0x4F] else await_fin tries)"

definition send_handshake :: "header option \<Rightarrow> header io" where
  "send_handshake initial =
     (case initial of
        Some h \<Rightarrow> ret h
      | None \<Rightarrow> andThen (WriteHeader (Position ZRQINIT 0)) (\<lambda>_. ReadHeader))"

definition Send :: "string list \<Rightarrow> header option \<Rightarrow> unit io" where
  "Send files initial =
     cancel_on_error
       (andThen (send_handshake initial) (\<lambda>h.
          if hType h \<noteq> ZRINIT then throw (Protocol (ExpectedZRINIT (hType h)))
          else andThen (send_files files) (\<lambda>_.
               andThen (WriteHeader (Position ZFIN 0)) (\<lambda>_.
               await_fin 10))))"

end
