(* ===== verification/ZmodemReceive.thy ===== *)
theory ZmodemReceive
  imports ZmodemSend
begin

text \<open>
  \<open>internal/transfer/zmodem/transfer.go\<close>, the receiving side.  The loop variables of
  \<open>Receive\<close> are a record: the open destination (its path; the file offset is always the
  position), the name and size the sender announced, and the position.
\<close>

record rstate =
  rfile :: "string option"
  rname :: string
  rsize :: nat
  rpos :: nat

definition rstate_init :: rstate where
  "rstate_init = \<lparr>rfile = None, rname = [], rsize = 0, rpos = 0\<rparr>"

definition safeName :: "string \<Rightarrow> bool" where
  "safeName name \<longleftrightarrow>
     name \<noteq> [] \<and> name \<noteq> ''.'' \<and> name \<noteq> ''..''
     \<and> set name \<inter> {CHR ''/'', CHR 0x5C, CHR 0x00} = {} \<and> Base name = name"

definition ready :: header where
  "ready = \<lparr>hType = ZRINIT, hData = (0, 0, 0, 0x23), hCRC32 = False\<rparr>"

subsection \<open>Files\<close>

text \<open>\<open>os.OpenFile(p, O_CREATE|O_WRONLY)\<close>: an existing file keeps its content.\<close>

definition open_file :: "string \<Rightarrow> unit io" where
  "open_file p =
     andThen env_call (\<lambda>_ s.
       (Inr (), if disk s p = None then s\<lparr>disk := (disk s)(p \<mapsto> Regular [])\<rparr> else s))"

text \<open>
  \<open>file.Write\<close> at offset \<open>off\<close>: the bytes go in from there; a gap is filled with zeros.
  A failing write may have stored a part of the data.
\<close>

definition write_at :: "byte list \<Rightarrow> nat \<Rightarrow> byte list \<Rightarrow> byte list" where
  "write_at content off data =
     take off content @ replicate (off - length content) 0 @ data @ drop (off + length data) content"

definition put_bytes :: "string \<Rightarrow> nat \<Rightarrow> byte list \<Rightarrow> zs \<Rightarrow> zs" where
  "put_bytes p off data s =
     (case disk s p of
        Some (Regular content) \<Rightarrow> s\<lparr>disk := (disk s)(p \<mapsto> Regular (write_at content off data))\<rparr>
      | _ \<Rightarrow> s)"

definition write_file :: "string \<Rightarrow> nat \<Rightarrow> byte list \<Rightarrow> unit io" where
  "write_file p off data = (\<lambda>s. case faults s of
      [] \<Rightarrow> (Inr (), put_bytes p off data s)
    | None # fs \<Rightarrow> (Inr (), put_bytes p off data (s\<lparr>faults := fs\<rparr>))
    | Some (k, e) # fs \<Rightarrow> (Inl e, put_bytes p off (take k data) (s\<lparr>faults := fs\<rparr>)))"

subsection \<open>Resume\<close>

text \<open>Up to five answers: the checksum, or the same file information once more.\<close>

fun read_resume_loop :: "byte list \<Rightarrow> nat \<Rightarrow> header io" where
  "read_resume_loop meta 0 = throw (Protocol TooManyRepeatedHeaders)"
| "read_resume_loop meta (Suc left) =
     andThen env_call (\<lambda>_.
     andThen ReadHeader (\<lambda>answer.
       if hType answer = ZCRC then ret answer
       else if hType answer \<noteq> ZFILE then throw (Protocol (UnexpectedResumeResponse (hType answer)))
       else andThen (ReadData (hCRC32 answer)) (\<lambda>(again, _).
            if again \<noteq> meta then throw (Protocol MetadataChanged)
            else read_resume_loop meta left)))"

definition readResumeCRC :: "byte list \<Rightarrow> header io" where
  "readResumeCRC meta = read_resume_loop meta 5"

text \<open>
  What the receiver finds at the destination and where it will go on: nothing there is
  position 0; a nonempty prefix has to be confirmed by the sender's checksum.
\<close>

definition confirm_prefix :: "byte list \<Rightarrow> byte list \<Rightarrow> nat io" where
  "confirm_prefix content meta =
     andThen env_call (\<lambda>_.
     andThen env_call (\<lambda>_.
     andThen (WriteHeader (Position ZCRC (of_nat (length content)))) (\<lambda>_.
     andThen (readResumeCRC meta) (\<lambda>answer.
       if hPosition answer \<noteq> crc32_IEEE content then throw (Protocol PrefixDiffers)
       else ret (length content)))))"

definition resume_position :: "string \<Rightarrow> nat \<Rightarrow> byte list \<Rightarrow> nat io" where
  "resume_position p len meta =
     andThen env_call (\<lambda>_ s.
       case disk s p of
         None \<Rightarrow> (Inr 0, s)
       | Some NotRegular \<Rightarrow> (Inl (Protocol IncompatibleDestination), s)
       | Some (Regular content) \<Rightarrow>
           if length content > len then (Inl (Protocol IncompatibleDestination), s)
           else if length content = 0 then (Inr 0, s)
           else confirm_prefix content meta s)"

subsection \<open>The frames\<close>

text \<open>
  The file information: the name up to the first zero byte, then fields separated by
  white space, of which the first is the size in decimal.
\<close>

definition parse_metadata :: "byte list \<Rightarrow> transfer_error + string \<times> nat" where
  "parse_metadata meta =
     (let parts = SplitN (string_of meta) [CHR 0x00] 2;
          name = hd parts
      in if \<not> safeName name \<or> length parts < 2 then Inl UnsafeFileName
         else (case Fields (TrimRight (parts ! 1) [CHR 0x00]) of
                 [] \<Rightarrow> Inl MissingFileSize
               | f # _ \<Rightarrow>
                   (case ParseInt f of
                      None \<Rightarrow> Inl InvalidFileSize
                    | Some n \<Rightarrow> if n < 0 \<or> n > 2 ^ 32 - 1 then Inl InvalidFileSize
                               else Inr (name, nat n))))"

definition recv_file :: "string \<Rightarrow> header \<Rightarrow> rstate io" where
  "recv_file directory h =
     andThen (ReadData (hCRC32 h)) (\<lambda>(meta, _).
       case parse_metadata meta of
         Inl x \<Rightarrow> throw (Protocol x)
       | Inr (name, len) \<Rightarrow>
           let p = JoinPath [directory, name]
           in andThen (resume_position p len meta) (\<lambda>pos.
              andThen (open_file p) (\<lambda>_.
              andThen env_call (\<lambda>_.
              andThen (WriteHeader (Position ZRPOS (of_nat pos))) (\<lambda>_.
              ret \<lparr>rfile = Some p, rname = name, rsize = len, rpos = pos\<rparr>)))))"

text \<open>
  The subpackets of one ZDATA frame.  A damaged one makes the receiver ask for the data
  again from its position and leave the frame.
\<close>

definition acknowledge :: "rstate \<Rightarrow> byte \<Rightarrow> rstate io" where
  "acknowledge st fin =
     (if fin = ZCRCQ \<or> fin = ZCRCW
      then andThen (WriteHeader (Position ZACK (of_nat (rpos st)))) (\<lambda>_. ret st)
      else ret st)"

definition store_block :: "string \<Rightarrow> rstate \<Rightarrow> byte list \<Rightarrow> byte \<Rightarrow> rstate io" where
  "store_block p st data fin =
     (if rpos st + length data > rsize st then throw (Protocol DataExceedsSize)
      else andThen (write_file p (rpos st) data) (\<lambda>_ s.
           let st' = st\<lparr>rpos := rpos st + length data\<rparr>
           in acknowledge st' fin (report (rname st') (rpos st') (rsize st') s)))"

lemma consumes_write_file [consumes_intro]: "consumes (write_file p off d)"
  by (auto simp: consumes_def write_file_def put_bytes_def
      split: list.splits option.splits node.splits)

lemma zin_report [simp]: "zin (report a b c s) = zin s"
  by (simp add: report_def)

lemma consumes_report [consumes_intro]:
  assumes "consumes m"
  shows "consumes (\<lambda>s. m (report a b c s))"
  unfolding consumes_def
proof
  fix s
  show "length (zin (snd (m (report a b c s)))) \<le> length (zin s)"
    using assms [unfolded consumes_def, rule_format, of "report a b c s"] by simp
qed

lemma consumes_acknowledge [consumes_intro]: "consumes (acknowledge st fin)"
  unfolding acknowledge_def by (intro consumes_intro)

lemma consumes_store_block [consumes_intro]: "consumes (store_block p st data fin)"
  unfolding store_block_def Let_def by (intro consumes_intro)

function recv_data_loop :: "string \<Rightarrow> bool \<Rightarrow> rstate \<Rightarrow> rstate io" where
  "recv_data_loop p crc32 st s =
     (case ReadData crc32 s of
        (Inl _, s1) \<Rightarrow>
          andThen (WriteHeader (Position ZRPOS (of_nat (rpos st)))) (\<lambda>_. ret st) s1
      | (Inr (data, fin), s1) \<Rightarrow>
          (case store_block p st data fin s1 of
             (Inl e, s2) \<Rightarrow> (Inl e, s2)
           | (Inr st', s2) \<Rightarrow>
               if fin = ZCRCE \<or> fin = ZCRCW then (Inr st', s2)
               else recv_data_loop p crc32 st' s2))"
  by pat_completeness auto
termination
  by (relation "measure (\<lambda>(p, c, st, s). length (zin s))")
    (auto dest!: ReadData_decreases [OF sym] consumesD [OF consumes_store_block, OF sym])

declare recv_data_loop.simps [simp del]

lemma consumes_recv_data_loop [consumes_intro]: "consumes (recv_data_loop p c st)"
proof -
  have "length (zin (snd (recv_data_loop p c st s))) \<le> length (zin s)" for s
  proof (induction p c st s rule: recv_data_loop.induct)
    case (1 p c st s)
    obtain x s1 where rd: "ReadData c s = (x, s1)" by fastforce
    then have le1: "length (zin s1) \<le> length (zin s)"
      by (rule consumesD [OF consumes_ReadData])
    show ?case
    proof (cases x)
      case (Inl e)
      have "consumes (andThen (WriteHeader (Position ZRPOS (of_nat (rpos st)))) (\<lambda>_. ret st))"
        by (intro consumes_intro)
      with Inl rd le1 show ?thesis
        by (simp add: recv_data_loop.simps [of p c st s] consumes_def) (metis le_trans)
    next
      case (Inr d)
      obtain data fin where d: "d = (data, fin)" by fastforce
      obtain y s2 where sb: "store_block p st data fin s1 = (y, s2)" by fastforce
      then have "length (zin s2) \<le> length (zin s1)"
        by (rule consumesD [OF consumes_store_block])
      with le1 have le2: "length (zin s2) \<le> length (zin s)" by simp
      from 1 Inr d rd sb le2 show ?thesis
        by (cases y) (fastforce simp: recv_data_loop.simps [of p c st s])+
    qed
  qed
  then show ?thesis by (simp add: consumes_def)
qed

definition recv_data :: "header \<Rightarrow> rstate \<Rightarrow> rstate io" where
  "recv_data h st =
     (case rfile st of
        None \<Rightarrow> throw (Protocol DataWithoutFile)
      | Some p \<Rightarrow>
          if unat (hPosition h) \<noteq> rpos st then throw (Protocol UnexpectedDataPosition)
          else recv_data_loop p (hCRC32 h) st)"

definition recv_eof :: "header \<Rightarrow> rstate \<Rightarrow> rstate io" where
  "recv_eof h st =
     (if rfile st = None \<or> unat (hPosition h) \<noteq> rpos st \<or> rpos st \<noteq> rsize st
      then throw (Protocol IncompleteFile)
      else andThen env_call (\<lambda>_.
           andThen env_call (\<lambda>_.
           andThen (WriteHeader ready) (\<lambda>_.
           ret (st\<lparr>rfile := None\<rparr>)))))"

text \<open>
  The two letters that end the session.  A peer that closes instead of sending them has
  ended it as well.
\<close>

fun await_OO :: "nat \<Rightarrow> unit io" where
  "await_OO 0 s = (Inl (Protocol MissingFinalOO), s)"
| "await_OO (Suc left) s =
     (case ReadRaw s of
        (Inl e, s1) \<Rightarrow> if e = EOF then (Inr (), s1) else (Inl e, s1)
      | (Inr b, s1) \<Rightarrow>
          if b = 0x4F
          then (case ReadRaw s1 of
                  (Inl e, s2) \<Rightarrow> (Inl e, s2)
                | (Inr b1, s2) \<Rightarrow> if b1 = 0x4F then (Inr (), s2) else await_OO left s2)
          else await_OO left s1)"

text \<open>One turn of the main loop; \<open>None\<close> is the successful return.\<close>

definition recv_step :: "string \<Rightarrow> rstate \<Rightarrow> header \<Rightarrow> rstate option io" where
  "recv_step directory st h =
     (if hType h = ZRQINIT then andThen (WriteHeader ready) (\<lambda>_. ret (Some st))
      else if hType h = ZSINIT
      then andThen (ReadData (hCRC32 h)) (\<lambda>_.
           andThen (WriteHeader (Position ZACK 1)) (\<lambda>_. ret (Some st)))
      else if hType h = ZFILE then andThen (recv_file directory h) (\<lambda>st'. ret (Some st'))
      else if hType h = ZDATA then andThen (recv_data h st) (\<lambda>st'. ret (Some st'))
      else if hType h = ZEOF then andThen (recv_eof h st) (\<lambda>st'. ret (Some st'))
      else if hType h = ZFIN
      then (if rfile st \<noteq> None then throw (Protocol EndedBeforeCompletion)
            else andThen (WriteHeader (Position ZFIN 0)) (\<lambda>_.
                 andThen (await_OO 32) (\<lambda>_. ret None)))
      else if hType h = ZABORT then throw (Protocol RemoteAborted)
      else throw (Protocol (UnexpectedHeader (hType h))))"

lemma consumes_read_resume_loop [consumes_intro]: "consumes (read_resume_loop meta n)"
proof (induction n)
  case 0
  show ?case by (simp add: consumes_intro)
next
  case (Suc n)
  then show ?case
    by (auto intro!: consumes_intro split: prod.splits)
qed

lemma consumes_confirm_prefix [consumes_intro]: "consumes (confirm_prefix content meta)"
  unfolding confirm_prefix_def readResumeCRC_def by (intro consumes_intro)

lemma consumes_resume_position [consumes_intro]: "consumes (resume_position p len meta)"
  unfolding resume_position_def
proof (intro consumes_intro)
  show "consumes (\<lambda>s. case disk s p of
         None \<Rightarrow> (Inr 0, s)
       | Some NotRegular \<Rightarrow> (Inl (Protocol IncompatibleDestination), s)
       | Some (Regular content) \<Rightarrow>
           if length content > len then (Inl (Protocol IncompatibleDestination), s)
           else if length content = 0 then (Inr 0, s)
           else confirm_prefix content meta s)"
    using consumes_confirm_prefix unfolding consumes_def
    by (auto split: option.splits node.splits)
qed

lemma consumes_open_file [consumes_intro]: "consumes (open_file p)"
  unfolding open_file_def by (intro consumes_intro) (simp add: consumes_def)

lemma consumes_recv_file [consumes_intro]: "consumes (recv_file directory h)"
  unfolding recv_file_def Let_def
  by (intro consumes_intro) (auto intro!: consumes_intro split: prod.splits sum.splits)

lemma consumes_recv_data [consumes_intro]: "consumes (recv_data h st)"
  unfolding recv_data_def by (auto intro!: consumes_intro split: option.splits)

lemma consumes_recv_eof [consumes_intro]: "consumes (recv_eof h st)"
  unfolding recv_eof_def by (intro consumes_intro)

lemma consumes_await_OO [consumes_intro]: "consumes (await_OO n)"
proof -
  have "length (zin (snd (await_OO n s))) \<le> length (zin s)" for s
  proof (induction n arbitrary: s)
    case (Suc n)
    obtain x s1 where r1: "ReadRaw s = (x, s1)" by fastforce
    obtain y s2 where r2: "ReadRaw s1 = (y, s2)" by fastforce
    note le1 = consumesD [OF consumes_ReadRaw r1]
    note le2 = consumesD [OF consumes_ReadRaw r2]
    from r1 r2 le1 le2 Suc [of s1] Suc [of s2] show ?case
      by (cases x; cases y) auto
  qed simp
  then show ?thesis by (simp add: consumes_def)
qed

lemma consumes_recv_step [consumes_intro]: "consumes (recv_step directory st h)"
  unfolding recv_step_def by (intro consumes_intro)

subsection \<open>Receive\<close>

definition next_header :: "header io" where
  "next_header = andThen env_call (\<lambda>_. ReadHeader)"

lemma next_header_decreases: "next_header s = (Inr h, s') \<Longrightarrow> length (zin s') < length (zin s)"
  unfolding next_header_def
  by (auto elim!: andThen_Inr dest!: ReadHeader_decreases consumesD [OF consumes_env_call])

function recv_loop :: "string \<Rightarrow> rstate \<Rightarrow> unit io" where
  "recv_loop directory st s =
     (case next_header s of
        (Inl e, s1) \<Rightarrow> (Inl e, s1)
      | (Inr h, s1) \<Rightarrow>
          (case recv_step directory st h s1 of
             (Inl e, s2) \<Rightarrow> (Inl e, s2)
           | (Inr None, s2) \<Rightarrow> (Inr (), s2)
           | (Inr (Some st'), s2) \<Rightarrow> recv_loop directory st' s2))"
  by pat_completeness auto
termination
  by (relation "measure (\<lambda>(d, st, s). length (zin s))")
    (auto dest!: next_header_decreases [OF sym] consumesD [OF consumes_recv_step, OF sym])

declare recv_loop.simps [simp del]

definition recv_handshake :: "header option \<Rightarrow> header io" where
  "recv_handshake initial =
     (case initial of None \<Rightarrow> ReadHeader | Some h \<Rightarrow> ret h)"

definition Receive :: "string \<Rightarrow> header option \<Rightarrow> unit io" where
  "Receive directory initial =
     cancel_on_error
       (andThen env_call (\<lambda>_.
        andThen (recv_handshake initial) (\<lambda>h.
          if hType h \<noteq> ZRQINIT then throw (Protocol (ExpectedZRQINIT (hType h)))
          else andThen (WriteHeader ready) (\<lambda>_. recv_loop directory rstate_init))))"

subsection \<open>The whole transfer consumes its input\<close>

lemma consumes_cancel_on_error [consumes_intro]: "consumes m \<Longrightarrow> consumes (cancel_on_error m)"
  unfolding consumes_def cancel_on_error_def Cancel_def
  using consumes_WriteBytes [of cancel_bytes]
  by (auto simp: consumes_def split: prod.splits sum.splits) (metis le_trans snd_conv)+

lemma consumes_recv_loop [consumes_intro]: "consumes (recv_loop directory st)"
proof -
  have "length (zin (snd (recv_loop directory st s))) \<le> length (zin s)" for s
  proof (induction directory st s rule: recv_loop.induct)
    case (1 directory st s)
    obtain x s1 where nh: "next_header s = (x, s1)" by fastforce
    have "consumes next_header" unfolding next_header_def by (intro consumes_intro)
    then have le1: "length (zin s1) \<le> length (zin s)" using nh by (rule consumesD)
    show ?case
    proof (cases x)
      case (Inl e)
      with nh le1 show ?thesis by (simp add: recv_loop.simps [of directory st s])
    next
      case (Inr h)
      obtain y s2 where st: "recv_step directory st h s1 = (y, s2)" by fastforce
      have le2: "length (zin s2) \<le> length (zin s)"
        using consumesD [OF consumes_recv_step st] le1 by simp
      show ?thesis
      proof (cases "\<exists>st'. y = Inr (Some st')")
        case False
        with Inr nh st le2 show ?thesis
          by (cases y) (auto simp: recv_loop.simps [of directory st s] split: option.splits)
      next
        case True
        then obtain st' where y: "y = Inr (Some st')" by blast
        have "length (zin (snd (recv_loop directory st' s2))) \<le> length (zin s2)"
          using "1.IH" [of x s1 h y s2] nh st Inr y by auto
        with Inr nh st y le2 show ?thesis by (simp add: recv_loop.simps [of directory st s])
      qed
    qed
  qed
  then show ?thesis by (simp add: consumes_def)
qed

lemma consumes_Receive [consumes_intro]: "consumes (Receive directory initial)"
proof -
  have "consumes (recv_handshake initial)"
    unfolding recv_handshake_def by (cases initial) (auto intro!: consumes_intro)
  then show ?thesis unfolding Receive_def by (intro consumes_intro)
qed

lemma consumes_await_position [consumes_intro]: "consumes (await_position content n)"
  by (induction n) (auto intro!: consumes_intro simp: Let_def)

lemma consumes_send_block [consumes_intro]: "consumes (send_block content pos)"
  unfolding send_block_def Let_def by (intro consumes_intro)

lemma consumes_send_loop [consumes_intro]: "consumes (send_loop name content pos retries)"
proof -
  have "length (zin (snd (send_loop name content pos retries s))) \<le> length (zin s)" for s
  proof (induction name content pos retries s rule: send_loop.induct)
    case (1 name content pos retries s)
    note step = send_loop.simps [of name content pos retries s]
    obtain x s1 where blk: "send_block content pos s = (x, s1)" by fastforce
    have le1: "length (zin s1) \<le> length (zin s)" using consumesD [OF consumes_send_block blk] .
    show ?case
    proof (cases "unat pos < length content \<and> (\<exists>n h. x = Inr (n, h))")
      case False
      with blk le1 show ?thesis by (cases x) (auto simp: step)
    next
      case True
      then obtain n h where x: "x = Inr (n, h)" by blast
      from True have lt: "unat pos < length content" by blast
      note IH = "1.IH" [OF lt blk [symmetric] x HOL.refl]
      from IH(1) IH(2) blk x lt le1 show ?thesis
        by (auto simp: step le_trans [OF _ le1])
    qed
  qed
  then show ?thesis by (simp add: consumes_def)
qed

lemma consumes_send_content [consumes_intro]: "consumes (send_content name content)"
proof -
  have "consumes (Pair (Inr ()))" by (simp add: consumes_def)
  then have "consumes (finish_file name content pos)" for pos
    unfolding finish_file_def by (intro consumes_intro)
  then show ?thesis
    unfolding send_content_def by (auto intro!: consumes_intro split: option.splits)
qed

lemma consumes_sendFile [consumes_intro]: "consumes (sendFile name)"
proof -
  have "consumes (\<lambda>s. case disk s name of None \<Rightarrow> (Inl not_exist, s)
       | Some NotRegular \<Rightarrow> (Inl (Protocol NotRegularOrTooLarge), s)
       | Some (Regular content) \<Rightarrow>
           if length content > 2 ^ 32 - 1 then (Inl (Protocol NotRegularOrTooLarge), s)
           else send_content name content s)"
    using consumes_send_content
    by (auto simp: consumes_def split: option.splits node.splits)
  then show ?thesis unfolding sendFile_def by (intro consumes_intro)
qed

lemma consumes_Send [consumes_intro]: "consumes (Send files initial)"
proof -
  have "consumes (send_files names)" for names
    by (induction names) (auto intro!: consumes_intro)
  moreover have "consumes (await_fin n)" for n
    by (induction n) (auto intro!: consumes_intro)
  moreover have "consumes (send_handshake initial)"
    unfolding send_handshake_def by (cases initial) (auto intro!: consumes_intro)
  ultimately show ?thesis unfolding Send_def by (intro consumes_intro)
qed

end
