(* ===== verification/ZmodemFrames.thy ===== *)
theory ZmodemFrames
  imports ZmodemReceive
begin

text \<open>
  What a transfer may change.  A frame is a relation between the state before and after
  that every operation on the transport keeps; \<open>report_frame\<close> adds the progress
  reports and covers the whole sending side, \<open>receive_frame\<close> adds the two changes the
  receiver makes to files and covers the receiving side.  The frames of the program are
  the interpretations at the end: the sender changes no file, both sides report no more
  than the size of the file, and the receiver only creates files under safe names in
  its directory and appends to them.
\<close>

text \<open>What the receiver knows of the file it has open.\<close>

definition recv_inv :: "string \<Rightarrow> rstate \<Rightarrow> zs \<Rightarrow> bool" where
  "recv_inv directory st s \<longleftrightarrow>
     (\<forall>p. rfile st = Some p \<longrightarrow>
        (\<exists>name. safeName name \<and> p = JoinPath [directory, name])
        \<and> (\<exists>c. disk s p = Some (Regular c) \<and> length c = rpos st)
        \<and> rpos st \<le> rsize st)"

lemma recv_inv_closed [simp]: "rfile st = None \<Longrightarrow> recv_inv directory st s"
  by (simp add: recv_inv_def)

lemma recv_inv_disk: "disk s' = disk s \<Longrightarrow> recv_inv directory st s \<Longrightarrow> recv_inv directory st s'"
  by (simp add: recv_inv_def)

locale frame = preserved rel for rel :: "zs \<Rightarrow> zs \<Rightarrow> bool" +
  assumes zin: "rel s (s\<lparr>zin := i\<rparr>)"
    and zout: "rel s (s\<lparr>zout := o1\<rparr>)"
    and faults: "rel s (s\<lparr>faults := f\<rparr>)"
begin

lemma keeps_env_call: "keeps rel env_call"
  by (auto simp: keeps_def env_call_def refl faults split: list.splits option.splits)

lemma write_step: "rel s (s\<lparr>faults := f, zout := o1\<rparr>)"
  using trans [OF faults zout] by simp

lemma keeps_WriteBytes: "keeps rel (WriteBytes b)"
  by (auto simp: keeps_def WriteBytes_def zout write_step split: list.splits option.splits)

lemma keeps_WriteHeader: "keeps rel (WriteHeader h)"
  by (simp add: WriteHeader_def keeps_WriteBytes)

lemma keeps_WriteData: "keeps rel (WriteData d fin c)"
  by (simp add: WriteData_def keeps_WriteBytes)

lemma keeps_ReadRaw: "keeps rel ReadRaw"
  by (simp add: keeps_def ReadRaw_def zin split: prod.splits)

lemma keeps_ReadHeader: "keeps rel ReadHeader"
  by (simp add: keeps_def ReadHeader_def zin split: prod.splits)

lemma keeps_ReadData: "keeps rel (ReadData c)"
  by (simp add: keeps_def ReadData_def zin split: prod.splits)

lemmas keeps_intro = keeps_ret keeps_throw keeps_andThen keeps_if keeps_env_call keeps_WriteBytes
  keeps_WriteHeader keeps_WriteData keeps_ReadRaw keeps_ReadHeader keeps_ReadData

lemma keeps_cancel_on_error: "keeps rel m \<Longrightarrow> keeps rel (cancel_on_error m)"
  unfolding keeps_def
proof
  fix s
  assume m: "\<forall>s. rel s (snd (m s))"
  obtain x s1 where run: "m s = (x, s1)" by fastforce
  with m have "rel s s1" by (metis snd_conv)
  moreover have "rel s1 (Cancel s1)"
    using keeps_WriteBytes by (simp add: keeps_def Cancel_def)
  ultimately show "rel s (snd (cancel_on_error m s))"
    using run by (cases x) (auto simp: cancel_on_error_def intro: trans)
qed

lemma keeps_await_position: "keeps rel (await_position content n)"
proof (induction n)
  case (Suc n)
  then show ?case
    unfolding await_position.simps Let_def by (intro keeps_intro)
qed (simp add: keeps_intro)

lemma keeps_send_block: "keeps rel (send_block content pos)"
  unfolding send_block_def Let_def by (intro keeps_intro)

lemma keeps_await_fin: "keeps rel (await_fin n)"
  by (induction n) (auto intro!: keeps_intro)

lemma keeps_send_handshake: "keeps rel (send_handshake initial)"
  unfolding send_handshake_def by (cases initial) (auto intro!: keeps_intro)

lemma keeps_readResumeCRC: "keeps rel (readResumeCRC meta)"
proof -
  have "keeps rel (read_resume_loop meta n)" for n
    by (induction n) (auto intro!: keeps_intro split: prod.splits)
  then show ?thesis by (simp add: readResumeCRC_def)
qed

lemma keeps_confirm_prefix: "keeps rel (confirm_prefix content meta)"
  unfolding confirm_prefix_def by (intro keeps_intro keeps_readResumeCRC)

lemma keeps_resume_position: "keeps rel (resume_position p len meta)"
  unfolding resume_position_def using keeps_confirm_prefix
  by (intro keeps_intro) (auto simp: keeps_def refl split: option.splits node.splits)

lemma keeps_await_OO: "keeps rel (await_OO n)"
proof -
  have "rel s (snd (await_OO n s))" for s
  proof (induction n arbitrary: s)
    case (Suc n)
    obtain x s1 where r1: "ReadRaw s = (x, s1)" by fastforce
    obtain y s2 where r2: "ReadRaw s1 = (y, s2)" by fastforce
    note k1 = keepsD [OF keeps_ReadRaw r1]
    have k2: "rel s s2" using k1 keepsD [OF keeps_ReadRaw r2] by (rule trans)
    from r1 r2 k1 k2 Suc [of s1] Suc [of s2] show ?case
      by (cases x; cases y) (auto intro: trans)
  qed (simp add: refl)
  then show ?thesis by (simp add: keeps_def)
qed

end

locale report_frame = frame +
  assumes report: "sofar \<le> full \<Longrightarrow> rel s (report name sofar full s)"
begin

lemma keeps_report: "sofar \<le> full \<Longrightarrow> keeps rel (\<lambda>s. (Inr x, report name sofar full s))"
  by (simp add: keeps_def report)

lemma keeps_send_loop:
  assumes len: "length content < 2 ^ 32"
  shows "rel s (snd (send_loop name content pos retries s))"
  using len
proof (induction name content pos retries s rule: send_loop.induct)
  case (1 name content pos retries s)
  show ?case
  proof (cases "unat pos < length content")
    case False
    then show ?thesis by (simp add: send_loop.simps [of name content pos] refl)
  next
    case True
    obtain x s1 where blk: "send_block content pos s = (x, s1)" by fastforce
    then have k1: "rel s s1" by (rule keepsD [OF keeps_send_block])
    show ?thesis
    proof (cases x)
      case (Inl e)
      with blk k1 True show ?thesis by (simp add: send_loop.simps [of name content pos])
    next
      case (Inr y)
      obtain n h where y: "y = (n, h)" by fastforce
      with Inr blk have n: "n = min 8192 (length content - unat pos)" by (auto dest: send_block_size)
      let ?s2 = "report (Base name) (unat (pos + of_nat n)) (length content) s1"
      have "rel s1 ?s2" using block_end [OF "1.prems" True n] by (intro report) simp
      with k1 have k2: "rel s ?s2" by (rule trans)
      note step = send_loop.simps [of name content pos retries s]
      show ?thesis
      proof (cases "hType h = ZACK \<and> hPosition h = pos + of_nat n")
        case True
        with "1.IH"(1) [OF \<open>unat pos < length content\<close> blk [symmetric] Inr y [symmetric]] "1.prems"
        have "rel ?s2 (snd (send_loop name content (pos + of_nat n) 0 ?s2))" by simp
        with k2 True blk Inr y \<open>unat pos < length content\<close> show ?thesis
          by (simp add: step) (rule trans)
      next
        case False
        with "1.IH"(2) [OF \<open>unat pos < length content\<close> blk [symmetric] Inr y [symmetric]] "1.prems"
          k1 blk Inr y \<open>unat pos < length content\<close> show ?thesis
          by (auto simp: step intro: trans)
      qed
    qed
  qed
qed

lemma keeps_finish_file: "keeps rel (finish_file name content pos)"
  unfolding finish_file_def by (intro keeps_intro keeps_report) simp

lemma keeps_send_content: "length content < 2 ^ 32 \<Longrightarrow> keeps rel (send_content name content)"
proof -
  assume len: "length content < 2 ^ 32"
  have "keeps rel (send_loop name content pos retries)" for pos retries
    using keeps_send_loop [OF len] by (simp add: keeps_def)
  then show ?thesis
    unfolding send_content_def
    by (intro keeps_intro keeps_await_position)
      (auto intro!: keeps_intro keeps_finish_file split: option.splits)
qed

lemma keeps_sendFile: "keeps rel (sendFile name)"
  unfolding sendFile_def
proof (intro keeps_intro)
  show "keeps rel (\<lambda>s. case disk s name of None \<Rightarrow> (Inl not_exist, s)
       | Some NotRegular \<Rightarrow> (Inl (Protocol NotRegularOrTooLarge), s)
       | Some (Regular content) \<Rightarrow>
           if length content > 2 ^ 32 - 1 then (Inl (Protocol NotRegularOrTooLarge), s)
           else send_content name content s)"
    using keeps_send_content
    by (auto simp: keeps_def refl split: option.splits node.splits)
qed

lemma keeps_Send: "keeps rel (Send files initial)"
proof -
  have "keeps rel (send_files names)" for names
    by (induction names) (auto intro!: keeps_intro keeps_sendFile)
  then show ?thesis
    unfolding Send_def
    by (intro keeps_cancel_on_error keeps_intro keeps_send_handshake keeps_await_fin)
qed

end

text \<open>The first frame of the program: no file changes.  It covers all of the sender.\<close>

definition same_files :: "zs \<Rightarrow> zs \<Rightarrow> bool" where
  "same_files s s' \<longleftrightarrow> disk s' = disk s"

interpretation files: report_frame same_files
  by unfold_locales (simp_all add: same_files_def report_def)

subsection \<open>The receiver's changes to files\<close>

lemma write_at_end: "length content = off \<Longrightarrow> write_at content off data = content @ data"
  by (simp add: write_at_def)

lemma env_call_disk: "env_call s = (x, s') \<Longrightarrow> disk s' = disk s"
  using files.keepsD [OF files.keeps_env_call] by (simp add: same_files_def)

lemma confirm_prefix_result:
  "confirm_prefix c meta s = (Inr pos, s') \<Longrightarrow> pos = length c \<and> disk s' = disk s"
  using files.keepsD [OF files.keeps_confirm_prefix, of c meta s "Inr pos" s']
  by (auto simp: confirm_prefix_def throw_def ret_def same_files_def elim!: andThen_Inr split: if_splits)

lemma resume_position_result:
  assumes "resume_position p len meta s = (Inr pos, s')"
  shows "disk s' p = None \<and> pos = 0
     \<or> (\<exists>c. disk s' p = Some (Regular c) \<and> pos = length c \<and> pos \<le> len)"
  using assms unfolding resume_position_def
  by (elim andThen_Inr)
    (auto dest: confirm_prefix_result split: option.splits node.splits if_splits)

locale receive_frame = report_frame +
  fixes directory :: string
  assumes create: "safeName name \<Longrightarrow> p = JoinPath [directory, name] \<Longrightarrow> disk s p = None \<Longrightarrow>
      rel s (s\<lparr>disk := (disk s)(p \<mapsto> Regular [])\<rparr>)"
    and append: "safeName name \<Longrightarrow> p = JoinPath [directory, name] \<Longrightarrow> disk s p = Some (Regular c) \<Longrightarrow>
      rel s (s\<lparr>disk := (disk s)(p \<mapsto> Regular (c @ d))\<rparr>)"
begin

lemma put_bytes_end:
  assumes "recv_inv directory st s" "rfile st = Some p"
  shows "rel s (put_bytes p (rpos st) data s)"
    and "\<exists>c. disk (put_bytes p (rpos st) data s) p = Some (Regular c) \<and> length c = rpos st + length data"
proof -
  from assms obtain name c where nm: "safeName name" "p = JoinPath [directory, name]"
    and c: "disk s p = Some (Regular c)" "length c = rpos st"
    by (auto simp: recv_inv_def)
  have eq: "put_bytes p (rpos st) data s = s\<lparr>disk := (disk s)(p \<mapsto> Regular (c @ data))\<rparr>"
    using c by (simp add: put_bytes_def write_at_end)
  show "rel s (put_bytes p (rpos st) data s)" unfolding eq using nm c(1) by (rule append)
  show "\<exists>c. disk (put_bytes p (rpos st) data s) p = Some (Regular c) \<and> length c = rpos st + length data"
    unfolding eq using c by simp
qed

lemma write_file_end:
  assumes "recv_inv directory st s" "rfile st = Some p" "write_file p (rpos st) data s = (x, s')"
  shows "rel s s'"
    and "x = Inr u \<Longrightarrow> \<exists>c. disk s' p = Some (Regular c) \<and> length c = rpos st + length data"
proof -
  have inv: "recv_inv directory st (s\<lparr>faults := f\<rparr>)" for f
    using assms(1) by (rule recv_inv_disk [rotated]) simp
  note step = put_bytes_end [OF inv assms(2)]
  show "rel s s'"
    using assms(3) put_bytes_end(1) [OF assms(1,2)] trans [OF faults step(1)]
    by (auto simp: write_file_def split: list.splits option.splits)
  show "x = Inr u \<Longrightarrow> \<exists>c. disk s' p = Some (Regular c) \<and> length c = rpos st + length data"
    using assms(3) put_bytes_end(2) [OF assms(1,2)] step(2)
    by (auto simp: write_file_def split: list.splits option.splits)
qed

lemma keeps_acknowledge: "keeps rel (acknowledge st fin)"
  unfolding acknowledge_def by (intro keeps_intro)

lemma acknowledge_same: "acknowledge st fin s = (Inr st', s') \<Longrightarrow> st' = st \<and> disk s' = disk s"
  by (auto simp: acknowledge_def ret_def same_files_def elim!: andThen_Inr split: if_splits
      dest: files.keepsD [OF files.keeps_WriteHeader])

lemma store_block_frame:
  assumes "recv_inv directory st s" "rfile st = Some p" "store_block p st data fin s = (x, s')"
  shows "rel s s'"
    and "x = Inr st' \<Longrightarrow> recv_inv directory st' s' \<and> rfile st' = Some p"
proof -
  obtain y s1 where wr: "write_file p (rpos st) data s = (y, s1)" by fastforce
  note w = write_file_end [OF assms(1,2) wr]
  let ?st = "st\<lparr>rpos := rpos st + length data\<rparr>"
  let ?s2 = "report (rname ?st) (rpos ?st) (rsize ?st) s1"
  have goal: "rel s s' \<and> (x = Inr st' \<longrightarrow> recv_inv directory st' s' \<and> rfile st' = Some p)"
  proof (cases "rpos st + length data > rsize st")
    case True
    with assms(3) show ?thesis by (auto simp: store_block_def throw_def refl)
  next
    case fits: False
    show ?thesis
    proof (cases y)
      case (Inl e)
      with fits assms(3) wr w(1) show ?thesis by (auto simp: store_block_def andThen_def)
    next
      case (Inr u)
      then have ack: "acknowledge ?st fin ?s2 = (x, s')"
        using fits assms(3) wr by (simp add: store_block_def andThen_def Let_def)
      have "rel s1 ?s2" using fits by (intro report) simp
      then have rel: "rel s s'"
        using w(1) trans keepsD [OF keeps_acknowledge ack] by blast
      have inv: "recv_inv directory ?st s1"
        using assms(1,2) w(2) [OF Inr] fits by (auto simp: recv_inv_def)
      have "recv_inv directory st' s' \<and> rfile st' = Some p" if "x = Inr st'"
      proof -
        from acknowledge_same [OF ack [unfolded that]]
        have "st' = ?st" "disk s' = disk s1" by (simp_all add: report_def)
        with inv assms(2) show ?thesis by (auto intro: recv_inv_disk [of s' s1])
      qed
      with rel show ?thesis by blast
    qed
  qed
  from goal show "rel s s'" by blast
  from goal show "x = Inr st' \<Longrightarrow> recv_inv directory st' s' \<and> rfile st' = Some p" by blast
qed

lemma recv_data_loop_frame:
  "recv_inv directory st s \<Longrightarrow> rfile st = Some p \<Longrightarrow> recv_data_loop p c st s = (x, s') \<Longrightarrow>
     rel s s' \<and> (\<forall>st'. x = Inr st' \<longrightarrow> recv_inv directory st' s')"
proof (induction p c st s arbitrary: x s' rule: recv_data_loop.induct)
  case (1 p c st s)
  note step = recv_data_loop.simps [of p c st s]
  obtain y s1 where rd: "ReadData c s = (y, s1)" by fastforce
  have k1: "rel s s1" using keepsD [OF keeps_ReadData rd] .
  have d1: "disk s1 = disk s"
    using files.keepsD [OF files.keeps_ReadData rd] by (simp add: same_files_def)
  then have inv1: "recv_inv directory st s1" using "1.prems"(1) by (rule recv_inv_disk)
  show ?case
  proof (cases y)
    case (Inl e)
    let ?again = "andThen (WriteHeader (Position ZRPOS (of_nat (rpos st)))) (\<lambda>_. ret st)"
    have run: "?again s1 = (x, s')" using Inl rd "1.prems"(3) by (simp add: step)
    have "keeps rel ?again" by (intro keeps_intro)
    then have "rel s s'" using k1 run trans keepsD by blast
    moreover have "recv_inv directory st' s'" if "x = Inr st'" for st'
    proof -
      from run that have "st' = st" by (auto simp: ret_def elim!: andThen_Inr)
      moreover have "keeps same_files ?again" by (intro files.keeps_intro)
      then have "disk s' = disk s1" using run files.keepsD by (auto simp: same_files_def)
      ultimately show ?thesis using inv1 recv_inv_disk by blast
    qed
    ultimately show ?thesis by blast
  next
    case (Inr d)
    obtain data fin where d: "d = (data, fin)" by fastforce
    obtain z s2 where sb: "store_block p st data fin s1 = (z, s2)" by fastforce
    note f = store_block_frame [OF inv1 "1.prems"(2) sb]
    have k2: "rel s s2" using k1 f(1) by (rule trans)
    show ?thesis
    proof (cases z)
      case (Inl e)
      with Inr d rd sb k2 "1.prems"(3) show ?thesis by (auto simp: step)
    next
      case z: (Inr st1)
      note inv2 = f(2) [OF z]
      show ?thesis
      proof (cases "fin = ZCRCE \<or> fin = ZCRCW")
        case True
        with Inr d rd sb k2 z inv2 "1.prems"(3) show ?thesis by (auto simp: step)
      next
        case False
        with Inr d rd sb z "1.prems"(3) have "recv_data_loop p c st1 s2 = (x, s')"
          by (simp add: step)
        from "1.IH" [OF rd [symmetric] Inr d [symmetric] sb [symmetric] z False _ _ this] inv2 k2
        show ?thesis using trans by blast
      qed
    qed
  qed
qed

lemma recv_data_frame:
  assumes "recv_inv directory st s" "recv_data h st s = (x, s')"
  shows "rel s s'" "x = Inr st' \<Longrightarrow> recv_inv directory st' s'"
  using assms recv_data_loop_frame
  by (auto simp: recv_data_def throw_def refl split: option.splits if_splits)

lemma open_file_frame:
  assumes "safeName name" "p = JoinPath [directory, name]" "open_file p s = (x, s')"
  shows "rel s s'"
    and "x = Inr u \<Longrightarrow> disk s p = None \<or> disk s p = Some (Regular c) \<Longrightarrow>
           disk s' p = Some (Regular (if disk s p = None then [] else c))"
proof -
  have "keeps rel (\<lambda>s. (Inr (), if disk s p = None then s\<lparr>disk := (disk s)(p \<mapsto> Regular [])\<rparr> else s))"
    using create [OF assms(1,2)] by (simp add: keeps_def refl)
  then have "keeps rel (open_file p)"
    unfolding open_file_def by (intro keeps_andThen keeps_env_call)
  then show "rel s s'" using assms(3) keepsD by blast
  show "x = Inr u \<Longrightarrow> disk s p = None \<or> disk s p = Some (Regular c) \<Longrightarrow>
           disk s' p = Some (Regular (if disk s p = None then [] else c))"
    using assms(3) unfolding open_file_def
    by (auto elim!: andThen_Inr dest!: env_call_disk split: if_splits)
qed

lemma recv_file_frame:
  assumes run: "recv_file directory h s = (x, s')"
  shows "rel s s' \<and> (\<forall>st'. x = Inr st' \<longrightarrow> recv_inv directory st' s')"
proof -
  obtain y s1 where rd: "ReadData (hCRC32 h) s = (y, s1)" by fastforce
  have k1: "rel s s1" using keepsD [OF keeps_ReadData rd] .
  show ?thesis
  proof (cases "\<exists>meta fin name len. y = Inr (meta, fin) \<and> parse_metadata meta = Inr (name, len)")
    case False
    with run rd k1 show ?thesis
      by (cases y) (auto simp: recv_file_def andThen_def throw_def split: sum.splits)
  next
    case True
    then obtain meta fin name len where y: "y = Inr (meta, fin)"
      and meta: "parse_metadata meta = Inr (name, len)" by blast
    have safe: "safeName name"
      using meta by (auto simp: parse_metadata_def Let_def split: if_splits list.splits option.splits)
    let ?p = "JoinPath [directory, name]"
    let ?st = "\<lambda>pos. \<lparr>rfile = Some ?p, rname = name, rsize = len, rpos = pos\<rparr>"
    let ?ack = "\<lambda>pos. andThen env_call (\<lambda>_. andThen (WriteHeader (Position ZRPOS (of_nat pos)))
                   (\<lambda>_. ret (?st pos)))"
    obtain z s2 where rp: "resume_position ?p len meta s1 = (z, s2)" by fastforce
    have k2: "rel s s2" using k1 keepsD [OF keeps_resume_position rp] by (rule trans)
    show ?thesis
    proof (cases z)
      case (Inl e)
      with run rd y meta rp k2 show ?thesis by (auto simp: recv_file_def andThen_def Let_def)
    next
      case (Inr pos)
      obtain w s3 where op: "open_file ?p s2 = (w, s3)" by fastforce
      note o = open_file_frame [OF safe HOL.refl op]
      have k3: "rel s s3" using k2 o(1) by (rule trans)
      have rest: "(case w of Inl e \<Rightarrow> (Inl e, s3) | Inr _ \<Rightarrow> ?ack pos s3) = (x, s')"
        using run rd y meta rp Inr op by (simp add: recv_file_def andThen_def Let_def split: sum.splits)
      show ?thesis
      proof (cases w)
        case w: (Inl e)
        with rest k3 show ?thesis by auto
      next
        case w: (Inr u)
        have "keeps rel (?ack pos)" by (intro keeps_intro)
        with rest w k3 have "rel s s'" using trans keepsD by fastforce
        moreover have "recv_inv directory st' s'" if "x = Inr st'" for st'
        proof -
          have "keeps same_files (?ack pos)" by (intro files.keeps_intro)
          then have d: "disk s' = disk s3" using rest w files.keepsD by (fastforce simp: same_files_def)
          have st': "st' = ?st pos" using rest w that by (auto simp: ret_def elim!: andThen_Inr)
          have "\<exists>c. disk s3 ?p = Some (Regular c) \<and> length c = pos" "pos \<le> len"
            using resume_position_result [OF rp [unfolded Inr]] o(2) [OF w] by auto
          with d safe show ?thesis by (auto simp: recv_inv_def st')
        qed
        ultimately show ?thesis by blast
      qed
    qed
  qed
qed

lemma recv_eof_frame:
  "keeps rel (recv_eof h st)" "recv_eof h st s = (Inr st', s') \<Longrightarrow> rfile st' = None"
  unfolding recv_eof_def by (intro keeps_intro, auto simp: throw_def ret_def elim!: andThen_Inr split: if_splits)

lemma keeps_recv_step: "recv_inv directory st s \<Longrightarrow> recv_step directory st h s = (x, s') \<Longrightarrow> rel s s'"
proof -
  assume inv: "recv_inv directory st s" and run: "recv_step directory st h s = (x, s')"
  have arrived: "rel s (snd (andThen (recv_file directory h) (\<lambda>st'. ret (Some st')) s))"
    by (auto simp: andThen_def ret_def split: prod.splits sum.splits dest: recv_file_frame)
  have data: "rel s (snd (andThen (recv_data h st) (\<lambda>st'. ret (Some st')) s))"
    using recv_data_frame(1) [OF inv]
    by (auto simp: andThen_def ret_def split: prod.splits sum.splits)
  have k: "keeps rel (andThen (WriteHeader ready) (\<lambda>_. ret (Some st)))"
    "keeps rel (andThen (ReadData (hCRC32 h)) (\<lambda>_. andThen (WriteHeader (Position ZACK 1)) (\<lambda>_. ret (Some st))))"
    "keeps rel (andThen (recv_eof h st) (\<lambda>st'. ret (Some st')))"
    "keeps rel (andThen (WriteHeader (Position ZFIN 0)) (\<lambda>_. andThen (await_OO 32) (\<lambda>_. ret (None :: rstate option))))"
    by (intro keeps_intro recv_eof_frame(1) keeps_await_OO)+
  have "rel s (snd (recv_step directory st h s))"
    using arrived data k [unfolded keeps_def, rule_format, of s] refl [of s]
    unfolding recv_step_def throw_def by (simp split: if_split)
  with run show ?thesis by simp
qed

lemma recv_step_inv:
  assumes inv: "recv_inv directory st s" and run: "recv_step directory st h s = (Inr (Some st'), s')"
  shows "recv_inv directory st' s'"
proof -
  have same: "recv_inv directory st s'" if "m s = (y, s')" "keeps same_files m" for m :: "'b io" and y
    using that files.keepsD inv recv_inv_disk by (fastforce simp: same_files_def)
  have k: "keeps same_files (andThen (WriteHeader ready) (\<lambda>_. ret (Some st)))"
    "keeps same_files (andThen (ReadData (hCRC32 h)) (\<lambda>_. andThen (WriteHeader (Position ZACK 1)) (\<lambda>_. ret (Some st))))"
    by (intro files.keeps_intro)+
  have keep1: "recv_inv directory st' s'"
    if "andThen (WriteHeader ready) (\<lambda>_. ret (Some st)) s = (Inr (Some st'), s')"
    using that same [OF that k(1)] by (auto simp: ret_def elim!: andThen_Inr)
  have keep2: "recv_inv directory st' s'"
    if "andThen (ReadData (hCRC32 h)) (\<lambda>_. andThen (WriteHeader (Position ZACK 1)) (\<lambda>_. ret (Some st))) s
          = (Inr (Some st'), s')"
    using that same [OF that k(2)] by (auto simp: ret_def elim!: andThen_Inr)
  have arrived: "recv_inv directory st' s'"
    if "andThen (recv_file directory h) (\<lambda>st'. ret (Some st')) s = (Inr (Some st'), s')"
    using that by (auto simp: ret_def elim!: andThen_Inr dest: recv_file_frame)
  have data: "recv_inv directory st' s'"
    if "andThen (recv_data h st) (\<lambda>st'. ret (Some st')) s = (Inr (Some st'), s')"
    using that recv_data_frame(2) [OF inv] by (auto simp: ret_def elim!: andThen_Inr)
  have eof: "recv_inv directory st' s'"
    if "andThen (recv_eof h st) (\<lambda>st'. ret (Some st')) s = (Inr (Some st'), s')"
    using that by (auto simp: ret_def elim!: andThen_Inr dest: recv_eof_frame(2))
  have fin: "recv_inv directory st' s'"
    if "andThen (WriteHeader (Position ZFIN 0)) (\<lambda>_. andThen (await_OO 32) (\<lambda>_. ret None)) s = (Inr (Some st'), s')"
    using that by (auto simp: ret_def elim!: andThen_Inr)
  show ?thesis
    using run keep1 keep2 arrived data eof fin
    unfolding recv_step_def throw_def by (simp split: if_split_asm)
qed

lemma recv_loop_frame:
  "d = directory \<Longrightarrow> recv_inv directory st s \<Longrightarrow> rel s (snd (recv_loop directory st s))"
proof (induction d st s rule: recv_loop.induct)
  case (1 d st s)
  note step = recv_loop.simps [of directory st s]
  have k: "keeps rel next_header" "keeps same_files next_header"
    unfolding next_header_def by (intro keeps_intro, intro files.keeps_intro)
  obtain y s1 where rd: "next_header s = (y, s1)" by fastforce
  have k1: "rel s s1" using keepsD [OF k(1) rd] .
  have inv1: "recv_inv directory st s1"
    using files.keepsD [OF k(2) rd] "1.prems" recv_inv_disk by (auto simp: same_files_def)
  show ?case
  proof (cases y)
    case (Inl e)
    with rd k1 show ?thesis by (simp add: step)
  next
    case (Inr h)
    obtain z s2 where st: "recv_step directory st h s1 = (z, s2)" by fastforce
    have k2: "rel s s2" using k1 keeps_recv_step [OF inv1 st] by (rule trans)
    show ?thesis
    proof (cases "\<exists>st'. z = Inr (Some st')")
      case False
      with Inr rd st k2 show ?thesis by (cases z) (auto simp: step split: option.splits)
    next
      case True
      then obtain st' where z: "z = Inr (Some st')" by blast
      have "rel s2 (snd (recv_loop directory st' s2))"
        using "1.IH" [of y s1 h z s2] rd st Inr z "1.prems" recv_step_inv [OF inv1 st [unfolded z]] by auto
      with k2 Inr rd st z show ?thesis by (simp add: step) (rule trans)
    qed
  qed
qed

lemma keeps_Receive: "keeps rel (Receive directory initial)"
proof -
  have "keeps rel (recv_loop directory rstate_init)"
    unfolding keeps_def by (intro allI recv_loop_frame) (simp_all add: rstate_init_def)
  moreover have "keeps rel (recv_handshake initial)"
    unfolding recv_handshake_def by (cases initial) (auto intro!: keeps_intro)
  ultimately show ?thesis
    unfolding Receive_def by (intro keeps_cancel_on_error keeps_intro)
qed

end

subsection \<open>What the frames are for\<close>

text \<open>
  \<open>extends directory s s'\<close>: from \<open>s\<close> to \<open>s'\<close> every file kept its bytes, anything that is
  not a regular file stayed as it was, and a path that changed or came into being is a
  regular file directly in \<open>directory\<close> under a name that \<open>safeName\<close> accepts.
\<close>

definition extends :: "string \<Rightarrow> zs \<Rightarrow> zs \<Rightarrow> bool" where
  "extends directory s s' \<longleftrightarrow>
     (\<forall>p. disk s' p \<noteq> disk s p \<longrightarrow>
        (\<exists>name c d. safeName name \<and> p = JoinPath [directory, name]
           \<and> (disk s p = None \<and> c = [] \<or> disk s p = Some (Regular c))
           \<and> disk s' p = Some (Regular (c @ d))))"

lemma extends_trans: "extends dir s t \<Longrightarrow> extends dir t u \<Longrightarrow> extends dir s u"
  unfolding extends_def
proof (intro allI impI)
  fix p
  assume st: "\<forall>p. disk t p \<noteq> disk s p \<longrightarrow> (\<exists>name c d. safeName name \<and> p = JoinPath [dir, name]
           \<and> (disk s p = None \<and> c = [] \<or> disk s p = Some (Regular c)) \<and> disk t p = Some (Regular (c @ d)))"
    and tu: "\<forall>p. disk u p \<noteq> disk t p \<longrightarrow> (\<exists>name c d. safeName name \<and> p = JoinPath [dir, name]
           \<and> (disk t p = None \<and> c = [] \<or> disk t p = Some (Regular c)) \<and> disk u p = Some (Regular (c @ d)))"
    and "disk u p \<noteq> disk s p"
  then consider "disk t p = disk s p" | "disk u p = disk t p" | "disk t p \<noteq> disk s p" "disk u p \<noteq> disk t p"
    by blast
  then show "\<exists>name c d. safeName name \<and> p = JoinPath [dir, name]
           \<and> (disk s p = None \<and> c = [] \<or> disk s p = Some (Regular c)) \<and> disk u p = Some (Regular (c @ d))"
  proof cases
    case 1
    then show ?thesis using tu \<open>disk u p \<noteq> disk s p\<close> by metis
  next
    case 2
    then show ?thesis using st \<open>disk u p \<noteq> disk s p\<close> by metis
  next
    case 3
    from st 3(1) obtain name c d where n: "safeName name" "p = JoinPath [dir, name]"
      "disk s p = None \<and> c = [] \<or> disk s p = Some (Regular c)" "disk t p = Some (Regular (c @ d))" by blast
    from tu 3(2) obtain c' d' where "disk t p = None \<and> c' = [] \<or> disk t p = Some (Regular c')"
      "disk u p = Some (Regular (c' @ d'))" by blast
    with n have "disk u p = Some (Regular (c @ d @ d'))" by auto
    with n show ?thesis by blast
  qed
qed

text \<open>\<open>bounded s s'\<close>: the reports made from \<open>s\<close> to \<open>s'\<close> never exceed the size they name.\<close>

definition bounded :: "zs \<Rightarrow> zs \<Rightarrow> bool" where
  "bounded s s' \<longleftrightarrow>
     (\<exists>new. reports s' = reports s @ new \<and> list_all (\<lambda>(name, sofar, full). sofar \<le> full) new)"

lemma bounded_trans: "bounded s t \<Longrightarrow> bounded t u \<Longrightarrow> bounded s u"
  unfolding bounded_def by fastforce

interpretation grows: receive_frame "extends directory" directory for directory
  by unfold_locales (rule_tac [2] extends_trans, auto simp: extends_def report_def)

interpretation progress: receive_frame bounded directory for directory
  by unfold_locales (rule_tac [2] bounded_trans, auto simp: bounded_def report_def)

subsection \<open>The guarantees\<close>

text \<open>
  C2: Whatever the sender at the other end and the environment do, and whatever the outcome,
  receiving files changes the disk only by creating or appending to regular files that lie
  directly in the download directory under a safe name: no byte already there is
  overwritten, and progress never reports more bytes than the announced size.
\<close>

theorem Receive_only_appends:
  "extends directory s (snd (Receive directory initial s))
   \<and> bounded s (snd (Receive directory initial s))"
  using grows.keeps_Receive progress.keeps_Receive by (simp add: keeps_def)

text \<open>
  Sending files changes nothing on the disk and never reports more progress than the
  size of the file, whatever the receiver answers.
\<close>

theorem Send_changes_no_file:
  "disk (snd (Send files initial s)) = disk s \<and> bounded s (snd (Send files initial s))"
  using files.keeps_Send progress.keeps_Send by (simp add: keeps_def same_files_def)

end
