(* ===== verification/ZmodemTransfer.thy ===== *)
theory ZmodemTransfer
  imports ZmodemFrames
begin

text \<open>
  Sender and receiver of \<open>internal/transfer/zmodem/transfer.go\<close> against each other.  The
  definitions here are the specification: the bytes the two sides exchange for a list of
  files, of which the receiver already holds a prefix of some.  The lemmas show that each
  side, fed with the other side's bytes, produces its own, and that the files arrive.
\<close>

subsection \<open>The conversation\<close>

function block_starts :: "nat \<Rightarrow> nat \<Rightarrow> nat list" where
  "block_starts len pos = (if pos < len then pos # block_starts len (min len (pos + 8192)) else [])"
  by pat_completeness auto
termination by (relation "measure (\<lambda>(len, pos). len - pos)") auto

declare block_starts.simps [simp del]

definition block :: "byte list \<Rightarrow> nat \<Rightarrow> byte list" where
  "block content p = take 8192 (drop p content)"

definition block_end_of :: "byte list \<Rightarrow> nat \<Rightarrow> nat" where
  "block_end_of content p = min (length content) (p + 8192)"

definition data_frames :: "byte list \<Rightarrow> nat \<Rightarrow> byte list" where
  "data_frames content pos =
     concat (map (\<lambda>p. header_bytes (Position ZDATA (of_nat p)) @ data_bytes (block content p) ZCRCW False)
       (block_starts (length content) pos))"

definition data_acks :: "byte list \<Rightarrow> nat \<Rightarrow> byte list" where
  "data_acks content pos =
     concat (map (\<lambda>p. header_bytes (Position ZACK (of_nat (block_end_of content p))))
       (block_starts (length content) pos))"

definition data_reports :: "string \<Rightarrow> byte list \<Rightarrow> nat \<Rightarrow> (string \<times> nat \<times> nat) list" where
  "data_reports name content pos =
     map (\<lambda>p. (name, block_end_of content p, length content)) (block_starts (length content) pos)"

text \<open>One file, of which the receiver has the first \<open>got\<close> bytes.\<close>

definition file_down :: "string \<Rightarrow> byte list \<Rightarrow> nat \<Rightarrow> byte list" where
  "file_down name content got =
     header_bytes (Position ZFILE 0) @ data_bytes (file_metadata name (length content)) ZCRCW False
     @ (if got = 0 then [] else header_bytes (Position ZCRC (crc32_IEEE (take got content))))
     @ data_frames content got @ header_bytes (Position ZEOF (of_nat (length content)))"

definition file_up :: "byte list \<Rightarrow> nat \<Rightarrow> byte list" where
  "file_up content got =
     (if got = 0 then [] else header_bytes (Position ZCRC (of_nat got)))
     @ header_bytes (Position ZRPOS (of_nat got)) @ data_acks content got @ header_bytes ready"

subsection \<open>Reading what the peer wrote\<close>

definition idle :: "byte list \<Rightarrow> bool" where
  "idle w \<longleftrightarrow> set w \<subseteq> {XON}"

lemma idle_Nil [simp]: "idle []" and idle_XON [simp]: "idle (XON # w) \<longleftrightarrow> idle w"
  by (simp_all add: idle_def)

text \<open>The flow control byte that a header leaves behind.\<close>

definition tail_of :: "header \<Rightarrow> byte list" where
  "tail_of h = (if hType h \<noteq> ZFIN \<and> hType h \<noteq> ZACK then [XON] else [])"

lemma idle_tail_of [simp]: "idle (tail_of h)"
  by (simp add: tail_of_def)

lemma read_header_idle: "idle w \<Longrightarrow> read_header e (w @ bs) = read_header e bs"
  by (induction w) (auto simp: idle_def read_header_XON)

lemma read_data_idle: "idle w \<Longrightarrow> read_data e c (w @ bs) = read_data e c bs"
  by (induction w) (auto simp: idle_def read_data_XON)

lemma ReadHeader_bytes:
  assumes "idle w" "zin s = w @ header_bytes h @ bs" "\<not> hCRC32 h"
  shows "ReadHeader s = (Inr h, s\<lparr>zin := tail_of h @ bs\<rparr>)"
  using assms
  by (simp add: ReadHeader_def read_header_idle read_header_bytes tail_of_def)

lemma ReadData_bytes:
  assumes "idle w" "zin s = w @ data_bytes d ZCRCW c @ bs" "length d \<le> 1024 * 1024"
  shows "ReadData c s = (Inr (d, ZCRCW), s\<lparr>zin := XON # bs\<rparr>)"
  using assms by (simp add: ReadData_def read_data_idle read_data_bytes)

lemma Position_simps [simp]:
  "hType (Position t w) = t" "hCRC32 (Position t w) = False" "hPosition (Position t w) = w"
  by (simp_all add: Position_def hPosition_def le_get_put32)

lemma ready_simps [simp]: "hType ready = ZRINIT" "hCRC32 ready = False"
  by (simp_all add: ready_def)

subsection \<open>Without faults\<close>

lemma env_call_quiet [simp]: "faults s = [] \<Longrightarrow> env_call s = (Inr (), s)"
  by (simp add: env_call_def)

lemma WriteBytes_quiet [simp]: "faults s = [] \<Longrightarrow> WriteBytes b s = (Inr (), s\<lparr>zout := zout s @ b\<rparr>)"
  by (simp add: WriteBytes_def)

lemma WriteHeader_quiet [simp]:
  "faults s = [] \<Longrightarrow> WriteHeader h s = (Inr (), s\<lparr>zout := zout s @ header_bytes h\<rparr>)"
  by (simp add: WriteHeader_def)

lemma WriteData_quiet [simp]:
  "faults s = [] \<Longrightarrow> WriteData d fin c s = (Inr (), s\<lparr>zout := zout s @ data_bytes d fin c\<rparr>)"
  by (simp add: WriteData_def)

subsection \<open>The sender\<close>

lemma block_end_word:
  assumes "p < length content"
  shows "(of_nat p :: 32 word) + of_nat (length (block content p)) = of_nat (block_end_of content p)"
proof -
  have "p + length (block content p) = block_end_of content p"
    using assms by (simp add: block_def block_end_of_def min_def) linarith
  then show ?thesis by (metis of_nat_add)
qed

lemma block_starts_end [simp]: "block_starts n n = []"
  by (simp add: block_starts.simps [of n n])

lemma block_starts_step:
  "p < length content \<Longrightarrow>
     block_starts (length content) p = p # block_starts (length content) (block_end_of content p)"
  by (simp add: block_starts.simps [of _ p] block_end_of_def)

lemma block_end_le [simp]: "block_end_of content p \<le> length content"
  by (simp add: block_end_of_def)

lemma send_block_quiet:
  assumes len: "length content < 2 ^ 32" and p: "p < length content" and "faults s = []" "idle w"
    and zin: "zin s = w @ header_bytes (Position ZACK q) @ bs"
  shows "send_block content (of_nat p) s = (Inr (length (block content p), Position ZACK q),
     s\<lparr>zin := bs, zout := zout s @ header_bytes (Position ZDATA (of_nat p))
                             @ data_bytes (block content p) ZCRCW False\<rparr>)"
proof -
  let ?s1 = "s\<lparr>zout := zout s @ header_bytes (Position ZDATA (of_nat p))
                         @ data_bytes (block content p) ZCRCW False\<rparr>"
  have "unat (of_nat p :: 32 word) = p" using len p by (simp add: unat_of_nat)
  moreover have "ReadHeader ?s1 = (Inr (Position ZACK q), ?s1\<lparr>zin := bs\<rparr>)"
    using ReadHeader_bytes [of w ?s1 "Position ZACK q" bs] assms by (simp add: tail_of_def)
  ultimately show ?thesis
    using p assms(3) by (simp add: send_block_def andThen_step ret_def block_def)
qed

lemma send_loop_blocks:
  assumes len: "length content < 2 ^ 32"
  shows "p \<le> length content \<Longrightarrow> faults s = [] \<Longrightarrow> idle w \<Longrightarrow> zin s = w @ data_acks content p @ bs \<Longrightarrow>
   \<exists>w'. idle w' \<and> send_loop name content (of_nat p) r s =
     (Inr (of_nat (length content)),
      s\<lparr>zin := w' @ bs, zout := zout s @ data_frames content p,
        reports := reports s @ data_reports (Base name) content p\<rparr>)"
proof (induction "length content" p arbitrary: s w r rule: block_starts.induct)
  case (1 p)
  have up: "unat (of_nat p :: 32 word) = p"
    using len "1.prems"(1) by (simp add: unat_of_nat)
  show ?case
  proof (cases "p < length content")
    case False
    then have [simp]: "p = length content" using "1.prems"(1) by simp
    have "s\<lparr>zin := w @ bs\<rparr> = s" using "1.prems"(4) by (simp add: data_acks_def)
    then show ?thesis using up "1.prems"(3)
      by (intro exI [of _ w]) (simp add: send_loop.simps [of name content] data_frames_def data_reports_def)
  next
    case True
    let ?q = "block_end_of content p"
    have zin: "zin s = w @ header_bytes (Position ZACK (of_nat ?q)) @ data_acks content ?q @ bs"
      using "1.prems"(4) by (simp add: data_acks_def block_starts_step [OF True])
    note blk = send_block_quiet [OF len True "1.prems"(2,3) zin]
    have uq: "unat (of_nat ?q :: 32 word) = ?q"
      using le_less_trans [OF block_end_le len] by (simp add: unat_of_nat)
    let ?s2 = "s\<lparr>zin := data_acks content ?q @ bs,
                 zout := zout s @ header_bytes (Position ZDATA (of_nat p)) @ data_bytes (block content p) ZCRCW False\<rparr>"
    let ?s3 = "report (Base name) ?q (length content) ?s2"
    have "send_loop name content (of_nat p) r s = send_loop name content (of_nat ?q) 0 ?s3"
      using True up blk uq block_end_word [OF True]
      by (simp add: send_loop.simps [of name content "of_nat p"])
    moreover obtain w' where "idle w'" "send_loop name content (of_nat ?q) 0 ?s3 =
      (Inr (of_nat (length content)),
       ?s3\<lparr>zin := w' @ bs, zout := zout ?s3 @ data_frames content ?q,
         reports := reports ?s3 @ data_reports (Base name) content ?q\<rparr>)"
      using "1.hyps" [OF True, of ?s3 "[]" 0] "1.prems"(2)
      by (auto simp: report_def block_end_of_def)
    ultimately show ?thesis
      by (intro exI [of _ w'])
        (simp add: report_def data_frames_def data_reports_def block_starts_step [OF True])
  qed
qed

lemma await_position_quiet:
  assumes len: "length content < 2 ^ 32" and got: "got \<le> length content"
    and quiet: "faults s = []" "idle w"
    and zin: "zin s = w @ (if got = 0 then [] else header_bytes (Position ZCRC (of_nat got)))
                        @ header_bytes (Position ZRPOS (of_nat got)) @ bs"
  shows "await_position content 20 s = (Inr (Some (of_nat got)),
     s\<lparr>zin := XON # bs, zout := zout s @
         (if got = 0 then [] else header_bytes (Position ZCRC (crc32_IEEE (take got content))))\<rparr>)"
proof (cases "got = 0")
  case True
  have "ReadHeader s = (Inr (Position ZRPOS 0), s\<lparr>zin := XON # bs\<rparr>)"
    using ReadHeader_bytes [of w s "Position ZRPOS 0" bs] zin quiet True by (simp add: tail_of_def)
  with True show ?thesis
    by (simp add: await_position.simps(2) [of content 19, simplified] andThen_step ret_def)
next
  case False
  let ?h1 = "Position ZCRC (of_nat got)" and ?h2 = "Position ZRPOS (of_nat got)"
  let ?s1 = "s\<lparr>zin := XON # header_bytes ?h2 @ bs\<rparr>"
  let ?s2 = "?s1\<lparr>zout := zout s @ header_bytes (Position ZCRC (crc32_IEEE (take got content)))\<rparr>"
  have u: "unat (of_nat got :: 32 word) = got"
    using le_less_trans [OF got len] by (simp add: unat_of_nat)
  then have nz: "(of_nat got :: 32 word) \<noteq> 0" using False by (metis unat_0)
  have 1: "ReadHeader s = (Inr ?h1, ?s1)"
    using ReadHeader_bytes [of w s ?h1 "header_bytes ?h2 @ bs"] zin quiet False by (simp add: tail_of_def)
  have 2: "ReadHeader ?s2 = (Inr ?h2, ?s2\<lparr>zin := XON # bs\<rparr>)"
    using ReadHeader_bytes [of "[XON]" ?s2 ?h2 bs] by (simp add: tail_of_def)
  have "await_position content 20 s = await_position content 19 ?s2"
    using 1 u nz got quiet(1) False
    by (simp add: await_position.simps(2) [of content 19, simplified] andThen_step Let_def)
  also have "\<dots> = (Inr (Some (of_nat got)), ?s2\<lparr>zin := XON # bs\<rparr>)"
    using 2 by (simp add: await_position.simps(2) [of content 18, simplified] andThen_step ret_def)
  finally show ?thesis using False by simp
qed

lemma sendFile_quiet:
  assumes len: "length content < 2 ^ 32" and got: "got \<le> length content"
    and quiet: "faults s = []" "idle w" and file_: "disk s path = Some (Regular content)"
    and base: "Base (Base path) = Base path"
    and zin: "zin s = w @ file_up content got @ bs"
  shows "sendFile path s = (Inr (),
     s\<lparr>zin := XON # bs, zout := zout s @ file_down (Base path) content got,
       reports := reports s @ data_reports (Base path) content got
                    @ [(Base path, length content, length content)]\<rparr>)"
proof -
  let ?meta = "header_bytes (Position ZFILE 0) @ data_bytes (file_metadata path (length content)) ZCRCW False"
  let ?crc = "if got = 0 then [] else header_bytes (Position ZCRC (crc32_IEEE (take got content)))"
  let ?s1 = "s\<lparr>zout := zout s @ ?meta\<rparr>"
  let ?rest1 = "data_acks content got @ header_bytes ready @ bs"
  let ?s2 = "?s1\<lparr>zin := XON # ?rest1, zout := zout s @ ?meta @ ?crc\<rparr>"
  have u: "unat (of_nat got :: 32 word) = got"
    using le_less_trans [OF got len] by (simp add: unat_of_nat)
  have neg: "await_position content 20 ?s1 = (Inr (Some (of_nat got)), ?s2)"
    using await_position_quiet [OF len got, of ?s1 w ?rest1] quiet zin
    by (simp add: file_up_def)
  obtain w' where "idle w'" and blocks: "send_loop path content (of_nat got) 0 ?s2 =
      (Inr (of_nat (length content)),
       ?s2\<lparr>zin := w' @ header_bytes ready @ bs, zout := zout ?s2 @ data_frames content got,
         reports := reports ?s2 @ data_reports (Base path) content got\<rparr>)"
    using send_loop_blocks [OF len got, of ?s2 "[XON]" "header_bytes ready @ bs" path 0] quiet(1) by auto
  let ?s3 = "?s2\<lparr>zin := w' @ header_bytes ready @ bs, zout := zout ?s2 @ data_frames content got,
         reports := reports ?s2 @ data_reports (Base path) content got\<rparr>"
  let ?s4 = "?s3\<lparr>zout := zout ?s3 @ header_bytes (Position ZEOF (of_nat (length content)))\<rparr>"
  have "ReadHeader ?s4 = (Inr ready, ?s4\<lparr>zin := XON # bs\<rparr>)"
    using ReadHeader_bytes [OF \<open>idle w'\<close>, of ?s4 ready bs] by (simp add: tail_of_def)
  then have fin: "finish_file path content (of_nat (length content)) ?s3
     = (Inr (), report (Base path) (length content) (length content) (?s4\<lparr>zin := XON # bs\<rparr>))"
    using quiet(1) by (simp add: finish_file_def andThen_step)
  have "sendFile path s = send_content path content s"
    using quiet(1) file_ len by (simp add: sendFile_def andThen_step)
  also have "\<dots> = andThen (await_position content 20) (\<lambda>answer. case answer of
         None \<Rightarrow> ret ()
       | Some pos \<Rightarrow>
           if unat pos > length content then throw (Protocol InvalidResumeOffset)
           else andThen (send_loop path content pos 0) (\<lambda>pos'. finish_file path content pos')) ?s1"
    using quiet(1) by (simp add: send_content_def andThen_step)
  also have "\<dots> = andThen (send_loop path content (of_nat got) 0) (\<lambda>pos'. finish_file path content pos') ?s2"
    using neg u got by (simp add: andThen_step)
  also have "\<dots> = finish_file path content (of_nat (length content)) ?s3"
    using blocks by (rule andThen_step)
  finally show ?thesis using fin
    by (simp add: file_down_def report_def file_metadata_def base)
qed

subsection \<open>The receiver\<close>

lemma space_prefix_digit: "is_digit c \<Longrightarrow> space_prefix (c # s) = 0"
proof -
  assume c: "is_digit c"
  have "list_all (\<lambda>w. w \<noteq> [] \<and> \<not> is_digit (hd w)) space_encodings"
    by (simp add: space_encodings_def is_digit_def)
  with c have "\<not> HasPrefix (c # s) w" if "w \<in> set space_encodings" for w
    using that by (cases w) (auto simp: list_all_iff HasPrefix_iff)
  then have "find (HasPrefix (c # s)) space_encodings = None"
    by (simp add: find_None_iff)
  then show ?thesis by (simp add: space_prefix_def)
qed

lemma space_prefix_space: "space_prefix (CHR '' '' # s) = 1"
  by (simp add: space_prefix_def space_encodings_def HasPrefix_def)

lemma fields_loop_digits:
  "list_all is_digit t \<Longrightarrow> cur @ t \<noteq> [] \<Longrightarrow> \<exists>fs. fields_loop cur (t @ CHR '' '' # s) = (cur @ t) # fs"
proof (induction t arbitrary: cur)
  case Nil
  then show ?case
    by (simp add: fields_loop.simps [of cur "CHR '' '' # s"] space_prefix_space)
next
  case (Cons c t)
  then show ?case
    using Cons.IH [of "cur @ [c]"]
    by (simp add: fields_loop.simps [of cur "c # t @ CHR '' '' # s"] space_prefix_digit)
qed

lemma hd_Fields_digits:
  assumes "digits_ok t"
  obtains fs where "Fields (t @ CHR '' '' # s) = t # fs"
  using fields_loop_digits [of t "[]" s] assms by (auto simp: Fields_def digits_ok_def)

lemma FormatNat_length: "n < 10 ^ k \<Longrightarrow> k > 0 \<Longrightarrow> length (FormatNat n) \<le> k"
proof (induction k arbitrary: n)
  case (Suc k)
  show ?case
  proof (cases "n < 10")
    case True
    then show ?thesis by (simp add: FormatNat.simps [of n])
  next
    case False
    then have "n div 10 < 10 ^ k" "k > 0" using Suc.prems by (cases k; auto)+
    with Suc.IH [of "n div 10"] False show ?thesis by (simp add: FormatNat.simps [of n])
  qed
qed simp

lemma safeName_no_NUL: "safeName name \<Longrightarrow> CHR 0x00 \<notin> set name"
  by (auto simp: safeName_def)

lemma TrimRight_last: "s \<noteq> [] \<Longrightarrow> last s \<noteq> c \<Longrightarrow> TrimRight (s @ [c]) [c] = s"
  by (cases s rule: rev_cases) (simp_all add: TrimRight_def)

lemma FormatNat_last: "FormatNat n \<noteq> [] \<and> is_digit (last (FormatNat n))"
  using FormatNat_digits [of n] by (auto simp: digits_ok_def list_all_iff)

lemma is_digit_NUL: "\<not> is_digit (CHR 0x00)"
  by (simp add: is_digit_def)

lemma SplitN_two: "c \<notin> set s \<Longrightarrow> SplitN (s @ c # t) [c] 2 = [s, t]"
  by (simp add: SplitN.simps [of "s @ c # t"] SplitN.simps [of t _ "Suc 0"] Index_char)

lemma parse_file_metadata:
  assumes safe: "safeName (Base path)" and len: "n < 2 ^ 32"
  shows "parse_metadata (file_metadata path n) = Inr (Base path, n)"
proof -
  define tail where "tail = ''0 100600 0 1 ''"
  let ?info = "FormatNat n @ CHR '' '' # tail @ FormatNat n"
  have str: "string_of (file_metadata path n) = Base path @ CHR 0x00 # ?info @ [CHR 0x00]"
    by (simp add: file_metadata_def tail_def)
  have parts: "SplitN (string_of (file_metadata path n)) [CHR 0x00] 2 = [Base path, ?info @ [CHR 0x00]]"
    unfolding str by (rule SplitN_two) (rule safeName_no_NUL [OF safe])
  obtain fs where "Fields ?info = FormatNat n # fs"
    using hd_Fields_digits [OF FormatNat_digits] .
  moreover have "last ?info = last (FormatNat n)"
    using FormatNat_last [of n] by simp
  then have "TrimRight (?info @ [CHR 0x00]) [CHR 0x00] = ?info"
    using FormatNat_last [of n] is_digit_NUL by (intro TrimRight_last) (simp, metis)
  moreover have "ParseInt (FormatNat n) = Some (int n)"
    using len by (intro ParseInt_FormatNat) simp
  ultimately show ?thesis
    using safe len by (simp add: parse_metadata_def parts Let_def)
qed

lemma length_file_metadata:
  assumes "length (Base path) \<le> 4096" "n < 2 ^ 32"
  shows "length (file_metadata path n) \<le> 1024 * 1024"
  using assms FormatNat_length [of n 10] by (simp add: file_metadata_def)

lemma next_header_bytes:
  "faults s = [] \<Longrightarrow> idle w \<Longrightarrow> zin s = w @ header_bytes h @ bs \<Longrightarrow> \<not> hCRC32 h \<Longrightarrow>
     next_header s = (Inr h, s\<lparr>zin := tail_of h @ bs\<rparr>)"
  by (simp add: next_header_def andThen_step ReadHeader_bytes)

lemma recv_loop_step:
  "next_header s = (Inr h, s1) \<Longrightarrow> recv_step dir st h s1 = (Inr (Some st'), s2) \<Longrightarrow>
     recv_loop dir st s = recv_loop dir st' s2"
  by (simp add: recv_loop.simps [of dir st s])

lemma recv_loop_stop:
  "next_header s = (Inr h, s1) \<Longrightarrow> recv_step dir st h s1 = (Inr None, s2) \<Longrightarrow>
     recv_loop dir st s = (Inr (), s2)"
  by (simp add: recv_loop.simps [of dir st s])

text \<open>What is already at the destination: nothing, or a prefix of the content.\<close>

definition holds :: "(string \<Rightarrow> node option) \<Rightarrow> string \<Rightarrow> byte list \<Rightarrow> nat \<Rightarrow> bool" where
  "holds d p content got \<longleftrightarrow>
     got \<le> length content \<and> (d p = None \<and> got = 0 \<or> d p = Some (Regular (take got content)))"

lemma resume_position_quiet:
  assumes "holds (disk s) p content got" "length content < 2 ^ 32" "faults s = []" "idle w"
    and zin: "zin s = w @ (if got = 0 then [] else header_bytes (Position ZCRC (crc32_IEEE (take got content)))) @ bs"
  shows "\<exists>w'. idle w' \<and> resume_position p (length content) meta s = (Inr got,
     s\<lparr>zin := w' @ bs, zout := zout s @ (if got = 0 then [] else header_bytes (Position ZCRC (of_nat got)))\<rparr>)"
proof (cases "got = 0")
  case True
  with assms show ?thesis
    by (intro exI [of _ w]) (auto simp: resume_position_def andThen_step holds_def)
next
  case False
  let ?h = "Position ZCRC (crc32_IEEE (take got content))"
  let ?s1 = "s\<lparr>zout := zout s @ header_bytes (Position ZCRC (of_nat got))\<rparr>"
  have at: "disk s p = Some (Regular (take got content))" "got \<le> length content"
    using assms(1) False by (auto simp: holds_def)
  have "ReadHeader ?s1 = (Inr ?h, ?s1\<lparr>zin := XON # bs\<rparr>)"
    using ReadHeader_bytes [of w ?s1 ?h bs] assms(4) zin False by (simp add: tail_of_def)
  then have "readResumeCRC meta ?s1 = (Inr ?h, ?s1\<lparr>zin := XON # bs\<rparr>)"
    using assms(3) by (simp add: readResumeCRC_def read_resume_loop.simps(2) [of meta 4, simplified] andThen_step ret_def)
  then show ?thesis
    using at assms(3) False
    by (intro exI [of _ "[XON]"])
      (simp add: resume_position_def confirm_prefix_def andThen_step ret_def min_absorb2)
qed

lemma open_file_quiet:
  "holds (disk s) p content got \<Longrightarrow> faults s = [] \<Longrightarrow>
     open_file p s = (Inr (), s\<lparr>disk := (disk s)(p \<mapsto> Regular (take got content))\<rparr>)"
  by (auto simp: open_file_def andThen_step holds_def fun_upd_idem)

lemma recv_file_quiet:
  assumes safe: "safeName (Base path)" "length (Base path) \<le> 4096"
    and len: "length content < 2 ^ 32" and quiet: "faults s = []"
    and dest: "p = JoinPath [dir, Base path]" "holds (disk s) p content got"
    and zin: "zin s = XON # data_bytes (file_metadata path (length content)) ZCRCW False
       @ (if got = 0 then [] else header_bytes (Position ZCRC (crc32_IEEE (take got content)))) @ bs"
  shows "\<exists>w'. idle w' \<and> recv_file dir (Position ZFILE 0) s =
     (Inr \<lparr>rfile = Some p, rname = Base path, rsize = length content, rpos = got\<rparr>,
      s\<lparr>zin := w' @ bs, disk := (disk s)(p \<mapsto> Regular (take got content)),
        zout := zout s @ (if got = 0 then [] else header_bytes (Position ZCRC (of_nat got)))
                       @ header_bytes (Position ZRPOS (of_nat got))\<rparr>)"
proof -
  let ?meta = "file_metadata path (length content)"
  let ?rest = "(if got = 0 then [] else header_bytes (Position ZCRC (crc32_IEEE (take got content)))) @ bs"
  let ?s1 = "s\<lparr>zin := XON # ?rest\<rparr>"
  have rd: "ReadData False s = (Inr (?meta, ZCRCW), ?s1)"
    using zin length_file_metadata [OF safe(2) len]
    by (intro ReadData_bytes [of "[XON]"]) simp_all
  obtain w' where "idle w'" and rp: "resume_position p (length content) ?meta ?s1 = (Inr got,
     ?s1\<lparr>zin := w' @ bs, zout := zout s @ (if got = 0 then [] else header_bytes (Position ZCRC (of_nat got)))\<rparr>)"
    using resume_position_quiet [of ?s1 p content got "[XON]" bs ?meta] dest(2) len quiet by auto
  let ?s2 = "?s1\<lparr>zin := w' @ bs, zout := zout s @ (if got = 0 then [] else header_bytes (Position ZCRC (of_nat got)))\<rparr>"
  have op: "open_file p ?s2 = (Inr (), ?s2\<lparr>disk := (disk s)(p \<mapsto> Regular (take got content))\<rparr>)"
    using open_file_quiet [of ?s2 p content got] dest(2) quiet by simp
  show ?thesis
    using \<open>idle w'\<close> rd rp op quiet parse_file_metadata [OF safe(1) len]
    by (intro exI [of _ w'])
      (simp add: recv_file_def andThen_step Let_def ret_def flip: dest(1))
qed

definition at_pos :: "string \<Rightarrow> string \<Rightarrow> byte list \<Rightarrow> nat \<Rightarrow> rstate" where
  "at_pos p name content n = \<lparr>rfile = Some p, rname = name, rsize = length content, rpos = n\<rparr>"

lemma at_pos_simps [simp]:
  "rfile (at_pos p name content n) = Some p" "rname (at_pos p name content n) = name"
  "rsize (at_pos p name content n) = length content" "rpos (at_pos p name content n) = n"
  "at_pos p name content n\<lparr>rpos := m\<rparr> = at_pos p name content m"
  by (simp_all add: at_pos_def)

lemma store_block_quiet:
  assumes pos: "n < length content" and quiet: "faults s = []"
    and dest: "disk s p = Some (Regular (take n content))"
  shows "store_block p (at_pos p name content n) (block content n) ZCRCW s =
     (Inr (at_pos p name content (block_end_of content n)),
      s\<lparr>disk := (disk s)(p \<mapsto> Regular (take (block_end_of content n) content)),
        zout := zout s @ header_bytes (Position ZACK (of_nat (block_end_of content n))),
        reports := reports s @ [(name, block_end_of content n, length content)]\<rparr>)"
proof -
  have e: "n + length (block content n) = block_end_of content n"
    using pos by (simp add: block_def block_end_of_def min_def) linarith
  have b: "block_end_of content n \<le> length content" by simp
  have "take n content @ block content n = take (block_end_of content n) content"
    by (simp add: block_def block_end_of_def take_add [symmetric]) (simp add: min_def)
  then have "write_at (take n content) n (block content n) = take (block_end_of content n) content"
    using pos by (simp add: write_at_end)
  then show ?thesis
    using leD [OF b] quiet dest by (simp add: store_block_def e andThen_step write_file_def put_bytes_def
        acknowledge_def report_def Let_def ret_def)
qed

lemma recv_block_quiet:
  assumes len: "length content < 2 ^ 32" and pos: "n < length content" and quiet: "faults s = []"
    and dest: "disk s p = Some (Regular (take n content))"
    and zin: "zin s = XON # data_bytes (block content n) ZCRCW False @ bs"
  shows "recv_step dir (at_pos p name content n) (Position ZDATA (of_nat n)) s =
     (Inr (Some (at_pos p name content (block_end_of content n))),
      s\<lparr>zin := XON # bs, disk := (disk s)(p \<mapsto> Regular (take (block_end_of content n) content)),
        zout := zout s @ header_bytes (Position ZACK (of_nat (block_end_of content n))),
        reports := reports s @ [(name, block_end_of content n, length content)]\<rparr>)"
proof -
  let ?st = "at_pos p name content n"
  have "length (block content n) \<le> 1024 * 1024" by (simp add: block_def)
  then have rd: "ReadData False s = (Inr (block content n, ZCRCW), s\<lparr>zin := XON # bs\<rparr>)"
    using zin by (intro ReadData_bytes [of "[XON]"]) simp_all
  have u: "unat (of_nat n :: 32 word) = n" using pos len by (simp add: unat_of_nat)
  have "recv_data_loop p False ?st s =
     (Inr (at_pos p name content (block_end_of content n)),
      s\<lparr>zin := XON # bs, disk := (disk s)(p \<mapsto> Regular (take (block_end_of content n) content)),
        zout := zout s @ header_bytes (Position ZACK (of_nat (block_end_of content n))),
        reports := reports s @ [(name, block_end_of content n, length content)]\<rparr>)"
    using store_block_quiet [OF pos, of "s\<lparr>zin := XON # bs\<rparr>" p name] quiet dest rd
    by (simp add: recv_data_loop.simps [of p False ?st s])
  then show ?thesis
    by (simp add: recv_step_def recv_data_def u andThen_step ret_def)
qed

lemma recv_loop_blocks:
  assumes len: "length content < 2 ^ 32"
  shows "n \<le> length content \<Longrightarrow> faults s = [] \<Longrightarrow> idle w \<Longrightarrow> zin s = w @ data_frames content n @ bs \<Longrightarrow>
     disk s p = Some (Regular (take n content)) \<Longrightarrow>
   \<exists>w'. idle w' \<and> recv_loop dir (at_pos p name content n) s =
     recv_loop dir (at_pos p name content (length content))
      (s\<lparr>zin := w' @ bs, zout := zout s @ data_acks content n,
        disk := (disk s)(p \<mapsto> Regular content),
        reports := reports s @ data_reports name content n\<rparr>)"
proof (induction "length content" n arbitrary: s w rule: block_starts.induct)
  case (1 n)
  show ?case
  proof (cases "n < length content")
    case False
    then have "n = length content" using "1.prems"(1) by simp
    then have [simp]: "s\<lparr>zin := w @ bs, disk := (disk s)(p \<mapsto> Regular content)\<rparr> = s"
      using "1.prems"(4,5) by (simp add: data_frames_def fun_upd_idem)
    show ?thesis using \<open>n = length content\<close> "1.prems"(3)
      by (intro exI [of _ w]) (simp add: data_acks_def data_reports_def)
  next
    case True
    let ?q = "block_end_of content n" and ?h = "Position ZDATA (of_nat n)"
    let ?rest = "data_frames content ?q @ bs"
    let ?s1 = "s\<lparr>zin := XON # data_bytes (block content n) ZCRCW False @ ?rest\<rparr>"
    let ?s2 = "?s1\<lparr>zin := XON # ?rest, disk := (disk s)(p \<mapsto> Regular (take ?q content)),
        zout := zout s @ header_bytes (Position ZACK (of_nat ?q)),
        reports := reports s @ [(name, ?q, length content)]\<rparr>"
    have "next_header s = (Inr ?h, ?s1)"
      using next_header_bytes [of s w ?h "data_bytes (block content n) ZCRCW False @ ?rest"] "1.prems"
      by (simp add: data_frames_def block_starts_step [OF True] tail_of_def)
    moreover have "recv_step dir (at_pos p name content n) ?h ?s1 = (Inr (Some (at_pos p name content ?q)), ?s2)"
      using recv_block_quiet [OF len True, of ?s1 p ?rest] "1.prems" by simp
    ultimately have "recv_loop dir (at_pos p name content n) s = recv_loop dir (at_pos p name content ?q) ?s2"
      by (rule recv_loop_step)
    moreover obtain w' where "idle w'" "recv_loop dir (at_pos p name content ?q) ?s2 =
       recv_loop dir (at_pos p name content (length content))
      (?s2\<lparr>zin := w' @ bs, zout := zout ?s2 @ data_acks content ?q,
        disk := (disk ?s2)(p \<mapsto> Regular content),
        reports := reports ?s2 @ data_reports name content ?q\<rparr>)"
      using "1.hyps" [OF True, of ?s2 "[XON]"] "1.prems"(2) by (auto simp: block_end_of_def)
    ultimately show ?thesis
      by (intro exI [of _ w']) (simp add: data_acks_def data_reports_def block_starts_step [OF True])
  qed
qed

lemma recv_loop_file:
  assumes safe: "safeName (Base path)" "length (Base path) \<le> 4096"
    and len: "length content < 2 ^ 32" and quiet: "faults s = []" "idle w"
    and dest: "p = JoinPath [dir, Base path]" "holds (disk s) p content got"
    and zin: "zin s = w @ file_down path content got @ bs"
  shows "recv_loop dir st s =
     recv_loop dir (at_pos p (Base path) content (length content)\<lparr>rfile := None\<rparr>)
      (s\<lparr>zin := XON # bs, zout := zout s @ file_up content got,
        disk := (disk s)(p \<mapsto> Regular content),
        reports := reports s @ data_reports (Base path) content got\<rparr>)"
proof -
  let ?n = "length content" and ?crc = "if got = 0 then [] else header_bytes (Position ZCRC (crc32_IEEE (take got content)))"
  let ?z3 = "header_bytes (Position ZEOF (of_nat ?n)) @ bs"
  let ?z2 = "data_frames content got @ ?z3"
  let ?z1 = "data_bytes (file_metadata path ?n) ZCRCW False @ ?crc @ ?z2"
  let ?s1 = "s\<lparr>zin := XON # ?z1\<rparr>"
  have got: "got \<le> ?n" using dest(2) by (simp add: holds_def)
  have h1: "next_header s = (Inr (Position ZFILE 0), ?s1)"
    using next_header_bytes [of s w "Position ZFILE 0" ?z1] quiet zin by (simp add: file_down_def tail_of_def)
  obtain w2 where "idle w2" and file1: "recv_file dir (Position ZFILE 0) ?s1 =
     (Inr (at_pos p (Base path) content got),
      ?s1\<lparr>zin := w2 @ ?z2, disk := (disk s)(p \<mapsto> Regular (take got content)),
        zout := zout s @ (if got = 0 then [] else header_bytes (Position ZCRC (of_nat got)))
                       @ header_bytes (Position ZRPOS (of_nat got))\<rparr>)"
    using recv_file_quiet [OF safe len, of ?s1 p dir got ?z2] quiet dest by (auto simp: at_pos_def)
  let ?s2 = "?s1\<lparr>zin := w2 @ ?z2, disk := (disk s)(p \<mapsto> Regular (take got content)),
        zout := zout s @ (if got = 0 then [] else header_bytes (Position ZCRC (of_nat got)))
                       @ header_bytes (Position ZRPOS (of_nat got))\<rparr>"
  have "recv_step dir st (Position ZFILE 0) ?s1 = (Inr (Some (at_pos p (Base path) content got)), ?s2)"
    using file1 by (simp add: recv_step_def andThen_step ret_def)
  with h1 have e1: "recv_loop dir st s = recv_loop dir (at_pos p (Base path) content got) ?s2"
    by (rule recv_loop_step)
  obtain w3 where "idle w3" and e2: "recv_loop dir (at_pos p (Base path) content got) ?s2 =
     recv_loop dir (at_pos p (Base path) content ?n)
      (?s2\<lparr>zin := w3 @ ?z3, zout := zout ?s2 @ data_acks content got,
        disk := (disk ?s2)(p \<mapsto> Regular content),
        reports := reports ?s2 @ data_reports (Base path) content got\<rparr>)"
    using recv_loop_blocks [OF len got, of ?s2 w2 ?z3 p] \<open>idle w2\<close> quiet by auto
  let ?s3 = "?s2\<lparr>zin := w3 @ ?z3, zout := zout ?s2 @ data_acks content got,
        disk := (disk ?s2)(p \<mapsto> Regular content),
        reports := reports ?s2 @ data_reports (Base path) content got\<rparr>"
  have u: "unat (of_nat ?n :: 32 word) = ?n" using len by (simp add: unat_of_nat)
  have "next_header ?s3 = (Inr (Position ZEOF (of_nat ?n)), ?s3\<lparr>zin := XON # bs\<rparr>)"
    using next_header_bytes [of ?s3 w3 "Position ZEOF (of_nat ?n)" bs] \<open>idle w3\<close> quiet by (simp add: tail_of_def)
  moreover have "recv_step dir (at_pos p (Base path) content ?n) (Position ZEOF (of_nat ?n)) (?s3\<lparr>zin := XON # bs\<rparr>)
     = (Inr (Some (at_pos p (Base path) content ?n\<lparr>rfile := None\<rparr>)),
        ?s3\<lparr>zin := XON # bs, zout := zout ?s3 @ header_bytes ready\<rparr>)"
    using quiet by (simp add: recv_step_def recv_eof_def u andThen_step ret_def)
  ultimately have "recv_loop dir (at_pos p (Base path) content ?n) ?s3 =
     recv_loop dir (at_pos p (Base path) content ?n\<lparr>rfile := None\<rparr>)
        (?s3\<lparr>zin := XON # bs, zout := zout ?s3 @ header_bytes ready\<rparr>)"
    by (rule recv_loop_step)
  moreover have "?s3\<lparr>zin := XON # bs, zout := zout ?s3 @ header_bytes ready\<rparr> =
     s\<lparr>zin := XON # bs, zout := zout s @ file_up content got, disk := (disk s)(p \<mapsto> Regular content),
        reports := reports s @ data_reports (Base path) content got\<rparr>"
    by (rule zs.equality) (simp_all add: file_up_def)
  ultimately show ?thesis using e1 e2 by (simp only:)
qed

subsection \<open>A whole session\<close>

text \<open>A file to send: its path, its content and how much of it the receiver has already.\<close>

type_synonym item = "string \<times> byte list \<times> nat"

definition session_down :: "item list \<Rightarrow> byte list" where
  "session_down items =
     header_bytes (Position ZRQINIT 0) @ concat (map (\<lambda>(path, content, got). file_down path content got) items)
     @ header_bytes (Position ZFIN 0) @ [0x4F, 0x4F]"

definition session_up :: "item list \<Rightarrow> byte list" where
  "session_up items =
     header_bytes ready @ concat (map (\<lambda>(path, content, got). file_up content got) items)
     @ header_bytes (Position ZFIN 0)"

definition target :: "string \<Rightarrow> item \<Rightarrow> string" where
  "target dir i = JoinPath [dir, Base (fst i)]"

definition delivered :: "string \<Rightarrow> item list \<Rightarrow> (string \<Rightarrow> node option) \<Rightarrow> string \<Rightarrow> node option" where
  "delivered dir items d = fold (\<lambda>i d. d(target dir i \<mapsto> Regular (fst (snd i)))) items d"

definition sendable :: "(string \<Rightarrow> node option) \<Rightarrow> item \<Rightarrow> bool" where
  "sendable d = (\<lambda>(path, content, got).
     d path = Some (Regular content) \<and> length content < 2 ^ 32 \<and> got \<le> length content
     \<and> safeName (Base path) \<and> length (Base path) \<le> 4096)"

definition receivable :: "string \<Rightarrow> (string \<Rightarrow> node option) \<Rightarrow> item \<Rightarrow> bool" where
  "receivable dir d i = holds d (target dir i) (fst (snd i)) (snd (snd i))"

lemma safeName_Base: "safeName name \<Longrightarrow> Base name = name"
  by (simp add: safeName_def)

lemma send_files_quiet:
  "list_all (sendable (disk s)) items \<Longrightarrow> faults s = [] \<Longrightarrow> idle w \<Longrightarrow>
     zin s = w @ concat (map (\<lambda>(path, content, got). file_up content got) items) @ bs \<Longrightarrow>
   \<exists>w' rs. idle w' \<and> send_files (map fst items) s = (Inr (),
     s\<lparr>zin := w' @ bs, zout := zout s @ concat (map (\<lambda>(path, content, got). file_down path content got) items),
       reports := rs\<rparr>)"
proof (induction items arbitrary: s w)
  case Nil
  then show ?case
    by (intro exI [of _ w] exI [of _ "reports s"]) (simp add: ret_def)
next
  case (Cons i items)
  obtain path content got where i: "i = (path, content, got)" by (cases i)
  let ?rest = "concat (map (\<lambda>(path, content, got). file_up content got) items) @ bs"
  let ?rs = "reports s @ data_reports (Base path) content got @ [(Base path, length content, length content)]"
  let ?s1 = "s\<lparr>zin := XON # ?rest, zout := zout s @ file_down (Base path) content got, reports := ?rs\<rparr>"
  have base: "Base (Base path) = Base path" using Cons.prems(1) i by (simp add: sendable_def safeName_Base)
  have "sendFile path s = (Inr (), ?s1)"
    using sendFile_quiet [of content got s w path ?rest] Cons.prems i base by (simp add: sendable_def)
  moreover have "file_down (Base path) content got = file_down path content got"
    by (simp add: file_down_def file_metadata_def base)
  moreover obtain w' rs where "idle w'" "send_files (map fst items) ?s1 = (Inr (),
     ?s1\<lparr>zin := w' @ bs, zout := zout ?s1 @ concat (map (\<lambda>(path, content, got). file_down path content got) items),
       reports := rs\<rparr>)"
    using Cons.IH [of ?s1 "[XON]"] Cons.prems by auto
  ultimately show ?case
    using Cons.prems(2) i
    by (intro exI [of _ w'] exI [of _ rs]) (simp add: andThen_step)
qed

lemma delivered_other: "p \<notin> target dir ` set items \<Longrightarrow> delivered dir items d p = d p"
  unfolding delivered_def by (induction items arbitrary: d) auto

lemma delivered_target:
  assumes "distinct (map (target dir) items)" "i \<in> set items"
  shows "delivered dir items d (target dir i) = Some (Regular (fst (snd i)))"
  using assms
proof (induction items arbitrary: d)
  case (Cons j items)
  show ?case
  proof (cases "i = j")
    case True
    with Cons.prems(1) delivered_other [of "target dir j" dir items] show ?thesis
      by (simp add: delivered_def)
  next
    case False
    with Cons show ?thesis by (simp add: delivered_def)
  qed
qed simp

lemma recv_loop_files:
  "list_all (sendable d) items \<Longrightarrow> list_all (receivable dir (disk s)) items \<Longrightarrow>
     distinct (map (target dir) items) \<Longrightarrow> faults s = [] \<Longrightarrow> idle w \<Longrightarrow> rfile st = None \<Longrightarrow>
     zin s = w @ concat (map (\<lambda>(path, content, got). file_down path content got) items) @ bs \<Longrightarrow>
   \<exists>w' st' rs. idle w' \<and> rfile st' = None \<and> recv_loop dir st s = recv_loop dir st'
     (s\<lparr>zin := w' @ bs, zout := zout s @ concat (map (\<lambda>(path, content, got). file_up content got) items),
       disk := delivered dir items (disk s), reports := rs\<rparr>)"
proof (induction items arbitrary: s w st)
  case Nil
  then show ?case
    by (intro exI [of _ w] exI [of _ st] exI [of _ "reports s"] conjI)
      (auto simp: delivered_def intro!: arg_cong [where f = "recv_loop dir st"])
next
  case (Cons i items)
  obtain path content got where i: "i = (path, content, got)" by (cases i)
  let ?p = "target dir i"
  let ?rest = "concat (map (\<lambda>(path, content, got). file_down path content got) items) @ bs"
  let ?s1 = "s\<lparr>zin := XON # ?rest, zout := zout s @ file_up content got,
        disk := (disk s)(?p \<mapsto> Regular content),
        reports := reports s @ data_reports (Base path) content got\<rparr>"
  let ?st = "at_pos ?p (Base path) content (length content)\<lparr>rfile := None\<rparr>"
  have e1: "recv_loop dir st s = recv_loop dir ?st ?s1"
    using recv_loop_file [of path content s w ?p dir got ?rest st] Cons.prems i
    by (simp add: sendable_def receivable_def target_def)
  have "receivable dir (disk ?s1) j" if "j \<in> set items" for j
  proof -
    have "target dir j \<noteq> ?p" using that Cons.prems(3) by (metis distinct.simps(2) image_eqI list.set_map list.simps(9))
    moreover have "receivable dir (disk s) j" using that Cons.prems(2) by (simp add: list_all_iff)
    ultimately show ?thesis by (simp add: receivable_def holds_def)
  qed
  then have "list_all (receivable dir (disk ?s1)) items" by (simp add: list_all_iff)
  then have "\<exists>w' st' rs. idle w' \<and> rfile st' = None \<and> recv_loop dir ?st ?s1 = recv_loop dir st'
     (?s1\<lparr>zin := w' @ bs, zout := zout ?s1 @ concat (map (\<lambda>(path, content, got). file_up content got) items),
       disk := delivered dir items (disk ?s1), reports := rs\<rparr>)"
    by (intro Cons.IH [of _ "[XON]"]) (use Cons.prems in \<open>simp_all add: fun_upd_def\<close>)
  then obtain w' st' rs where "idle w'" "rfile st' = None" "recv_loop dir ?st ?s1 = recv_loop dir st'
     (?s1\<lparr>zin := w' @ bs, zout := zout ?s1 @ concat (map (\<lambda>(path, content, got). file_up content got) items),
       disk := delivered dir items (disk ?s1), reports := rs\<rparr>)"
    by blast
  with e1 i show ?case
    by (intro exI [of _ w'] exI [of _ st'] exI [of _ rs]) (simp add: delivered_def target_def)
qed

lemma Send_session:
  assumes "list_all (sendable (disk s)) items" "faults s = []" "zin s = session_up items"
  shows "\<exists>s'. Send (map fst items) None s = (Inr (), s') \<and> zout s' = zout s @ session_down items"
proof -
  let ?h1 = "header_bytes (Position ZRQINIT 0)" and ?h2 = "header_bytes (Position ZFIN 0)"
  let ?body = "concat (map (\<lambda>(path, content, got). file_up content got) items)"
  let ?s1 = "s\<lparr>zout := zout s @ ?h1\<rparr>"
  let ?s2 = "?s1\<lparr>zin := XON # ?body @ ?h2\<rparr>"
  have hs: "send_handshake None s = (Inr ready, ?s2)"
    using ReadHeader_bytes [of "[]" ?s1 ready "?body @ ?h2"] assms(2,3)
    by (simp add: send_handshake_def andThen_step session_up_def tail_of_def)
  obtain w' rs where "idle w'" and sf: "send_files (map fst items) ?s2 = (Inr (),
     ?s2\<lparr>zin := w' @ ?h2, zout := zout ?s2 @ concat (map (\<lambda>(path, content, got). file_down path content got) items),
       reports := rs\<rparr>)"
    using send_files_quiet [of ?s2 items "[XON]" ?h2] assms(1,2) by auto
  let ?s3 = "?s2\<lparr>zin := w' @ ?h2, zout := zout ?s2 @ concat (map (\<lambda>(path, content, got). file_down path content got) items),
       reports := rs\<rparr>"
  let ?s4 = "?s3\<lparr>zout := zout ?s3 @ ?h2\<rparr>"
  have "ReadHeader ?s4 = (Inr (Position ZFIN 0), ?s4\<lparr>zin := []\<rparr>)"
    using ReadHeader_bytes [OF \<open>idle w'\<close>, of ?s4 "Position ZFIN 0" "[]"] by (simp add: tail_of_def)
  then have fin: "await_fin 10 ?s4 = (Inr (), ?s4\<lparr>zin := [], zout := zout ?s4 @ [0x4F, 0x4F]\<rparr>)"
    using assms(2) by (simp add: await_fin.simps(2) [of 9, simplified] andThen_step)
  have "Send (map fst items) None s = (Inr (), ?s4\<lparr>zin := [], zout := zout ?s4 @ [0x4F, 0x4F]\<rparr>)"
    using hs sf fin assms(2) by (simp add: Send_def cancel_on_error_def andThen_step)
  then show ?thesis by (auto simp: session_down_def)
qed

text \<open>The part of a session after the receiver's first answer.\<close>

definition body_down :: "item list \<Rightarrow> byte list" where
  "body_down items = concat (map (\<lambda>(path, content, got). file_down path content got) items)
     @ header_bytes (Position ZFIN 0) @ [0x4F, 0x4F]"

definition body_up :: "item list \<Rightarrow> byte list" where
  "body_up items = concat (map (\<lambda>(path, content, got). file_up content got) items)
     @ header_bytes (Position ZFIN 0)"

lemma session_parts:
  "session_down items = header_bytes (Position ZRQINIT 0) @ body_down items"
  "session_up items = header_bytes ready @ body_up items"
  by (simp_all add: session_down_def body_down_def session_up_def body_up_def)

lemma recv_loop_session:
  assumes "list_all (sendable d) items" "list_all (receivable dir (disk s)) items"
    and "distinct (map (target dir) items)" "faults s = []" "idle w" "zin s = w @ body_down items @ bs"
  shows "\<exists>rs. recv_loop dir rstate_init s = (Inr (),
     s\<lparr>zin := bs, zout := zout s @ body_up items, disk := delivered dir items (disk s), reports := rs\<rparr>)"
proof -
  let ?h2 = "Position ZFIN 0"
  let ?oo = "[0x4F, 0x4F] :: byte list"
  obtain w' st' rs where "idle w'" "rfile st' = None" and files: "recv_loop dir rstate_init s = recv_loop dir st'
     (s\<lparr>zin := w' @ header_bytes ?h2 @ ?oo @ bs, zout := zout s @ concat (map (\<lambda>(path, content, got). file_up content got) items),
       disk := delivered dir items (disk s), reports := rs\<rparr>)"
    using recv_loop_files [of d items dir s w rstate_init "header_bytes ?h2 @ ?oo @ bs"] assms
    by (auto simp: rstate_init_def body_down_def)
  let ?s3 = "s\<lparr>zin := w' @ header_bytes ?h2 @ ?oo @ bs, zout := zout s @ concat (map (\<lambda>(path, content, got). file_up content got) items),
       disk := delivered dir items (disk s), reports := rs\<rparr>"
  let ?s4 = "?s3\<lparr>zin := ?oo @ bs, zout := zout ?s3 @ header_bytes ?h2\<rparr>"
  have h: "next_header ?s3 = (Inr ?h2, ?s3\<lparr>zin := ?oo @ bs\<rparr>)"
    using next_header_bytes [of ?s3 w' ?h2 "?oo @ bs"] \<open>idle w'\<close> assms(4) by (simp add: tail_of_def)
  have "await_OO 32 ?s4 = (Inr (), ?s4\<lparr>zin := bs\<rparr>)"
    by (simp add: await_OO.simps(2) [of 31, simplified] ReadRaw_def raw.simps)
  then have "recv_step dir st' ?h2 (?s3\<lparr>zin := ?oo @ bs\<rparr>) = (Inr None, ?s4\<lparr>zin := bs\<rparr>)"
    using \<open>rfile st' = None\<close> assms(4) by (simp add: recv_step_def andThen_step ret_def)
  with h have "recv_loop dir st' ?s3 = (Inr (), ?s4\<lparr>zin := bs\<rparr>)"
    by (rule recv_loop_stop)
  moreover have "?s4\<lparr>zin := bs\<rparr> = s\<lparr>zin := bs, zout := zout s @ body_up items,
       disk := delivered dir items (disk s), reports := rs\<rparr>"
    by (rule zs.equality) (simp_all add: body_up_def)
  ultimately show ?thesis using files by auto
qed

lemma Receive_session:
  assumes "list_all (sendable d) items" "list_all (receivable dir (disk s)) items"
    and "distinct (map (target dir) items)" "faults s = []"
    and start: "initial = None \<and> zin s = session_down items @ bs
         \<or> initial = Some (Position ZRQINIT 0) \<and> (\<exists>w. idle w \<and> zin s = w @ body_down items @ bs)"
  shows "\<exists>rs. Receive dir initial s = (Inr (),
     s\<lparr>zin := bs, zout := zout s @ session_up items, disk := delivered dir items (disk s), reports := rs\<rparr>)"
proof -
  let ?h1 = "Position ZRQINIT 0"
  obtain w where "idle w" and hs: "recv_handshake initial s = (Inr ?h1, s\<lparr>zin := w @ body_down items @ bs\<rparr>)"
  proof (cases initial)
    case None
    then show ?thesis
      using that [of "[XON]"] ReadHeader_bytes [of "[]" s ?h1 "body_down items @ bs"] start
      by (auto simp: recv_handshake_def session_parts tail_of_def)
  next
    case (Some h)
    with start obtain w where w: "idle w" "h = ?h1" "zin s = w @ body_down items @ bs" by auto
    then have "s\<lparr>zin := w @ body_down items @ bs\<rparr> = s" by simp
    with w Some show ?thesis
      by (intro that [of w]) (simp_all add: recv_handshake_def ret_def)
  qed
  let ?s2 = "s\<lparr>zin := w @ body_down items @ bs, zout := zout s @ header_bytes ready\<rparr>"
  obtain rs where "recv_loop dir rstate_init ?s2 = (Inr (),
     ?s2\<lparr>zin := bs, zout := zout ?s2 @ body_up items, disk := delivered dir items (disk s), reports := rs\<rparr>)"
    using recv_loop_session [of d items dir ?s2 w bs] assms(1-4) \<open>idle w\<close> by auto
  then show ?thesis
    using hs assms(4)
    by (intro exI [of _ rs]) (simp add: Receive_def cancel_on_error_def andThen_step session_parts)
qed


text \<open>A new file and one of which the receiver has the first two bytes.\<close>

definition demo_items :: "item list" where
  "demo_items = [(''/home/a.txt'', [104, 105], 0), (''/home/b'', [1, 2, 24], 2)]"

definition demo_sender :: zs where
  "demo_sender = \<lparr>zin = [], zin_err = EOF, zout = [], faults = [],
     disk = [''/home/a.txt'' \<mapsto> Regular [104, 105], ''/home/b'' \<mapsto> Regular [1, 2, 24]], reports = []\<rparr>"

definition demo_receiver :: zs where
  "demo_receiver = \<lparr>zin = [], zin_err = EOF, zout = [], faults = [],
     disk = [''/get/b'' \<mapsto> Regular [1, 2]], reports = []\<rparr>"

lemma demo_targets: "map (target ''/get'') demo_items = [''/get/a.txt'', ''/get/b'']"
  by code_simp

lemma demo_names:
  "Base ''/home/a.txt'' = ''a.txt''" "Base ''/home/b'' = ''b''" "safeName ''a.txt''" "safeName ''b''"
  by code_simp+

lemma demo_sendable: "list_all (sendable (disk demo_sender)) demo_items"
  by (simp add: demo_items_def demo_sender_def sendable_def demo_names)

lemma demo_receivable: "list_all (receivable ''/get'' (disk demo_receiver)) demo_items"
  by code_simp


end
