(* ===== verification/Router.thy ===== *)
theory Router
  imports ZmodemTransfer "HOL-Library.Sublist"
begin

text \<open>
  \<open>internal/transfer/router.go\<close>: the router that separates what a terminal shows from the
  ZMODEM transfers on the same channel.

  \<open>rz\<close> is the machine state of the transfer engine: \<open>zin\<close> the channel's output still to be
  read, \<open>zout\<close> what was written to the channel.  \<open>windows\<close> says how many bytes the next
  transfers get to see before their context ends (\<open>None\<close>: it does not end); the pump goes on
  with the rest.  \<open>drained\<close> and \<open>broken\<close> are the scripts of the two things the pump depends
  on besides the bytes: whether the reader's buffer is empty at the end of a turn, and
  whether a write to the display fails.  The hooks are functions of the number of the
  transfer, since the user may choose differently each time; \<open>None\<close> is an unset hook.
\<close>

record router =
  rz :: zs
  windows :: "(nat \<times> zerr) option list"
  drained :: "bool list"
  broken :: "bool list"
  pending :: "byte list"
  normal :: "byte list"
  display :: "byte list"
  transferring :: bool
  cancelled :: bool
  turns :: nat
  states :: "(bool \<times> zerr option) list"

record hooks =
  UploadFiles :: "(nat \<Rightarrow> zerr + string list) option"
  DownloadDirectory :: "(nat \<Rightarrow> zerr + string) option"

definition magic :: "byte list" where
  "magic = [star, star, zdle, kindB]"

text \<open>The two messages of \<open>pump\<close> for a missing hook.\<close>

definition no_upload_hook :: zerr where "no_upload_hook = IOError 1001"
definition no_download_hook :: zerr where "no_download_hook = IOError 1002"

subsection \<open>Write and CancelTransfer\<close>

text \<open>While a transfer runs, input is dropped; a Ctrl-C in it cancels the transfer.\<close>

definition CancelTransfer :: "router \<Rightarrow> router" where
  "CancelTransfer r = (if transferring r then r\<lparr>cancelled := True\<rparr> else r)"

definition router_Write :: "byte list \<Rightarrow> router \<Rightarrow> (zerr + unit) \<times> router" where
  "router_Write b r =
     (if transferring r then (Inr (), if 3 \<in> set b then r\<lparr>cancelled := True\<rparr> else r)
      else (case WriteBytes b (rz r) of (x, s) \<Rightarrow> (x, r\<lparr>rz := s\<rparr>)))"

subsection \<open>The pump\<close>

text \<open>\<open>flush\<close>; \<open>False\<close> stops the pump.\<close>

definition flush :: "router \<Rightarrow> bool \<times> router" where
  "flush r =
     (if normal r = [] then (True, r)
      else (case broken r of
              True # bs \<Rightarrow> (False, r\<lparr>broken := bs, normal := []\<rparr>)
            | bs \<Rightarrow> (True, r\<lparr>broken := drop 1 bs, display := display r @ normal r, normal := []\<rparr>)))"

text \<open>The bytes that cannot begin the magic any more become ordinary output.\<close>

fun shift :: "byte list \<Rightarrow> byte list \<times> byte list" where
  "shift [] = ([], [])"
| "shift (b # bs) =
     (if take (length (b # bs)) magic = b # bs then ([], b # bs)
      else (case shift bs of (out, keep) \<Rightarrow> (b # out, keep)))"

text \<open>The seven bytes of a hex header with a correct checksum.\<close>

definition router_header :: "byte list \<Rightarrow> header option" where
  "router_header hexes =
     (case hex_decode hexes of
        None \<Rightarrow> None
      | Some d \<Rightarrow> if CRC16 (take 5 d) \<noteq> be_get16 (d ! 5) (d ! 6) then None
                  else Some \<lparr>hType = d ! 0, hData = (d ! 1, d ! 2, d ! 3, d ! 4), hCRC32 = False\<rparr>)"

text \<open>The line end after the header: up to two bytes; \<open>None\<close> when the stream ends first.\<close>

fun line_end :: "nat \<Rightarrow> byte list \<Rightarrow> byte list option" where
  "line_end 0 bs = Some bs"
| "line_end (Suc n) [] = None"
| "line_end (Suc n) (v # bs) =
     (if v \<noteq> CR \<and> v AND 0x7F \<noteq> LF then Some (v # bs) else line_end n bs)"

definition run_hook :: "hooks \<Rightarrow> nat \<Rightarrow> header \<Rightarrow> unit io" where
  "run_hook hk n h =
     (if hType h = ZRINIT
      then (case UploadFiles hk of
              None \<Rightarrow> throw no_upload_hook
            | Some f \<Rightarrow> (case f n of Inl e \<Rightarrow> throw e | Inr files \<Rightarrow> Send files (Some h)))
      else (case DownloadDirectory hk of
              None \<Rightarrow> throw no_download_hook
            | Some f \<Rightarrow> (case f n of Inl e \<Rightarrow> throw e | Inr dir \<Rightarrow> Receive dir (Some h))))"

text \<open>
  A transfer in its window of the stream; an error cancels it on the wire once more and the
  state hook hears of the start and of the outcome.
\<close>

definition begin_transfer :: "router \<Rightarrow> router" where
  "begin_transfer r =
     r\<lparr>transferring := True, cancelled := False, states := states r @ [(True, None)]\<rparr>"

definition end_transfer :: "zerr option \<Rightarrow> router \<Rightarrow> router" where
  "end_transfer e r =
     r\<lparr>transferring := False, turns := turns r + 1, states := states r @ [(False, e)]\<rparr>"

definition in_window :: "'a io \<Rightarrow> router \<Rightarrow> (zerr + 'a) \<times> router" where
  "in_window m r =
     (let s = rz r;
          win = (case windows r of Some w # _ \<Rightarrow> w | _ \<Rightarrow> (length (zin s), zin_err s))
      in case m (s\<lparr>zin := take (fst win) (zin s), zin_err := snd win\<rparr>) of
           (x, s1) \<Rightarrow> (x, r\<lparr>rz := s1\<lparr>zin := zin s1 @ drop (fst win) (zin s), zin_err := zin_err s\<rparr>,
                             windows := drop 1 (windows r)\<rparr>))"

definition run_transfer :: "hooks \<Rightarrow> header \<Rightarrow> router \<Rightarrow> router" where
  "run_transfer hk h r =
     (case in_window (run_hook hk (turns r) h) (begin_transfer r) of
        (Inl e, r1) \<Rightarrow> end_transfer (Some e) (r1\<lparr>rz := Cancel (rz r1)\<rparr>)
      | (Inr _, r1) \<Rightarrow> end_transfer None r1)"

text \<open>What follows the magic; \<open>None\<close> ends the pump, \<open>Some (again, r)\<close> with \<open>again\<close> is \<open>continue\<close>.\<close>

definition pump_header :: "hooks \<Rightarrow> router \<Rightarrow> router + bool \<times> router" where
  "pump_header hk r =
     (let bs = zin (rz r)
      in if length bs < 14 then Inl (r\<lparr>rz := (rz r)\<lparr>zin := []\<rparr>\<rparr>)
         else (case router_header (take 14 bs) of
                 None \<Rightarrow> Inr (True, r\<lparr>rz := (rz r)\<lparr>zin := drop 14 bs\<rparr>, normal := magic @ take 14 bs\<rparr>)
               | Some h \<Rightarrow>
                   (case line_end 2 (drop 14 bs) of
                      None \<Rightarrow> Inl (r\<lparr>rz := (rz r)\<lparr>zin := []\<rparr>\<rparr>)
                    | Some rest \<Rightarrow>
                        let r1 = r\<lparr>rz := (rz r)\<lparr>zin := rest\<rparr>\<rparr>
                        in if hType h \<noteq> ZRQINIT \<and> hType h \<noteq> ZRINIT then Inr (True, r1)
                           else Inr (False, run_transfer hk h r1))))"

text \<open>The end of a turn: show what is there when the buffer is empty or enough has come together.\<close>

definition turn_end :: "router \<Rightarrow> bool \<times> router" where
  "turn_end r =
     (let empty = (case drained r of b # _ \<Rightarrow> b | [] \<Rightarrow> True);
          r1 = r\<lparr>drained := drop 1 (drained r)\<rparr>
      in if empty \<or> length (normal r) \<ge> 32768 then flush r1 else (True, r1))"

text \<open>One byte: \<open>Inl\<close> ends the pump.\<close>

definition pump_byte :: "hooks \<Rightarrow> byte \<Rightarrow> router \<Rightarrow> router + router" where
  "pump_byte hk b r =
     (case shift (pending r @ [b]) of (out, keep) \<Rightarrow>
        let r1 = r\<lparr>normal := normal r @ out, pending := keep\<rparr>;
            finish = (\<lambda>r. case turn_end r of (True, r) \<Rightarrow> Inr r | (False, r) \<Rightarrow> Inl r)
        in if keep = magic
           then (case flush r1 of
                   (False, r2) \<Rightarrow> Inl r2
                 | (True, r2) \<Rightarrow>
                     (case pump_header hk (r2\<lparr>pending := []\<rparr>) of
                        Inl r3 \<Rightarrow> Inl r3
                      | Inr (True, r3) \<Rightarrow> Inr r3
                      | Inr (False, r3) \<Rightarrow> finish r3))
           else finish r1)"

subsection \<open>The pump ends\<close>

abbreviation left :: "router \<Rightarrow> nat" where
  "left r \<equiv> length (zin (rz r))"

lemma flush_zin [simp]: "rz (snd (flush r)) = rz r"
  by (simp add: flush_def split: list.split bool.split)

lemma flush_rz: "flush r = (ok, r') \<Longrightarrow> rz r' = rz r"
  using flush_zin [of r] by simp

lemma turn_end_rz: "turn_end r = (ok, r') \<Longrightarrow> rz r' = rz r"
  by (auto simp: turn_end_def Let_def split: if_splits list.splits dest!: flush_rz)

lemma line_end_length: "line_end n bs = Some rest \<Longrightarrow> length rest \<le> length bs"
  by (induction n bs rule: line_end.induct) (auto split: if_splits)

lemma consumes_run_hook: "consumes (run_hook hk n h)"
  unfolding run_hook_def by (auto intro!: consumes_intro split: option.splits sum.splits)

lemma in_window_left:
  assumes "consumes m" "in_window m r = (x, r')"
  shows "left r' \<le> left r"
proof -
  let ?win = "case windows r of Some w # _ \<Rightarrow> w | _ \<Rightarrow> (length (zin (rz r)), zin_err (rz r))"
  let ?s = "rz r\<lparr>zin := take (fst ?win) (zin (rz r)), zin_err := snd ?win\<rparr>"
  obtain y s1 where m: "m ?s = (y, s1)" by fastforce
  have "length (zin s1) \<le> length (take (fst ?win) (zin (rz r)))"
    using consumesD [OF assms(1) m] by simp
  with m assms(2) show ?thesis by (auto simp: in_window_def Let_def)
qed

lemma run_transfer_left: "left (run_transfer hk h r) \<le> left r"
proof -
  obtain x r1 where w: "in_window (run_hook hk (turns r) h) (begin_transfer r) = (x, r1)" by fastforce
  have "left r1 \<le> left r"
    using in_window_left [OF consumes_run_hook w] by (simp add: begin_transfer_def)
  moreover have "length (zin (Cancel s)) \<le> length (zin s)" for s
    using consumes_WriteBytes [of cancel_bytes] by (simp add: Cancel_def consumes_def)
  ultimately show ?thesis
    using w by (auto simp: run_transfer_def end_transfer_def split: sum.splits intro: le_trans)
qed

lemma pump_header_left: "pump_header hk r = Inr (again, r') \<Longrightarrow> left r' \<le> left r"
  using run_transfer_left
  by (fastforce simp: pump_header_def Let_def split: if_splits option.splits
      dest!: line_end_length intro: le_trans)

lemma pump_byte_left: "pump_byte hk b r = Inr r' \<Longrightarrow> left r' \<le> left r"
  unfolding pump_byte_def Let_def
  by (auto split: prod.splits if_splits sum.splits bool.splits
      dest!: turn_end_rz pump_header_left flush_rz)

function pump :: "hooks \<Rightarrow> router \<Rightarrow> router" where
  "pump hk r =
     (case zin (rz r) of
        [] \<Rightarrow> snd (flush (r\<lparr>normal := normal r @ pending r\<rparr>))
      | b # bs \<Rightarrow>
          (case pump_byte hk b (r\<lparr>rz := (rz r)\<lparr>zin := bs\<rparr>\<rparr>) of
             Inl r' \<Rightarrow> r'
           | Inr r' \<Rightarrow> pump hk r'))"
  by pat_completeness auto
termination
proof (relation "measure (\<lambda>(hk, r). left r)", goal_cases)
  case (2 hk r b bs r')
  have "left r' \<le> length bs" using pump_byte_left [OF 2(2)] by simp
  with 2(1) show ?case by simp
qed simp

declare pump.simps [simp del]

subsection \<open>Recognising the magic\<close>

text \<open>
  \<open>longest c p\<close>: of all the ends of \<open>c\<close> that the magic begins with, \<open>p\<close> is the longest.
  That is what \<open>pending\<close> is of the bytes seen so far.
\<close>

definition longest :: "byte list \<Rightarrow> byte list \<Rightarrow> bool" where
  "longest c p \<longleftrightarrow> suffix p c \<and> prefix p magic
     \<and> (\<forall>k. suffix k c \<longrightarrow> prefix k magic \<longrightarrow> length k \<le> length p)"

lemma take_prefix: "take (length xs) ys = xs \<longleftrightarrow> prefix xs ys"
  by (metis append_eq_conv_conj append_take_drop_id prefix_def)

lemma shift_longest: "shift bs = (out, keep) \<Longrightarrow> out @ keep = bs \<and> longest bs keep"
proof (induction bs arbitrary: out keep)
  case Nil
  then show ?case by (simp add: longest_def)
next
  case (Cons b bs)
  show ?case
  proof (cases "prefix (b # bs) magic")
    case True
    then have "take (length (b # bs)) magic = b # bs" by (simp only: take_prefix)
    with Cons.prems True show ?thesis
      by (auto simp: longest_def dest: suffix_length_le)
  next
    case False
    then have "take (length (b # bs)) magic \<noteq> b # bs" by (simp only: take_prefix not_False_eq_True)
    with Cons.prems obtain out' where o: "shift bs = (out', keep)" "out = b # out'"
      by (auto split: prod.splits)
    from Cons.IH [OF o(1)] have IH: "out' @ keep = bs" "longest bs keep" by simp_all
    have "length k \<le> length keep" if "suffix k (b # bs)" "prefix k magic" for k
    proof -
      have "suffix k bs" using that False by (auto simp: suffix_Cons)
      with that(2) IH(2) show ?thesis by (simp add: longest_def)
    qed
    with IH o show ?thesis by (auto simp: longest_def intro: suffix_ConsI)
  qed
qed

lemma longest_Nil: "longest [] []"
  by (simp add: longest_def)

lemma longest_step:
  assumes "longest c p" "shift (p @ [b]) = (out, keep)"
  shows "longest (c @ [b]) keep"
proof -
  from shift_longest [OF assms(2)] have k: "suffix keep (p @ [b])" "prefix keep magic"
    and max: "\<And>k. suffix k (p @ [b]) \<Longrightarrow> prefix k magic \<Longrightarrow> length k \<le> length keep"
    by (auto simp: longest_def)
  have pc: "suffix p c" using assms(1) by (simp add: longest_def)
  have "length k \<le> length keep" if "suffix k (c @ [b])" "prefix k magic" for k
  proof (cases k rule: rev_cases)
    case (snoc k' b')
    with that have k': "suffix k' c" "b' = b" "prefix k' magic"
      by (auto simp: suffix_def dest: append_prefixD)
    with assms(1) have "length k' \<le> length p" by (simp add: longest_def)
    with k' pc have "suffix k' p" by (meson suffix_length_suffix)
    with snoc k' have "suffix k (p @ [b])" by simp
    then show ?thesis using that(2) by (rule max)
  qed simp
  with k pc show ?thesis unfolding longest_def
    by (meson snoc_suffix_snoc suffix_order.trans)
qed

lemma longest_not_magic: "longest c p \<Longrightarrow> \<not> sublist magic c \<Longrightarrow> p \<noteq> magic"
  by (auto simp: longest_def)

subsection \<open>Ordinary output\<close>

text \<open>
  \<open>passes r r' xs\<close>: going from \<open>r\<close> to \<open>r'\<close> the pump took \<open>xs\<close> as ordinary output and did
  nothing else.
\<close>

definition passes :: "router \<Rightarrow> router \<Rightarrow> byte list \<Rightarrow> bool" where
  "passes r r' xs \<longleftrightarrow>
     display r' @ normal r' @ pending r' = display r @ normal r @ pending r @ xs
     \<and> zin (rz r) = xs @ zin (rz r') \<and> rz r = (rz r')\<lparr>zin := zin (rz r)\<rparr>
     \<and> windows r' = windows r \<and> states r' = states r \<and> turns r' = turns r
     \<and> transferring r' = transferring r \<and> cancelled r' = cancelled r
     \<and> (list_all Not (broken r) \<longrightarrow> list_all Not (broken r'))"

lemma flush_quiet:
  assumes "list_all Not (broken r)"
  shows "\<exists>b. flush r = (True, r\<lparr>display := display r @ normal r, normal := [], broken := b\<rparr>)
              \<and> list_all Not b"
proof (cases "normal r = []")
  case True
  then show ?thesis using assms
    by (intro exI [of _ "broken r"]) (simp add: flush_def)
next
  case False
  then show ?thesis using assms
    by (intro exI [of _ "drop 1 (broken r)"]) (cases "broken r"; auto simp: flush_def)
qed

lemma turn_end_quiet:
  assumes "list_all Not (broken r)"
  shows "\<exists>r'. turn_end r = (True, r') \<and> passes r r' [] \<and> pending r' = pending r"
proof -
  let ?r1 = "r\<lparr>drained := drop 1 (drained r)\<rparr>"
  obtain b where "flush ?r1 = (True, ?r1\<lparr>display := display r @ normal r, normal := [], broken := b\<rparr>)"
      "list_all Not b"
    using flush_quiet [of ?r1] assms by auto
  then show ?thesis using assms
    by (auto simp: turn_end_def Let_def passes_def)
qed

lemma passes_trans: "passes r s xs \<Longrightarrow> passes s t ys \<Longrightarrow> passes r t (xs @ ys)"
  by (auto simp: passes_def)

lemma pump_byte_passes:
  assumes "longest c (pending r)" "\<not> sublist magic (c @ [b])" "list_all Not (broken r)"
    and zin: "zin (rz r) = b # bs"
  shows "\<exists>r'. pump_byte hk b (r\<lparr>rz := (rz r)\<lparr>zin := bs\<rparr>\<rparr>) = Inr r' \<and> passes r r' [b]
              \<and> longest (c @ [b]) (pending r')"
proof -
  obtain out keep where sh: "shift (pending r @ [b]) = (out, keep)" by fastforce
  have keep: "out @ keep = pending r @ [b]" "longest (c @ [b]) keep"
    using shift_longest [OF sh] longest_step [OF assms(1) sh] by simp_all
  let ?r1 = "r\<lparr>rz := (rz r)\<lparr>zin := bs\<rparr>, normal := normal r @ out, pending := keep\<rparr>"
  obtain r' where te: "turn_end ?r1 = (True, r')" "passes ?r1 r' []" "pending r' = keep"
    using turn_end_quiet [of ?r1] assms(3) by auto
  have "passes r ?r1 [b]" using zin keep(1) by (simp add: passes_def)
  then have "passes r r' [b]" using passes_trans te(2) by fastforce
  moreover have "keep \<noteq> magic" using longest_not_magic [OF keep(2) assms(2)] .
  ultimately show ?thesis
    using sh te keep(2) by (auto simp: pump_byte_def Let_def)
qed

lemma pump_passes:
  assumes "longest c (pending r)" "\<not> sublist magic (c @ xs)" "list_all Not (broken r)"
    and "zin (rz r) = xs @ bs"
  shows "\<exists>r'. pump hk r = pump hk r' \<and> passes r r' xs \<and> longest (c @ xs) (pending r')"
  using assms
proof (induction xs arbitrary: c r)
  case Nil
  then show ?case by (intro exI [of _ r]) (simp add: passes_def)
next
  case (Cons b xs)
  have "\<not> sublist magic (c @ [b])"
    
  proof
    assume "sublist magic (c @ [b])"
    then obtain ps ss where "c @ [b] = ps @ magic @ ss" by (auto simp: sublist_def)
    then have "c @ b # xs = ps @ magic @ (ss @ xs)" by simp
    with Cons.prems(2) show False unfolding sublist_def by blast
  qed
  from pump_byte_passes [OF Cons.prems(1) this Cons.prems(3), of "xs @ bs" hk] Cons.prems(4)
  obtain r1 where r1: "pump_byte hk b (r\<lparr>rz := (rz r)\<lparr>zin := xs @ bs\<rparr>\<rparr>) = Inr r1"
    "passes r r1 [b]" "longest (c @ [b]) (pending r1)" by auto
  have "\<not> sublist magic ((c @ [b]) @ xs)" using Cons.prems(2) by simp
  moreover have "list_all Not (broken r1)" "zin (rz r1) = xs @ bs"
    using r1(2) Cons.prems(3,4) by (simp_all add: passes_def)
  ultimately obtain r2 where r2: "pump hk r1 = pump hk r2" "passes r1 r2 xs" "longest ((c @ [b]) @ xs) (pending r2)"
    using Cons.IH [OF r1(3)] by blast
  moreover have "pump hk r = pump hk r1"
    using r1(1) Cons.prems(4) by (simp add: pump.simps [of hk r])
  ultimately show ?case
    using passes_trans [OF r1(2) r2(2)] by (intro exI [of _ r2]) simp
qed

lemma pump_end:
  assumes "zin (rz r) = []" "list_all Not (broken r)"
  shows "\<exists>b. pump hk r = r\<lparr>display := display r @ normal r @ pending r, normal := [], broken := b\<rparr>"
  using flush_quiet [of "r\<lparr>normal := normal r @ pending r\<rparr>"] assms
  by (auto simp: pump.simps [of hk r])

lemma pump_ordinary:
  assumes "longest c (pending r)" "\<not> sublist magic (c @ zin (rz r))" "list_all Not (broken r)"
  shows "display (pump hk r) = display r @ normal r @ pending r @ zin (rz r)"
    and "rz (pump hk r) = (rz r)\<lparr>zin := []\<rparr>"
    and "states (pump hk r) = states r"
proof -
  obtain r1 where r1: "pump hk r = pump hk r1" "passes r r1 (zin (rz r))"
    using pump_passes [OF assms, of "[]" hk] by auto
  then have "zin (rz r1) = []" "list_all Not (broken r1)" using assms(3) by (auto simp: passes_def)
  from pump_end [OF this, of hk] obtain b
    where p: "pump hk r1 = r1\<lparr>display := display r1 @ normal r1 @ pending r1, normal := [], broken := b\<rparr>" ..
  show "display (pump hk r) = display r @ normal r @ pending r @ zin (rz r)"
    using r1 p by (simp add: passes_def)
  show "states (pump hk r) = states r" using r1 p by (simp add: passes_def)
  have "rz r = (rz r1)\<lparr>zin := zin (rz r)\<rparr>" using r1(2) by (simp add: passes_def)
  then have "(rz r)\<lparr>zin := []\<rparr> = (rz r1)\<lparr>zin := []\<rparr>" by (metis zs.surjective zs.update_convs(1))
  with r1 p \<open>zin (rz r1) = []\<close> show "rz (pump hk r) = (rz r)\<lparr>zin := []\<rparr>" by simp
qed

subsection \<open>A download between terminal output\<close>

lemma hex_header_router:
  "router_header (hex_encode ((t # quad_list q) @
     [ucast (drop_bit 8 (CRC16 (t # quad_list q))), ucast (CRC16 (t # quad_list q))]))
   = Some \<lparr>hType = t, hData = q, hCRC32 = False\<rparr>"
  unfolding router_header_def hex_decode_encode by (cases q) simp

lemma header_bytes_parts:
  obtains hexes where "header_bytes h = magic @ hexes @ [CR, LF] @ tail_of h" "length hexes = 14"
    "router_header hexes = Some (h\<lparr>hCRC32 := False\<rparr>)"
proof -
  let ?raw = "hType h # quad_list (hData h)"
  let ?hexes = "hex_encode (?raw @ [ucast (drop_bit 8 (CRC16 ?raw)), ucast (CRC16 ?raw)])"
  have "length ?hexes = 14" by (cases "hData h") simp
  moreover have "router_header ?hexes = Some (h\<lparr>hCRC32 := False\<rparr>)"
    using hex_header_router [of "hType h" "hData h"] by simp
  ultimately show ?thesis
    by (intro that [of ?hexes]) (simp_all add: header_bytes_def magic_def tail_of_def Let_def)
qed

lemma almost_magic:
  assumes "length (butlast magic) \<le> length p" "prefix p magic" "p \<noteq> magic"
  shows "p = butlast magic"
proof -
  have "p = take (length p) magic" using assms(2) by (metis append_eq_conv_conj prefix_def)
  moreover have "length p < length magic"
    using assms(2,3) by (metis prefix_length_prefix prefix_order.eq_iff linorder_not_le prefix_order.order_refl)
  ultimately show ?thesis using assms(1) by (simp add: magic_def take_Cons split: nat.splits)
qed

lemma run_transfer_fields:
  "broken (run_transfer hk h r) = broken r" "pending (run_transfer hk h r) = pending r"
  "normal (run_transfer hk h r) = normal r" "display (run_transfer hk h r) = display r"
  by (auto simp: run_transfer_def in_window_def begin_transfer_def end_transfer_def Let_def
      split: prod.splits sum.splits)

text \<open>Up to the end of the magic.\<close>

lemma pump_magic:
  assumes "pending r = []" "list_all Not (broken r)"
    and fresh: "\<not> sublist magic (xs @ butlast magic)"
    and zin: "zin (rz r) = xs @ magic @ bs"
  shows "\<exists>f. (\<forall>z. pending (f z) = [] \<and> normal (f z) = [] \<and> list_all Not (broken (f z)) \<and> zin (rz (f z)) = z
          \<and> (\<forall>y. f y\<lparr>rz := (rz (f y))\<lparr>zin := z\<rparr>\<rparr> = f z))
     \<and> passes r (f (magic @ bs)) xs
     \<and> pump hk r = (case pump_header hk (f bs) of
           Inl r1 \<Rightarrow> r1
         | Inr (True, r1) \<Rightarrow> pump hk r1
         | Inr (False, r1) \<Rightarrow> (case turn_end r1 of (True, r2) \<Rightarrow> pump hk r2 | (False, r2) \<Rightarrow> r2))"
proof -
  have m: "magic = butlast magic @ [kindB]" by (simp add: magic_def)
  let ?c = "xs @ butlast magic"
  have "zin (rz r) = ?c @ kindB # bs" using zin m by simp
  from pump_passes [OF _ _ assms(2), of "[]" ?c "kindB # bs" hk] fresh this assms(1)
  obtain r0 where r0: "pump hk r = pump hk r0" "passes r r0 ?c" "longest ?c (pending r0)"
    by (auto simp: longest_Nil)
  have "length (butlast magic) \<le> length (pending r0)"
  proof -
    have "suffix (butlast magic) ?c" "prefix (butlast magic) magic"
      by (simp_all add: suffix_def prefix_def magic_def)
    with r0(3) show ?thesis unfolding longest_def by blast
  qed
  moreover have "prefix (pending r0) magic" "pending r0 \<noteq> magic"
    using r0(3) longest_not_magic [OF r0(3) fresh] by (auto simp: longest_def)
  ultimately have p0: "pending r0 = butlast magic" by (rule almost_magic)
  from r0(2) zin have z0: "zin (rz r0) = kindB # bs"
    and shown: "display r0 @ normal r0 = display r @ normal r @ xs"
    by (auto simp: passes_def p0 assms(1)) (simp_all add: magic_def)
  have quiet0: "list_all Not (broken r0)" using r0(2) assms(2) by (simp add: passes_def)
  let ?r = "r0\<lparr>rz := (rz r0)\<lparr>zin := bs\<rparr>, pending := magic\<rparr>"
  obtain b where fl: "flush ?r = (True, ?r\<lparr>display := display r0 @ normal r0, normal := [], broken := b\<rparr>)"
      "list_all Not b"
    using flush_quiet [of ?r] quiet0 by auto
  define f where "f z = r0\<lparr>rz := (rz r0)\<lparr>zin := z\<rparr>, pending := magic, display := display r0 @ normal r0,
              normal := [], broken := b\<rparr>\<lparr>pending := []\<rparr>" for z
  have f: "f y\<lparr>rz := (rz (f y))\<lparr>zin := z\<rparr>\<rparr> = f z" for y z
    by (rule router.equality) (simp_all add: f_def)
  have f_simps [simp]: "rz (f z) = (rz r0)\<lparr>zin := z\<rparr>" "pending (f z) = []" "normal (f z) = []"
    "broken (f z) = b" "f z\<lparr>pending := []\<rparr> = f z" for z by (simp_all add: f_def)
  have "shift (pending r0 @ [kindB]) = ([], magic)" by (simp add: p0 magic_def)
  moreover have "flush (r0\<lparr>rz := (rz r0)\<lparr>zin := bs\<rparr>, normal := normal r0 @ [], pending := magic\<rparr>)
      = (True, f bs\<lparr>pending := magic\<rparr>)"
    using fl(1) by (simp add: f_def)
  ultimately have "pump hk r0 = (case pump_header hk (f bs) of
           Inl r1 \<Rightarrow> r1
         | Inr (True, r1) \<Rightarrow> pump hk r1
         | Inr (False, r1) \<Rightarrow> (case turn_end r1 of (True, r2) \<Rightarrow> pump hk r2 | (False, r2) \<Rightarrow> r2))"
    using z0 by (simp add: pump.simps [of hk r0] pump_byte_def Let_def split: sum.splits prod.splits bool.splits)
  moreover have "passes r (f (magic @ bs)) xs"
    using r0(2) zin shown quiet0 fl(2) assms(1) by (auto simp: passes_def f_def)
  ultimately show ?thesis
    using r0(1) fl(2) f by (intro exI [of _ f]) simp
qed

text \<open>Up to the header that starts a transfer, and the transfer itself.\<close>

lemma pump_transfer:
  assumes "pending r = []" "list_all Not (broken r)"
    and fresh: "\<not> sublist magic (xs @ butlast magic)"
    and zin: "zin (rz r) = xs @ header_bytes h @ bs"
    and kind: "hType h = ZRQINIT \<or> hType h = ZRINIT" "\<not> hCRC32 h"
  shows "\<exists>r1 r2. passes r r1 xs \<and> pending r1 = [] \<and> normal r1 = [] \<and> zin (rz r1) = header_bytes h @ bs
     \<and> passes (run_transfer hk h (r1\<lparr>rz := (rz r1)\<lparr>zin := XON # bs\<rparr>\<rparr>)) r2 []
     \<and> pending r2 = pending (run_transfer hk h (r1\<lparr>rz := (rz r1)\<lparr>zin := XON # bs\<rparr>\<rparr>))
     \<and> pump hk r = pump hk r2"
proof -
  obtain hexes where hexes: "header_bytes h = magic @ hexes @ [CR, LF] @ tail_of h" "length hexes = 14"
    "router_header hexes = Some (h\<lparr>hCRC32 := False\<rparr>)"
    by (rule header_bytes_parts)
  have tail: "tail_of h = [XON]" using kind by (auto simp: tail_of_def)
  let ?z = "hexes @ [CR, LF, XON] @ bs"
  have "zin (rz r) = xs @ magic @ ?z" using zin hexes(1) tail by simp
  from pump_magic [OF assms(1,2) fresh this, of hk] obtain f where
    f: "\<And>z. pending (f z) = [] \<and> normal (f z) = [] \<and> list_all Not (broken (f z)) \<and> zin (rz (f z)) = z"
    and rz: "\<And>y z. f y\<lparr>rz := (rz (f y))\<lparr>zin := z\<rparr>\<rparr> = f z"
    and pass: "passes r (f (magic @ ?z)) xs"
    and run: "pump hk r = (case pump_header hk (f ?z) of
           Inl r1 \<Rightarrow> r1
         | Inr (True, r1) \<Rightarrow> pump hk r1
         | Inr (False, r1) \<Rightarrow> (case turn_end r1 of (True, r2) \<Rightarrow> pump hk r2 | (False, r2) \<Rightarrow> r2))"
    by blast
  let ?rt = "run_transfer hk h (f (XON # bs))"
  have "h\<lparr>hCRC32 := False\<rparr> = h" using kind(2) by simp
  then have ph: "pump_header hk (f ?z) = Inr (False, ?rt)"
    using hexes(2,3) kind(1) f [of ?z] rz
    by (auto simp: pump_header_def Let_def numeral_2_eq_2)
  obtain r2 where "turn_end ?rt = (True, r2)" "passes ?rt r2 []" "pending r2 = pending ?rt"
    using turn_end_quiet [of ?rt] f by (auto simp: run_transfer_fields)
  moreover have "magic @ ?z = header_bytes h @ bs" using hexes(1) tail by simp
  with pass have "passes r (f (header_bytes h @ bs)) xs" by (simp only:)
  ultimately show ?thesis
    using run ph f rz by - (rule exI [of _ "f (header_bytes h @ bs)"], rule exI [of _ r2], simp)
qed

lemma run_transfer_receives:
  assumes hook: "DownloadDirectory hk = Some pick" "pick (turns r) = Inr dir" and "windows r = []"
    and "list_all (sendable d) items" "list_all (receivable dir (disk (rz r))) items"
    and "distinct (map (target dir) items)" "faults (rz r) = []" "zin (rz r) = XON # body_down items @ bs"
  shows "\<exists>rs. run_transfer hk (Position ZRQINIT 0) r = r\<lparr>
     rz := (rz r)\<lparr>zin := bs, zout := zout (rz r) @ session_up items,
                   disk := delivered dir items (disk (rz r)), reports := rs\<rparr>,
     transferring := False, cancelled := False, turns := turns r + 1,
     states := states r @ [(True, None), (False, None)]\<rparr>"
proof -
  obtain rs where "Receive dir (Some (Position ZRQINIT 0)) (rz r) = (Inr (),
     (rz r)\<lparr>zin := bs, zout := zout (rz r) @ session_up items,
            disk := delivered dir items (disk (rz r)), reports := rs\<rparr>)"
    using Receive_session [of d items dir "rz r" "Some (Position ZRQINIT 0)" bs] assms(4-)
    by (auto intro: exI [of _ "[XON]"])
  then show ?thesis
    using hook assms(3)
    by (intro exI [of _ rs])
      (simp add: run_transfer_def run_hook_def in_window_def begin_transfer_def end_transfer_def Let_def)
qed


text \<open>
  A download in the middle of a terminal session.  When the output is \<open>xs\<close>, then what a
  sender writes for some files, then \<open>ys\<close>, the terminal shows \<open>xs\<close> and \<open>ys\<close> and not a byte
  of the transfer, the files are complete in the chosen directory, the channel got the
  receiver's answers and nothing else, and the state hook saw one successful transfer.
\<close>

theorem download_between_output:
  assumes start: "pending r = []" "normal r = []" "list_all Not (broken r)" "windows r = []" "faults (rz r) = []"
    and hook: "DownloadDirectory hk = Some pick" "pick (turns r) = Inr dir"
    and items: "list_all (sendable d) items" "list_all (receivable dir (disk (rz r))) items"
      "distinct (map (target dir) items)"
    and zin: "zin (rz r) = xs @ session_down items @ ys"
    and plain: "\<not> sublist magic (xs @ butlast magic)" "\<not> sublist magic ys"
  shows "display (pump hk r) = display r @ xs @ ys
    \<and> disk (rz (pump hk r)) = delivered dir items (disk (rz r))
    \<and> zout (rz (pump hk r)) = zout (rz r) @ session_up items
    \<and> states (pump hk r) = states r @ [(True, None), (False, None)]"
proof -
  let ?h = "Position ZRQINIT 0"
  let ?bs = "body_down items @ ys"
  have "zin (rz r) = xs @ header_bytes ?h @ ?bs" using zin by (simp add: session_parts)
  from pump_transfer [OF start(1,3) plain(1) this, of hk]
  obtain r1 r2 where r1: "passes r r1 xs" "pending r1 = []" "normal r1 = []" "zin (rz r1) = header_bytes ?h @ ?bs"
    and r2: "passes (run_transfer hk ?h (r1\<lparr>rz := (rz r1)\<lparr>zin := XON # ?bs\<rparr>\<rparr>)) r2 []"
      "pending r2 = pending (run_transfer hk ?h (r1\<lparr>rz := (rz r1)\<lparr>zin := XON # ?bs\<rparr>\<rparr>))"
    and run: "pump hk r = pump hk r2"
    by auto
  let ?r1 = "r1\<lparr>rz := (rz r1)\<lparr>zin := XON # ?bs\<rparr>\<rparr>"
  have same: "rz r = (rz r1)\<lparr>zin := zin (rz r)\<rparr>" using r1(1) unfolding passes_def by blast
  have eqs: "disk (rz r) = disk (rz r1)" "zout (rz r) = zout (rz r1)" "faults (rz r) = faults (rz r1)"
    by (subst same, simp)+
  have quiet: "list_all Not (broken r1)" "windows r1 = []" "turns r1 = turns r" "states r1 = states r"
    using r1(1) start by (simp_all add: passes_def)
  obtain rs where rt: "run_transfer hk ?h ?r1 = ?r1\<lparr>
     rz := (rz ?r1)\<lparr>zin := ys, zout := zout (rz ?r1) @ session_up items,
                   disk := delivered dir items (disk (rz ?r1)), reports := rs\<rparr>,
     transferring := False, cancelled := False, turns := turns ?r1 + 1,
     states := states ?r1 @ [(True, None), (False, None)]\<rparr>"
    using run_transfer_receives [of hk pick ?r1 dir d items ys] hook items start eqs quiet by auto
  have 2: "display r2 @ normal r2 = display r @ xs" "pending r2 = []" "zin (rz r2) = ys"
    "list_all Not (broken r2)" "states r2 = states r @ [(True, None), (False, None)]"
    using r2 rt r1 start quiet by (simp_all add: passes_def)
  have "rz (run_transfer hk ?h ?r1) = (rz r2)\<lparr>zin := zin (rz (run_transfer hk ?h ?r1))\<rparr>"
    using r2(1) unfolding passes_def by blast
  from arg_cong [OF this, of disk] arg_cong [OF this, of zout] rt eqs
  have 3: "disk (rz r2) = delivered dir items (disk (rz r))" "zout (rz r2) = zout (rz r) @ session_up items"
    by simp_all
  show ?thesis
    using pump_ordinary [of "[]" r2 hk] 2 3 plain(2) by (simp add: longest_Nil run)
qed

definition demo_router :: "byte list \<Rightarrow> router" where
  "demo_router bs = \<lparr>rz = demo_receiver\<lparr>zin := bs\<rparr>, windows = [], drained = [], broken = [],
     pending = [], normal = [], display = [], transferring = False, cancelled = False, turns = 0,
     states = []\<rparr>"

definition demo_hooks :: hooks where
  "demo_hooks = \<lparr>UploadFiles = None, DownloadDirectory = Some (\<lambda>_. Inr ''/get'')\<rparr>"


theorem download_between_output_witness:
  "display (pump demo_hooks (demo_router ([0x24, 0x2A] @ session_down demo_items @ [0x2A, 0x0D]))) = [0x24, 0x2A, 0x2A, 0x0D]
   \<and> disk (rz (pump demo_hooks (demo_router ([0x24, 0x2A] @ session_down demo_items @ [0x2A, 0x0D])))) ''/get/b''
       = Some (Regular [1, 2, 24])"
proof -
  let ?r = "demo_router ([0x24, 0x2A] @ session_down demo_items @ [0x2A, 0x0D])"
  have r: "pending ?r = []" "normal ?r = []" "list_all Not (broken ?r)" "windows ?r = []" "faults (rz ?r) = []"
    "zin (rz ?r) = [0x24, 0x2A] @ session_down demo_items @ [0x2A, 0x0D]" "disk (rz ?r) = disk demo_receiver"
    "display ?r = []"
    by (simp_all add: demo_router_def demo_receiver_def)
  have h: "DownloadDirectory demo_hooks = Some (\<lambda>_. Inr ''/get'')" by (simp add: demo_hooks_def)
  have d: "distinct (map (target ''/get'') demo_items)" by (simp add: demo_targets)
  have plain: "\<not> sublist magic ([0x24, 0x2A] @ butlast magic)" "\<not> sublist magic [0x2A, 0x0D]"
    by (simp_all add: magic_def sublist_code)
  note run = download_between_output [OF r(1-5) h HOL.refl demo_sendable
      demo_receivable [folded r(7)] d r(6) plain]
  have "target ''/get'' (''/home/b'', [1, 2, 24], 2) = ''/get/b''"
    using demo_targets by (simp add: demo_items_def)
  then have "delivered ''/get'' demo_items (disk demo_receiver) ''/get/b'' = Some (Regular [1, 2, 24])"
    using delivered_target [OF d, of "(''/home/b'', [1, 2, 24], 2)"] by (simp add: demo_items_def)
  with run r(7,8) show ?thesis by simp
qed

text \<open>
  What a channel that closes inside the fourteen digits of a header shows.  The bytes
  before it appear, but the four announcing bytes and the digits that arrived do not: the
  terminal loses them, although it shows them when all fourteen bytes arrive and are no
  header.
\<close>

theorem truncated_header_lost:
  assumes "pending r = []" "normal r = []" "list_all Not (broken r)"
    and "\<not> sublist magic (xs @ butlast magic)"
    and "zin (rz r) = xs @ magic @ t" "length t < 14"
  shows "display (pump hk r) = display r @ xs"
proof -
  from pump_magic [OF assms(1,3-5), of hk] obtain f where
    f: "\<And>z. pending (f z) = [] \<and> normal (f z) = [] \<and> zin (rz (f z)) = z"
    and pass: "passes r (f (magic @ t)) xs"
    and rz: "\<And>y z. f y\<lparr>rz := (rz (f y))\<lparr>zin := z\<rparr>\<rparr> = f z"
    and run: "pump hk r = (case pump_header hk (f t) of
           Inl r1 \<Rightarrow> r1
         | Inr (True, r1) \<Rightarrow> pump hk r1
         | Inr (False, r1) \<Rightarrow> (case turn_end r1 of (True, r2) \<Rightarrow> pump hk r2 | (False, r2) \<Rightarrow> r2))"
    by blast
  have "display (f (magic @ t)) = display r @ xs"
    using pass f [of "magic @ t"] assms(1,2) by (simp add: passes_def)
  moreover have "display (f y) = display (f z)" for y z
    using arg_cong [OF rz [of y z], of display] by simp
  ultimately have "display (f []) = display r @ xs" by metis
  moreover have "pump hk r = f []"
    using run assms(6) f [of t] rz by (simp add: pump_header_def Let_def)
  ultimately show ?thesis by simp
qed

theorem truncated_header_lost_witness:
  "display (pump demo_hooks (demo_router ([0x61] @ magic @ [0x30, 0x31]))) = [0x61]"
proof -
  have "\<not> sublist magic ([0x61] @ butlast magic)"
    by (simp add: magic_def sublist_code)
  then show ?thesis
    using truncated_header_lost [of "demo_router ([0x61] @ magic @ [0x30, 0x31])" "[0x61]" "[0x30, 0x31]" demo_hooks]
    by (simp add: demo_router_def demo_receiver_def)
qed

end
