(* ===== verification/GoJson.thy ===== *)
theory GoJson
  imports GoStrings
begin

text \<open>
  The parts of \<open>unicode/utf8\<close> and \<open>encoding/json\<close> that the program uses: which byte
  sequences are UTF-8, and how \<open>json.Marshal\<close> writes strings, numbers, arrays and objects.
  The main result is that the text determines the value: two values of valid UTF-8 with the
  same text are equal.
\<close>

subsection \<open>UTF-8\<close>

definition code_in :: "nat \<Rightarrow> nat \<Rightarrow> char \<Rightarrow> bool" where
  "code_in lo hi c \<longleftrightarrow> lo \<le> of_char c \<and> of_char c \<le> hi"

abbreviation cont :: "char \<Rightarrow> bool" where
  "cont \<equiv> code_in 0x80 0xBF"

text \<open>\<open>utf8.DecodeRune\<close>: the width of the rune at the front, 0 if there is none.\<close>

definition utf8_width :: "string \<Rightarrow> nat" where
  "utf8_width s =
     (case s of
        [] \<Rightarrow> 0
      | a # _ \<Rightarrow>
          if code_in 0 0x7F a then 1
          else if code_in 0xC2 0xDF a then (if 2 \<le> length s \<and> cont (s ! 1) then 2 else 0)
          else if code_in 0xE0 0xEF a
          then (if 3 \<le> length s \<and> cont (s ! 2)
                   \<and> code_in (if a = CHR 0xE0 then 0xA0 else 0x80) (if a = CHR 0xED then 0x9F else 0xBF) (s ! 1)
                then 3 else 0)
          else if code_in 0xF0 0xF4 a
          then (if 4 \<le> length s \<and> cont (s ! 2) \<and> cont (s ! 3)
                   \<and> code_in (if a = CHR 0xF0 then 0x90 else 0x80) (if a = CHR 0xF4 then 0x8F else 0xBF) (s ! 1)
                then 4 else 0)
          else 0)"

lemma utf8_width_le: "utf8_width s \<le> length s"
  by (simp add: utf8_width_def split: list.split)

lemma utf8_width_drop: "0 < utf8_width s \<Longrightarrow> length (drop (utf8_width s) s) < length s"
  using utf8_width_le [of s] by simp

function utf8_valid :: "string \<Rightarrow> bool" where
  "utf8_valid s =
     (if s = [] then True else if utf8_width s = 0 then False
      else utf8_valid (drop (utf8_width s) s))"
  by pat_completeness auto
termination by (relation "measure length") (simp_all del: length_drop add: utf8_width_drop)

declare utf8_valid.simps [simp del]

lemma utf8_valid_Nil [simp]: "utf8_valid []"
  by (simp add: utf8_valid.simps)

lemma utf8_valid_ascii: "list_all (code_in 0 0x7F) s \<Longrightarrow> utf8_valid s"
  by (induction s) (simp_all add: utf8_valid.simps utf8_width_def)

lemma utf8_width_4: "utf8_width s \<le> 4"
  by (simp add: utf8_width_def split: list.split)

lemma utf8_width_local: "utf8_width (take 4 s) = utf8_width s"
proof -
  consider "s = []" | a where "s = [a]" | a b where "s = [a, b]" | a b c where "s = [a, b, c]"
    | a b c d r where "s = a # b # c # d # r"
    by (metis neq_Nil_conv)
  then show ?thesis by cases (simp_all add: utf8_width_def)
qed

lemma utf8_width_take: "utf8_width (take m s) = (if utf8_width s \<le> m then utf8_width s else 0)"
proof (cases "m < 4 \<and> s \<noteq> []")
  case True
  then obtain a t where s: "s = a # t" by (cases s) auto
  from True have "m = 0 \<or> m = 1 \<or> m = 2 \<or> m = 3" by auto
  then show ?thesis by (elim disjE) (simp_all add: s utf8_width_def take_Cons' nth_Cons')
next
  case False
  then show ?thesis
  proof (cases "s = []")
    case no: False
    with False have "4 \<le> m" by simp
    then have "take 4 (take m s) = take 4 s" by (simp add: min_def)
    then have "utf8_width (take m s) = utf8_width s" by (metis utf8_width_local)
    with \<open>4 \<le> m\<close> utf8_width_4 [of s] show ?thesis by simp
  qed (simp add: utf8_width_def)
qed

lemma utf8_valid_step: "0 < utf8_width s \<Longrightarrow> utf8_valid s \<longleftrightarrow> utf8_valid (drop (utf8_width s) s)"
  by (subst utf8_valid.simps) (auto simp: utf8_width_def)

lemma utf8_valid_width: "utf8_valid s \<Longrightarrow> s \<noteq> [] \<Longrightarrow> 0 < utf8_width s"
  using utf8_valid.simps [of s] by (cases "utf8_width s = 0") auto

text \<open>A prefix and the rest: text can be cut within four bytes of any place, and what is left is text.\<close>

lemma utf8_cut:
  "utf8_valid s \<Longrightarrow> n \<le> length s \<Longrightarrow> \<exists>m. m \<le> n \<and> n < m + 4 \<and> utf8_valid (take m s)"
proof (induction s arbitrary: n rule: utf8_valid.induct)
  case (1 s)
  let ?w = "utf8_width s"
  show ?case
  proof (cases "n < ?w \<or> s = []")
    case True
    with "1.prems" utf8_width_4 [of s] show ?thesis by (intro exI [of _ 0]) auto
  next
    case False
    then have w: "0 < ?w" "?w \<le> n" "s \<noteq> []" using utf8_valid_width "1.prems" by auto
    with "1.prems" have "utf8_valid (drop ?w s)" "n - ?w \<le> length (drop ?w s)" using utf8_valid_step by auto
    with "1.IH" w obtain m where m: "m \<le> n - ?w" "n - ?w < m + 4" "utf8_valid (take m (drop ?w s))" by blast
    have "utf8_valid (take (?w + m) s)"
      using m(3) w(1) by (subst utf8_valid_step) (simp_all add: utf8_width_take drop_take)
    moreover have "?w + m \<le> n" "n < ?w + m + 4" using m(1,2) w(2) by linarith+
    ultimately show ?thesis by blast
  qed
qed

lemma utf8_rest: "utf8_valid s \<Longrightarrow> utf8_valid (take m s) \<Longrightarrow> utf8_valid (drop m s)"
proof (induction s arbitrary: m rule: utf8_valid.induct)
  case (1 s)
  let ?w = "utf8_width s"
  show ?case
  proof (cases "m = 0 \<or> s = []")
    case False
    then have w: "0 < ?w" "s \<noteq> []" using utf8_valid_width "1.prems" by auto
    have "0 < utf8_width (take m s)" using utf8_valid_width "1.prems"(2) False by auto
    then have le: "?w \<le> m" by (simp add: utf8_width_take split: if_splits)
    then have "utf8_valid (take (m - ?w) (drop ?w s))"
      using "1.prems"(2) w utf8_valid_step [of "take m s"] by (simp add: utf8_width_take drop_take)
    moreover have "utf8_valid (drop ?w s)" using "1.prems"(1) w utf8_valid_step by simp
    ultimately have "utf8_valid (drop (m - ?w) (drop ?w s))" using "1.IH" w by blast
    with le show ?thesis by simp
  qed (use "1.prems" in auto)
qed

text \<open>\<open>len([]rune(s))\<close>: every byte that starts no rune counts as one.\<close>

function rune_count :: "string \<Rightarrow> nat" where
  "rune_count s = (if s = [] then 0 else Suc (rune_count (drop (max 1 (utf8_width s)) s)))"
  by pat_completeness auto
termination
proof (relation "measure length", goal_cases)
  case (2 s)
  then have "0 < length s" "0 < max 1 (utf8_width s)" by auto
  then show ?case by (simp del: max_less_iff_conj less_max_iff_disj)
qed simp

declare rune_count.simps [simp del]

subsection \<open>Strings in JSON\<close>

definition hex_char :: "nat \<Rightarrow> char" where
  "hex_char n = (if n < 10 then char_of (48 + n) else char_of (87 + n))"

text \<open>How \<open>json.Marshal\<close> writes an ASCII byte; \<open><\<close>, \<open>>\<close> and \<open>&\<close> are escaped too.\<close>

definition json_ascii :: "char \<Rightarrow> string" where
  "json_ascii c =
     (if c = CHR 0x5C \<or> c = CHR 0x22 then [CHR 0x5C, c]
      else if c = CHR 0x08 then [CHR 0x5C, CHR ''b'']
      else if c = CHR 0x0C then [CHR 0x5C, CHR ''f'']
      else if c = CHR 0x0A then [CHR 0x5C, CHR ''n'']
      else if c = CHR 0x0D then [CHR 0x5C, CHR ''r'']
      else if c = CHR 0x09 then [CHR 0x5C, CHR ''t'']
      else if of_char c < (32 :: nat) \<or> c = CHR ''<'' \<or> c = CHR ''>'' \<or> c = CHR ''&''
      then [CHR 0x5C, CHR ''u'', CHR ''0'', CHR ''0'', hex_char (of_char c div 16), hex_char (of_char c mod 16)]
      else [c])"

function json_escape :: "string \<Rightarrow> string" where
  "json_escape s =
     (case s of
        [] \<Rightarrow> []
      | c # t \<Rightarrow>
          if code_in 0 0x7F c then json_ascii c @ json_escape t
          else if utf8_width s = 0 then CHR 0x5C # ''ufffd'' @ json_escape t
          else if take 3 s = [CHR 0xE2, CHR 0x80, CHR 0xA8] then CHR 0x5C # ''u2028'' @ json_escape (drop 3 s)
          else if take 3 s = [CHR 0xE2, CHR 0x80, CHR 0xA9] then CHR 0x5C # ''u2029'' @ json_escape (drop 3 s)
          else take (utf8_width s) s @ json_escape (drop (utf8_width s) s))"
  by pat_completeness auto
termination
proof (relation "measure length", goal_cases)
  case (6 s c t)
  then show ?case using utf8_width_drop [of s] by (simp del: length_drop)
qed simp_all

declare json_escape.simps [simp del]

subsection \<open>Values\<close>

datatype json =
    JStr string
  | JInt int
  | JBool bool
  | JArr "json list"
  | JObj "(string \<times> json) list"

definition json_string :: "string \<Rightarrow> string" where
  "json_string s = CHR 0x22 # json_escape s @ [CHR 0x22]"

definition FormatInt :: "int \<Rightarrow> string" where
  "FormatInt i = (if i < 0 then CHR ''-'' # FormatNat (nat (- i)) else FormatNat (nat i))"

fun render :: "json \<Rightarrow> string" where
  "render (JStr s) = json_string s"
| "render (JInt i) = FormatInt i"
| "render (JBool b) = (if b then ''true'' else ''false'')"
| "render (JArr xs) = ''['' @ Join (map render xs) '','' @ '']''"
| "render (JObj fs) =
     CHR 0x7B # Join (map (\<lambda>(k, v). json_string k @ '':'' @ render v) fs) '','' @ [CHR 0x7D]"

subsection \<open>The text of a string determines it\<close>

text \<open>Reading a JSON string up to the closing quote, for the texts \<open>json_escape\<close> writes.\<close>

definition hex_char_value :: "char \<Rightarrow> nat" where
  "hex_char_value c = (if of_char c < (58 :: nat) then of_char c - 48 else of_char c - 87)"

definition simple_escape :: "char \<Rightarrow> char" where
  "simple_escape e =
     (if e = CHR ''b'' then CHR 0x08 else if e = CHR ''f'' then CHR 0x0C else if e = CHR ''n'' then CHR 0x0A
      else if e = CHR ''r'' then CHR 0x0D else if e = CHR ''t'' then CHR 0x09 else e)"

definition consed :: "string \<Rightarrow> (string \<times> string) option \<Rightarrow> (string \<times> string) option" where
  "consed xs = map_option (\<lambda>(s, r). (xs @ s, r))"

fun json_unescape :: "string \<Rightarrow> (string \<times> string) option" where
  "json_unescape [] = None"
| "json_unescape (c # s) =
     (if c = CHR 0x22 then Some ([], s)
      else if c \<noteq> CHR 0x5C then consed [c] (json_unescape s)
      else (case s of
              e # t \<Rightarrow>
                if e \<noteq> CHR ''u'' then consed [simple_escape e] (json_unescape t)
                else (case t of
                        h1 # h2 # h3 # h4 # t1 \<Rightarrow>
                          consed (if [h1, h2] = ''00'' then [char_of (16 * hex_char_value h3 + hex_char_value h4)]
                                  else if [h1, h2, h3, h4] = ''2028'' then [CHR 0xE2, CHR 0x80, CHR 0xA8]
                                  else [CHR 0xE2, CHR 0x80, CHR 0xA9]) (json_unescape t1)
                      | _ \<Rightarrow> None)
            | [] \<Rightarrow> None))"

lemma hex_char_value: "d < 16 \<Longrightarrow> hex_char_value (hex_char d) = d"
  by (cases "d < 10") (simp_all add: hex_char_def hex_char_value_def)

lemma of_char_less: "(of_char c :: nat) < 256"
  using unat_byte_of [of c] unsigned_less [of "byte_of c", where 'a = nat] by simp

lemma json_unescape_ascii: "json_unescape (json_ascii c @ r) = consed [c] (json_unescape r)"
proof -
  have "(of_char c :: nat) div 16 < 16" using of_char_less [of c] by (simp add: less_mult_imp_div_less)
  then have hex: "char_of (16 * hex_char_value (hex_char (of_char c div 16))
      + hex_char_value (hex_char (of_char c mod 16))) = c"
    by (simp add: hex_char_value)
  show ?thesis by (simp add: json_ascii_def simple_escape_def hex)
qed

lemma consed_simps [simp]:
  "consed xs (Some (s, r)) = Some (xs @ s, r)" "consed xs None = None"
  "consed xs (consed ys d) = consed (xs @ ys) d" "consed [] d = d"
  by (simp_all add: consed_def option.map_comp comp_def case_prod_unfold option.map_ident)

lemma json_unescape_high: "list_all (code_in 0x80 0xFF) xs \<Longrightarrow> json_unescape (xs @ r) = consed xs (json_unescape r)"
proof (induction xs)
  case (Cons c xs)
  then have "c \<noteq> CHR 0x22" "c \<noteq> CHR 0x5C" by (auto simp: code_in_def)
  with Cons show ?case by simp
qed simp

lemma utf8_width_high:
  assumes "\<not> code_in 0 0x7F c" "s = c # t"
  shows "list_all (code_in 0x80 0xFF) (take (utf8_width s) s)"
proof -
  have c: "code_in 0x80 0xFF c"
    using assms(1) of_char_less [of c] unfolding code_in_def by linarith
  have m: "code_in lo hi b \<Longrightarrow> 0x80 \<le> lo \<Longrightarrow> hi \<le> 0xFF \<Longrightarrow> code_in 0x80 0xFF b" for lo hi b
    by (simp add: code_in_def)
  have 4: "utf8_width s \<le> 4" by (simp add: utf8_width_def split: list.split)
  have "code_in 0x80 0xFF (s ! i)" if i: "i < utf8_width s" for i
  proof -
    from i 4 consider "i = 0" | "i = 1" | "i = 2" | "i = 3" by linarith
    then show ?thesis
    proof cases
      case 1
      with c assms(2) show ?thesis by simp
    next
      case 2
      with i assms show ?thesis by (auto simp: utf8_width_def split: if_splits intro: m)
    next
      case 3
      with i assms show ?thesis by (auto simp: utf8_width_def split: if_splits intro: m)
    next
      case 4
      with i assms show ?thesis by (auto simp: utf8_width_def split: if_splits intro: m)
    qed
  qed
  then show ?thesis by (simp add: list_all_length)
qed

lemma json_unescape_escape: "utf8_valid s \<Longrightarrow> json_unescape (json_escape s @ CHR 0x22 # r) = Some (s, r)"
proof (induction s rule: json_escape.induct)
  case (1 s)
  show ?case
  proof (cases s)
    case Nil
    then show ?thesis by (simp add: json_escape.simps)
  next
    case (Cons c t)
    note step = json_escape.simps [of s] utf8_valid.simps [of s]
    show ?thesis
    proof (cases "code_in 0 0x7F c")
      case True
      then have w: "utf8_width s = 1" using Cons by (simp add: utf8_width_def)
      then have "utf8_valid t" using "1.prems" Cons step(2) by simp
      with "1.IH"(1) [OF Cons True] True Cons show ?thesis
        by (simp add: json_escape.simps [of "x # t" for x] json_unescape_ascii)
    next
      case False
      have w: "utf8_width s \<noteq> 0" and v: "utf8_valid (drop (utf8_width s) s)"
        using "1.prems" Cons step(2) by (auto split: if_splits)
      have 3: "utf8_width s = 3" if "take 3 s = [CHR 0xE2, CHR 0x80, x]" for x
      proof -
        have "length (take 3 s) = 3" "take 3 s ! 0 = CHR 0xE2" by (simp_all add: that)
        then have "c = CHR 0xE2" "3 \<le> length s" using Cons by simp_all
        then show ?thesis using w Cons by (simp add: utf8_width_def code_in_def split: if_splits)
      qed
      have tail: "take 3 s @ drop 3 s = s" by simp
      show ?thesis
      proof (cases "take 3 s = [CHR 0xE2, CHR 0x80, CHR 0xA8]")
        case True
        have "json_escape s = CHR 0x5C # ''u2028'' @ json_escape (drop 3 s)"
          using True False w Cons by (simp add: json_escape.simps [of "x # t" for x])
        moreover have "s = [CHR 0xE2, CHR 0x80, CHR 0xA8] @ drop 3 s" using tail True by simp
        ultimately show ?thesis
          using "1.IH"(3) [OF Cons False w True] v 3 [OF True] by simp
      next
        case t1: False
        show ?thesis
        proof (cases "take 3 s = [CHR 0xE2, CHR 0x80, CHR 0xA9]")
          case True
          have "json_escape s = CHR 0x5C # ''u2029'' @ json_escape (drop 3 s)"
            using True t1 False w Cons by (simp add: json_escape.simps [of "x # t" for x])
          moreover have "s = [CHR 0xE2, CHR 0x80, CHR 0xA9] @ drop 3 s" using tail True by simp
          ultimately show ?thesis
            using "1.IH"(4) [OF Cons False w t1 True] v 3 [OF True] by simp
        next
          case t2: False
          have "json_escape s = take (utf8_width s) s @ json_escape (drop (utf8_width s) s)"
            using t1 t2 False w Cons by (auto simp add: json_escape.simps [of "x # t" for x])
          then show ?thesis
            using "1.IH"(5) [OF Cons False w t1 t2] v json_unescape_high [OF utf8_width_high [OF False Cons]]
            by simp
        qed
      qed
    qed
  qed
qed

lemma json_string_inject:
  assumes "utf8_valid s" "utf8_valid t" "json_string s @ r = json_string t @ q"
  shows "s = t \<and> r = q"
proof -
  have "json_escape s @ CHR 0x22 # r = json_escape t @ CHR 0x22 # q"
    using assms(3) by (simp add: json_string_def)
  then have "Some (s, r) = Some (t, q)"
    by (metis json_unescape_escape [OF assms(1), of r] json_unescape_escape [OF assms(2), of q])
  then show ?thesis by simp
qed

subsection \<open>The text of a value determines it\<close>

text \<open>What may follow a value inside an array or an object, or at the end.\<close>

definition delim :: "string \<Rightarrow> bool" where
  "delim r \<longleftrightarrow> (case r of [] \<Rightarrow> True | c # _ \<Rightarrow> c \<in> {CHR '','', CHR '']'', CHR 0x7D})"

fun json_ok :: "json \<Rightarrow> bool" where
  "json_ok (JStr s) \<longleftrightarrow> utf8_valid s"
| "json_ok (JArr xs) \<longleftrightarrow> list_all json_ok xs"
| "json_ok (JObj fs) \<longleftrightarrow> list_all (\<lambda>(k, v). utf8_valid k \<and> json_ok v) fs"
| "json_ok _ \<longleftrightarrow> True"

lemma FormatNat_inject:
  assumes "FormatNat m @ r = FormatNat n @ q" "delim r" "delim q"
  shows "m = n \<and> r = q"
proof -
  have stop: "takeWhile is_digit x = []" "dropWhile is_digit x = x" if "delim x" for x
    using that by (cases x; auto simp: delim_def is_digit_def)+
  have all: "list_all is_digit (FormatNat k)" for k
    using FormatNat_digits [of k] by (simp add: digits_ok_def)
  have "takeWhile is_digit (FormatNat k @ x) = FormatNat k" "dropWhile is_digit (FormatNat k @ x) = x"
    if "delim x" for k x
    using all [of k] stop [OF that] by (simp_all add: list_all_iff takeWhile_append dropWhile_append)
  with assms have "FormatNat m = FormatNat n \<and> r = q" by metis
  then show ?thesis by (metis decimal_value_FormatNat)
qed

lemma FormatNat_hd: "\<exists>d t. FormatNat n = d # t \<and> is_digit d"
  using FormatNat_digits [of n] by (cases "FormatNat n") (auto simp: digits_ok_def)

lemma FormatInt_inject:
  assumes "FormatInt i @ r = FormatInt j @ q" "delim r" "delim q"
  shows "i = j \<and> r = q"
proof -
  have sign: "FormatNat m @ x \<noteq> CHR ''-'' # y" for m x y
    using FormatNat_hd [of m] by (auto simp: is_digit_def)
  show ?thesis
  proof (cases "i < 0")
    case True
    then have "j < 0" using assms(1) sign by (metis FormatInt_def append_Cons)
    with True assms have "FormatNat (nat (- i)) @ r = FormatNat (nat (- j)) @ q"
      by (simp add: FormatInt_def)
    from FormatNat_inject [OF this assms(2,3)] True \<open>j < 0\<close> show ?thesis by linarith
  next
    case False
    then have "\<not> j < 0" using assms(1) sign by (metis FormatInt_def append_Cons)
    with False assms have "FormatNat (nat i) @ r = FormatNat (nat j) @ q"
      by (simp add: FormatInt_def)
    from FormatNat_inject [OF this assms(2,3)] False \<open>\<not> j < 0\<close> show ?thesis by linarith
  qed
qed

definition kind_char :: "json \<Rightarrow> char \<Rightarrow> bool" where
  "kind_char j c = (case j of JStr _ \<Rightarrow> c = CHR 0x22 | JInt _ \<Rightarrow> is_digit c \<or> c = CHR ''-''
     | JBool b \<Rightarrow> c = (if b then CHR ''t'' else CHR ''f'') | JArr _ \<Rightarrow> c = CHR ''['' | JObj _ \<Rightarrow> c = CHR 0x7B)"

lemma render_hd: "\<exists>c t. render j = c # t \<and> kind_char j c"
proof (cases j)
  case (JInt i)
  then show ?thesis using FormatNat_hd [of "nat i"]
    by (auto simp: kind_char_def FormatInt_def)
qed (auto simp: kind_char_def json_string_def)

lemma kind_char_eq: "kind_char i c \<Longrightarrow> kind_char j c \<Longrightarrow>
   (case i of JStr s \<Rightarrow> \<exists>t. j = JStr t | JInt x \<Rightarrow> \<exists>y. j = JInt y | JBool b \<Rightarrow> j = JBool b
      | JArr xs \<Rightarrow> \<exists>ys. j = JArr ys | JObj fs \<Rightarrow> \<exists>gs. j = JObj gs)"
  by (cases i; cases j) (auto simp: kind_char_def is_digit_def split: if_splits)

lemma kind_char_not_close: "kind_char j c \<Longrightarrow> c \<noteq> CHR '']'' \<and> c \<noteq> CHR 0x7D \<and> c \<noteq> CHR '',''"
  by (auto simp: kind_char_def is_digit_def split: json.splits if_splits)

text \<open>A comma-separated list between brackets.\<close>

definition tail_text :: "string list \<Rightarrow> char \<Rightarrow> string \<Rightarrow> string" where
  "tail_text xs c r = (if xs = [] then c # r else CHR '','' # Join xs '','' @ c # r)"

lemma Join_tail: "Join (x # xs) '','' @ c # r = x @ tail_text xs c r"
  by (cases xs) (simp_all add: tail_text_def)

lemma delim_tail: "c \<in> {CHR '']'', CHR 0x7D} \<Longrightarrow> delim (tail_text xs c r)"
  by (auto simp: delim_def tail_text_def)

lemma Join_inject:
  assumes c: "c \<in> {CHR '']'', CHR 0x7D}"
    and one: "\<And>x y r q. x \<in> set xs \<Longrightarrow> ok y \<Longrightarrow> f x @ r = f y @ q \<Longrightarrow> delim r \<Longrightarrow> delim q \<Longrightarrow> x = y \<and> r = q"
    and hd: "\<And>x. \<exists>b t. f x = b # t \<and> b \<noteq> CHR '']'' \<and> b \<noteq> CHR 0x7D"
    and "list_all ok ys" "Join (map f xs) '','' @ c # r = Join (map f ys) '','' @ c # q"
  shows "xs = ys \<and> r = q"
  using one assms(4,5)
proof (induction xs arbitrary: ys)
  case Nil
  show ?case
  proof (cases ys)
    case (Cons y ys')
    then have "c # r = f y @ tail_text (map f ys') c q"
      using Nil.prems(3) Join_tail [of "f y" "map f ys'" c q] by simp
    with hd [of y] c show ?thesis by auto
  qed (use Nil in simp)
next
  case (Cons x xs)
  show ?case
  proof (cases ys)
    case Nil
    then have "c # q = f x @ tail_text (map f xs) c r"
      using Cons.prems(3) Join_tail [of "f x" "map f xs" c r] by simp
    with hd [of x] c show ?thesis by auto
  next
    case ys: (Cons y ys')
    then have "f x @ tail_text (map f xs) c r = f y @ tail_text (map f ys') c q"
      using Cons.prems(3) by (simp only: list.map Join_tail)
    then have xy: "x = y" and tails: "tail_text (map f xs) c r = tail_text (map f ys') c q"
      using Cons.prems(1) [of x y] Cons.prems(2) ys delim_tail [OF c] by auto
    show ?thesis
    proof (cases "xs = [] \<or> ys' = []")
      case True
      with tails c xy ys show ?thesis by (auto simp: tail_text_def split: if_splits)
    next
      case False
      then have "Join (map f xs) '','' @ c # r = Join (map f ys') '','' @ c # q"
        using tails by (simp add: tail_text_def)
      then have "xs = ys' \<and> r = q"
        using Cons.IH [of ys'] Cons.prems(1,2) ys by auto
      with xy ys show ?thesis by simp
    qed
  qed
qed

lemma render_kind:
  assumes "render i @ r = render j @ q"
  shows "case i of JStr s \<Rightarrow> \<exists>t. j = JStr t | JInt x \<Rightarrow> \<exists>y. j = JInt y | JBool b \<Rightarrow> j = JBool b
      | JArr xs \<Rightarrow> \<exists>ys. j = JArr ys | JObj fs \<Rightarrow> \<exists>gs. j = JObj gs"
proof -
  obtain c t where i: "render i = c # t" "kind_char i c" using render_hd by blast
  obtain d u where j: "render j = d # u" "kind_char j d" using render_hd by blast
  have "c = d" using assms unfolding i(1) j(1) by simp
  with i(2) j(2) show ?thesis by (intro kind_char_eq) simp_all
qed

lemma render_inject:
  "json_ok i \<Longrightarrow> json_ok j \<Longrightarrow> render i @ r = render j @ q \<Longrightarrow> delim r \<Longrightarrow> delim q \<Longrightarrow> i = j \<and> r = q"
proof (induction i arbitrary: j r q rule: render.induct)
  case (1 s)
  note kind = render_kind [OF "1.prems"(3)]
  obtain s' where "j = JStr s'" using kind by auto
  with json_string_inject [of s s' r q] "1.prems" show ?case by simp
next
  case (2 i)
  note kind = render_kind [OF "2.prems"(3)]
  obtain i' where "j = JInt i'" using kind by auto
  with FormatInt_inject [of i r i' q] "2.prems" show ?case by simp
next
  case (3 b)
  note kind = render_kind [OF "3.prems"(3)]
  have "j = JBool b" using kind by auto
  with "3.prems"(3) show ?case by simp
next
  case (4 xs)
  note kind = render_kind [OF "4.prems"(3)]
  obtain ys where j: "j = JArr ys" using kind by auto
  have "xs = ys \<and> r = q"
  proof (rule Join_inject [where f = render and c = "CHR '']''" and ok = json_ok])
    show "\<exists>b t. render x = b # t \<and> b \<noteq> CHR '']'' \<and> b \<noteq> CHR 0x7D" for x
      using render_hd [of x] kind_char_not_close by blast
    show "x = y \<and> r = q" if "x \<in> set xs" "json_ok y" "render x @ r = render y @ q" "delim r" "delim q" for x y r q
      using "4.IH" [OF that(1) _ that(2-5)] "4.prems"(1) that(1) by (simp add: list_all_iff)
  qed (use "4.prems" j in simp_all)
  with j show ?case by simp
next
  case (5 fs)
  let ?f = "\<lambda>(k, v). json_string k @ '':'' @ render v"
  let ?ok = "\<lambda>(k, v). utf8_valid k \<and> json_ok v"
  note kind = render_kind [OF "5.prems"(3)]
  obtain gs where j: "j = JObj gs" using kind by auto
  have "fs = gs \<and> r = q"
  proof (rule Join_inject [where f = ?f and c = "CHR 0x7D" and ok = ?ok])
    show "\<exists>b t. ?f x = b # t \<and> b \<noteq> CHR '']'' \<and> b \<noteq> CHR 0x7D" for x
      by (cases x) (simp add: json_string_def)
    show "x = y \<and> r = q" if "x \<in> set fs" "?ok y" "?f x @ r = ?f y @ q" "delim r" "delim q" for x y r q
    proof -
      obtain k v l w where kv: "x = (k, v)" "y = (l, w)" by (cases x, cases y)
      have "utf8_valid k" "json_ok v" using "5.prems"(1) that(1) kv by (auto simp: list_all_iff)
      moreover have "json_string k @ CHR '':'' # render v @ r = json_string l @ CHR '':'' # render w @ q"
        using that(3) kv by simp
      ultimately have "k = l" "render v @ r = render w @ q"
        using json_string_inject [of k l] that(2) kv by auto
      with "5.IH" [OF that(1), of k v w r q] \<open>json_ok v\<close> that kv show ?thesis by auto
    qed
  qed (use "5.prems" j in simp_all)
  with j show ?case by simp
qed

end
