(* ===== verification/Domain.thy ===== *)
theory Domain
  imports GoJson GoEncoding
begin

text \<open>
  \<open>internal/domain/types.go\<close>: the records the other components exchange, and \<open>Digest\<close>, the
  SHA-256 of a value's JSON text, by which hosts and requests are identified in grants and
  approvals.  Times are nanoseconds; 0 is Go's zero time.  \<open>ID\<close> reads random bytes, so
  fresh identifiers are an input of the operations that make them.
\<close>

unbundle bit_operations_syntax

type_synonym time = int

subsection \<open>SHA-256\<close>

text \<open>
  The constants are fractional parts of roots: the 32 bits after the point of the cube roots
  of the first 64 primes, and of the square roots of the first 8.  \<open>root_search\<close> finds the
  integer part of a root bit by bit, from the highest on.
\<close>

definition sha_primes :: "nat list" where
  "sha_primes =
    [2, 3, 5, 7, 11, 13, 17, 19, 23, 29, 31, 37, 41, 43, 47, 53, 59, 61, 67, 71, 73, 79,
     83, 89, 97, 101, 103, 107, 109, 113, 127, 131, 137, 139, 149, 151, 157, 163, 167, 173, 179, 181, 191, 193,
     197, 199, 211, 223, 227, 229, 233, 239, 241, 251, 257, 263, 269, 271, 277, 281, 283, 293, 307, 311]"

fun root_search :: "nat \<Rightarrow> nat \<Rightarrow> nat \<Rightarrow> nat \<Rightarrow> nat" where
  "root_search e n 0 x = x"
| "root_search e n (Suc b) x = root_search e n b (if (x + 2 ^ b) ^ e \<le> n then x + 2 ^ b else x)"

definition sha_round_constants :: "32 word list" where
  "sha_round_constants = map (\<lambda>p. of_nat (root_search 3 (p * 2 ^ 96) 36 0)) sha_primes"

definition sha_start :: "32 word list" where
  "sha_start = map (\<lambda>p. of_nat (root_search 2 (p * 2 ^ 64) 36 0)) (take 8 sha_primes)"

definition be_word32 :: "byte list \<Rightarrow> 32 word" where
  "be_word32 bs = foldl (\<lambda>w b. push_bit 8 w OR ucast b) 0 bs"

definition be_bytes :: "nat \<Rightarrow> 64 word \<Rightarrow> byte list" where
  "be_bytes n w = map (\<lambda>i. ucast (drop_bit (8 * i) w)) (rev [0..<n])"

fun chunks :: "nat \<Rightarrow> nat \<Rightarrow> byte list \<Rightarrow> byte list list" where
  "chunks 0 k bs = []"
| "chunks (Suc n) k bs = take k bs # chunks n k (drop k bs)"

definition sha_pad :: "byte list \<Rightarrow> byte list" where
  "sha_pad bs =
     bs @ [0x80] @ replicate ((119 - length bs mod 64) mod 64) 0 @ be_bytes 8 (of_nat (8 * length bs))"

fun sha_schedule :: "nat \<Rightarrow> 32 word list \<Rightarrow> 32 word list" where
  "sha_schedule 0 w = w"
| "sha_schedule (Suc n) w =
     (let t = length w;
          a = w ! (t - 15); b = w ! (t - 2);
          s0 = word_rotr 7 a XOR word_rotr 18 a XOR drop_bit 3 a;
          s1 = word_rotr 17 b XOR word_rotr 19 b XOR drop_bit 10 b
      in sha_schedule n (w @ [w ! (t - 16) + s0 + w ! (t - 7) + s1]))"

fun sha_round :: "32 word list \<Rightarrow> 32 word \<times> 32 word \<Rightarrow> 32 word list" where
  "sha_round [a, b, c, d, e, f, g, h] (k, w) =
     (let t1 = h + (word_rotr 6 e XOR word_rotr 11 e XOR word_rotr 25 e)
                 + ((e AND f) XOR (NOT e AND g)) + k + w;
          t2 = (word_rotr 2 a XOR word_rotr 13 a XOR word_rotr 22 a)
                 + ((a AND b) XOR (a AND c) XOR (b AND c))
      in [t1 + t2, a, b, c, d + t1, e, f, g])"
| "sha_round s _ = s"

definition sha_block :: "32 word list \<Rightarrow> byte list \<Rightarrow> 32 word list" where
  "sha_block s bs =
     map2 (+) s (foldl sha_round s (zip sha_round_constants (sha_schedule 48 (map be_word32 (chunks 16 4 bs)))))"

definition sha256 :: "byte list \<Rightarrow> byte list" where
  "sha256 bs =
     (let p = sha_pad bs
      in concat (map (\<lambda>w. be_bytes 4 (ucast w)) (foldl sha_block sha_start (chunks (length p div 64) 64 p))))"

text \<open>The digest of a byte string in lower-case hexadecimal.\<close>

definition sha256_hex :: "string \<Rightarrow> string" where
  "sha256_hex s = string_of (hex_encode (sha256 (bytes_of s)))"

lemma length_sha_round: "length (sha_round s kw) = length s"
  by (induction s kw rule: sha_round.induct) (simp_all add: Let_def)

lemma length_sha_rounds: "length (foldl sha_round s kws) = length s"
  by (induction kws arbitrary: s) (simp_all add: length_sha_round)

lemma length_sha_blocks: "length (foldl sha_block s bss) = length s"
  by (induction bss arbitrary: s) (simp_all add: sha_block_def length_sha_rounds)

lemma length_sha256: "length (sha256 bs) = 32"
proof -
  have "length (concat (map (\<lambda>w. be_bytes 4 (ucast w)) (ws :: 32 word list))) = 4 * length ws" for ws
    by (induction ws) (simp_all add: be_bytes_def)
  then show ?thesis
    by (simp add: sha256_def Let_def length_sha_blocks sha_start_def) (simp add: sha_primes_def)
qed

lemma length_sha256_hex: "length (sha256_hex s) = 64"
  by (simp add: sha256_hex_def length_sha256)

lemma sha256_hex_nonempty [simp]: "sha256_hex s \<noteq> []"
  using length_sha256_hex [of s] by auto

subsection \<open>The records\<close>

record host =
  host_ID :: string
  host_Name :: string
  host_Address :: string
  host_Port :: int
  host_User :: string
  host_Group :: string
  host_Tags :: "string list"
  host_Auth :: string
  host_KeyPath :: string
  host_JumpID :: string
  host_Proxy :: string

record model_profile =
  prof_ID :: string
  prof_Name :: string
  prof_Provider :: string
  prof_BaseURL :: string
  prof_Model :: string
  prof_ContextTokens :: int

text \<open>A read of a key that \<open>Identities\<close> does not have gives the empty string.\<close>

record grant =
  LocalRoots :: "string list"
  grant_ID :: string
  HostIDs :: "string list"
  Identities :: "(string \<times> string) list"
  Operations :: "string list"
  Resources :: "string list"
  ExpiresAt :: time

record task =
  RuntimeVersion :: string
  Mode :: string
  task_ID :: string
  Goal :: string
  ProfileID :: string
  Grant :: grant
  Status :: string
  CreatedAt :: time
  Summary :: string
  Updates :: "string list"

record request =
  ReadOffset :: int
  LocalPath :: string
  SourceHash :: string
  UploadMode :: string
  RunID :: string
  AgentName :: string
  TaskID :: string
  CallID :: string
  HostID :: string
  Operation :: string
  Resource :: string
  Command :: string
  Content :: string
  ExpectedHash :: string
  TimeoutSeconds :: int

record result =
  res_ID :: string
  res_Request :: request
  res_Status :: string
  ExitCode :: int
  Output :: string
  res_Artifact :: string
  res_Error :: string
  StartedAt :: time
  FinishedAt :: time

record event =
  Sequence :: nat
  ev_TaskID :: string
  ev_Kind :: string
  ev_Text :: string
  ev_Time :: time

definition map_lookup :: "(string \<times> string) list \<Rightarrow> string \<Rightarrow> string" where
  "map_lookup m k = (case map_of m k of None \<Rightarrow> [] | Some v \<Rightarrow> v)"

definition map_set :: "string \<Rightarrow> string \<Rightarrow> (string \<times> string) list \<Rightarrow> (string \<times> string) list" where
  "map_set k v m = (k, v) # filter (\<lambda>(k', _). k' \<noteq> k) m"

subsection \<open>JSON\<close>

definition omit_str :: "string \<Rightarrow> string \<Rightarrow> (string \<times> json) list" where
  "omit_str k v = (if v = [] then [] else [(k, JStr v)])"

definition omit_int :: "string \<Rightarrow> int \<Rightarrow> (string \<times> json) list" where
  "omit_int k v = (if v = 0 then [] else [(k, JInt v)])"

definition host_fields :: "host \<Rightarrow> (string \<times> json) list" where
  "host_fields h =
     [(''id'', JStr (host_ID h)), (''name'', JStr (host_Name h)), (''address'', JStr (host_Address h)),
      (''port'', JInt (host_Port h)), (''user'', JStr (host_User h)), (''group'', JStr (host_Group h))]
     @ (if host_Tags h = [] then [] else [(''tags'', JArr (map JStr (host_Tags h)))])
     @ [(''auth'', JStr (host_Auth h))]
     @ omit_str ''key_path'' (host_KeyPath h)
     @ omit_str ''jump_id'' (host_JumpID h)
     @ omit_str ''proxy'' (host_Proxy h)"

definition request_fields :: "request \<Rightarrow> (string \<times> json) list" where
  "request_fields r =
     omit_int ''read_offset'' (ReadOffset r)
     @ omit_str ''local_path'' (LocalPath r)
     @ omit_str ''source_hash'' (SourceHash r)
     @ omit_str ''upload_mode'' (UploadMode r)
     @ omit_str ''run_id'' (RunID r)
     @ omit_str ''agent_name'' (AgentName r)
     @ [(''task_id'', JStr (TaskID r)), (''call_id'', JStr (CallID r)), (''host_id'', JStr (HostID r)),
        (''operation'', JStr (Operation r))]
     @ omit_str ''resource'' (Resource r)
     @ omit_str ''command'' (Command r)
     @ omit_str ''content'' (Content r)
     @ omit_str ''expected_hash'' (ExpectedHash r)
     @ omit_int ''timeout_seconds'' (TimeoutSeconds r)"

definition Digest :: "json \<Rightarrow> string" where
  "Digest v = sha256_hex (render v)"

definition Digest_host :: "host \<Rightarrow> string" where
  "Digest_host h = Digest (JObj (host_fields h))"

definition Digest_request :: "request \<Rightarrow> string" where
  "Digest_request r = Digest (JObj (request_fields r))"

definition Digest_string :: "string \<Rightarrow> string" where
  "Digest_string s = Digest (JStr s)"

subsection \<open>The text of a host or a request determines it\<close>

definition get_str :: "(string \<times> json) list \<Rightarrow> string \<Rightarrow> string" where
  "get_str fs k = (case map_of fs k of Some (JStr v) \<Rightarrow> v | _ \<Rightarrow> [])"

definition get_int :: "(string \<times> json) list \<Rightarrow> string \<Rightarrow> int" where
  "get_int fs k = (case map_of fs k of Some (JInt v) \<Rightarrow> v | _ \<Rightarrow> 0)"

definition get_arr :: "(string \<times> json) list \<Rightarrow> string \<Rightarrow> json list" where
  "get_arr fs k = (case map_of fs k of Some (JArr v) \<Rightarrow> v | _ \<Rightarrow> [])"

lemma map_of_omit_str: "map_of (omit_str k v @ fs) = (if v = [] then map_of fs else (map_of fs)(k \<mapsto> JStr v))"
  by (simp add: omit_str_def)

lemma map_of_omit_str_end: "map_of (omit_str k v) = (if v = [] then Map.empty else [k \<mapsto> JStr v])"
  by (simp add: omit_str_def)

lemma map_of_omit_int: "map_of (omit_int k v @ fs) = (if v = 0 then map_of fs else (map_of fs)(k \<mapsto> JInt v))"
  by (simp add: omit_int_def)

lemma map_of_omit_int_end: "map_of (omit_int k v) = (if v = 0 then Map.empty else [k \<mapsto> JInt v])"
  by (simp add: omit_int_def)

lemmas omit_simps = map_of_omit_str map_of_omit_str_end map_of_omit_int map_of_omit_int_end
  get_str_def get_int_def get_arr_def

lemma request_fields_read:
  "get_int (request_fields r) ''read_offset'' = ReadOffset r"
  "get_str (request_fields r) ''local_path'' = LocalPath r"
  "get_str (request_fields r) ''source_hash'' = SourceHash r"
  "get_str (request_fields r) ''upload_mode'' = UploadMode r"
  "get_str (request_fields r) ''run_id'' = RunID r"
  "get_str (request_fields r) ''agent_name'' = AgentName r"
  "get_str (request_fields r) ''task_id'' = TaskID r"
  "get_str (request_fields r) ''call_id'' = CallID r"
  "get_str (request_fields r) ''host_id'' = HostID r"
  "get_str (request_fields r) ''operation'' = Operation r"
  "get_str (request_fields r) ''resource'' = Resource r"
  "get_str (request_fields r) ''command'' = Command r"
  "get_str (request_fields r) ''content'' = Content r"
  "get_str (request_fields r) ''expected_hash'' = ExpectedHash r"
  "get_int (request_fields r) ''timeout_seconds'' = TimeoutSeconds r"
  by (simp_all add: request_fields_def omit_simps)

lemma request_fields_inject: "request_fields r = request_fields q \<Longrightarrow> r = q"
  by (rule request.equality) (metis request_fields_read, metis request_fields_read, metis request_fields_read,
    metis request_fields_read, metis request_fields_read, metis request_fields_read, metis request_fields_read,
    metis request_fields_read, metis request_fields_read, metis request_fields_read, metis request_fields_read,
    metis request_fields_read, metis request_fields_read, metis request_fields_read, metis request_fields_read, simp)

lemma host_fields_read:
  "get_str (host_fields h) ''id'' = host_ID h"
  "get_str (host_fields h) ''name'' = host_Name h"
  "get_str (host_fields h) ''address'' = host_Address h"
  "get_int (host_fields h) ''port'' = host_Port h"
  "get_str (host_fields h) ''user'' = host_User h"
  "get_str (host_fields h) ''group'' = host_Group h"
  "get_arr (host_fields h) ''tags'' = map JStr (host_Tags h)"
  "get_str (host_fields h) ''auth'' = host_Auth h"
  "get_str (host_fields h) ''key_path'' = host_KeyPath h"
  "get_str (host_fields h) ''jump_id'' = host_JumpID h"
  "get_str (host_fields h) ''proxy'' = host_Proxy h"
  by (simp_all add: host_fields_def omit_simps)

lemma host_fields_inject: "host_fields h = host_fields k \<Longrightarrow> h = k"
proof -
  assume eq: "host_fields h = host_fields k"
  have "map JStr (host_Tags h) = map JStr (host_Tags k)"
    using eq host_fields_read(7) by metis
  then have "host_Tags h = host_Tags k"
    by (simp add: inj_map_eq_map inj_def)
  then show ?thesis
    by (rule_tac host.equality) (metis eq host_fields_read, metis eq host_fields_read, metis eq host_fields_read,
      metis eq host_fields_read, metis eq host_fields_read, metis eq host_fields_read, assumption,
      metis eq host_fields_read, metis eq host_fields_read, metis eq host_fields_read, metis eq host_fields_read, simp)
qed

text \<open>Strings in a request are UTF-8 when they come from a decoded JSON tool call.\<close>

definition request_utf8 :: "request \<Rightarrow> bool" where
  "request_utf8 r \<longleftrightarrow> list_all utf8_valid
     [LocalPath r, SourceHash r, UploadMode r, RunID r, AgentName r, TaskID r, CallID r, HostID r, Operation r,
      Resource r, Command r, Content r, ExpectedHash r]"

definition host_utf8 :: "host \<Rightarrow> bool" where
  "host_utf8 h \<longleftrightarrow> list_all utf8_valid
     ([host_ID h, host_Name h, host_Address h, host_User h, host_Group h, host_Auth h, host_KeyPath h,
       host_JumpID h, host_Proxy h] @ host_Tags h)"

lemma key_utf8:
  "utf8_valid ''id''" "utf8_valid ''name''" "utf8_valid ''address''" "utf8_valid ''port''" "utf8_valid ''user''"
  "utf8_valid ''group''" "utf8_valid ''tags''" "utf8_valid ''auth''" "utf8_valid ''key_path''" "utf8_valid ''jump_id''"
  "utf8_valid ''proxy''" "utf8_valid ''read_offset''" "utf8_valid ''local_path''" "utf8_valid ''source_hash''"
  "utf8_valid ''upload_mode''" "utf8_valid ''run_id''" "utf8_valid ''agent_name''" "utf8_valid ''task_id''"
  "utf8_valid ''call_id''" "utf8_valid ''host_id''" "utf8_valid ''operation''" "utf8_valid ''resource''"
  "utf8_valid ''command''" "utf8_valid ''content''" "utf8_valid ''expected_hash''" "utf8_valid ''timeout_seconds''"
  by (rule utf8_valid_ascii, simp add: code_in_def)+

lemma omit_ok:
  "utf8_valid k \<Longrightarrow> list_all (\<lambda>(k, v). utf8_valid k \<and> json_ok v) (omit_str k s) \<longleftrightarrow> utf8_valid s"
  "utf8_valid k \<Longrightarrow> list_all (\<lambda>(k, v). utf8_valid k \<and> json_ok v) (omit_int k i)"
  by (simp_all add: omit_str_def omit_int_def)

lemma request_json_ok: "request_utf8 r \<Longrightarrow> json_ok (JObj (request_fields r))"
  by (simp add: request_utf8_def request_fields_def omit_ok key_utf8)

lemma host_json_ok: "host_utf8 h \<Longrightarrow> json_ok (JObj (host_fields h))"
  by (simp add: host_utf8_def host_fields_def omit_ok key_utf8) (simp add: list_all_iff)

lemma render_unique:
  assumes "json_ok i" "json_ok j" "render i = render j"
  shows "i = j"
proof -
  have "delim []" by (simp add: delim_def)
  with assms show ?thesis using render_inject [of i j "[]" "[]"] by simp
qed

text \<open>
  C8: The digest stands for the request: two requests in UTF-8 with equal digests are the
  same request in every field, unless their different JSON texts are a collision of SHA-256.
  So an approval, which stores the digest, cannot be used for a request that differs in
  host, operation, resource, command, content, call or any other argument.
\<close>

theorem request_digest_identifies:
  assumes "request_utf8 r" "request_utf8 q" "Digest_request r = Digest_request q"
  shows "r = q \<or> (render (JObj (request_fields r)) \<noteq> render (JObj (request_fields q))
            \<and> sha256_hex (render (JObj (request_fields r))) = sha256_hex (render (JObj (request_fields q))))"
  using assms render_unique [OF request_json_ok request_json_ok] request_fields_inject
  by (auto simp: Digest_request_def Digest_def)

definition demo_request :: "string \<Rightarrow> request" where
  "demo_request cmd = \<lparr>ReadOffset = 0, LocalPath = [], SourceHash = [], UploadMode = [], RunID = ''r'', AgentName = [],
     TaskID = ''t1'', CallID = ''c1'', HostID = ''h1'', Operation = ''shell'', Resource = [], Command = cmd,
     Content = [], ExpectedHash = [], TimeoutSeconds = 0\<rparr>"

lemma demo_request_utf8: "list_all (code_in 0 0x7F) cmd \<Longrightarrow> request_utf8 (demo_request cmd)"
  by (simp add: request_utf8_def demo_request_def utf8_valid_ascii code_in_def)

theorem request_digest_identifies_witness:
  "demo_request ''ls'' = demo_request ''ls''
   \<or> (render (JObj (request_fields (demo_request ''ls''))) \<noteq> render (JObj (request_fields (demo_request ''ls'')))
      \<and> sha256_hex (render (JObj (request_fields (demo_request ''ls'')))) =
        sha256_hex (render (JObj (request_fields (demo_request ''ls'')))))"
proof -
  have "request_utf8 (demo_request ''ls'')" by (rule demo_request_utf8) (simp add: code_in_def)
  from request_digest_identifies [OF this this HOL.refl] show ?thesis .
qed

end
