(* ===== verification/Changes.thy ===== *)
theory Changes
  imports Prelude
begin

text \<open>
  \<open>internal/store/changes.go\<close>: the wake-ups that tell the user interface of a change to a
  task.  A channel is a number; \<open>ch_token\<close> are the channels whose one-element buffer holds
  a wake-up and \<open>ch_shut\<close> the closed ones.  In Go, closing a closed channel or sending on
  one panics: here such an operation gives \<open>None\<close>.
\<close>

record changes =
  ch_closed :: bool
  ch_subs :: "(string \<times> nat) list"
  ch_token :: "nat list"
  ch_shut :: "nat list"
  ch_next :: nat

definition changes_init :: changes where
  "changes_init = \<lparr>ch_closed = False, ch_subs = [], ch_token = [], ch_shut = [], ch_next = 0\<rparr>"

text \<open>\<open>close(ch)\<close> and the nonblocking send of a wake-up.\<close>

definition close_chan :: "nat \<Rightarrow> changes \<Rightarrow> changes option" where
  "close_chan ch c = (if ch \<in> set (ch_shut c) then None else Some (c\<lparr>ch_shut := ch # ch_shut c\<rparr>))"

definition wake :: "nat \<Rightarrow> changes \<Rightarrow> changes option" where
  "wake ch c =
     (if ch \<in> set (ch_shut c) then None
      else Some (if ch \<in> set (ch_token c) then c else c\<lparr>ch_token := ch # ch_token c\<rparr>))"

fun each :: "('a \<Rightarrow> changes \<Rightarrow> changes option) \<Rightarrow> 'a list \<Rightarrow> changes \<Rightarrow> changes option" where
  "each f [] c = Some c"
| "each f (x # xs) c = (case f x c of None \<Rightarrow> None | Some c1 \<Rightarrow> each f xs c1)"

text \<open>The new channel; after \<open>close\<close> it comes closed and is not registered.\<close>

definition SubscribeTask :: "string \<Rightarrow> changes \<Rightarrow> (nat \<times> changes) option" where
  "SubscribeTask task c =
     (let ch = ch_next c; c1 = c\<lparr>ch_next := Suc ch\<rparr>
      in if ch_closed c then map_option (Pair ch) (close_chan ch c1)
         else Some (ch, c1\<lparr>ch_subs := (task, ch) # ch_subs c\<rparr>))"

text \<open>The function that \<open>SubscribeTask\<close> returns.\<close>

definition Unsubscribe :: "string \<Rightarrow> nat \<Rightarrow> changes \<Rightarrow> changes option" where
  "Unsubscribe task ch c =
     (if (task, ch) \<in> set (ch_subs c)
      then close_chan ch (c\<lparr>ch_subs := removeAll (task, ch) (ch_subs c)\<rparr>)
      else Some c)"

definition subscribers :: "string \<Rightarrow> changes \<Rightarrow> nat list" where
  "subscribers task c = map snd (filter (\<lambda>(t, _). t = task) (ch_subs c))"

definition notify :: "string \<Rightarrow> changes \<Rightarrow> changes option" where
  "notify task c = each wake (subscribers task c) c"

definition close_changes :: "changes \<Rightarrow> changes option" where
  "close_changes c =
     map_option (\<lambda>c1. c1\<lparr>ch_subs := []\<rparr>)
       (each close_chan (map snd (ch_subs c)) (c\<lparr>ch_closed := True\<rparr>))"

text \<open>The reader of a channel takes its wake-up.\<close>

definition receive :: "nat \<Rightarrow> changes \<Rightarrow> changes" where
  "receive ch c = c\<lparr>ch_token := removeAll ch (ch_token c)\<rparr>"

subsection \<open>No operation panics\<close>

text \<open>Registered channels are distinct and open, and no channel was made twice.\<close>

definition changes_ok :: "changes \<Rightarrow> bool" where
  "changes_ok c \<longleftrightarrow>
     distinct (map snd (ch_subs c))
     \<and> set (map snd (ch_subs c)) \<inter> set (ch_shut c) = {}
     \<and> (\<forall>ch \<in> set (map snd (ch_subs c)) \<union> set (ch_shut c). ch < ch_next c)
     \<and> (ch_closed c \<longrightarrow> ch_subs c = [])"

lemma changes_ok_init: "changes_ok changes_init"
  by (simp add: changes_ok_def changes_init_def)

lemma subscribe_ok:
  assumes "changes_ok c"
  shows "\<exists>ch c1. SubscribeTask task c = Some (ch, c1) \<and> changes_ok c1"
proof -
  have "ch_next c \<notin> set (map snd (ch_subs c)) \<union> set (ch_shut c)"
    using assms unfolding changes_ok_def by blast
  with assms show ?thesis
    by (auto simp: changes_ok_def SubscribeTask_def close_chan_def Let_def less_Suc_eq)
qed

lemma unsubscribe_ok:
  assumes "changes_ok c"
  shows "\<exists>c1. Unsubscribe task ch c = Some c1 \<and> changes_ok c1"
proof (cases "(task, ch) \<in> set (ch_subs c)")
  case True
  have d: "distinct (map snd (ch_subs c))" using assms by (simp add: changes_ok_def)
  have gone: "ch \<notin> snd ` set (removeAll (task, ch) (ch_subs c))"
  proof
    assume "ch \<in> snd ` set (removeAll (task, ch) (ch_subs c))"
    then obtain x where x: "x \<in> set (removeAll (task, ch) (ch_subs c))" "snd x = ch" by auto
    then have "x = (fst x, ch)" by (metis prod.collapse)
    with x(1) have "(fst x, ch) \<in> set (ch_subs c)" "fst x \<noteq> task" by (metis DiffE set_removeAll, metis DiffE insertI1 set_removeAll)
    with True d show False by (fastforce simp: distinct_map inj_on_def)
  qed
  have "ch \<notin> set (ch_shut c)" "ch < ch_next c"
    using assms True by (force simp: changes_ok_def)+
  moreover have "distinct (map snd (removeAll (task, ch) (ch_subs c)))"
    using d by (auto simp: distinct_map inj_on_def distinct_removeAll)
  moreover have "ch_closed c \<longrightarrow> removeAll (task, ch) (ch_subs c) = []"
    using assms by (auto simp: changes_ok_def)
  ultimately show ?thesis
    using assms True gone by (force simp: changes_ok_def Unsubscribe_def close_chan_def)
next
  case False
  with assms show ?thesis by (simp add: Unsubscribe_def)
qed

lemma each_wake:
  "set chs \<inter> set (ch_shut c) = {} \<Longrightarrow>
     \<exists>t. each wake chs c = Some (c\<lparr>ch_token := t\<rparr>) \<and> set t = set (ch_token c) \<union> set chs"
proof (induction chs arbitrary: c)
  case (Cons ch chs)
  define t1 where "t1 = (if ch \<in> set (ch_token c) then ch_token c else ch # ch_token c)"
  have t1: "wake ch c = Some (c\<lparr>ch_token := t1\<rparr>)" "set t1 = insert ch (set (ch_token c))"
    using Cons.prems by (auto simp: wake_def t1_def)
  with Cons.IH [of "c\<lparr>ch_token := t1\<rparr>"] Cons.prems show ?case by auto
next
  case Nil
  show ?case by (rule exI [of _ "ch_token c"]) simp
qed

lemma notify_ok:
  assumes "changes_ok c"
  shows "\<exists>t. notify task c = Some (c\<lparr>ch_token := t\<rparr>) \<and> changes_ok (c\<lparr>ch_token := t\<rparr>)
           \<and> set t = set (ch_token c) \<union> set (subscribers task c)"
proof -
  have "set (subscribers task c) \<subseteq> set (map snd (ch_subs c))" by (auto simp: subscribers_def)
  then have "set (subscribers task c) \<inter> set (ch_shut c) = {}"
    using assms by (auto simp: changes_ok_def)
  from each_wake [OF this] assms show ?thesis by (auto simp: notify_def changes_ok_def)
qed

lemma each_close:
  "distinct chs \<Longrightarrow> set chs \<inter> set (ch_shut c) = {} \<Longrightarrow>
     each close_chan chs c = Some (c\<lparr>ch_shut := rev chs @ ch_shut c\<rparr>)"
  by (induction chs arbitrary: c) (auto simp: close_chan_def)

lemma close_ok:
  assumes "changes_ok c"
  shows "\<exists>c1. close_changes c = Some c1 \<and> changes_ok c1 \<and> ch_subs c1 = [] \<and> ch_closed c1"
  using assms each_close [of "map snd (ch_subs c)" "c\<lparr>ch_closed := True\<rparr>"]
  by (auto simp: close_changes_def changes_ok_def)

datatype change_op = Sub string | Unsub string nat | Changed string | Take nat | Close

fun change_step :: "change_op \<Rightarrow> changes \<Rightarrow> changes option" where
  "change_step (Sub task) c = map_option snd (SubscribeTask task c)"
| "change_step (Unsub task ch) c = Unsubscribe task ch c"
| "change_step (Changed task) c = notify task c"
| "change_step (Take ch) c = Some (receive ch c)"
| "change_step Close c = close_changes c"

lemma change_step_ok: "changes_ok c \<Longrightarrow> \<exists>c1. change_step op c = Some c1 \<and> changes_ok c1"
proof (cases op)
  case (Sub task)
  assume "changes_ok c"
  with subscribe_ok [of c task] Sub show ?thesis by auto
next
  case (Changed task)
  assume "changes_ok c"
  from notify_ok [OF this, of task] Changed show ?thesis by auto
next
  case (Take ch)
  assume "changes_ok c"
  with Take show ?thesis by (auto simp: receive_def changes_ok_def)
qed (use unsubscribe_ok close_ok in \<open>fastforce+\<close>)

lemma each_step_ok: "changes_ok c \<Longrightarrow> \<exists>c1. each change_step ops c = Some c1 \<and> changes_ok c1"
proof (induction ops arbitrary: c)
  case (Cons op ops)
  obtain c1 where "change_step op c = Some c1" "changes_ok c1"
    using change_step_ok [OF Cons.prems] by blast
  with Cons.IH [of c1] show ?case by simp
qed simp

text \<open>
  However subscribing, unsubscribing (also twice), notifying, receiving and closing
  (also twice) are interleaved, no channel is closed a second time and none is sent on after
  it was closed, so the notification code never panics.
\<close>

theorem changes_never_panic: "each change_step ops changes_init \<noteq> None"
  using each_step_ok [OF changes_ok_init, of ops] by auto

lemma token_kept:
  assumes "change_step op c = Some c1" "ch \<in> set (ch_token c)" "op \<noteq> Take ch" "changes_ok c"
  shows "ch \<in> set (ch_token c1)"
proof (cases op)
  case (Changed task)
  with assms notify_ok [OF assms(4), of task] show ?thesis by auto
next
  case Close
  with assms each_close [of "map snd (ch_subs c)" "c\<lparr>ch_closed := True\<rparr>"]
  show ?thesis by (auto simp: close_changes_def changes_ok_def)
qed (use assms in \<open>auto simp: SubscribeTask_def Unsubscribe_def close_chan_def receive_def Let_def split: if_splits\<close>)

text \<open>
  No wake-up is lost: once a subscriber of a task is registered and the task changes,
  its channel holds a wake-up until it is taken, whatever else happens in between.
\<close>

theorem wake_up_not_lost:
  assumes "each change_step before changes_init = Some c" "(task, ch) \<in> set (ch_subs c)"
    and "each change_step (Changed task # later) c = Some c1" "Take ch \<notin> set later"
  shows "ch \<in> set (ch_token c1)"
proof -
  have ok: "changes_ok c" using each_step_ok [OF changes_ok_init, of before] assms(1) by simp
  from assms(3) obtain c0 where c0: "notify task c = Some c0" "each change_step later c0 = Some c1"
    by (auto split: option.splits)
  with notify_ok [OF ok, of task] have "changes_ok c0" "set (ch_token c0) = set (ch_token c) \<union> set (subscribers task c)"
    by auto
  moreover have "ch \<in> set (subscribers task c)" using assms(2) by (force simp: subscribers_def)
  ultimately have "ch \<in> set (ch_token c0)" "changes_ok c0" by auto
  with c0(2) assms(4) show ?thesis
  proof (induction later arbitrary: c0)
    case (Cons op later)
    then obtain c2 where c2: "change_step op c0 = Some c2" "each change_step later c2 = Some c1"
      by (auto split: option.splits)
    have "ch \<in> set (ch_token c2)" using token_kept [OF c2(1)] Cons.prems by auto
    moreover have "changes_ok c2" using change_step_ok [of c0 op] c2(1) Cons.prems by simp
    ultimately show ?case using Cons c2(2) by simp
  qed simp
qed

theorem wake_up_not_lost_witness:
  "(0 :: nat) \<in> set (ch_token (the (each change_step [Changed ''t'', Sub ''t'', Close]
       (the (each change_step [Sub ''t''] changes_init)))))"
  by (rule wake_up_not_lost [of "[Sub ''t'']" "the (each change_step [Sub ''t''] changes_init)" "''t''" 0
        "[Sub ''t'', Close]"]) code_simp+

end
