(* ===== verification/Store.thy ===== *)
theory Store
  imports Domain Changes GoPath "HOL-Library.Char_ord" "HOL-Library.List_Lexorder"
begin

text \<open>
  \<open>internal/store/store.go\<close>: the SQLite tables the application lives on.

  A table is the list of its rows in rowid order.  The JSON payload of a document is the
  value itself, tagged with its Go type; reading it as another type is a decoding error.
  The environment is part of the state: \<open>sql\<close> is the script of the statements' outcomes
  (\<open>Some n\<close>: this statement fails and changes nothing), \<open>clock\<close> and \<open>fresh\<close> are what
  \<open>time.Now\<close> and \<open>domain.ID\<close> give at their next calls.  Messages are ASCII renderings of the
  Chinese ones.
\<close>

subsection \<open>The documents\<close>

record approval =
  InterruptID :: string
  ap_Request :: request
  ap_Digest :: string
  ap_GrantID :: string
  Reason :: string
  Approved :: bool
  Decided :: bool

record verification =
  v_HostID :: string
  v_ExecutionID :: string
  v_ExpectedText :: string
  v_AgentName :: string
  v_At :: time

record attachment =
  at_Path :: string
  at_GrantID :: string

record message =
  m_Role :: string
  m_Content :: string
  m_ToolCallID :: string
  m_ToolCalls :: "string list"

record memory_record =
  mr_Path :: string
  mr_Content :: string
  mr_UpdatedAt :: time

record memory_settings =
  ms_Disabled :: bool
  ms_Generation :: "64 word"

record subtask_event =
  st_RunID :: string
  st_Agent :: string
  st_State :: string
  st_Message :: string

datatype doc =
    HostDoc host
  | TaskDoc task
  | ModelDoc model_profile
  | ApprovalDoc approval
  | VerificationDoc verification
  | AttachmentDoc attachment
  | HistoryDoc "message list"
  | MemoryDoc memory_record
  | SettingsDoc memory_settings
  | SubtaskDoc subtask_event
  | PlanDoc "(string \<times> string) list"

text \<open>
  The errors of the store and of the agent that uses it.  \<open>Correctable\<close> and \<open>Blocked\<close> are
  the agent's \<open>correctableError\<close> and \<open>blockedError\<close>, \<open>Interrupt\<close> is the interrupt that asks
  for an approval.  \<open>NotExist\<close> is \<open>os.ErrNotExist\<close>, \<open>ExitStatus\<close> the \<open>ssh.ExitError\<close> and \<open>HostKey\<close> the
  \<open>HostKeyError\<close> of the remote component.
\<close>

datatype err =
    NoRows
  | Sql nat
  | Decode
  | Panic
  | Cancelled
  | Msg string
  | Correctable string
  | Blocked string
  | Interrupt approval
  | NotExist
  | ExitStatus int
  | HostKey string string bool

record execution =
  ex_ID :: string
  ex_Task :: string
  ex_Call :: string
  ex_Digest :: string
  ex_Payload :: result

record store =
  documents :: "((string \<times> string) \<times> doc) list"
  events :: "event list"
  event_seq :: nat
  executions :: "execution list"
  checkpoints :: "(string \<times> byte list) list"
  artifacts :: "string list"
  Dir :: string
  notices :: changes
  sql :: "nat option list"
  clock :: "time list"
  fresh :: "string list"

type_synonym 'a sact = "(store, err, 'a) act"

subsection \<open>The environment\<close>

text \<open>The outcome of the next statement.\<close>

definition statement :: "unit sact" where
  "statement = (\<lambda>s. case sql s of
      [] \<Rightarrow> (Inr (), s)
    | None # f \<Rightarrow> (Inr (), s\<lparr>sql := f\<rparr>)
    | Some n # f \<Rightarrow> (Inl (Sql n), s\<lparr>sql := f\<rparr>))"

definition Now :: "time sact" where
  "Now = (\<lambda>s. case clock s of [] \<Rightarrow> (Inr 0, s) | t # ts \<Rightarrow> (Inr t, s\<lparr>clock := ts\<rparr>))"

definition NewID :: "string sact" where
  "NewID = (\<lambda>s. case fresh s of [] \<Rightarrow> (Inl Panic, s) | i # is \<Rightarrow> (Inr i, s\<lparr>fresh := is\<rparr>))"

definition modify :: "(store \<Rightarrow> store) \<Rightarrow> unit sact" where
  "modify f = (\<lambda>s. (Inr (), f s))"

definition wake_task :: "string \<Rightarrow> unit sact" where
  "wake_task task = (\<lambda>s. case notify task (notices s) of
      None \<Rightarrow> (Inl Panic, s) | Some c \<Rightarrow> (Inr (), s\<lparr>notices := c\<rparr>))"

subsection \<open>Documents\<close>

definition find_doc :: "string \<Rightarrow> string \<Rightarrow> store \<Rightarrow> doc option" where
  "find_doc kind i s = map_of (documents s) (kind, i)"

definition put_doc :: "string \<Rightarrow> string \<Rightarrow> doc \<Rightarrow> store \<Rightarrow> store" where
  "put_doc kind i d s = s\<lparr>documents := ((kind, i), d) # filter (\<lambda>(k, _). k \<noteq> (kind, i)) (documents s)\<rparr>"

definition Put :: "string \<Rightarrow> string \<Rightarrow> doc \<Rightarrow> unit sact" where
  "Put kind i d =
     (if i = [] then throw (Msg ''empty record id'')
      else andThen statement (\<lambda>_. andThen (modify (put_doc kind i d)) (\<lambda>_.
           if kind = ''tasks'' then wake_task i else ret ())))"

definition Load :: "(doc \<Rightarrow> 'a option) \<Rightarrow> string \<Rightarrow> string \<Rightarrow> 'a sact" where
  "Load as kind i =
     andThen statement (\<lambda>_ s. case find_doc kind i s of
        None \<Rightarrow> (Inl NoRows, s)
      | Some d \<Rightarrow> (case as d of None \<Rightarrow> (Inl Decode, s) | Some x \<Rightarrow> (Inr x, s)))"

text \<open>Which Go type a \<open>Load\<close> decodes into.\<close>

fun as_host :: "doc \<Rightarrow> host option" where "as_host (HostDoc x) = Some x" | "as_host _ = None"
fun as_task :: "doc \<Rightarrow> task option" where "as_task (TaskDoc x) = Some x" | "as_task _ = None"
fun as_model :: "doc \<Rightarrow> model_profile option" where "as_model (ModelDoc x) = Some x" | "as_model _ = None"
fun as_approval :: "doc \<Rightarrow> approval option" where "as_approval (ApprovalDoc x) = Some x" | "as_approval _ = None"
fun as_verification :: "doc \<Rightarrow> verification option" where
  "as_verification (VerificationDoc x) = Some x" | "as_verification _ = None"
fun as_attachment :: "doc \<Rightarrow> attachment option" where
  "as_attachment (AttachmentDoc x) = Some x" | "as_attachment _ = None"
fun as_history :: "doc \<Rightarrow> message list option" where "as_history (HistoryDoc x) = Some x" | "as_history _ = None"
fun as_memory :: "doc \<Rightarrow> memory_record option" where "as_memory (MemoryDoc x) = Some x" | "as_memory _ = None"
fun as_settings :: "doc \<Rightarrow> memory_settings option" where
  "as_settings (SettingsDoc x) = Some x" | "as_settings _ = None"

text \<open>\<open>All\<close>: the documents of a kind, ordered by id.\<close>

fun decode_all :: "(doc \<Rightarrow> 'a option) \<Rightarrow> doc list \<Rightarrow> 'a list option" where
  "decode_all as [] = Some []"
| "decode_all as (d # ds) =
     (case (as d, decode_all as ds) of (Some x, Some xs) \<Rightarrow> Some (x # xs) | _ \<Rightarrow> None)"

definition rows_of :: "string \<Rightarrow> store \<Rightarrow> doc list" where
  "rows_of kind s =
     map snd (sort_key (\<lambda>((_, i), _). i) (filter (\<lambda>((k, _), _). k = kind) (documents s)))"

definition All :: "(doc \<Rightarrow> 'a option) \<Rightarrow> string \<Rightarrow> 'a list sact" where
  "All as kind =
     andThen statement (\<lambda>_ s. case decode_all as (rows_of kind s) of
        None \<Rightarrow> (Inl Decode, s) | Some xs \<Rightarrow> (Inr xs, s))"

definition Delete :: "string \<Rightarrow> string \<Rightarrow> unit sact" where
  "Delete kind i =
     andThen statement (\<lambda>_. modify (\<lambda>s. s\<lparr>documents := filter (\<lambda>(k, _). k \<noteq> (kind, i)) (documents s)\<rparr>))"

definition Host :: "string \<Rightarrow> host sact" where
  "Host i = Load as_host ''hosts'' i"

subsection \<open>Events\<close>

definition Event :: "string \<Rightarrow> string \<Rightarrow> string \<Rightarrow> event sact" where
  "Event task kind text =
     andThen Now (\<lambda>t.
     andThen statement (\<lambda>_ s.
       let e = \<lparr>Sequence = Suc (event_seq s), ev_TaskID = task, ev_Kind = kind, ev_Text = text, ev_Time = t\<rparr>
       in andThen (wake_task task) (\<lambda>_. ret e)
            (s\<lparr>events := events s @ [e], event_seq := Suc (event_seq s)\<rparr>)))"

definition Events :: "string \<Rightarrow> nat \<Rightarrow> event list sact" where
  "Events task after =
     andThen statement (\<lambda>_ s. (Inr (filter (\<lambda>e. ev_TaskID e = task \<and> Sequence e > after) (events s)), s))"

subsection \<open>Executions\<close>

definition find_execution :: "string \<Rightarrow> string \<Rightarrow> store \<Rightarrow> execution option" where
  "find_execution task call s = find (\<lambda>x. ex_Task x = task \<and> ex_Call x = call) (executions s)"

definition new_result :: "string \<Rightarrow> request \<Rightarrow> time \<Rightarrow> result" where
  "new_result i req t =
     \<lparr>res_ID = i, res_Request = req, res_Status = ''running'', ExitCode = -1, Output = [],
      res_Artifact = [], res_Error = [], StartedAt = t, FinishedAt = 0\<rparr>"

text \<open>
  The \<open>INSERT ... ON CONFLICT(task_id,call_id) DO NOTHING\<close>; a conflict on the primary key
  is an error.
\<close>

definition insert_execution :: "execution \<Rightarrow> unit sact" where
  "insert_execution x =
     andThen statement (\<lambda>_ s.
       if find_execution (ex_Task x) (ex_Call x) s \<noteq> None then (Inr (), s)
       else if ex_ID x \<in> set (map ex_ID (executions s)) then (Inl (Sql 1555), s)
       else (Inr (), s\<lparr>executions := executions s @ [x]\<rparr>))"

definition Claim :: "request \<Rightarrow> (result \<times> bool) sact" where
  "Claim req =
     andThen NewID (\<lambda>i.
     andThen Now (\<lambda>t.
       let r = new_result i req t
       in andThen (insert_execution \<lparr>ex_ID = i, ex_Task = TaskID req, ex_Call = CallID req,
                                     ex_Digest = Digest_request req, ex_Payload = r\<rparr>) (\<lambda>_.
          andThen statement (\<lambda>_ s.
            case find_execution (TaskID req) (CallID req) s of
              None \<Rightarrow> (Inl NoRows, s)
            | Some x \<Rightarrow>
                if ex_Digest x \<noteq> Digest_request req
                then (Inl (Msg ''tool call identity reused with different arguments''), s)
                else (Inr (ex_Payload x, res_ID (ex_Payload x) = i), s)))))"

definition finish_row :: "result \<Rightarrow> execution \<Rightarrow> execution" where
  "finish_row r x = (if ex_ID x = res_ID r then x\<lparr>ex_Payload := r\<rparr> else x)"

definition Finish :: "result \<Rightarrow> unit sact" where
  "Finish r =
     andThen statement (\<lambda>_. modify (\<lambda>s. s\<lparr>executions := map (finish_row r) (executions s)\<rparr>))"

definition results_of :: "string \<Rightarrow> store \<Rightarrow> result list" where
  "results_of task s = map ex_Payload (filter (\<lambda>x. ex_Task x = task) (executions s))"

definition Results :: "string \<Rightarrow> result list sact" where
  "Results task = andThen statement (\<lambda>_ s. (Inr (results_of task s), s))"

subsection \<open>Recovery after a crash\<close>

definition interrupted_result :: "result \<Rightarrow> result" where
  "interrupted_result r =
     r\<lparr>res_Status := ''unknown'', res_Error := ''application exited, remote outcome needs verification''\<rparr>"

definition interrupted_task :: "task \<Rightarrow> task" where
  "interrupted_task t =
     (let t1 = (if Status t = ''running'' \<or> Status t = ''awaiting_approval''
                then t\<lparr>Status := ''interrupted''\<rparr> else t)
      in t1\<lparr>Grant := (Grant t1)\<lparr>ExpiresAt := 0\<rparr>\<rparr>)"

definition Recover :: "unit sact" where
  "Recover =
     andThen statement (\<lambda>_ s.
       andThen (forEach (\<lambda>r. Finish (interrupted_result r))
                  (filter (\<lambda>r. res_Status r = ''running'') (map ex_Payload (executions s)))) (\<lambda>_.
       andThen (All as_task ''tasks'') (\<lambda>ts.
         forEach (\<lambda>t. Put ''tasks'' (task_ID t) (TaskDoc (interrupted_task t))) ts)) s)"

subsection \<open>Checkpoints and artifacts\<close>

definition Get :: "string \<Rightarrow> (byte list \<times> bool) sact" where
  "Get i = andThen statement (\<lambda>_ s. (Inr (case map_of (checkpoints s) i of None \<Rightarrow> ([], False) | Some b \<Rightarrow> (b, True)), s))"

definition Set :: "string \<Rightarrow> byte list \<Rightarrow> unit sact" where
  "Set i b = andThen statement (\<lambda>_. modify (\<lambda>s. s\<lparr>checkpoints := (i, b) # filter (\<lambda>(k, _). k \<noteq> i) (checkpoints s)\<rparr>))"

definition Delete_checkpoint :: "string \<Rightarrow> unit sact" where
  "Delete_checkpoint i = andThen statement (\<lambda>_. modify (\<lambda>s. s\<lparr>checkpoints := filter (\<lambda>(k, _). k \<noteq> i) (checkpoints s)\<rparr>))"

text \<open>
  \<open>Artifact\<close> creates the file exclusively, so an existing one is an error; a failing call
  into the file system takes an entry of the same script.
\<close>

definition Artifact :: "string \<Rightarrow> string sact" where
  "Artifact i =
     (if i = [] \<or> Base i \<noteq> i then throw (Msg ''invalid artifact id'')
      else andThen statement (\<lambda>_ s.
        let p = JoinPath [JoinPath [Dir s, ''artifacts''], i @ ''.log'']
        in if p \<in> set (artifacts s) then (Inl (Msg ''file exists''), s)
           else (Inr p, s\<lparr>artifacts := artifacts s @ [p]\<rparr>)))"

definition store_Close :: "unit sact" where
  "store_Close = (\<lambda>s. case close_changes (notices s) of
      None \<Rightarrow> (Inl Panic, s) | Some c \<Rightarrow> andThen statement (\<lambda>_. ret ()) (s\<lparr>notices := c\<rparr>))"

end
