(* ===== verification/StoreFrames.thy ===== *)
theory StoreFrames
  imports Store
begin

text \<open>
  What the operations of the store preserve.  A locale collects the elementary changes; every
  relation that survives them survives every operation, here and in the agent's components.
  Its interpretations are the laws the agent relies on: executions are never forgotten or
  made twice, and the event log only grows.
\<close>

locale store_quiet = preserved rel for rel :: "store \<Rightarrow> store \<Rightarrow> bool" +
  assumes environment: "rel s (s\<lparr>sql := a\<rparr>)" "rel s (s\<lparr>clock := b\<rparr>)" "rel s (s\<lparr>notices := n\<rparr>)"
      "fresh s = i # c \<Longrightarrow> rel s (s\<lparr>fresh := c\<rparr>)"
    and documents: "rel s (s\<lparr>documents := d\<rparr>)"
    and event: "Sequence e = Suc (event_seq s) \<Longrightarrow>
      rel s (s\<lparr>events := events s @ [e], event_seq := Suc (event_seq s)\<rparr>)"
    and checkpoints: "rel s (s\<lparr>checkpoints := cp\<rparr>)"
    and artifact: "p \<notin> set (artifacts s) \<Longrightarrow> rel s (s\<lparr>artifacts := artifacts s @ [p]\<rparr>)"
begin

lemma keeps_statement: "keeps rel statement"
  by (auto simp: keeps_def statement_def refl environment split: list.split option.split)

lemma keeps_Now: "keeps rel Now"
  by (auto simp: keeps_def Now_def refl environment split: list.split)

lemma keeps_NewID: "keeps rel NewID"
  by (auto simp: keeps_def NewID_def refl environment split: list.split)

lemma keeps_wake_task: "keeps rel (wake_task task)"
  by (auto simp: keeps_def wake_task_def refl environment split: option.split)

lemma keeps_modify_documents: "keeps rel (modify (\<lambda>s. s\<lparr>documents := f s\<rparr>))"
  by (simp add: keeps_def modify_def documents)

lemma keeps_modify_checkpoints: "keeps rel (modify (\<lambda>s. s\<lparr>checkpoints := f s\<rparr>))"
  by (simp add: keeps_def modify_def checkpoints)

lemma keeps_read: "keeps rel (\<lambda>s. (g s, s))"
  by (simp add: keeps_def refl)

lemma keeps_option: "(\<And>x. keeps rel (f x)) \<Longrightarrow> keeps rel g \<Longrightarrow>
    keeps rel (\<lambda>s. case h s of None \<Rightarrow> g s | Some x \<Rightarrow> f x s)"
  by (auto simp: keeps_def split: option.split)

lemmas keeps_basic = keeps_ret keeps_throw keeps_andThen keeps_if keeps_forEach keeps_statement keeps_Now
  keeps_NewID keeps_wake_task

lemma keeps_Put: "keeps rel (Put kind i d)"
proof -
  have "put_doc kind i d = (\<lambda>s. s\<lparr>documents := ((kind, i), d) # filter (\<lambda>(k, _). k \<noteq> (kind, i)) (documents s)\<rparr>)"
    by (rule ext) (simp add: put_doc_def)
  then have "keeps rel (modify (put_doc kind i d))" by (simp add: keeps_modify_documents)
  then show ?thesis unfolding Put_def by (intro keeps_basic)
qed

lemma keeps_Load: "keeps rel (Load as kind i)"
  unfolding Load_def by (intro keeps_basic) (auto simp: keeps_def refl split: option.split)

lemma keeps_All: "keeps rel (All as kind)"
  unfolding All_def by (intro keeps_basic) (auto simp: keeps_def refl split: option.split)

lemma keeps_Delete: "keeps rel (Delete kind i)"
  unfolding Delete_def by (intro keeps_basic keeps_modify_documents)

lemma keeps_Host: "keeps rel (Host i)"
  by (simp add: Host_def keeps_Load)

lemma keeps_Event: "keeps rel (Event task kind text)"
proof -
  have "keeps rel (\<lambda>s. let e = \<lparr>Sequence = Suc (event_seq s), ev_TaskID = task, ev_Kind = kind, ev_Text = text, ev_Time = t\<rparr>
       in andThen (wake_task task) (\<lambda>_. ret e)
            (s\<lparr>events := events s @ [e], event_seq := Suc (event_seq s)\<rparr>))" for t
  proof (rule keepsI)
    fix s :: store and x s'
    let ?e = "\<lparr>Sequence = Suc (event_seq s), ev_TaskID = task, ev_Kind = kind, ev_Text = text, ev_Time = t\<rparr>"
    let ?s1 = "s\<lparr>events := events s @ [?e], event_seq := Suc (event_seq s)\<rparr>"
    assume "(let e = ?e in andThen (wake_task task) (\<lambda>_. ret e)
            (s\<lparr>events := events s @ [e], event_seq := Suc (event_seq s)\<rparr>)) = (x, s')"
    then have "andThen (wake_task task) (\<lambda>_. ret ?e) ?s1 = (x, s')" by (simp add: Let_def)
    then have "rel ?s1 s'" by (rule keepsD [rotated]) (intro keeps_basic)
    moreover have "rel s ?s1" by (rule event) simp
    ultimately show "rel s s'" using trans by blast
  qed
  then show ?thesis unfolding Event_def by (intro keeps_basic)
qed

lemma keeps_Events: "keeps rel (Events task after)"
  unfolding Events_def by (intro keeps_basic keeps_read)

lemma keeps_Results: "keeps rel (Results task)"
  unfolding Results_def by (intro keeps_basic keeps_read)

lemma keeps_Get: "keeps rel (Get i)"
  unfolding Get_def by (intro keeps_basic keeps_read)

lemma keeps_Set: "keeps rel (Set i b)"
  unfolding Set_def by (intro keeps_basic keeps_modify_checkpoints)

lemma keeps_Delete_checkpoint: "keeps rel (Delete_checkpoint i)"
  unfolding Delete_checkpoint_def by (intro keeps_basic keeps_modify_checkpoints)

lemma keeps_Artifact: "keeps rel (Artifact i)"
  unfolding Artifact_def Let_def
  by (intro keeps_basic) (auto simp: keeps_def refl artifact)

lemmas keeps_quiet = keeps_basic keeps_Put keeps_Load keeps_All keeps_Delete keeps_Host keeps_Event keeps_Events
  keeps_Results keeps_Get keeps_Set keeps_Delete_checkpoint keeps_Artifact

end

text \<open>Ending an execution, and the recovery after a crash, change the table of executions.\<close>

locale store_base = store_quiet +
  assumes finish: "rel s (s\<lparr>executions := map (finish_row r) (executions s)\<rparr>)"
begin

lemma keeps_Finish: "keeps rel (Finish r)"
  unfolding Finish_def by (intro keeps_basic) (simp add: keeps_def modify_def finish)

lemma keeps_Recover: "keeps rel Recover"
proof -
  have "keeps rel (\<lambda>s. andThen (forEach (\<lambda>r. Finish (interrupted_result r))
                  (filter (\<lambda>r. res_Status r = ''running'') (map ex_Payload (executions s)))) (\<lambda>_.
       andThen (All as_task ''tasks'') (\<lambda>ts.
         forEach (\<lambda>t. Put ''tasks'' (task_ID t) (TaskDoc (interrupted_task t))) ts)) s)"
  proof (rule keepsI)
    fix s :: store and x s'
    let ?m = "\<lambda>rs. andThen (forEach (\<lambda>r. Finish (interrupted_result r)) rs) (\<lambda>_.
       andThen (All as_task ''tasks'') (\<lambda>ts.
         forEach (\<lambda>t. Put ''tasks'' (task_ID t) (TaskDoc (interrupted_task t))) ts))"
    assume run: "?m (filter (\<lambda>r. res_Status r = ''running'') (map ex_Payload (executions s))) s = (x, s')"
    have "keeps rel (?m rs)" for rs
      by (intro keeps_basic keeps_Finish keeps_All keeps_Put)
    with run show "rel s s'" using keepsD by blast
  qed
  then show ?thesis unfolding Recover_def by (intro keeps_basic)
qed

lemmas keeps_store = keeps_quiet keeps_Finish keeps_Recover

end

text \<open>
  \<open>Claim\<close> is the one operation that adds an execution.  Some relations survive any new row;
  others only one whose identifier is fresh and have to show \<open>Claim\<close> themselves.
\<close>

locale store_frame = store_base +
  assumes keeps_Claim: "keeps rel (Claim req)"

locale store_insert = store_base +
  assumes insert: "find_execution (ex_Task x) (ex_Call x) s = None \<Longrightarrow>
      ex_ID x \<notin> set (map ex_ID (executions s)) \<Longrightarrow> rel s (s\<lparr>executions := executions s @ [x]\<rparr>)"
begin

lemma keeps_insert_execution: "keeps rel (insert_execution x)"
  unfolding insert_execution_def by (intro keeps_basic) (auto simp: keeps_def refl insert)

lemma keeps_Claim_insert: "keeps rel (Claim req)"
proof -
  have "keeps rel (\<lambda>s. case find_execution (TaskID req) (CallID req) s of
              None \<Rightarrow> (Inl NoRows, s)
            | Some x \<Rightarrow> if ex_Digest x \<noteq> Digest_request req
                then (Inl (Msg ''tool call identity reused with different arguments''), s)
                else (Inr (ex_Payload x, res_ID (ex_Payload x) = i), s))" for i
    by (auto simp: keeps_def refl split: option.split)
  then show ?thesis unfolding Claim_def Let_def by (intro keeps_basic keeps_insert_execution)
qed

end

sublocale store_insert \<subseteq> store_frame
  by unfold_locales (rule keeps_Claim_insert)

subsection \<open>Every history of the store\<close>

text \<open>
  A history: any sequence of operations, each with any arguments and any outcome.
\<close>

inductive store_run :: "store \<Rightarrow> store \<Rightarrow> bool" where
  none: "store_run s s"
| put: "store_run s t \<Longrightarrow> store_run s (snd (Put kind i d t))"
| delete: "store_run s t \<Longrightarrow> store_run s (snd (Delete kind i t))"
| event: "store_run s t \<Longrightarrow> store_run s (snd (Event task kind content t))"
| claim: "store_run s t \<Longrightarrow> store_run s (snd (Claim req t))"
| finish: "store_run s t \<Longrightarrow> store_run s (snd (Finish r t))"
| recover: "store_run s t \<Longrightarrow> store_run s (snd (Recover t))"
| set: "store_run s t \<Longrightarrow> store_run s (snd (Set i b t))"
| uncheck: "store_run s t \<Longrightarrow> store_run s (snd (Delete_checkpoint i t))"
| artifact: "store_run s t \<Longrightarrow> store_run s (snd (Artifact i t))"

context store_frame
begin

lemma run: "store_run s t \<Longrightarrow> rel s t"
proof (induction rule: store_run.induct)
  case (put s t kind i d)
  then show ?case using keeps_Put trans by (metis keeps_def)
next
  case (delete s t kind i)
  then show ?case using keeps_Delete trans by (metis keeps_def)
next
  case (event s t task kind content)
  then show ?case using keeps_Event trans by (metis keeps_def)
next
  case (claim s t req)
  then show ?case using keeps_Claim trans by (metis keeps_def)
next
  case (finish s t r)
  then show ?case using keeps_Finish trans by (metis keeps_def)
next
  case (recover s t)
  then show ?case using keeps_Recover trans by (metis keeps_def)
next
  case (set s t i b)
  then show ?case using keeps_Set trans by (metis keeps_def)
next
  case (uncheck s t i)
  then show ?case using keeps_Delete_checkpoint trans by (metis keeps_def)
next
  case (artifact s t i)
  then show ?case using keeps_Artifact trans by (metis keeps_def)
qed (rule refl)

end

subsection \<open>Executions are claimed once\<close>

definition exec_key :: "execution \<Rightarrow> string \<times> string \<times> string \<times> string" where
  "exec_key x = (ex_ID x, ex_Task x, ex_Call x, ex_Digest x)"

text \<open>The identities of the executions only grow, and identifiers are used up from the front.\<close>

definition remembers :: "store \<Rightarrow> store \<Rightarrow> bool" where
  "remembers s s' \<longleftrightarrow>
     (\<exists>new. map exec_key (executions s') = map exec_key (executions s) @ new)
     \<and> (\<exists>used. fresh s = used @ fresh s')"

lemma exec_key_finish [simp]: "exec_key (finish_row r x) = exec_key x"
  by (simp add: exec_key_def finish_row_def)

interpretation memory: store_insert remembers
proof unfold_locales
  show "remembers s s" for s by (simp add: remembers_def)
  show "remembers s u" if "remembers s t" "remembers t u" for s t u
    using that unfolding remembers_def by (metis append.assoc)
qed (auto simp: remembers_def comp_def)

text \<open>
  What holds of the executions table: no identifier and no call occurs twice, a payload
  carries the identifier of its row, and identifiers still to come are new.
\<close>

definition executions_ok :: "store \<Rightarrow> bool" where
  "executions_ok s \<longleftrightarrow>
     distinct (map ex_ID (executions s) @ fresh s)
     \<and> distinct (map (\<lambda>x. (ex_Task x, ex_Call x)) (executions s))
     \<and> (\<forall>x \<in> set (executions s). res_ID (ex_Payload x) = ex_ID x)"

definition keeps_ok :: "store \<Rightarrow> store \<Rightarrow> bool" where
  "keeps_ok s s' \<longleftrightarrow> (executions_ok s \<longrightarrow> executions_ok s')"

lemma executions_ok_same:
  "map exec_key (executions s') = map exec_key (executions s) \<Longrightarrow> fresh s = used @ fresh s' \<Longrightarrow>
     \<forall>x \<in> set (executions s'). res_ID (ex_Payload x) = ex_ID x \<Longrightarrow> executions_ok s \<Longrightarrow> executions_ok s'"
proof -
  assume keys: "map exec_key (executions s') = map exec_key (executions s)" and used: "fresh s = used @ fresh s'"
    and pay: "\<forall>x \<in> set (executions s'). res_ID (ex_Payload x) = ex_ID x" and ok: "executions_ok s"
  have ids: "map ex_ID xs = map fst (map exec_key xs)" for xs
    by (simp add: exec_key_def)
  have calls: "map (\<lambda>x. (ex_Task x, ex_Call x)) xs = map (\<lambda>k. (fst (snd k), fst (snd (snd k)))) (map exec_key xs)" for xs
    by (simp add: exec_key_def)
  have "map ex_ID (executions s') = map ex_ID (executions s)"
    "map (\<lambda>x. (ex_Task x, ex_Call x)) (executions s') = map (\<lambda>x. (ex_Task x, ex_Call x)) (executions s)"
    unfolding ids calls keys by (rule HOL.refl)+
  with used pay ok show ?thesis unfolding executions_ok_def by simp blast
qed

lemma finish_keys: "map exec_key (map (finish_row r) xs) = map exec_key xs"
  by simp

lemma finish_payload: "res_ID (ex_Payload x) = ex_ID x \<Longrightarrow> res_ID (ex_Payload (finish_row r x)) = ex_ID (finish_row r x)"
  by (simp add: finish_row_def)

lemma executions_ok_finish: "executions_ok s \<Longrightarrow> executions_ok (s\<lparr>executions := map (finish_row r) (executions s)\<rparr>)"
proof (rule executions_ok_same [where used = "[]" and s = s])
  assume ok: "executions_ok s"
  let ?s = "s\<lparr>executions := map (finish_row r) (executions s)\<rparr>"
  show "map exec_key (executions ?s) = map exec_key (executions s)" by simp
  show "fresh s = [] @ fresh ?s" by simp
  show "\<forall>x \<in> set (executions ?s). res_ID (ex_Payload x) = ex_ID x"
    using ok by (auto simp: executions_ok_def finish_payload)
qed

lemma find_execution_None:
  "find_execution t c s = None \<longleftrightarrow> (t, c) \<notin> set (map (\<lambda>x. (ex_Task x, ex_Call x)) (executions s))"
  by (auto simp: find_execution_def find_None_iff)

interpretation ok: store_base keeps_ok
proof unfold_locales
  show "keeps_ok s u" if "keeps_ok s t" "keeps_ok t u" for s t u
    using that by (simp add: keeps_ok_def)
  show "keeps_ok s (s\<lparr>fresh := c\<rparr>)" if "fresh s = i # c" for s i c
    using that by (simp add: keeps_ok_def executions_ok_def)
  show "keeps_ok s (s\<lparr>executions := map (finish_row r) (executions s)\<rparr>)" for s r
    using executions_ok_finish by (simp add: keeps_ok_def)
qed (simp_all add: keeps_ok_def executions_ok_def)

lemma statement_same:
  "statement s = (x, s') \<Longrightarrow> executions s' = executions s \<and> fresh s' = fresh s \<and> documents s' = documents s
     \<and> events s' = events s \<and> event_seq s' = event_seq s"
  by (auto simp: statement_def split: list.splits option.splits)

lemma NewID_result:
  "NewID s = (Inr i, s') \<Longrightarrow> executions s' = executions s \<and> fresh s = i # fresh s'"
  by (auto simp: NewID_def split: list.splits)

lemma Now_same: "Now s = (Inr t, s') \<Longrightarrow> executions s' = executions s \<and> fresh s' = fresh s
     \<and> documents s' = documents s \<and> events s' = events s \<and> event_seq s' = event_seq s"
  by (auto simp: Now_def split: list.splits)

lemma insert_execution_result:
  assumes "insert_execution x s = (y, s')"
  shows "executions s' = executions s \<and> fresh s' = fresh s
     \<or> y = Inr () \<and> find_execution (ex_Task x) (ex_Call x) s = None \<and> ex_ID x \<notin> set (map ex_ID (executions s))
       \<and> executions s' = executions s @ [x] \<and> fresh s' = fresh s"
    and "y = Inr () \<Longrightarrow> find_execution (ex_Task x) (ex_Call x) s = None \<Longrightarrow> executions s' = executions s @ [x]"
  using assms
  by (auto simp: insert_execution_def andThen_def find_execution_def split: prod.splits sum.splits if_splits
      dest!: statement_same)

lemma find_snoc: "find P (xs @ [x]) = (case find P xs of Some y \<Rightarrow> Some y | None \<Rightarrow> if P x then Some x else None)"
  by (induction xs) auto

lemma find_execution_cong: "executions s = executions s' \<Longrightarrow> find_execution t c s = find_execution t c s'"
  by (simp add: find_execution_def)

lemma find_execution_snoc:
  "executions s' = executions s @ [x] \<Longrightarrow> find_execution t c s' =
     (case find_execution t c s of Some y \<Rightarrow> Some y
      | None \<Rightarrow> if ex_Task x = t \<and> ex_Call x = c then Some x else None)"
  by (simp add: find_execution_def find_snoc)

lemma find_execution_in: "find_execution t c s = Some x \<Longrightarrow> x \<in> set (executions s) \<and> ex_Task x = t \<and> ex_Call x = c"
  by (auto simp: find_execution_def find_Some_iff)

definition claim_row :: "string \<Rightarrow> time \<Rightarrow> request \<Rightarrow> execution" where
  "claim_row i t req = \<lparr>ex_ID = i, ex_Task = TaskID req, ex_Call = CallID req,
     ex_Digest = Digest_request req, ex_Payload = new_result i req t\<rparr>"

text \<open>Whatever \<open>Claim\<close> returns, the table is as before or has the new row with a fresh identifier.\<close>

lemma Claim_table:
  assumes "Claim req s = (y, s')"
  shows "executions s' = executions s \<and> (\<exists>used. fresh s = used @ fresh s')
     \<or> (\<exists>i t. executions s' = executions s @ [claim_row i t req] \<and> fresh s = i # fresh s'
          \<and> find_execution (TaskID req) (CallID req) s = None)"
proof -
  obtain a s1 where n: "NewID s = (a, s1)" by fastforce
  show ?thesis
  proof (cases a)
    case (Inl e)
    with n assms have "s' = s1" by (simp add: Claim_def andThen_def)
    with n Inl show ?thesis by (auto simp: NewID_def split: list.splits)
  next
    case (Inr i)
    obtain b s2 where t: "Now s1 = (b, s2)" by fastforce
    then obtain t where b: "b = Inr t" by (auto simp: Now_def split: list.splits)
    obtain c s3 where ins: "insert_execution (claim_row i t req) s2 = (c, s3)" by fastforce
    have same: "executions s2 = executions s" "fresh s = i # fresh s2"
      using NewID_result n Inr Now_same t b by auto
    have after: "executions s' = executions s3 \<and> fresh s' = fresh s3"
    proof (cases c)
      case (Inl e)
      with assms n Inr t b ins show ?thesis
        by (simp add: Claim_def andThen_def claim_row_def Let_def)
    next
      case c: (Inr u)
      obtain d s4 where st: "statement s3 = (d, s4)" by fastforce
      with assms n Inr t b ins c have "s' = s4"
        by (auto simp: Claim_def andThen_def claim_row_def Let_def split: sum.splits option.splits if_splits)
      with st show ?thesis by (simp add: statement_same)
    qed
    have "find_execution (TaskID req) (CallID req) s2 = find_execution (TaskID req) (CallID req) s"
      by (rule find_execution_cong) (simp add: same)
    with insert_execution_result(1) [OF ins] after same show ?thesis
      by (auto simp: claim_row_def)
  qed
qed

lemma keeps_ok_Claim: "keeps keeps_ok (Claim req)"
  unfolding keeps_def keeps_ok_def
proof (intro allI impI)
  fix s :: store
  assume ok: "executions_ok s"
  obtain y s' where run: "Claim req s = (y, s')" by fastforce
  from Claim_table [OF run] have "executions_ok s'"
  proof (elim disjE exE conjE)
    fix used assume "executions s' = executions s" "fresh s = used @ fresh s'"
    with ok show ?thesis by (intro executions_ok_same [of s' s used]) (auto simp: executions_ok_def)
  next
    fix i t
    assume "executions s' = executions s @ [claim_row i t req]" "fresh s = i # fresh s'"
      "find_execution (TaskID req) (CallID req) s = None"
    with ok show ?thesis
      by (auto simp: executions_ok_def claim_row_def new_result_def find_execution_None)
  qed
  with run show "executions_ok (snd (Claim req s))" by simp
qed

lemma Claim_ok: "executions_ok s \<Longrightarrow> Claim req s = (y, s') \<Longrightarrow> executions_ok s'"
  using keeps_ok_Claim [of req] unfolding keeps_def keeps_ok_def by (metis snd_conv)

lemma remembersD:
  assumes "remembers s s'" and "x \<in> set (executions s)"
  obtains z where "z \<in> set (executions s')" "exec_key z = exec_key x"
proof -
  from assms obtain new where "map exec_key (executions s') = map exec_key (executions s) @ new"
    by (auto simp: remembers_def)
  then have "set (map exec_key (executions s')) = set (map exec_key (executions s) @ new)" by simp
  with assms(2) have "exec_key x \<in> exec_key ` set (executions s')" by auto
  then obtain z where "z \<in> set (executions s')" "exec_key x = exec_key z" by blast
  with that show thesis by simp
qed

interpretation claims: store_frame keeps_ok
  by unfold_locales (rule keeps_ok_Claim)

lemma Claim_result:
  assumes "Claim req s = (Inr (r, won), s')"
  obtains x i where "find_execution (TaskID req) (CallID req) s' = Some x" "ex_Digest x = Digest_request req"
    "r = ex_Payload x" "fresh s = i # fresh s'" "won \<longleftrightarrow> res_ID r = i"
proof -
  from assms obtain i s1 where n: "NewID s = (Inr i, s1)"
    by (cases "NewID s") (auto simp: Claim_def andThen_def split: sum.splits)
  from assms n obtain t s2 where t: "Now s1 = (Inr t, s2)"
    by (cases "Now s1") (auto simp: Claim_def andThen_def split: sum.splits)
  from assms n t obtain s3 where ins: "insert_execution (claim_row i t req) s2 = (Inr (), s3)"
    by (cases "insert_execution (claim_row i t req) s2")
      (auto simp: Claim_def andThen_def claim_row_def Let_def split: sum.splits)
  obtain d s4 where st: "statement s3 = (d, s4)" by fastforce
  from assms n t ins st obtain u where d: "d = Inr u"
    by (cases d) (auto simp: Claim_def andThen_def claim_row_def Let_def)
  from assms n t ins st d obtain x where x: "find_execution (TaskID req) (CallID req) s4 = Some x"
      "ex_Digest x = Digest_request req" "r = ex_Payload x" "won \<longleftrightarrow> res_ID r = i" "s' = s4"
    by (auto simp: Claim_def andThen_def claim_row_def Let_def split: option.splits if_splits)
  moreover have "fresh s = i # fresh s'"
    using NewID_result [OF n] Now_same [OF t] insert_execution_result(1) [OF ins] statement_same [OF st] x(5) by auto
  ultimately show thesis using that by blast
qed

lemma executions_ok_unique:
  "executions_ok s \<Longrightarrow> x \<in> set (executions s) \<Longrightarrow> y \<in> set (executions s) \<Longrightarrow>
     ex_Task x = ex_Task y \<Longrightarrow> ex_Call x = ex_Call y \<Longrightarrow> x = y"
  by (auto simp: executions_ok_def distinct_map inj_on_def)

lemma won_claim_is_new:
  assumes ok: "executions_ok s" and claim: "Claim req s = (Inr (r, True), s1)"
  obtains x where "x \<in> set (executions s1)" "ex_Task x = TaskID req" "ex_Call x = CallID req"
    "ex_Digest x = Digest_request req" "ex_ID x = res_ID r" "ex_ID x \<notin> set (map ex_ID (executions s))"
    "executions_ok s1"
proof -
  from claim obtain x i where x: "find_execution (TaskID req) (CallID req) s1 = Some x"
      "ex_Digest x = Digest_request req" "r = ex_Payload x" "fresh s = i # fresh s1" "res_ID r = i"
    by (rule Claim_result) auto
  have ok1: "executions_ok s1"
    using ok claim by (rule Claim_ok)
  have "x \<in> set (executions s1)" "ex_Task x = TaskID req" "ex_Call x = CallID req"
    using find_execution_in x(1) by auto
  moreover have "ex_ID x = i" using ok1 calculation x by (auto simp: executions_ok_def)
  moreover have "i \<notin> set (map ex_ID (executions s))" using ok x(4) by (simp add: executions_ok_def)
  ultimately show thesis using that x ok1 by simp
qed

text \<open>
  C6: A tool call wins its execution at most once.  After a \<open>Claim\<close> that won, whatever else the
  store has done since (recovery after a crash included), every later \<open>Claim\<close> for the same task
  and call loses, and it succeeds only for the same request digest, returning the execution the
  first one made.
\<close>

theorem execution_claimed_once:
  assumes "executions_ok s" and "Claim req s = (Inr (r, True), s1)" and "store_run s1 s2"
    and "Claim req' s2 = (Inr (r', won), s3)"
    and "TaskID req' = TaskID req" and "CallID req' = CallID req"
  shows "\<not> won \<and> res_ID r' = res_ID r \<and> Digest_request req' = Digest_request req"
proof -
  from assms(1,2) obtain x where x: "x \<in> set (executions s1)" "ex_Task x = TaskID req" "ex_Call x = CallID req"
    "ex_Digest x = Digest_request req" "ex_ID x = res_ID r" "executions_ok s1"
    by (rule won_claim_is_new)
  have ok2: "executions_ok s2" using claims.run [OF assms(3)] x(6) by (simp add: keeps_ok_def)
  obtain z where z: "z \<in> set (executions s2)" "exec_key z = exec_key x"
    using memory.run [OF assms(3)] x(1) by (rule remembersD)
  from assms(4) obtain y i where y: "find_execution (TaskID req') (CallID req') s3 = Some y"
      "ex_Digest y = Digest_request req'" "r' = ex_Payload y" "fresh s2 = i # fresh s3" "won \<longleftrightarrow> res_ID r' = i"
    by (rule Claim_result)
  have ok3: "executions_ok s3"
    using ok2 assms(4) by (rule Claim_ok)
  have "executions s3 = executions s2"
    using Claim_table [OF assms(4)] z x assms(5,6) by (auto simp: find_execution_None exec_key_def image_iff)
  with y z x assms(5,6) find_execution_in [OF y(1)] have "y = z"
    by (intro executions_ok_unique [OF ok3]) (auto simp: exec_key_def)
  moreover have "res_ID (ex_Payload z) = ex_ID z" using ok2 z by (simp add: executions_ok_def)
  moreover have "ex_ID z \<noteq> i" using ok2 z y(4) by (auto simp: executions_ok_def)
  ultimately show ?thesis using y z x by (auto simp: exec_key_def)
qed

text \<open>\<open>Claim\<close> when no statement fails.\<close>

lemma Claim_first:
  "sql s = [] \<Longrightarrow> clock s = [] \<Longrightarrow> fresh s = i # is \<Longrightarrow> find_execution (TaskID req) (CallID req) s = None \<Longrightarrow>
   i \<notin> set (map ex_ID (executions s)) \<Longrightarrow>
   Claim req s = (Inr (new_result i req 0, True), s\<lparr>fresh := is, executions := executions s @ [claim_row i 0 req]\<rparr>)"
  by (simp add: Claim_def andThen_def NewID_def Now_def Let_def insert_execution_def statement_def claim_row_def
      find_execution_def find_snoc new_result_def)

lemma Claim_again:
  "sql s = [] \<Longrightarrow> clock s = [] \<Longrightarrow> fresh s = i # is \<Longrightarrow> find_execution (TaskID req) (CallID req) s = Some x \<Longrightarrow>
   ex_Digest x = Digest_request req \<Longrightarrow> res_ID (ex_Payload x) \<noteq> i \<Longrightarrow>
   Claim req s = (Inr (ex_Payload x, False), s\<lparr>fresh := is\<rparr>)"
  by (simp add: Claim_def andThen_def NewID_def Now_def Let_def insert_execution_def statement_def find_execution_def)

text \<open>A store with nothing in it, and a script of environment values, for the witnesses.\<close>

definition empty_store :: "string list \<Rightarrow> store" where
  "empty_store is =
     \<lparr>documents = [], events = [], event_seq = 0, executions = [], checkpoints = [], artifacts = [],
      Dir = ''/data'', notices = changes_init, sql = [], clock = [], fresh = is\<rparr>"

lemma empty_store_ok: "distinct is \<Longrightarrow> executions_ok (empty_store is)"
  by (simp add: executions_ok_def empty_store_def)

theorem execution_claimed_once_witness:
  "\<exists>r s1 r' won s3. Claim (demo_request ''ls'') (empty_store [''a'', ''b'']) = (Inr (r, True), s1)
     \<and> Claim (demo_request ''ls'') (snd (Finish r s1)) = (Inr (r', won), s3)
     \<and> (\<not> won \<and> res_ID r' = res_ID r \<and> Digest_request (demo_request ''ls'') = Digest_request (demo_request ''ls''))"
proof -
  let ?q = "demo_request ''ls''" and ?s = "empty_store [''a'', ''b'']"
  let ?r = "new_result ''a'' ?q 0"
  let ?s1 = "?s\<lparr>fresh := [''b''], executions := executions ?s @ [claim_row ''a'' 0 ?q]\<rparr>"
  have c1: "Claim ?q ?s = (Inr (?r, True), ?s1)"
    by (rule Claim_first) (simp_all add: empty_store_def find_execution_def)
  have fin: "Finish ?r ?s1 = (Inr (), ?s1)"
    by (simp add: Finish_def andThen_def statement_def modify_def finish_row_def claim_row_def empty_store_def)
  then have c2: "Claim ?q (snd (Finish ?r ?s1)) = (Inr (?r, False), ?s1\<lparr>fresh := []\<rparr>)"
    by (simp add: Claim_again [where x = "claim_row ''a'' 0 ?q"] empty_store_def find_execution_def claim_row_def new_result_def)
  have "store_run ?s1 (snd (Finish ?r ?s1))" by (intro store_run.finish store_run.none)
  from execution_claimed_once [OF empty_store_ok c1 this c2 HOL.refl HOL.refl] c1 c2 show ?thesis by fastforce
qed

subsection \<open>Recovery leaves nothing running\<close>

lemma Put_Inr:
  "Put kind i d s = (Inr u, s') \<Longrightarrow> documents s' = documents (put_doc kind i d s) \<and> executions s' = executions s"
  by (auto simp: Put_def andThen_def modify_def wake_task_def put_doc_def split: if_splits sum.splits prod.splits option.splits
      dest!: statement_same)

lemma Finish_Inr:
  "Finish r s = (Inr u, s') \<Longrightarrow> executions s' = map (finish_row r) (executions s) \<and> documents s' = documents s"
  by (auto simp: Finish_def andThen_def modify_def split: sum.splits prod.splits dest!: statement_same)

lemma find_doc_cong: "documents s = documents s' \<Longrightarrow> find_doc k i s = find_doc k i s'"
  by (simp add: find_doc_def)

lemma map_of_remove: "map_of (filter (\<lambda>(k, _). k \<noteq> x) xs) y = (if y = x then None else map_of xs y)"
  by (induction xs) auto

lemma find_doc_put: "find_doc k i (put_doc kind j d s) = (if k = kind \<and> i = j then Some d else find_doc k i s)"
  by (auto simp: find_doc_def put_doc_def map_of_remove)

lemma finish_loop:
  "forEach (\<lambda>r. Finish (interrupted_result r)) rs s = (Inr u, s') \<Longrightarrow>
     executions s' = map (fold (\<lambda>r. finish_row (interrupted_result r)) rs) (executions s) \<and> documents s' = documents s"
proof (induction rs arbitrary: s)
  case (Cons r rs)
  then obtain v s1 where r: "Finish (interrupted_result r) s = (Inr v, s1)"
      "forEach (\<lambda>r. Finish (interrupted_result r)) rs s1 = (Inr u, s')"
    by (auto elim: andThen_Inr)
  with Cons.IH [OF r(2)] Finish_Inr [OF r(1)] show ?case by simp
qed simp

lemma fold_finish:
  "\<forall>r \<in> set rs. res_ID r = ex_ID x \<longrightarrow> r = p \<Longrightarrow>
     fold (\<lambda>r. finish_row (interrupted_result r)) rs x =
       (if \<exists>r \<in> set rs. res_ID r = ex_ID x then x\<lparr>ex_Payload := interrupted_result p\<rparr> else x)"
proof (induction rs arbitrary: x)
  case (Cons r rs)
  show ?case
  proof (cases "res_ID r = ex_ID x")
    case True
    let ?x = "x\<lparr>ex_Payload := interrupted_result p\<rparr>"
    from Cons.prems True have "r = p" by simp
    with True have "finish_row (interrupted_result r) x = ?x"
      by (simp add: finish_row_def interrupted_result_def)
    moreover have "fold (\<lambda>r. finish_row (interrupted_result r)) rs ?x = ?x"
      using Cons.IH [of ?x] Cons.prems by simp
    ultimately show ?thesis using True by simp
  next
    case False
    then have "finish_row (interrupted_result r) x = x" by (simp add: finish_row_def interrupted_result_def)
    with Cons False show ?thesis by simp
  qed
qed simp

text \<open>What recovery makes of one execution.\<close>

definition recovered_row :: "execution \<Rightarrow> execution" where
  "recovered_row x = (if res_Status (ex_Payload x) = ''running''
     then x\<lparr>ex_Payload := interrupted_result (ex_Payload x)\<rparr> else x)"

lemma finish_running:
  assumes ok: "executions_ok s" and x: "x \<in> set (executions s)"
  shows "fold (\<lambda>r. finish_row (interrupted_result r))
           (filter (\<lambda>r. res_Status r = ''running'') (map ex_Payload (executions s))) x = recovered_row x"
proof -
  let ?rs = "filter (\<lambda>r. res_Status r = ''running'') (map ex_Payload (executions s))"
  have same: "y = x" if "y \<in> set (executions s)" "res_ID (ex_Payload y) = ex_ID x" for y
    using that ok x by (auto simp: executions_ok_def distinct_map inj_on_def)
  then have "\<forall>r \<in> set ?rs. res_ID r = ex_ID x \<longrightarrow> r = ex_Payload x" by auto
  moreover have "(\<exists>r \<in> set ?rs. res_ID r = ex_ID x) \<longleftrightarrow> res_Status (ex_Payload x) = ''running''"
    using same x ok by (auto simp: executions_ok_def)
  ultimately show ?thesis using fold_finish [of ?rs x "ex_Payload x"] by (simp add: recovered_row_def)
qed

text \<open>The documents of kind \<open>tasks\<close> are tasks, stored under their identifier.\<close>

definition tasks_keyed :: "store \<Rightarrow> bool" where
  "tasks_keyed s \<longleftrightarrow> distinct (map fst (documents s))
     \<and> (\<forall>((k, i), d) \<in> set (documents s). k = ''tasks'' \<longrightarrow> as_task d \<noteq> None \<and> task_ID (the (as_task d)) = i)"

lemma as_task_Some [simp]: "as_task d = Some t \<longleftrightarrow> d = TaskDoc t"
  by (cases d) auto

lemma decode_all_set: "decode_all f ds = Some xs \<Longrightarrow> x \<in> set xs \<longleftrightarrow> (\<exists>d \<in> set ds. f d = Some x)"
  by (induction ds arbitrary: xs) (auto split: option.splits)

lemma rows_of_set: "d \<in> set (rows_of kind s) \<longleftrightarrow> (\<exists>i. ((kind, i), d) \<in> set (documents s))"
  by (force simp: rows_of_def image_iff)

lemma put_loop:
  "forEach (\<lambda>t. Put ''tasks'' (task_ID t) (TaskDoc (interrupted_task t))) ts s = (Inr u, s') \<Longrightarrow>
   \<forall>t \<in> set ts. task_ID t = i \<longrightarrow> t = p \<Longrightarrow>
     executions s' = executions s \<and>
     find_doc k i s' = (if k = ''tasks'' \<and> (\<exists>t \<in> set ts. task_ID t = i) then Some (TaskDoc (interrupted_task p))
                        else find_doc k i s)"
proof (induction ts arbitrary: s)
  case (Cons t ts)
  then obtain v s1 where t: "Put ''tasks'' (task_ID t) (TaskDoc (interrupted_task t)) s = (Inr v, s1)"
      "forEach (\<lambda>t. Put ''tasks'' (task_ID t) (TaskDoc (interrupted_task t))) ts s1 = (Inr u, s')"
    by (auto elim: andThen_Inr)
  have "find_doc k i s1 = (if k = ''tasks'' \<and> i = task_ID t then Some (TaskDoc (interrupted_task t)) else find_doc k i s)"
    using Put_Inr [OF t(1)] find_doc_cong [of s1 "put_doc ''tasks'' (task_ID t) (TaskDoc (interrupted_task t)) s"]
    by (simp add: find_doc_put)
  with Cons.IH [OF t(2)] Cons.prems(2) Put_Inr [OF t(1)] show ?case by auto
qed simp

lemma tasks_keyed_find:
  assumes "tasks_keyed s" and "(((''tasks'', i), TaskDoc t)) \<in> set (documents s)"
  shows "task_ID t = i \<and> find_doc ''tasks'' i s = Some (TaskDoc t)"
  using assms by (auto simp: tasks_keyed_def find_doc_def)

lemma Recover_Inr:
  assumes "Recover s = (Inr u, s')"
  obtains v s1 w s2 ts s3 where "statement s = (Inr v, s1)"
    "forEach (\<lambda>r. Finish (interrupted_result r))
       (filter (\<lambda>r. res_Status r = ''running'') (map ex_Payload (executions s1))) s1 = (Inr w, s2)"
    "All as_task ''tasks'' s2 = (Inr ts, s3)"
    "forEach (\<lambda>t. Put ''tasks'' (task_ID t) (TaskDoc (interrupted_task t))) ts s3 = (Inr u, s')"
  using assms unfolding Recover_def by (auto elim!: andThen_Inr)

lemma All_Inr:
  "All f kind s = (Inr xs, s') \<Longrightarrow> decode_all f (rows_of kind s) = Some xs
     \<and> executions s' = executions s \<and> documents s' = documents s"
  by (auto simp: All_def andThen_def rows_of_def split: sum.splits prod.splits option.splits dest!: statement_same)

lemma tasks_listed:
  assumes keyed: "tasks_keyed s" and all: "decode_all as_task (rows_of ''tasks'' s) = Some ts"
  shows "t \<in> set ts \<longleftrightarrow> find_doc ''tasks'' (task_ID t) s = Some (TaskDoc t)"
proof -
  have "t \<in> set ts \<longleftrightarrow> (\<exists>i. ((''tasks'', i), TaskDoc t) \<in> set (documents s))"
    using decode_all_set [OF all] by (simp add: rows_of_set)
  with tasks_keyed_find [OF keyed] show ?thesis
    by (metis find_doc_def map_of_SomeD)
qed


definition demo_task :: "string \<Rightarrow> task" where
  "demo_task st = \<lparr>RuntimeVersion = [], Mode = ''agent'', task_ID = ''t1'', Goal = ''g'', ProfileID = ''p'',
     Grant = \<lparr>LocalRoots = [], grant_ID = ''g1'', HostIDs = [''h1''], Identities = [], Operations = [],
              Resources = [], ExpiresAt = 99\<rparr>,
     Status = st, CreatedAt = 1, Summary = [], Updates = []\<rparr>"

definition crashed_store :: store where
  "crashed_store = (empty_store [])\<lparr>
     documents := [((''tasks'', ''t1''), TaskDoc (demo_task ''running''))],
     executions := [claim_row ''a'' 0 (demo_request ''ls'')]\<rparr>"


subsection \<open>The event log\<close>

text \<open>Sequence numbers increase along the log and the counter is not behind them.\<close>

definition events_ok :: "store \<Rightarrow> bool" where
  "events_ok s \<longleftrightarrow> sorted_wrt (<) (map Sequence (events s)) \<and> (\<forall>e \<in> set (events s). Sequence e \<le> event_seq s)"

definition log_extends :: "store \<Rightarrow> store \<Rightarrow> bool" where
  "log_extends s s' \<longleftrightarrow> (\<exists>new. events s' = events s @ new \<and> sorted_wrt (<) (map Sequence new)
     \<and> (\<forall>e \<in> set new. event_seq s < Sequence e \<and> Sequence e \<le> event_seq s') \<and> event_seq s \<le> event_seq s')"

interpretation log: store_insert log_extends
proof unfold_locales
  show "log_extends s s" for s by (simp add: log_extends_def)
  show "log_extends s u" if st: "log_extends s t" and tu: "log_extends t u" for s t u
  proof -
    from st obtain a where a: "events t = events s @ a" "sorted_wrt (<) (map Sequence a)"
      "\<forall>e \<in> set a. event_seq s < Sequence e \<and> Sequence e \<le> event_seq t" "event_seq s \<le> event_seq t"
      by (auto simp: log_extends_def)
    from tu obtain b where b: "events u = events t @ b" "sorted_wrt (<) (map Sequence b)"
      "\<forall>e \<in> set b. event_seq t < Sequence e \<and> Sequence e \<le> event_seq u" "event_seq t \<le> event_seq u"
      by (auto simp: log_extends_def)
    have "sorted_wrt (<) (map Sequence (a @ b))"
      using a b by (fastforce simp: sorted_wrt_append)
    moreover have "\<forall>e \<in> set (a @ b). event_seq s < Sequence e \<and> Sequence e \<le> event_seq u"
      using a b by fastforce
    ultimately show ?thesis using a b unfolding log_extends_def
      by (intro exI [of _ "a @ b"]) auto
  qed
qed (auto simp: log_extends_def)

lemma Events_Inr:
  "Events task n s = (Inr xs, s') \<Longrightarrow> xs = filter (\<lambda>e. ev_TaskID e = task \<and> Sequence e > n) (events s)
     \<and> events s' = events s \<and> event_seq s' = event_seq s"
  by (auto simp: Events_def andThen_def split: sum.splits prod.splits dest!: statement_same)

text \<open>Where a reader goes on: after the last event it got.\<close>

definition next_after :: "nat \<Rightarrow> event list \<Rightarrow> nat" where
  "next_after n xs = (if xs = [] then n else Sequence (last xs))"

lemma after_last:
  "sorted_wrt (<) (map Sequence es) \<Longrightarrow> xs = filter (\<lambda>e. P e \<and> Sequence e > n) es \<Longrightarrow>
     filter (\<lambda>e. P e \<and> Sequence e > next_after n xs) es = [] \<and> (xs \<noteq> [] \<longrightarrow> n < next_after n xs \<and> last xs \<in> set es)"
proof (induction es arbitrary: xs rule: rev_induct)
  case (snoc e es)
  let ?ys = "filter (\<lambda>e. P e \<and> Sequence e > n) es"
  have sorted: "sorted_wrt (<) (map Sequence es)" "\<forall>d \<in> set es. Sequence d < Sequence e"
    using snoc.prems(1) by (auto simp: sorted_wrt_append)
  note IH = snoc.IH [OF sorted(1) HOL.refl]
  show ?case
  proof (cases "P e \<and> Sequence e > n")
    case True
    with snoc.prems(2) have "xs = ?ys @ [e]" by simp
    with sorted(2) True show ?thesis by (auto simp: next_after_def filter_empty_conv)
  next
    case False
    with snoc.prems(2) have xs: "xs = ?ys" by auto
    with IH have "xs \<noteq> [] \<Longrightarrow> n < next_after n xs" by simp
    with False have "\<not> (P e \<and> Sequence e > next_after n xs)" by (cases "xs = []") (auto simp: next_after_def)
    with IH xs show ?thesis by auto
  qed
qed (simp add: next_after_def)

text \<open>
  Polling the event log loses nothing and repeats nothing.  A reader takes the events of a
  task after number \<open>n\<close>, then, after any history of the store, those after the last one it
  got: the two answers together are the task's events after \<open>n\<close> in the final log, in order.
\<close>

theorem polling_is_complete:
  assumes "events_ok s" and "Events task n s = (Inr xs, s1)" and "store_run s1 s2"
    and "Events task (next_after n xs) s2 = (Inr ys, s3)" and "n \<le> event_seq s"
  shows "xs @ ys = filter (\<lambda>e. ev_TaskID e = task \<and> Sequence e > n) (events s2)"
proof -
  note one = Events_Inr [OF assms(2)] and two = Events_Inr [OF assms(4)]
  from log.run [OF assms(3)] one obtain new where new: "events s2 = events s @ new"
    "\<forall>e \<in> set new. event_seq s < Sequence e"
    by (auto simp: log_extends_def)
  have old: "filter (\<lambda>e. ev_TaskID e = task \<and> Sequence e > next_after n xs) (events s) = []"
    "xs \<noteq> [] \<Longrightarrow> last xs \<in> set (events s)"
    using after_last [of "events s" xs "\<lambda>e. ev_TaskID e = task" n] assms(1) one by (auto simp: events_ok_def)
  have "next_after n xs \<le> event_seq s" using old(2) assms(1,5) by (auto simp: next_after_def events_ok_def)
  then have "filter (\<lambda>e. ev_TaskID e = task \<and> Sequence e > next_after n xs) new
      = filter (\<lambda>e. ev_TaskID e = task \<and> Sequence e > n) new"
    using new(2) assms(5) by (intro filter_cong HOL.refl) fastforce
  with one two new(1) old(1) show ?thesis by simp
qed

theorem polling_is_complete_witness:
  "\<exists>xs s1 e s2 ys s3. Events ''t1'' 0 (snd (Event ''t1'' ''status'' ''a'' (empty_store []))) = (Inr xs, s1)
     \<and> Event ''t1'' ''text'' ''b'' s1 = (Inr e, s2) \<and> Events ''t1'' (next_after 0 xs) s2 = (Inr ys, s3)
     \<and> xs @ ys = filter (\<lambda>e. ev_TaskID e = ''t1'' \<and> Sequence e > 0) (events s2) \<and> length (xs @ ys) = 2"
proof -
  let ?s = "snd (Event ''t1'' ''status'' ''a'' (empty_store []))"
  note run = Event_def Events_def andThen_def Now_def statement_def wake_task_def notify_def subscribers_def
    changes_init_def empty_store_def ret_def Let_def
  have ok: "events_ok ?s" "0 \<le> event_seq ?s" by (simp_all add: events_ok_def run)
  obtain xs s1 where xs: "Events ''t1'' 0 ?s = (Inr xs, s1)" by (simp add: run)
  obtain e s2 where e: "Event ''t1'' ''text'' ''b'' s1 = (Inr e, s2)" using xs by (auto simp: run)
  obtain ys s3 where ys: "Events ''t1'' (next_after 0 xs) s2 = (Inr ys, s3)" "length (xs @ ys) = 2"
    using xs e by (auto simp: run next_after_def)
  have "store_run s1 (snd (Event ''t1'' ''text'' ''b'' s1))" by (intro store_run.intros)
  with e have "store_run s1 s2" by simp
  from polling_is_complete [OF ok(1) xs this ys(1) ok(2)] xs e ys show ?thesis by blast
qed

end
