(* ===== verification/LocalFiles.thy ===== *)
theory LocalFiles
  imports GoPath Domain "HOL-Library.Sublist" "HOL-Library.Char_ord" "HOL-Library.List_Lexorder"
begin

text \<open>
  \<open>internal/localfiles\<close>: the read-only access to the files of the user's own machine.

  The disk is a tree.  A location is the list of the names from the root down, without
  symbolic links.  What the kernel and Go's \<open>os.Root\<close> do with links on the way is written
  out (\<open>walk\<close>, \<open>root_walk\<close>); their limits on the number of links are fields of the disk.
  \<open>ctx\<close> is the context of a call: its roots, the outcomes of the successive \<open>ctx.Err\<close>
  checks (\<open>True\<close>: cancelled) and how many bytes the successive reads give.  Files do not
  change during a call.
\<close>

subsection \<open>The disk\<close>

datatype node =
    Regular string string
  | Folder int string "(string \<times> node) list"
  | Link int string
  | Special int

record disk =
  tree :: node
  kernel_links :: nat
  root_links :: nat
  home :: "string option"
  cwd :: "string list"

fun is_folder :: "node \<Rightarrow> bool" where
  "is_folder (Folder _ _ _) = True" | "is_folder _ = False"

fun is_regular :: "node \<Rightarrow> bool" where
  "is_regular (Regular _ _) = True" | "is_regular _ = False"

fun node_size :: "node \<Rightarrow> int" where
  "node_size (Regular _ b) = int (length b)"
| "node_size (Folder n _ _) = n"
| "node_size (Link n _) = n"
| "node_size (Special n) = n"

fun node_modified :: "node \<Rightarrow> string" where
  "node_modified (Regular t _) = t"
| "node_modified (Folder _ t _) = t"
| "node_modified _ = []"

fun look :: "node \<Rightarrow> string list \<Rightarrow> node option" where
  "look n [] = Some n"
| "look (Folder _ _ es) (x # xs) = (case map_of es x of None \<Rightarrow> None | Some n \<Rightarrow> look n xs)"
| "look _ (x # xs) = None"

text \<open>The elements of a link's target; a slash at the end asks for a directory.\<close>

definition target_elements :: "string \<Rightarrow> string list" where
  "target_elements t = elements t @ (if HasSuffix t ''/'' then [''.''] else [])"

text \<open>Resolving a path from the location \<open>loc\<close> with at most \<open>links\<close> links.\<close>

function walk :: "node \<Rightarrow> nat \<Rightarrow> string list \<Rightarrow> string list \<Rightarrow> string list option" where
  "walk fs links loc [] = Some loc"
| "walk fs links loc (x # xs) =
     (if x = ''.'' then walk fs links loc xs
      else if x = ''..'' then walk fs links (butlast loc) xs
      else (case look fs (loc @ [x]) of
              None \<Rightarrow> None
            | Some (Link _ t) \<Rightarrow>
                if links = 0 then None
                else walk fs (links - 1) (if IsAbs t then [] else loc) (target_elements t @ xs)
            | Some n \<Rightarrow>
                if xs \<noteq> [] \<and> \<not> is_folder n then None else walk fs links (loc @ [x]) xs))"
  by pat_completeness auto
termination by (relation "measures [\<lambda>(fs, links, loc, xs). links, \<lambda>(fs, links, loc, xs). length xs]") auto

text \<open>\<open>os.ReadFile\<close>: the kernel follows the links, from the working directory for a relative path.\<close>

definition os_ReadFile :: "disk \<Rightarrow> string \<Rightarrow> string option" where
  "os_ReadFile d p =
     (case walk (tree d) (kernel_links d) (if IsAbs p then [] else cwd d) (target_elements p) of None \<Rightarrow> None
      | Some loc \<Rightarrow> (case look (tree d) loc of Some (Regular _ b) \<Rightarrow> Some b | _ \<Rightarrow> None))"

definition EvalSymlinks :: "disk \<Rightarrow> string \<Rightarrow> string option" where
  "EvalSymlinks d p = map_option abs_path (walk (tree d) 255 [] (elements p))"

definition real_node :: "disk \<Rightarrow> string \<Rightarrow> node option" where
  "real_node d p = look (tree d) (elements p)"

text \<open>
  \<open>os.Root\<close>: the way from the root's location \<open>base\<close> down.  The last name is not followed,
  a link must be relative, and nothing leads above the root.
\<close>

function root_walk :: "node \<Rightarrow> nat \<Rightarrow> string list \<Rightarrow> string list \<Rightarrow> string list \<Rightarrow> string list option" where
  "root_walk fs links base loc [] = Some loc"
| "root_walk fs links base loc (x # xs) =
     (if x = ''.'' then root_walk fs links base loc xs
      else if x = ''..'' then (if loc = [] then None else root_walk fs links base (butlast loc) xs)
      else if xs = [] then Some (loc @ [x])
      else (case look fs (base @ loc @ [x]) of
              Some (Folder _ _ _) \<Rightarrow> root_walk fs links base (loc @ [x]) xs
            | Some (Link _ t) \<Rightarrow>
                if links = 0 \<or> IsAbs t then None
                else root_walk fs (links - 1) base loc (target_elements t @ xs)
            | _ \<Rightarrow> None))"
  by pat_completeness auto
termination
  by (relation "measures [\<lambda>(fs, links, base, loc, xs). links, \<lambda>(fs, links, base, loc, xs). length xs]") auto

subsection \<open>Paths\<close>

type_synonym 'a checked = "string + 'a"

definition os_error :: string where
  "os_error = ''system error''"

definition IsOperation :: "string \<Rightarrow> bool" where
  "IsOperation op \<longleftrightarrow> op = ''local_stat'' \<or> op = ''local_list'' \<or> op = ''local_read''"

definition ValidatePath :: "string \<Rightarrow> unit checked" where
  "ValidatePath p =
     (if p = [] \<or> CHR 0x00 \<in> set p \<or> \<not> IsAbs p \<or> Clean p \<noteq> p
      then Inl ''use a canonical absolute path'' else Inr ())"

definition CanonicalPath :: "disk \<Rightarrow> string \<Rightarrow> string checked" where
  "CanonicalPath d p =
     (case ValidatePath p of Inl e \<Rightarrow> Inl e
      | Inr _ \<Rightarrow> (case EvalSymlinks d (Dir p) of None \<Rightarrow> Inl os_error
        | Some parent \<Rightarrow> if Dir p = p then Inr parent else Inr (JoinPath [parent, Base p])))"

definition Within :: "string \<Rightarrow> string \<Rightarrow> bool" where
  "Within root p =
     (case Rel root p of None \<Rightarrow> False
      | Some rel \<Rightarrow> rel \<noteq> ''..'' \<and> \<not> HasPrefix rel (''..'' @ [slash]))"

fun CanonicalRoots :: "disk \<Rightarrow> string list \<Rightarrow> string list checked" where
  "CanonicalRoots d [] = Inr []"
| "CanonicalRoots d (p # ps) =
     (case ValidatePath p of Inl e \<Rightarrow> Inl e
      | Inr _ \<Rightarrow> (case EvalSymlinks d p of None \<Rightarrow> Inl os_error
        | Some real \<Rightarrow> (case real_node d real of None \<Rightarrow> Inl os_error
          | Some n \<Rightarrow> if \<not> is_folder n then Inl (''not a directory: '' @ p)
                      else (case CanonicalRoots d ps of Inl e \<Rightarrow> Inl e | Inr out \<Rightarrow> Inr (real # out)))))"

subsection \<open>Opening a file below a root\<close>

text \<open>The root to open and the name below it: the first root that holds \<open>p\<close>, else its directory.\<close>

definition choose_root :: "string \<Rightarrow> string list \<Rightarrow> string \<times> string" where
  "choose_root p roots =
     (case find (\<lambda>r. Within r p) roots of
        Some r \<Rightarrow> (r, case Rel r p of Some n \<Rightarrow> n | None \<Rightarrow> [])
      | None \<Rightarrow> (Dir p, if Dir p = p then ''.'' else Base p))"

definition open_root :: "disk \<Rightarrow> string \<Rightarrow> string list checked" where
  "open_root d root =
     (case walk (tree d) (kernel_links d) [] (elements root) of None \<Rightarrow> Inl os_error
      | Some base \<Rightarrow> (case look (tree d) base of
          Some (Folder _ _ _) \<Rightarrow> Inr base | _ \<Rightarrow> Inl os_error))"

definition open_local :: "disk \<Rightarrow> string \<Rightarrow> string list \<Rightarrow> (string list \<times> node) checked" where
  "open_local d p roots =
     (case ValidatePath p of Inl e \<Rightarrow> Inl e
      | Inr _ \<Rightarrow> (case choose_root p roots of (root, name) \<Rightarrow>
          (case open_root d root of Inl e \<Rightarrow> Inl e
           | Inr base \<Rightarrow> (case root_walk (tree d) (root_links d) base [] (elements name) of None \<Rightarrow> Inl os_error
             | Some loc \<Rightarrow> (case look (tree d) (base @ loc) of None \<Rightarrow> Inl os_error
               | Some n \<Rightarrow> if \<not> is_regular n \<and> \<not> is_folder n
                           then Inl ''use the real path of a regular file or directory''
                           else Inr (base @ loc, n))))))"

subsection \<open>Reading with a context\<close>

record ctx =
  ctx_roots :: "string list"
  ctx_checks :: "bool list"
  ctx_chunks :: "nat list"

type_synonym 'a reading = "(ctx, string, 'a) act"

definition ctx_Err :: "unit reading" where
  "ctx_Err = (\<lambda>c. case ctx_checks c of
      True # _ \<Rightarrow> (Inl ''context canceled'', c)
    | bs \<Rightarrow> (Inr (), c\<lparr>ctx_checks := drop 1 bs\<rparr>))"

definition next_chunk :: "nat option \<Rightarrow> string \<Rightarrow> ctx \<Rightarrow> nat" where
  "next_chunk limit data c =
     (let n = (case ctx_chunks c of [] \<Rightarrow> length data | k # _ \<Rightarrow> min (max 1 k) (length data))
      in case limit of None \<Rightarrow> n | Some l \<Rightarrow> min n l)"

text \<open>\<open>io.ReadAll\<close> of a \<open>checkedReader\<close>, behind a \<open>LimitReader\<close> when there is a limit.\<close>

function read_loop :: "nat option \<Rightarrow> string \<Rightarrow> string \<Rightarrow> string reading" where
  "read_loop limit data got c =
     (if limit = Some 0 then (Inr got, c)
      else (case ctx_Err c of
              (Inl e, c1) \<Rightarrow> (Inl e, c1)
            | (Inr _, c1) \<Rightarrow>
                if data = [] then (Inr got, c1)
                else let n = next_chunk limit data c1
                     in read_loop (map_option (\<lambda>l. l - n) limit) (drop n data) (got @ take n data)
                          (c1\<lparr>ctx_chunks := drop 1 (ctx_chunks c1)\<rparr>)))"
  by pat_completeness auto
termination
  by (relation "measure (\<lambda>(limit, data, got, c). length data)")
    (auto simp: next_chunk_def Let_def split: list.splits option.splits)

declare read_loop.simps [simp del]

subsection \<open>Inspect\<close>

record dir_entry =
  e_Name :: string
  e_Size :: int
  e_Directory :: bool

record info =
  i_Path :: string
  i_Size :: int
  i_Modified :: string
  i_Directory :: bool
  i_SHA256 :: string
  i_Content :: string
  i_Entries :: "dir_entry list"
  i_NextOffset :: int
  i_Truncated :: bool

definition entry_json :: "dir_entry \<Rightarrow> json" where
  "entry_json e = JObj [(''name'', JStr (e_Name e)), (''size'', JInt (e_Size e)), (''directory'', JBool (e_Directory e))]"

definition info_json :: "info \<Rightarrow> json" where
  "info_json i = JObj
     ([(''path'', JStr (i_Path i)), (''size'', JInt (i_Size i)), (''modified'', JStr (i_Modified i)),
       (''directory'', JBool (i_Directory i))]
      @ omit_str ''sha256'' (i_SHA256 i) @ omit_str ''content'' (i_Content i)
      @ (if i_Entries i = [] then [] else [(''entries'', JArr (map entry_json (i_Entries i)))])
      @ omit_int ''next_offset'' (i_NextOffset i) @ [(''truncated'', JBool (i_Truncated i))])"

definition entry_of :: "string \<times> node \<Rightarrow> dir_entry" where
  "entry_of = (\<lambda>(name, n). \<lparr>e_Name = name, e_Size = node_size n, e_Directory = is_folder n\<rparr>)"

fun list_entries :: "info \<Rightarrow> dir_entry list \<Rightarrow> info reading" where
  "list_entries i [] = ret i"
| "list_entries i (e # es) =
     andThen ctx_Err (\<lambda>_.
       let i1 = i\<lparr>i_Entries := i_Entries i @ [e]\<rparr>
       in if length (render (info_json i1)) > 24000 then ret (i\<lparr>i_Truncated := True\<rparr>)
          else list_entries i1 es)"

text \<open>The loop that drops the bytes of a rune cut at the end of a chunk.\<close>

function cut_utf8 :: "string \<Rightarrow> string" where
  "cut_utf8 b = (if b \<noteq> [] \<and> \<not> utf8_valid b \<and> length b > 4092 then cut_utf8 (butlast b) else b)"
  by pat_completeness auto
termination by (relation "measure length") auto

declare cut_utf8.simps [simp del]

definition base_info :: "string \<Rightarrow> node \<Rightarrow> info" where
  "base_info p n =
     \<lparr>i_Path = p, i_Size = node_size n, i_Modified = node_modified n, i_Directory = is_folder n, i_SHA256 = [],
      i_Content = [], i_Entries = [], i_NextOffset = 0, i_Truncated = False\<rparr>"

definition list_folder :: "info \<Rightarrow> (string \<times> node) list \<Rightarrow> info reading" where
  "list_folder i es =
     (let seen = take 101 es;
          i1 = (if length seen > 100 then i\<lparr>i_Truncated := True\<rparr> else i)
      in list_entries i1 (map entry_of (sort_key fst (take 100 seen))))"

definition read_file :: "info \<Rightarrow> string \<Rightarrow> int \<Rightarrow> info reading" where
  "read_file i content offset =
     (if offset < 0 \<or> offset > int (length content) then throw ''offset outside the file''
      else andThen (read_loop (Some 4097) (drop (nat offset) content) []) (\<lambda>b.
        let i1 = (if length b > 4096 then i\<lparr>i_Truncated := True\<rparr> else i);
            b1 = (if length b > 4096 then cut_utf8 (take 4096 b) else b)
        in if \<not> utf8_valid b1 \<or> CHR 0x00 \<in> set b1 then throw ''not UTF-8 text''
           else ret (i1\<lparr>i_Content := b1, i_NextOffset := offset + int (length b1)\<rparr>)))"

definition Inspect :: "disk \<Rightarrow> string \<Rightarrow> string \<Rightarrow> int list \<Rightarrow> info reading" where
  "Inspect d p operation offsets =
     (if \<not> IsOperation operation then throw ''unsupported local file operation''
      else andThen ctx_Err (\<lambda>_ c.
        case open_local d p (ctx_roots c) of
          Inl e \<Rightarrow> (Inl e, c)
        | Inr (loc, n) \<Rightarrow>
            let i = base_info p n
            in if operation = ''local_list''
               then (case n of Folder _ _ es \<Rightarrow> list_folder i es c | _ \<Rightarrow> (Inl ''not a directory'', c))
               else (case n of
                       Folder _ _ _ \<Rightarrow>
                         if operation = ''local_stat'' then (Inr i, c) else (Inl ''use the directory query'', c)
                     | Regular _ content \<Rightarrow>
                         if operation = ''local_read''
                         then read_file i content (case offsets of [] \<Rightarrow> 0 | o1 # _ \<Rightarrow> o1) c
                         else andThen (read_loop None content []) (\<lambda>b. ret (i\<lparr>i_SHA256 := sha256_hex b\<rparr>)) c
                     | _ \<Rightarrow> (Inl ''only regular files'', c))))"

subsection \<open>Snapshot\<close>

text \<open>
  The directory of private copies: the files in it, and the names that \<open>os.CreateTemp\<close>
  finds free, \<open>None\<close> where it fails.  The deferred calls remove the copy unless it is kept.
\<close>

record staging =
  st_ctx :: ctx
  st_files :: "(string \<times> string) list"
  st_names :: "string option list"

definition lower :: "char \<Rightarrow> char" where
  "lower c = (if code_in 65 90 c then char_of ((of_char c :: nat) + 32) else c)"

text \<open>\<open>strings.EqualFold\<close> of a hexadecimal digest with any string: no other rune folds to a hex digit.\<close>

definition EqualFold :: "string \<Rightarrow> string \<Rightarrow> bool" where
  "EqualFold s t \<longleftrightarrow> map lower s = map lower t"

definition read_staged :: "string \<Rightarrow> (staging, string, string) act" where
  "read_staged content s = (case read_loop None content [] (st_ctx s) of (x, c) \<Rightarrow> (x, s\<lparr>st_ctx := c\<rparr>))"

definition Snapshot :: "disk \<Rightarrow> string \<Rightarrow> string \<Rightarrow> (staging, string, string) act" where
  "Snapshot d p expected s =
     (case open_local d p (ctx_roots (st_ctx s)) of
        Inl e \<Rightarrow> (Inl e, s)
      | Inr (loc, Regular _ content) \<Rightarrow>
          (case st_names s of
             Some name # names \<Rightarrow>
               (case read_staged content (s\<lparr>st_names := names, st_files := (name, []) # st_files s\<rparr>) of
                  (Inl e, s1) \<Rightarrow> (Inl e, s1\<lparr>st_files := st_files s\<rparr>)
                | (Inr b, s1) \<Rightarrow>
                    if \<not> EqualFold (sha256_hex b) expected
                    then (Inl ''the local file has changed'', s1\<lparr>st_files := st_files s\<rparr>)
                    else (Inr name, s1\<lparr>st_files := (name, b) # st_files s\<rparr>))
           | _ \<Rightarrow> (Inl os_error, s\<lparr>st_names := drop 1 (st_names s)\<rparr>))
      | Inr _ \<Rightarrow> (Inl ''a package must be a regular file'', s))"

end
