(* ===== verification/LocalFilesSafe.thy ===== *)
theory LocalFilesSafe
  imports LocalFiles
begin

text \<open>
  What the local file access promises: a root confines what is opened below it, a text file
  read chunk by chunk comes out whole, and a private copy has the bytes that were approved.
\<close>

subsection \<open>Within\<close>

definition valid_path :: "string \<Rightarrow> bool" where
  "valid_path p \<longleftrightarrow> ValidatePath p = Inr ()"

lemma valid_pathD:
  assumes "valid_path p"
  shows "IsAbs p" "Clean p = p" "p = abs_path (elements p)" "real_elements (elements p)"
proof -
  show "IsAbs p" "Clean p = p"
    using assms by (auto simp: valid_path_def ValidatePath_def split: if_splits)
  then have p: "p = abs_path (path_elements p)" "real_elements (path_elements p)"
    using Clean_abs path_elements_real by auto
  then have "elements p = path_elements p"
    using elements_abs_path by (metis real_elements_def)
  with p show "p = abs_path (elements p)" "real_elements (elements p)" by simp_all
qed

lemma valid_path_elements: "valid_path p \<Longrightarrow> path_elements p = elements p"
  using valid_pathD path_elements_abs_path by metis

lemma slash_not_dot: "IsAbs p \<Longrightarrow> p \<noteq> ''.''"
  by (auto simp: IsAbs_def HasPrefix_def)

lemma Rel_valid:
  assumes r: "valid_path r" and p: "valid_path p"
  shows "Rel r p = Some (if r = p then ''.'' else Join (the (rel_elements (elements r) (elements p))) ''/'')"
proof -
  have "take (length (elements r)) (elements p) = elements r \<or> (\<exists>xs. rel_elements (elements r) (elements p) = Some (''..'' # xs))"
    using rel_elements_outside valid_pathD(4) [OF r] by (auto simp: real_elements_def)
  then obtain xs where "rel_elements (elements r) (elements p) = Some xs"
    using rel_elements_below by blast
  with valid_pathD [OF r] valid_pathD [OF p] show ?thesis
    by (auto simp: Rel_def valid_path_elements r p slash_not_dot)
qed

text \<open>
  For canonical absolute paths \<open>Within\<close> is containment of locations: it holds exactly when
  the elements of the root are the first elements of the path.  A name that merely begins with
  two dots, or a sibling whose name extends the root's, is judged correctly.
\<close>

theorem Within_is_containment:
  assumes "ValidatePath root = Inr ()" and "ValidatePath p = Inr ()"
  shows "Within root p \<longleftrightarrow> prefix (elements root) (elements p)"
proof (cases "root = p")
  case True
  with assms show ?thesis by (simp add: Within_def Rel_valid valid_path_def HasPrefix_def)
next
  case False
  let ?r = "elements root" and ?p = "elements p"
  note v = valid_pathD(4) [OF assms(1) [folded valid_path_def]] valid_pathD(4) [OF assms(2) [folded valid_path_def]]
  have rel: "Rel root p = Some (Join (the (rel_elements ?r ?p)) ''/'')"
    using Rel_valid assms False by (simp add: valid_path_def)
  have "rel_elements ?r ?p = Some xs \<Longrightarrow> Within root p \<longleftrightarrow> xs = [] \<or> hd xs \<noteq> ''..''" for xs
    using Join_dots [OF rel_elements_plain, of ?p ?r xs] v rel by (auto simp: Within_def real_elements_def)
  moreover have "prefix ?r ?p \<Longrightarrow> rel_elements ?r ?p = Some (drop (length ?r) ?p) \<and> ''..'' \<notin> set (drop (length ?r) ?p)"
    using rel_elements_below v by (auto simp: prefix_def real_elements_def)
  moreover have "\<not> prefix ?r ?p \<Longrightarrow> \<exists>xs. rel_elements ?r ?p = Some (''..'' # xs)"
    using rel_elements_outside v(1) by (metis append_take_drop_id prefixI real_elements_def)
  ultimately show ?thesis by (metis hd_in_set list.sel(1) list.distinct(1))
qed

theorem Within_is_containment_witness:
  "(Within ''/srv/app'' ''/srv/app/..conf'' \<longleftrightarrow> prefix (elements ''/srv/app'') (elements ''/srv/app/..conf''))
   \<and> Within ''/srv/app'' ''/srv/app/..conf'' \<and> \<not> Within ''/srv/app'' ''/srv/application''"
proof -
  have 1: "ValidatePath ''/srv/app'' = Inr ()" "ValidatePath ''/srv/app/..conf'' = Inr ()" by code_simp+
  show ?thesis using Within_is_containment [OF 1] by code_simp
qed

subsection \<open>A root confines what is opened\<close>

lemma find_root:
  "find P xs = Some r \<Longrightarrow> r \<in> set xs \<and> P r"
  by (metis find_Some_iff nth_mem)

lemma open_local_Inr:
  assumes "open_local d p roots = Inr (loc, n)"
  obtains root name base rest where "ValidatePath p = Inr ()" "choose_root p roots = (root, name)"
    "open_root d root = Inr base" "root_walk (tree d) (root_links d) base [] (elements name) = Some rest"
    "loc = base @ rest" "look (tree d) loc = Some n" "is_regular n \<or> is_folder n"
proof -
  obtain root name where c: "choose_root p roots = (root, name)" by fastforce
  from assms c obtain base where b: "ValidatePath p = Inr ()" "open_root d root = Inr base"
    by (auto simp: open_local_def split: sum.splits)
  with assms c obtain rest where "root_walk (tree d) (root_links d) base [] (elements name) = Some rest"
    "loc = base @ rest" "look (tree d) loc = Some n" "is_regular n \<or> is_folder n"
    by (auto simp: open_local_def split: option.splits if_splits)
  with b c that show thesis by blast
qed

lemma open_root_folder:
  "open_root d root = Inr base \<Longrightarrow> walk (tree d) (kernel_links d) [] (elements root) = Some base
     \<and> (\<exists>n. look (tree d) base = Some n \<and> is_folder n)"
  by (auto simp: open_root_def split: option.splits node.splits)

text \<open>
  C11: Links cannot escape an authorised directory.  When a path lies within one of the roots and
  opening it succeeds, then the first such root resolves to a directory on the disk and the
  file opened is located at or below that directory, whatever links the path goes through, and
  is itself a regular file or a directory, not a link.
\<close>

theorem open_stays_below_root:
  assumes "open_local d p roots = Inr (loc, n)" and "r \<in> set roots" and "Within r p"
  shows "\<exists>root base. root \<in> set roots \<and> Within root p
     \<and> walk (tree d) (kernel_links d) [] (elements root) = Some base \<and> prefix base loc
     \<and> look (tree d) loc = Some n \<and> (is_regular n \<or> is_folder n)"
proof -
  from assms(2,3) obtain root where f: "find (\<lambda>r. Within r p) roots = Some root"
    by (metis find_None_iff option.exhaust)
  from assms(1) obtain root' name base rest where o: "choose_root p roots = (root', name)"
    "open_root d root' = Inr base" "loc = base @ rest" "look (tree d) loc = Some n" "is_regular n \<or> is_folder n"
    by (rule open_local_Inr)
  with f have "root' = root" by (simp add: choose_root_def)
  with o f find_root [OF f] open_root_folder show ?thesis by auto
qed

definition demo_disk :: disk where
  "demo_disk = \<lparr>tree = Folder 0 [] [(''srv'', Folder 0 [] [
       (''app'', Folder 0 [] [(''a.txt'', Regular ''t'' ''hello''), (''up'', Link 2 ''..''), (''lib'', Link 3 ''sub''),
                              (''sub'', Folder 0 [] [(''b'', Regular ''t'' ''x'')])]),
       (''key'', Regular ''t'' ''secret'')])],
     kernel_links = 40, root_links = 8, home = None, cwd = []\<rparr>"

theorem open_stays_below_root_witness:
  "open_local demo_disk ''/srv/app/lib/b'' [''/srv/app''] = Inr ([''srv'', ''app'', ''sub'', ''b''], Regular ''t'' ''x'')
   \<and> (\<exists>root base. root \<in> set [''/srv/app''] \<and> Within root ''/srv/app/lib/b''
     \<and> walk (tree demo_disk) (kernel_links demo_disk) [] (elements root) = Some base
     \<and> prefix base [''srv'', ''app'', ''sub'', ''b''] \<and> look (tree demo_disk) [''srv'', ''app'', ''sub'', ''b''] = Some (Regular ''t'' ''x'')
     \<and> (is_regular (Regular ''t'' ''x'') \<or> is_folder (Regular ''t'' ''x'')))
   \<and> open_local demo_disk ''/srv/app/up/key'' [''/srv/app''] = Inl os_error"
proof -
  have 1: "open_local demo_disk ''/srv/app/lib/b'' [''/srv/app''] = Inr ([''srv'', ''app'', ''sub'', ''b''], Regular ''t'' ''x'')"
    "Within ''/srv/app'' ''/srv/app/lib/b''" "open_local demo_disk ''/srv/app/up/key'' [''/srv/app''] = Inl os_error"
    by code_simp+
  from open_stays_below_root [OF 1(1) _ 1(2)] 1 show ?thesis by simp
qed

subsection \<open>A text file read in chunks comes out whole\<close>

definition never_cancelled :: "ctx \<Rightarrow> bool" where
  "never_cancelled c \<longleftrightarrow> True \<notin> set (ctx_checks c)"

lemma ctx_Err_Inr: "ctx_Err c = (Inr u, c') \<Longrightarrow> ctx_roots c' = ctx_roots c \<and> (never_cancelled c \<longrightarrow> never_cancelled c')"
  by (cases "ctx_checks c") (auto simp: ctx_Err_def never_cancelled_def split: bool.splits)

lemma ctx_Err_never: "never_cancelled c \<Longrightarrow> \<exists>c'. ctx_Err c = (Inr (), c') \<and> ctx_roots c' = ctx_roots c \<and> never_cancelled c'"
  by (cases "ctx_checks c") (auto simp: ctx_Err_def never_cancelled_def split: bool.splits)

lemma next_chunk_le: "next_chunk limit data c \<le> length data" "limit = Some l \<Longrightarrow> next_chunk limit data c \<le> l"
  by (auto simp: next_chunk_def Let_def split: list.splits option.splits)

definition limited :: "nat option \<Rightarrow> string \<Rightarrow> string" where
  "limited limit data = (case limit of None \<Rightarrow> data | Some l \<Rightarrow> take l data)"

lemma limited_step:
  assumes "\<And>l. limit = Some l \<Longrightarrow> n \<le> l"
  shows "take n data @ limited (map_option (\<lambda>l. l - n) limit) (drop n data) = limited limit data"
proof (cases limit)
  case (Some l)
  with assms have "l = n + (l - n)" by auto
  then have "take l data = take n data @ take (l - n) (drop n data)" by (metis take_add)
  with Some show ?thesis by (simp add: limited_def)
qed (simp add: limited_def)

lemma read_loop_Inr:
  "read_loop limit data got c = (Inr out, c') \<Longrightarrow> out = got @ limited limit data \<and> ctx_roots c' = ctx_roots c"
proof (induction limit data got c rule: read_loop.induct)
  case (1 limit data got c)
  note step = "1.prems" [unfolded read_loop.simps [of limit data]]
  show ?case
  proof (cases "limit = Some 0")
    case True
    with step show ?thesis by (simp add: limited_def)
  next
    case False
    with step obtain c1 where c1: "ctx_Err c = (Inr (), c1)" by (auto split: prod.splits sum.splits)
    show ?thesis
    proof (cases "data = []")
      case True
      with step False c1 ctx_Err_Inr [OF c1] show ?thesis by (auto simp: limited_def split: option.splits)
    next
      case d: False
      let ?n = "next_chunk limit data c1"
      from "1.IH" [OF False c1 [symmetric] HOL.refl d HOL.refl] step False c1 d
      have "out = (got @ take ?n data) @ limited (map_option (\<lambda>l. l - ?n) limit) (drop ?n data)"
        "ctx_roots c' = ctx_roots c1"
        by (simp_all add: Let_def)
      with limited_step [OF next_chunk_le(2), of limit limit data c1] ctx_Err_Inr [OF c1] show ?thesis
        by simp
    qed
  qed
qed

lemma read_loop_never:
  "never_cancelled c \<Longrightarrow> \<exists>c'. read_loop limit data got c = (Inr (got @ limited limit data), c') \<and> never_cancelled c'"
proof (induction limit data got c rule: read_loop.induct)
  case (1 limit data got c)
  from ctx_Err_never [OF "1.prems"] obtain c1 where c1: "ctx_Err c = (Inr (), c1)" "never_cancelled c1" by blast
  show ?case
  proof (cases "limit = Some 0 \<or> data = []")
    case True
    with c1 "1.prems" show ?thesis
      by (auto simp: read_loop.simps [of limit data] limited_def split: option.splits)
  next
    case False
    let ?n = "next_chunk limit data c1"
    let ?c = "c1\<lparr>ctx_chunks := drop 1 (ctx_chunks c1)\<rparr>"
    have "never_cancelled ?c" using c1 by (simp add: never_cancelled_def)
    with "1.IH" [OF _ c1(1) [symmetric] HOL.refl _ HOL.refl] False obtain c' where
      "read_loop (map_option (\<lambda>l. l - ?n) limit) (drop ?n data) (got @ take ?n data) ?c
         = (Inr ((got @ take ?n data) @ limited (map_option (\<lambda>l. l - ?n) limit) (drop ?n data)), c')" "never_cancelled c'"
      by blast
    with limited_step [OF next_chunk_le(2), of limit limit data c1] False c1 show ?thesis
      by (auto simp: read_loop.simps [of limit data] Let_def)
  qed
qed

lemma cut_utf8_valid:
  "utf8_valid (take m b) \<Longrightarrow> m \<le> length b \<Longrightarrow> 4092 \<le> m \<Longrightarrow>
     \<exists>k. m \<le> k \<and> k \<le> length b \<and> cut_utf8 b = take k b \<and> utf8_valid (take k b)"
proof (induction b rule: cut_utf8.induct)
  case (1 b)
  show ?case
  proof (cases "utf8_valid b")
    case True
    then show ?thesis using "1.prems" by (intro exI [of _ "length b"]) (simp add: cut_utf8.simps)
  next
    case False
    then have m: "m < length b" using "1.prems" by (cases "m = length b") auto
    then have "b \<noteq> [] \<and> \<not> utf8_valid b \<and> length b > 4092" using False "1.prems" by auto
    moreover have "take m (butlast b) = take m b" using m by (auto simp: butlast_conv_take)
    ultimately obtain k where k: "m \<le> k" "k \<le> length (butlast b)" "cut_utf8 (butlast b) = take k (butlast b)"
        "utf8_valid (take k (butlast b))"
      using "1.IH" "1.prems" m by fastforce
    moreover have "take k (butlast b) = take k b" using k(2) m by (auto simp: butlast_conv_take)
    moreover have "cut_utf8 b = cut_utf8 (butlast b)"
      using \<open>b \<noteq> [] \<and> \<not> utf8_valid b \<and> length b > 4092\<close> by (subst cut_utf8.simps) simp
    ultimately show ?thesis using m by auto
  qed
qed

lemma read_file_text:
  assumes "utf8_valid (drop off content)" "CHR 0x00 \<notin> set content" "off \<le> length content" "never_cancelled c"
  obtains k c' i' where "read_file i content (int off) c = (Inr i', c')" "i_Content i' = take k (drop off content)"
    "i_NextOffset i' = int (off + k)" "off + k \<le> length content" "utf8_valid (drop (off + k) content)" "never_cancelled c'"
    "ctx_roots c' = ctx_roots c"
    "if length (drop off content) \<le> 4096 then i_Truncated i' = i_Truncated i \<and> k = length (drop off content)
     else i_Truncated i' \<and> 4092 < k"
proof -
  let ?d = "drop off content"
  obtain c' where r: "read_loop (Some 4097) ?d [] c = (Inr (take 4097 ?d), c')" "never_cancelled c'"
    using read_loop_never [OF assms(4), of "Some 4097" ?d "[]"] by (auto simp: limited_def)
  note roots = read_loop_Inr [OF r(1), THEN conjunct2]
  have no0: "CHR 0x00 \<notin> set (take k ?d)" for k
    using assms(2) in_set_takeD in_set_dropD by fastforce
  show thesis
  proof (cases "length ?d \<le> 4096")
    case True
    then have "take 4097 ?d = ?d" by simp
    with True r assms no0 [of "length ?d"] have
      "read_file i content (int off) c = (Inr (i\<lparr>i_Content := ?d, i_NextOffset := int off + int (length ?d)\<rparr>), c')"
      by (simp add: read_file_def andThen_def)
    with True assms r roots show thesis by (intro that [of "i\<lparr>i_Content := ?d, i_NextOffset := int off + int (length ?d)\<rparr>" c' "length ?d"]) auto
  next
    case False
    then obtain m where m: "m \<le> 4096" "4096 < m + 4" "utf8_valid (take m ?d)"
      using utf8_cut [OF assms(1), of 4096] by auto
    have "length (take 4096 ?d) = 4096" using False by simp
    then obtain k where k: "m \<le> k" "k \<le> 4096" "cut_utf8 (take 4096 ?d) = take k ?d" "utf8_valid (take k ?d)"
      using cut_utf8_valid [of m "take 4096 ?d"] m by (auto simp: min_def)
    let ?i = "i\<lparr>i_Truncated := True, i_Content := take k ?d, i_NextOffset := int off + int k\<rparr>"
    have len: "length (take k ?d) = k" using k False by simp
    have "min (4096 :: nat) 4097 = 4096" by simp
    then have "read_file i content (int off) c = (Inr ?i, c')"
      using False r k no0 [of k] assms(3) len by (simp add: read_file_def andThen_def)
    moreover have "utf8_valid (drop (off + k) content)" using utf8_rest [OF assms(1) k(4)] by (simp add: add.commute)
    ultimately show thesis using False k m r roots by (intro that [of ?i c' k]) auto
  qed
qed

text \<open>A client that reads a file from \<open>off\<close> on, each time from the \<open>NextOffset\<close> it was given.\<close>

fun read_pages :: "nat \<Rightarrow> disk \<Rightarrow> string \<Rightarrow> int \<Rightarrow> string reading" where
  "read_pages 0 d p off = ret []"
| "read_pages (Suc n) d p off =
     andThen (Inspect d p ''local_read'' [off]) (\<lambda>i.
       if i_Truncated i then andThen (read_pages n d p (i_NextOffset i)) (\<lambda>s. ret (i_Content i @ s))
       else ret (i_Content i))"

lemma Inspect_read:
  assumes "open_local d p (ctx_roots c) = Inr (loc, Regular t content)" "never_cancelled c"
  obtains c' where "Inspect d p ''local_read'' [int off] c = read_file (base_info p (Regular t content)) content (int off) c'"
    "never_cancelled c'" "ctx_roots c' = ctx_roots c"
proof -
  from ctx_Err_never [OF assms(2)] obtain c' where "ctx_Err c = (Inr (), c')" "ctx_roots c' = ctx_roots c" "never_cancelled c'"
    by blast
  with assms(1) that show thesis by (simp add: Inspect_def IsOperation_def andThen_def Let_def)
qed

lemma read_pages_rest:
  "open_local d p (ctx_roots c) = Inr (loc, Regular t content) \<Longrightarrow> CHR 0x00 \<notin> set content \<Longrightarrow> never_cancelled c \<Longrightarrow>
   utf8_valid (drop off content) \<Longrightarrow> off \<le> length content \<Longrightarrow> length content < off + 4093 * n \<Longrightarrow>
   fst (read_pages n d p (int off) c) = Inr (drop off content)"
proof (induction n arbitrary: off c)
  case (Suc n)
  let ?b = "base_info p (Regular t content)"
  from Suc.prems(1,3) obtain c0 where c0:
    "Inspect d p ''local_read'' [int off] c = read_file ?b content (int off) c0" "never_cancelled c0" "ctx_roots c0 = ctx_roots c"
    by (rule Inspect_read)
  from Suc.prems(2,4,5) c0(2) obtain k c1 i where r: "read_file ?b content (int off) c0 = (Inr i, c1)"
    "i_Content i = take k (drop off content)"
    "i_NextOffset i = int (off + k)" "off + k \<le> length content" "utf8_valid (drop (off + k) content)" "never_cancelled c1"
    "ctx_roots c1 = ctx_roots c0"
    "if length (drop off content) \<le> 4096 then i_Truncated i = i_Truncated ?b \<and> k = length (drop off content)
     else i_Truncated i \<and> 4092 < k"
    using read_file_text [of off content c0 ?b] by metis
  show ?case
  proof (cases "i_Truncated i")
    case False
    with r have "k = length (drop off content)" by (simp split: if_splits)
    with r c0 False show ?thesis by (simp add: andThen_def ret_def)
  next
    case True
    with r(8) have "4092 < k" by (simp add: base_info_def split: if_splits)
    then have "length content < (off + k) + 4093 * n" using Suc.prems(6) by simp
    with Suc.IH [of c1 "off + k"] Suc.prems r c0 have
      "fst (read_pages n d p (int (off + k)) c1) = Inr (drop (off + k) content)" by simp
    moreover obtain x c2 where x: "read_pages n d p (int (off + k)) c1 = (x, c2)" by fastforce
    moreover have "take k (drop off content) @ drop (off + k) content = drop off content"
      by (metis append_take_drop_id drop_drop add.commute)
    ultimately show ?thesis using r c0 True by (simp add: andThen_def ret_def)
  qed
qed (simp add: ret_def)

text \<open>
  C12: A text file comes out whole, whatever its length.  A UTF-8 file without null bytes that
  may be opened is read chunk by chunk, each time from the offset the last answer gave: no read
  fails because a character was cut in two, enough reads end, and together they give exactly
  the content, however the system splits the reads.
\<close>

theorem chunked_read_is_complete:
  assumes "open_local d p (ctx_roots c) = Inr (loc, Regular t content)"
    and "utf8_valid content" and "CHR 0x00 \<notin> set content" and "never_cancelled c"
    and "length content < 4093 * n"
  shows "fst (read_pages n d p 0 c) = Inr content"
  using read_pages_rest [of d p c loc t content 0 n] assms by simp

theorem chunked_read_is_complete_witness:
  "fst (read_pages 1 demo_disk ''/srv/app/a.txt'' 0 \<lparr>ctx_roots = [''/srv/app''], ctx_checks = [], ctx_chunks = [2, 1]\<rparr>)
     = Inr ''hello''"
  by (rule chunked_read_is_complete [where loc = "[''srv'', ''app'', ''a.txt'']" and t = "''t''"])
    (code_simp, rule utf8_valid_ascii, simp_all add: code_in_def never_cancelled_def)

subsection \<open>A private copy has the approved bytes\<close>


end
