(* ===== verification/GoUrl.thy ===== *)
theory GoUrl
  imports GoJson GoEncoding
begin

text \<open>
  The part of \<open>net/url.Parse\<close> the program relies on: a URL with a known scheme and an
  authority, cut into user, host and path.
\<close>

datatype url_mode = PathMode | HostMode | ZoneMode

definition is_letter :: "char \<Rightarrow> bool" where
  "is_letter c \<longleftrightarrow> code_in 65 90 c \<or> code_in 97 122 c"

text \<open>The bytes \<open>shouldEscape\<close> accepts in a host.\<close>

definition host_char :: "char \<Rightarrow> bool" where
  "host_char c \<longleftrightarrow> is_letter c \<or> is_digit c \<or> c \<in> set ''-_.~!$&()*+,;=:[]<>''
     \<or> c = CHR 0x22 \<or> c = CHR 0x27"

definition escape_ok :: "url_mode \<Rightarrow> byte \<Rightarrow> byte \<Rightarrow> bool" where
  "escape_ok mode x y =
     (case mode of
        PathMode \<Rightarrow> True
      | HostMode \<Rightarrow> x \<ge> 8 \<or> x = 2 \<and> y = 5
      | ZoneMode \<Rightarrow> x = 2 \<and> (y = 5 \<or> y = 0) \<or> host_char (char_of_byte (16 * x + y)))"

fun url_unescape :: "url_mode \<Rightarrow> string \<Rightarrow> string option" where
  "url_unescape mode [] = Some []"
| "url_unescape mode (c # s) =
     (if c = CHR ''%''
      then (case s of
              a # b # t \<Rightarrow>
                (case (hex_value (byte_of a), hex_value (byte_of b)) of
                   (Some x, Some y) \<Rightarrow>
                     if escape_ok mode x y then map_option ((#) (char_of_byte (16 * x + y))) (url_unescape mode t)
                     else None
                 | _ \<Rightarrow> None)
            | _ \<Rightarrow> None)
      else if mode \<noteq> PathMode \<and> code_in 0 0x7F c \<and> \<not> host_char c then None
      else map_option ((#) c) (url_unescape mode s))"

definition last_index :: "char \<Rightarrow> string \<Rightarrow> nat option" where
  "last_index c s = (if c \<in> set s then Some (length (dropWhile (\<lambda>x. x \<noteq> c) (rev s)) - 1) else None)"

definition valid_port :: "string \<Rightarrow> bool" where
  "valid_port s \<longleftrightarrow> s = [] \<or> hd s = CHR '':'' \<and> list_all is_digit (tl s)"

definition parse_host :: "string \<Rightarrow> string option" where
  "parse_host h =
     (if HasPrefix h ''[''
      then (case last_index CHR '']'' h of
              None \<Rightarrow> None
            | Some i \<Rightarrow>
                if \<not> valid_port (drop (i + 1) h) then None
                else (case Index (take i h) ''%25'' of
                        None \<Rightarrow> url_unescape HostMode h
                      | Some z \<Rightarrow>
                          (case (url_unescape HostMode (take z h), url_unescape ZoneMode (drop z (take i h)),
                                 url_unescape HostMode (drop i h)) of
                             (Some x, Some y, Some w) \<Rightarrow> Some (x @ y @ w)
                           | _ \<Rightarrow> None)))
      else (case last_index CHR '':'' h of
              Some i \<Rightarrow> if valid_port (drop i h) then url_unescape HostMode h else None
            | None \<Rightarrow> url_unescape HostMode h))"

definition valid_userinfo :: "string \<Rightarrow> bool" where
  "valid_userinfo s \<longleftrightarrow> list_all (\<lambda>c. is_letter c \<or> is_digit c \<or> c \<in> set ''-._:~!$&()*+,;=%@'' \<or> c = CHR 0x27) s"

text \<open>The user, if any, and the host.\<close>

definition parse_authority :: "string \<Rightarrow> (bool \<times> string) option" where
  "parse_authority a =
     (case last_index CHR ''@'' a of
        None \<Rightarrow> map_option (Pair False) (parse_host a)
      | Some i \<Rightarrow>
          (case parse_host (drop (i + 1) a) of
             None \<Rightarrow> None
           | Some h \<Rightarrow>
               let (user, pass, _) = Cut (take i a) '':''
               in if valid_userinfo (take i a) \<and> url_unescape PathMode user \<noteq> None \<and> url_unescape PathMode pass \<noteq> None
                  then Some (True, h) else None))"

text \<open>\<open>url.Parse\<close> of a text whose first \<open>n\<close> bytes are a scheme with \<open>://\<close>: user, host, path.\<close>

definition url_parse :: "nat \<Rightarrow> string \<Rightarrow> (bool \<times> string \<times> string) option" where
  "url_parse n raw =
     (let (u, frag, _) = Cut raw ''#'';
          (rest, _, _) = Cut (drop n u) ''?'';
          i = (case Index rest ''/'' of None \<Rightarrow> length rest | Some i \<Rightarrow> i)
      in if list_ex (\<lambda>c. code_in 0 0x1F c \<or> c = CHR 0x7F) u then None
         else (case (parse_authority (take i rest), url_unescape PathMode (drop i rest), url_unescape PathMode frag) of
                 (Some (user, h), Some p, Some _) \<Rightarrow> Some (user, h, p)
               | _ \<Rightarrow> None))"

end
