(* ===== verification/References.thy ===== *)
theory References
  imports LocalFiles GoUrl
begin

text \<open>
  \<open>internal/localfiles/references.go\<close>: the paths and file URLs a user writes.
\<close>

subsection \<open>ResolveReference\<close>

definition isDriveLetter :: "char \<Rightarrow> bool" where
  "isDriveLetter c \<longleftrightarrow> code_in 65 90 c \<or> code_in 97 122 c"

definition drive_host :: "string \<Rightarrow> bool" where
  "drive_host h \<longleftrightarrow> length h = 2 \<and> h ! 1 = CHR '':'' \<and> isDriveLetter (h ! 0)"

text \<open>The path of a file URL.\<close>

definition url_path :: "string \<Rightarrow> string checked" where
  "url_path p =
     (let authority = TrimPrefix p ''file://'';
          fileURL = (if length authority \<ge> 2 \<and> authority ! 1 = CHR '':'' \<and> isDriveLetter (authority ! 0)
                     then ''file:///'' @ authority else p)
      in case url_parse 7 fileURL of
           None \<Rightarrow> Inl ''parse error''
         | Some (_, host, path) \<Rightarrow>
             if host \<noteq> [] \<and> host \<noteq> ''localhost'' \<and> \<not> drive_host host then Inl ''invalid argument''
             else let q = (if host \<noteq> [] \<and> host \<noteq> ''localhost'' then host @ path else path)
                  in Inr (if length q > 2 \<and> (q ! 0 = slash \<or> q ! 0 = CHR 0x5C) \<and> isDriveLetter (q ! 1) \<and> q ! 2 = CHR '':''
                          then drop 1 q else q))"

definition expand_home :: "disk \<Rightarrow> string \<Rightarrow> string checked" where
  "expand_home d p =
     (if HasPrefix p ''~/''
      then (case home d of None \<Rightarrow> Inl ''home is not defined'' | Some h \<Rightarrow> Inr (JoinPath [h, drop 2 p]))
      else Inr p)"

definition ResolveReference :: "disk \<Rightarrow> string \<Rightarrow> string checked" where
  "ResolveReference d value =
     (let p = TrimSpace value
      in case (if HasPrefix p ''file://'' then url_path p else Inr p) of
           Inl e \<Rightarrow> Inl e
         | Inr q \<Rightarrow> (case expand_home d q of Inl e \<Rightarrow> Inl e
           | Inr r \<Rightarrow> (case ValidatePath r of Inl e \<Rightarrow> Inl e
             | Inr _ \<Rightarrow> (case EvalSymlinks d r of None \<Rightarrow> Inl os_error
               | Some real \<Rightarrow> (case real_node d real of None \<Rightarrow> Inl os_error
                 | Some n \<Rightarrow> if is_regular n then Inr real else Inl ''invalid argument'')))))"

subsection \<open>References in a text\<close>

text \<open>\<open>referenceTokens\<close>: a quoted run, or a path up to white space, a quote or punctuation.\<close>

definition quoted :: "char \<Rightarrow> string \<Rightarrow> nat option" where
  "quoted q s =
     (case s of
        c # t \<Rightarrow>
          let run = takeWhile (\<lambda>x. x \<noteq> q \<and> x \<noteq> CHR 0x0A) t
          in if c = q \<and> run \<noteq> [] \<and> HasPrefix (drop (length run) t) [q] then Some (length run + 2) else None
      | [] \<Rightarrow> None)"

definition path_start :: "string \<Rightarrow> nat" where
  "path_start s =
     (if HasPrefix s ''file://'' then 7 else if HasPrefix s ''~/'' then 2 else if HasPrefix s ''/'' then 1
      else if length s \<ge> 3 \<and> is_letter (s ! 0) \<and> s ! 1 = CHR '':'' \<and> (s ! 2 = CHR 0x5C \<or> s ! 2 = slash) then 3 else 0)"

definition stops :: "string \<Rightarrow> bool" where
  "stops s \<longleftrightarrow>
     hd s \<in> {CHR 0x09, CHR 0x0A, CHR 0x0C, CHR 0x0D, CHR 0x20, CHR 0x60, CHR 0x22, CHR 0x27, CHR ''<'', CHR ''>''}
     \<or> take 3 s \<in> {[CHR 0xEF, CHR 0xBC, CHR 0x8C], [CHR 0xE3, CHR 0x80, CHR 0x82], [CHR 0xEF, CHR 0xBC, CHR 0x9B]}"

fun run_length :: "string \<Rightarrow> nat" where
  "run_length [] = 0"
| "run_length (c # s) = (if stops (c # s) then 0 else Suc (run_length s))"

definition token_length :: "string \<Rightarrow> nat" where
  "token_length s =
     (case quoted CHR 0x60 s of Some n \<Rightarrow> n | None \<Rightarrow>
     (case quoted CHR 0x22 s of Some n \<Rightarrow> n | None \<Rightarrow>
     (case quoted CHR 0x27 s of Some n \<Rightarrow> n | None \<Rightarrow>
        let k = path_start s; n = run_length (drop k s)
        in if k = 0 \<or> n = 0 then 0 else k + n)))"

function find_tokens :: "string \<Rightarrow> string list" where
  "find_tokens s =
     (if s = [] then []
      else if token_length s = 0 then find_tokens (tl s)
      else take (token_length s) s # find_tokens (drop (token_length s) s))"
  by pat_completeness auto
termination by (relation "measure length") auto

declare find_tokens.simps [simp del]

definition quote_marks :: string where
  "quote_marks = [CHR 0x60, CHR 0x22, CHR 0x27]"

definition line_candidates :: "disk \<Rightarrow> string \<Rightarrow> string list" where
  "line_candidates d l =
     (let line = TrimSpace l
      in case ResolveReference d line of
           Inr _ \<Rightarrow> [line]
         | Inl _ \<Rightarrow> map (\<lambda>m. TrimLeft (TrimRight m quote_marks) quote_marks) (find_tokens line))"

fun collect :: "disk \<Rightarrow> string list \<Rightarrow> string list \<Rightarrow> string list" where
  "collect d paths [] = paths"
| "collect d paths (c # cs) =
     (case ResolveReference d c of
        Inl _ \<Rightarrow> collect d paths cs
      | Inr p \<Rightarrow> if p \<in> set paths then collect d paths cs else collect d (paths @ [p]) cs)"

definition References :: "disk \<Rightarrow> string \<Rightarrow> string list" where
  "References d text = collect d [] (concat (map (line_candidates d) (Split text [CHR 0x0A])))"

subsection \<open>A reference is a real path\<close>

text \<open>A location whose every prefix exists and is not a link.\<close>

fun is_link :: "node \<Rightarrow> bool" where
  "is_link (Link _ _) = True" | "is_link _ = False"

definition solid :: "node \<Rightarrow> string list \<Rightarrow> bool" where
  "solid fs loc \<longleftrightarrow> real_elements loc
     \<and> (\<forall>k < length loc. \<exists>n. look fs (take (Suc k) loc) = Some n \<and> \<not> is_link n)"

lemma solid_Nil: "solid fs []"
  by (simp add: solid_def real_elements_def)

lemma solid_snoc:
  "solid fs (loc @ [x]) \<longleftrightarrow> solid fs loc \<and> plain x \<and> x \<noteq> ''.'' \<and> x \<noteq> ''..''
     \<and> (\<exists>n. look fs (loc @ [x]) = Some n \<and> \<not> is_link n)"
  by (auto simp: solid_def real_elements_def less_Suc_eq)

lemma solid_butlast: "solid fs loc \<Longrightarrow> solid fs (butlast loc)"
  by (cases loc rule: rev_cases) (simp_all add: solid_snoc)

lemma target_plain: "list_all plain (target_elements t)"
  using elements_plain by (auto simp: target_elements_def list_all_iff) (simp add: plain_def)

lemma walk_solid: "walk fs links loc xs = Some out \<Longrightarrow> solid fs loc \<Longrightarrow> list_all plain xs \<Longrightarrow> solid fs out"
proof (induction fs links loc xs rule: walk.induct)
  case (2 fs links loc x xs)
  show ?case
  proof (cases "x = ''.'' \<or> x = ''..''")
    case True
    with 2 solid_butlast show ?thesis by (auto split: if_splits)
  next
    case False
    with "2.prems" obtain n where n: "look fs (loc @ [x]) = Some n" by (auto split: option.splits)
    show ?thesis
    proof (cases "is_link n")
      case True
      then obtain k t where "n = Link k t" by (cases n) auto
      with 2 False n target_plain [of t] show ?thesis
        by (auto simp: solid_Nil split: if_splits)
    next
      case nl: False
      with "2.prems" False n have here: "solid fs (loc @ [x])" by (simp add: solid_snoc)
      show ?thesis
      proof (cases "xs = []")
        case True
        with "2.prems"(1) False n nl here show ?thesis by (cases n) simp_all
      next
        case more: False
        with "2.prems"(1) False n nl obtain a b es where f: "n = Folder a b es" by (cases n) auto
        then have "walk fs links (loc @ [x]) xs = Some out" using "2.prems"(1) False n by simp
        moreover have "list_all plain xs" using "2.prems"(3) by simp
        ultimately show ?thesis using "2.IH"(4) False n f here by simp
      qed
    qed
  qed
qed simp

lemma look_append: "look fs (xs @ ys) = (case look fs xs of None \<Rightarrow> None | Some n \<Rightarrow> look n ys)"
  by (induction fs xs rule: look.induct) (auto split: option.splits)

lemma look_folder: "look fs (xs @ y # ys) = Some m \<Longrightarrow> look fs xs = Some n \<Longrightarrow> is_folder n"
  by (cases n) (auto simp: look_append)

lemma solid_append: "solid fs (xs @ ys) \<Longrightarrow> solid fs xs"
  by (induction ys rule: rev_induct) (simp_all add: solid_snoc flip: append_assoc)

lemma walk_of_solid: "solid fs (loc @ xs) \<Longrightarrow> walk fs links loc xs = Some (loc @ xs)"
proof (induction xs arbitrary: loc)
  case (Cons x xs)
  then have s: "solid fs (loc @ [x])" using solid_append [of fs "loc @ [x]" xs] by simp
  then obtain n where n: "look fs (loc @ [x]) = Some n" "\<not> is_link n" "x \<noteq> ''.''" "x \<noteq> ''..''"
    by (auto simp: solid_snoc)
  have f: "is_folder n" if xs: "xs = y # ys" for y ys
  proof -
    have "solid fs ((loc @ [x]) @ [y])" using Cons.prems xs solid_append [of fs "(loc @ [x]) @ [y]" ys] by simp
    then have "look fs ((loc @ [x]) @ y # []) \<noteq> None" unfolding solid_snoc by auto
    then obtain m where "look fs ((loc @ [x]) @ y # []) = Some m" by blast
    then show ?thesis using n(1) by (rule look_folder)
  qed
  have "walk fs links loc (x # xs) = walk fs links (loc @ [x]) xs"
    using n f by (cases n) (cases xs; auto)+
  with Cons show ?case by simp
qed simp

lemma EvalSymlinks_solid:
  "EvalSymlinks d p = Some q \<Longrightarrow> \<exists>loc. solid (tree d) loc \<and> q = abs_path loc"
  using walk_solid [OF _ solid_Nil, of "tree d" 255 "elements p"] elements_plain
  by (auto simp: EvalSymlinks_def list_all_iff)

lemma solid_real: "solid fs loc \<Longrightarrow> real_elements loc \<and> elements (abs_path loc) = loc"
  by (simp add: solid_def real_elements_def elements_abs_path)

lemma EvalSymlinks_idem: "EvalSymlinks d p = Some q \<Longrightarrow> EvalSymlinks d q = Some q \<and> IsAbs q \<and> Clean q = q"
  using EvalSymlinks_solid [of d p q] solid_real walk_of_solid [of "tree d" "[]"] Clean_abs_path
  by (fastforce simp: EvalSymlinks_def)

lemma ResolveReference_Inr:
  assumes "ResolveReference d v = Inr p"
  obtains q n where "EvalSymlinks d q = Some p" "real_node d p = Some n" "is_regular n"
  using assms by (auto simp: ResolveReference_def Let_def split: sum.splits option.splits if_splits)

definition real_file :: "disk \<Rightarrow> string \<Rightarrow> bool" where
  "real_file d p \<longleftrightarrow> IsAbs p \<and> Clean p = p \<and> EvalSymlinks d p = Some p
     \<and> (case real_node d p of Some n \<Rightarrow> is_regular n | None \<Rightarrow> False)"

lemma ResolveReference_real: "ResolveReference d v = Inr p \<Longrightarrow> real_file d p"
  by (erule ResolveReference_Inr) (auto simp: real_file_def dest: EvalSymlinks_idem)

lemma collect_real:
  "distinct paths \<Longrightarrow> list_all (real_file d) paths \<Longrightarrow>
     distinct (collect d paths cs) \<and> list_all (real_file d) (collect d paths cs)"
  by (induction d paths cs rule: collect.induct) (auto split: sum.splits dest: ResolveReference_real)

text \<open>
  What the user's message refers to are existing regular files.  Every path that
  \<open>References\<close> finds in a text is absolute and clean, resolves to itself (no link is left in it)
  and names a regular file on the disk, and no path is listed twice.
\<close>

theorem references_are_real_files:
  "distinct (References d text) \<and> list_all (real_file d) (References d text)"
  by (simp add: References_def collect_real)

end
