(* ===== verification/Policy.thy ===== *)
theory Policy
  imports LocalFiles Store
begin

text \<open>
  \<open>internal/agent/policy.go\<close>: what the agent may do without asking, and when an approval
  covers a request.  The error side is a refusal, \<open>Inr False\<close> means that an approval of
  exactly this request is needed, \<open>Inr True\<close> that the grant covers it.
\<close>

definition path_operations :: "string list" where
  "path_operations = [''file_read'', ''file_write'', ''upload_local'', ''file_hash'']"

definition known_operations :: "string list" where
  "known_operations =
     [''upload_local'', ''file_hash'', ''terminal_connect'', ''terminal_read'', ''terminal_write'', ''observe'',
      ''service_status'', ''logs'', ''file_read'', ''file_write'', ''service_restart'', ''package_install'', ''shell'']"

definition resource_operations :: "string list" where
  "resource_operations = [''file_hash'', ''file_read'', ''file_write'', ''service_restart'', ''package_install'']"

definition Evaluate :: "task \<Rightarrow> host \<Rightarrow> request \<Rightarrow> time \<Rightarrow> bool checked" where
  "Evaluate t h r now =
     (if task_ID t \<noteq> TaskID r \<or> HostID r \<notin> set (HostIDs (Grant t)) then Inl ''host outside the task''
      else if \<not> now < ExpiresAt (Grant t) then Inl ''grant expired''
      else if map_lookup (Identities (Grant t)) (host_ID h) \<noteq> Digest_host h then Inl ''host configuration changed''
      else if Operation r \<notin> set known_operations then Inl ''unknown operation''
      else if CHR 0x00 \<in> set (Resource r) \<or> CHR 0x00 \<in> set (Command r) then Inl ''null byte''
      else if Operation r \<in> set path_operations
              \<and> (\<not> IsAbs (Resource r) \<or> Clean (Resource r) \<noteq> Resource r \<or> Resource r = ''/'')
      then Inl ''use a canonical absolute path''
      else if Operation r = ''upload_local''
      then (case ValidatePath (LocalPath r) of Inl e \<Rightarrow> Inl e
            | Inr _ \<Rightarrow>
                (case hex_decode (bytes_of (SourceHash r)) of None \<Rightarrow> Inl ''get the SHA-256 first''
                 | Some h \<Rightarrow>
                     if length h \<noteq> 32 then Inl ''get the SHA-256 first''
                     else if UploadMode r \<noteq> [] \<and> UploadMode r \<noteq> ''new'' \<and> UploadMode r \<noteq> ''replace''
                             \<and> UploadMode r \<noteq> ''resume''
                     then Inl ''upload mode must be new, replace or resume''
                     else Inr False))
      else if Operation r = ''shell'' \<or> Operation r = ''terminal_write'' then Inr False
      else if Operation r \<notin> set (Operations (Grant t)) then Inr False
      else if Operation r \<in> set resource_operations then Inr (Resource r \<in> set (Resources (Grant t)))
      else Inr True)"

definition ApprovedFor :: "approval \<Rightarrow> task \<Rightarrow> request \<Rightarrow> bool" where
  "ApprovedFor a t r \<longleftrightarrow>
     Decided a \<and> Approved a \<and> ap_Digest a = Digest_request r \<and> ap_GrantID a = grant_ID (Grant t)
     \<and> TaskID (ap_Request a) = task_ID t"

definition EvaluateLocal :: "task \<Rightarrow> request \<Rightarrow> time \<Rightarrow> bool checked" where
  "EvaluateLocal t r now =
     (if TaskID r \<noteq> task_ID t \<or> HostID r \<noteq> [] \<or> \<not> IsOperation (Operation r) then Inl ''invalid local file request''
      else if \<not> now < ExpiresAt (Grant t) then Inl ''grant expired''
      else (case ValidatePath (LocalPath r) of Inl e \<Rightarrow> Inl e
            | Inr _ \<Rightarrow>
                if ReadOffset r < 0 \<or> Operation r \<noteq> ''local_read'' \<and> ReadOffset r \<noteq> 0 then Inl ''invalid offset''
                else Inr (list_ex (\<lambda>root. Within root (LocalPath r)) (LocalRoots (Grant t)))))"

lemmas operation_lists = known_operations_def path_operations_def resource_operations_def

text \<open>The bounds that hold of every request that is not refused, whether or not it needs an approval.\<close>

lemma Evaluate_bounds:
  "Evaluate t h r now = Inr b \<Longrightarrow> TaskID r = task_ID t \<and> HostID r \<in> set (HostIDs (Grant t))
     \<and> now < ExpiresAt (Grant t) \<and> map_lookup (Identities (Grant t)) (host_ID h) = Digest_host h
     \<and> Operation r \<in> set known_operations"
  by (simp add: Evaluate_def split: if_splits)

text \<open>
  C10: A request runs without asking exactly when the grant covers it: it is for this task, on a
  host of the grant whose configuration is the one granted, before the grant expires, its
  operation is listed in the grant, is none of \<open>shell\<close>, \<open>terminal_write\<close> and \<open>upload_local\<close>, and
  where the operation acts on a file, a service or a package, that resource is listed as well.
\<close>

theorem automatic_iff_granted:
  "Evaluate t h r now = Inr True \<longleftrightarrow>
     TaskID r = task_ID t \<and> HostID r \<in> set (HostIDs (Grant t)) \<and> now < ExpiresAt (Grant t)
     \<and> map_lookup (Identities (Grant t)) (host_ID h) = Digest_host h
     \<and> CHR 0x00 \<notin> set (Resource r) \<union> set (Command r)
     \<and> Operation r \<in> set (Operations (Grant t))
     \<and> (Operation r \<in> {''observe'', ''service_status'', ''logs'', ''terminal_connect'', ''terminal_read''}
        \<or> Resource r \<in> set (Resources (Grant t))
          \<and> (Operation r \<in> {''service_restart'', ''package_install''}
             \<or> Operation r \<in> {''file_read'', ''file_write'', ''file_hash''}
               \<and> IsAbs (Resource r) \<and> Clean (Resource r) = Resource r \<and> Resource r \<noteq> ''/''))"
proof (cases "Operation r \<in> set known_operations")
  case True
  then show ?thesis
    unfolding known_operations_def list.set insert_iff empty_iff
    by (elim disjE) (auto simp: Evaluate_def operation_lists split: sum.split option.split)
next
  case False
  then show ?thesis by (auto simp: Evaluate_def operation_lists)
qed

text \<open>
  A local file is read without asking exactly when the request is a well-formed read of this
  task, before the grant expires, below one of the granted directories.
\<close>

theorem local_automatic_iff_granted:
  "EvaluateLocal t r now = Inr True \<longleftrightarrow>
     TaskID r = task_ID t \<and> HostID r = [] \<and> Operation r \<in> {''local_stat'', ''local_list'', ''local_read''}
     \<and> now < ExpiresAt (Grant t) \<and> ValidatePath (LocalPath r) = Inr ()
     \<and> 0 \<le> ReadOffset r \<and> (Operation r = ''local_read'' \<or> ReadOffset r = 0)
     \<and> (\<exists>root \<in> set (LocalRoots (Grant t)). Within root (LocalPath r))"
  unfolding EvaluateLocal_def IsOperation_def
  by (cases "ValidatePath (LocalPath r)") (auto simp: list_ex_iff)

end
