(* ===== verification/Machine.thy ===== *)
theory Machine
  imports LocalFiles Store
begin

text \<open>
  The state of the whole application below its user interface, and what lies outside it.

  \<open>machine\<close> puts together the database, the local disk, the private upload copies with the
  context of the running call, the connection manager, the terminals of the workspace and
  \<open>net\<close>, the state of the network and of all servers, whose type is left open.  \<open>outside\<close> are the
  operations of the libraries the code calls on servers (SSH, SFTP, the keyring): they are
  arguments of every definition that uses them, and nothing is assumed of them here.
\<close>

text \<open>What becomes of a write to a terminal: \<open>Stuck n\<close> is one that took \<open>n\<close> bytes and then no more.\<close>

datatype delivery = Delivered | Short nat | Failed err | Stuck nat

record terminal =
  t_host :: string
  t_alive :: bool
  t_screen :: string
  t_received :: string
  t_writes :: "delivery list"

record terminals =
  sessions :: "(string \<times> terminal) list"
  active_terminal :: string

text \<open>The connection manager: the cached clients with the digest of the host they were made for.\<close>

record manager =
  clients :: "(string \<times> string) list"
  mgr_closed :: bool
  known_file :: "string list"

record 'w machine =
  db :: store
  files :: disk
  staged :: staging
  conns :: manager
  terms :: terminals
  net :: 'w

type_synonym ('w, 'a) mact = "('w machine, err, 'a) act"
type_synonym ('w, 'a) nact = "('w, err, 'a) act"

datatype key_check = Key_ok | Key_mismatch "string list" | Key_failed err

datatype key_parse = Signer string | Passphrase_missing | Key_invalid err

datatype credential = Password string | PublicKey string | AgentKeys | Interactive

record 'w outside =
  dial :: "host \<Rightarrow> string option \<Rightarrow> ('w, string) nact"
  handshake :: "host \<Rightarrow> credential \<Rightarrow> ('w, unit) nact"
  known_parse :: "string list \<Rightarrow> err option"
  check_key :: "string list \<Rightarrow> string \<Rightarrow> string \<Rightarrow> key_check"
  fingerprint :: "string \<Rightarrow> string"
  known_line :: "string \<Rightarrow> string \<Rightarrow> string"
  secret :: "string \<Rightarrow> ('w, string) nact"
  parse_key :: "string \<Rightarrow> string option \<Rightarrow> key_parse"
  dial_agent :: "('w, unit) nact"
  has_prompt :: bool
  new_sftp :: "string \<Rightarrow> ('w, unit) nact"
  real_path :: "string \<Rightarrow> string \<Rightarrow> ('w, string) nact"
  lstat :: "string \<Rightarrow> string \<Rightarrow> ('w, unit) nact"
  open_read :: "string \<Rightarrow> string \<Rightarrow> ('w, nat) nact"
  open_write :: "string \<Rightarrow> string \<Rightarrow> bool \<Rightarrow> bool \<Rightarrow> ('w, nat) nact"
  fstat :: "string \<Rightarrow> nat \<Rightarrow> ('w, nat \<times> nat \<times> bool) nact"
  reads :: "string \<Rightarrow> nat \<Rightarrow> nat \<Rightarrow> ('w, string list \<times> err option) nact"
  read_dir :: "string \<Rightarrow> string \<Rightarrow> ('w, (string \<times> int \<times> string \<times> time \<times> bool) list) nact"
  read_link :: "string \<Rightarrow> string \<Rightarrow> ('w, string) nact"
  write_at :: "string \<Rightarrow> nat \<Rightarrow> nat \<Rightarrow> string \<Rightarrow> ('w, unit) nact"
  chmod :: "string \<Rightarrow> nat \<Rightarrow> nat \<Rightarrow> ('w, unit) nact"
  close_file :: "string \<Rightarrow> nat \<Rightarrow> ('w, unit) nact"
  posix_rename :: "string \<Rightarrow> string \<Rightarrow> string \<Rightarrow> ('w, unit) nact"
  rename :: "string \<Rightarrow> string \<Rightarrow> string \<Rightarrow> ('w, unit) nact"
  has_posix_rename :: "string \<Rightarrow> ('w, bool) nact"
  remove_file :: "string \<Rightarrow> string \<Rightarrow> ('w, unit) nact"
  start_command :: "string \<Rightarrow> string \<Rightarrow> ('w, unit) nact"
  run_output :: "string \<Rightarrow> 'w \<Rightarrow> ((bool \<times> string) list \<times> (unit + err option)) \<times> 'w"
  has_desktop :: bool
  open_terminal :: "(string \<Rightarrow> ('w, terminal) nact) option"

text \<open>
  In \<open>open_write\<close> the flags are \<open>O_EXCL\<close> and \<open>O_TRUNC\<close>; \<open>fstat\<close> gives size, permissions and
  whether it is a regular file; \<open>reads\<close> gives the pieces that successive reads from an offset
  return up to the end of the file or a failure.
  \<open>run_output\<close> gives the chunks a command wrote, \<open>True\<close> for the standard output and \<open>False\<close> for the
  error output, and how its wait ended: \<open>Inl ()\<close> when the context ended and the command did not
  within two seconds of its signal, else the error of \<open>Wait\<close>, if any.  \<open>open_terminal\<close> is the
  callback by which the user interface opens a terminal for the agent.
\<close>

subsection \<open>Operations on the parts\<close>

definition on_db :: "'a sact \<Rightarrow> ('w, 'a) mact" where
  "on_db f = (\<lambda>m. case f (db m) of (x, s) \<Rightarrow> (x, m\<lparr>db := s\<rparr>))"

definition on_net :: "('w, 'a) nact \<Rightarrow> ('w, 'a) mact" where
  "on_net f = (\<lambda>m. case f (net m) of (x, w) \<Rightarrow> (x, m\<lparr>net := w\<rparr>))"

definition as_msg :: "string + 'a \<Rightarrow> err + 'a" where
  "as_msg x = (case x of Inl e \<Rightarrow> Inl (Msg e) | Inr y \<Rightarrow> Inr y)"

definition on_reading :: "'a reading \<Rightarrow> ('w, 'a) mact" where
  "on_reading f = (\<lambda>m. case f (st_ctx (staged m)) of
      (x, c) \<Rightarrow> (as_msg x, m\<lparr>staged := (staged m)\<lparr>st_ctx := c\<rparr>\<rparr>))"

definition on_staging :: "(staging, string, 'a) act \<Rightarrow> ('w, 'a) mact" where
  "on_staging f = (\<lambda>m. case f (staged m) of (x, s) \<Rightarrow> (as_msg x, m\<lparr>staged := s\<rparr>))"

text \<open>\<open>ctx.Err\<close> of the running call.\<close>

definition Err :: "('w, unit) mact" where
  "Err = (\<lambda>m. case on_reading ctx_Err m of (Inl _, m1) \<Rightarrow> (Inl Cancelled, m1) | (Inr _, m1) \<Rightarrow> (Inr (), m1))"

text \<open>
  The values a context carries: the granted directories, and for a request of the agent the host,
  the digest of its granted configuration and the check to repeat before acting.
\<close>

record 'w call =
  c_roots :: "string list"
  c_authority :: "(string \<times> string \<times> ('w, unit) mact) option"

definition background :: "'w call" where
  "background = \<lparr>c_roots = [], c_authority = None\<rparr>"

definition with_roots :: "string list \<Rightarrow> ('w, unit) mact" where
  "with_roots roots = (\<lambda>m. (Inr (), m\<lparr>staged := (staged m)\<lparr>st_ctx := (st_ctx (staged m))\<lparr>ctx_roots := roots\<rparr>\<rparr>\<rparr>))"

subsection \<open>What operations preserve of the database\<close>

text \<open>A relation of databases as a relation of machines.\<close>

definition via_db :: "(store \<Rightarrow> store \<Rightarrow> bool) \<Rightarrow> 'w machine \<Rightarrow> 'w machine \<Rightarrow> bool" where
  "via_db rel m m' = rel (db m) (db m')"

lemma preserved_via_db: "preserved rel \<Longrightarrow> preserved (via_db rel)"
  by (simp add: preserved_def via_db_def)

lemma keeps_on_db: "keeps rel f \<Longrightarrow> keeps (via_db rel) (on_db f)"
  by (simp add: keeps_def via_db_def on_db_def split: prod.split) (metis snd_conv)

lemma db_on_net [simp]: "db (snd (on_net f m)) = db m"
  by (simp add: on_net_def split: prod.split)

lemma db_on_reading [simp]: "db (snd (on_reading f m)) = db m"
  by (simp add: on_reading_def split: prod.split)

lemma db_on_staging [simp]: "db (snd (on_staging f m)) = db m"
  by (simp add: on_staging_def split: prod.split)

lemma db_Err [simp]: "db (snd (Err m)) = db m"
  using db_on_reading [of ctx_Err m]
  by (cases "on_reading ctx_Err m") (auto simp: Err_def split: sum.split)

lemma keeps_same_db: "preserved rel \<Longrightarrow> (\<And>m. db (snd (f m)) = db m) \<Longrightarrow> keeps (via_db rel) f"
  by (simp add: keeps_def via_db_def preserved.refl)

end
