(* ===== verification/DemoServer.thy ===== *)
theory DemoServer
  imports Machine
begin

text \<open>
  One concrete server, in memory: what the parameter \<open>outside\<close> is instantiated with where a
  theorem is applied at concrete inputs.  It keeps the contents of its files, the path of each
  handle and the commands it was given.
\<close>

record served =
  contents :: "(string \<times> string) list"
  handles :: "(nat \<times> string) list"
  ran :: "string list"

definition served_content :: "served \<Rightarrow> string \<Rightarrow> string option" where
  "served_content w p = map_of (contents w) p"

definition served_path :: "served \<Rightarrow> nat \<Rightarrow> string" where
  "served_path w f = (case map_of (handles w) f of None \<Rightarrow> [] | Some p \<Rightarrow> p)"

definition put_content :: "string \<Rightarrow> string option \<Rightarrow> served \<Rightarrow> served" where
  "put_content p b w =
     w\<lparr>contents := (case b of None \<Rightarrow> [] | Some d \<Rightarrow> [(p, d)]) @ filter (\<lambda>(q, _). q \<noteq> p) (contents w)\<rparr>"

definition new_handle :: "string \<Rightarrow> (served, nat) nact" where
  "new_handle p w = (let f = length (handles w) in (Inr f, w\<lparr>handles := (f, p) # handles w\<rparr>))"

definition demo_open_write :: "string \<Rightarrow> bool \<Rightarrow> bool \<Rightarrow> (served, nat) nact" where
  "demo_open_write p excl trunc w =
     (case served_content w p of
        None \<Rightarrow> new_handle p (put_content p (Some []) w)
      | Some b \<Rightarrow> if excl then (Inl (Msg ''file exists''), w)
                  else new_handle p (if trunc then put_content p (Some []) w else w))"

definition demo_rename :: "bool \<Rightarrow> string \<Rightarrow> string \<Rightarrow> (served, unit) nact" where
  "demo_rename replace a b w =
     (case served_content w a of
        None \<Rightarrow> (Inl NotExist, w)
      | Some d \<Rightarrow> if \<not> replace \<and> served_content w b \<noteq> None then (Inl (Msg ''file exists''), w)
                  else (Inr (), put_content b (Some d) (put_content a None w)))"

definition demo_reads :: "nat \<Rightarrow> nat \<Rightarrow> (served, string list \<times> err option) nact" where
  "demo_reads f off w =
     (case served_content w (served_path w f) of None \<Rightarrow> (Inl NotExist, w) | Some d \<Rightarrow> (Inr ([drop off d], None), w))"

definition demo_write :: "nat \<Rightarrow> nat \<Rightarrow> string \<Rightarrow> (served, unit) nact" where
  "demo_write f off b w =
     (case served_content w (served_path w f) of
        None \<Rightarrow> (Inl NotExist, w)
      | Some d \<Rightarrow> (Inr (), put_content (served_path w f) (Some (take off d @ b @ drop (off + length b) d)) w))"

definition demo_server :: "served outside" where
  "demo_server =
     \<lparr>dial = \<lambda>h _. ret (host_Address h @ ''-key''), handshake = \<lambda>_ _. ret (), known_parse = \<lambda>_. None,
      check_key = \<lambda>lines addr key. if addr @ '' '' @ key \<in> set lines then Key_ok else Key_mismatch [],
      fingerprint = \<lambda>k. k, known_line = \<lambda>addr key. addr @ '' '' @ key, secret = \<lambda>_. ret ''secret'',
      parse_key = \<lambda>b _. Signer b, dial_agent = ret (), has_prompt = True, new_sftp = \<lambda>_. ret (),
      real_path = \<lambda>_ p. ret p,
      lstat = \<lambda>_ p w. (if served_content w p = None then Inl NotExist else Inr (), w),
      open_read = \<lambda>_ p w. (if served_content w p = None then (Inl NotExist, w) else new_handle p w),
      open_write = \<lambda>_. demo_open_write,
      fstat = \<lambda>_ f w. (Inr (case served_content w (served_path w f) of None \<Rightarrow> 0 | Some d \<Rightarrow> length d, 420, True), w),
      reads = \<lambda>_. demo_reads, read_dir = \<lambda>_ _. ret [], read_link = \<lambda>_ _. throw NotExist,
      write_at = \<lambda>_. demo_write, chmod = \<lambda>_ _ _. ret (), close_file = \<lambda>_ _. ret (),
      posix_rename = \<lambda>_. demo_rename True, rename = \<lambda>_. demo_rename False, has_posix_rename = \<lambda>_. ret True,
      remove_file = \<lambda>_ p w. (Inr (), put_content p None w),
      start_command = \<lambda>_ cmd w. (Inr (), w\<lparr>ran := cmd # ran w\<rparr>),
      run_output = \<lambda>_ w. (([(True, ''ok'')], Inr None), w), has_desktop = False, open_terminal = None\<rparr>"

text \<open>A machine with one configured host, whose key is known, and one file on that host.\<close>

definition demo_host :: host where
  "demo_host =
     \<lparr>host_ID = ''h'', host_Name = ''web'', host_Address = ''web'', host_Port = 22, host_User = ''ops'', host_Group = [],
      host_Tags = [], host_Auth = ''agent'', host_KeyPath = [], host_JumpID = [], host_Proxy = []\<rparr>"

definition demo_machine :: "string list \<Rightarrow> (string \<times> string) list \<Rightarrow> served machine" where
  "demo_machine known fs =
     \<lparr>db = \<lparr>documents = [((''hosts'', ''h''), HostDoc demo_host)], events = [], event_seq = 0, executions = [],
             checkpoints = [], artifacts = [], Dir = ''/data'', notices = changes_init, sql = [], clock = [], fresh = [''x'']\<rparr>,
      files = \<lparr>tree = Folder 0 [] [], kernel_links = 40, root_links = 8, home = None, cwd = []\<rparr>,
      staged = \<lparr>st_ctx = \<lparr>ctx_roots = [], ctx_checks = [], ctx_chunks = []\<rparr>, st_files = [], st_names = []\<rparr>,
      conns = \<lparr>clients = [], mgr_closed = False, known_file = known\<rparr>,
      terms = \<lparr>sessions = [], active_terminal = []\<rparr>,
      net = \<lparr>contents = fs, handles = [], ran = []\<rparr>\<rparr>"

end
