(* ===== verification/Connection.thy ===== *)
theory Connection
  imports DemoServer GoUrl
begin

text \<open>
  \<open>internal/remote/connection.go\<close>: validating a host, connecting to it through its jump hosts,
  the host key check in front of the authentication, the cache of clients.

  The per-host and manager locks serialise what is one step here.  The recursion over jump
  hosts has a bound \<open>n\<close>; \<open>Connect\<close> gives it one more than there are host documents, which is
  shown to be enough.
\<close>

subsection \<open>Validation\<close>

definition proxy_ok :: "string \<Rightarrow> (bool \<times> string) option" where
  "proxy_ok p =
     (if map lower (take 9 p) = ''socks5://''
      then (case url_parse 9 p of Some (user, h, _) \<Rightarrow> if h = [] then None else Some (user, h) | None \<Rightarrow> None)
      else None)"

definition ValidateHost :: "host \<Rightarrow> err + unit" where
  "ValidateHost h =
     (if host_ID h = [] \<or> host_Name h = [] \<or> host_Address h = [] \<or> host_User h = []
      then Inl (Msg ''name, address and user must not be empty'')
      else if host_Port h < 1 \<or> host_Port h > 65535 then Inl (Msg ''port must be in 1-65535'')
      else if host_Auth h \<notin> {''password'', ''key'', ''agent'', ''interactive''} then Inl (Msg ''unsupported authentication'')
      else if host_Auth h = ''key'' \<and> host_KeyPath h = [] then Inl (Msg ''choose a key file'')
      else if host_Proxy h \<noteq> []
      then (case proxy_ok (host_Proxy h) of
              None \<Rightarrow> Inl (Msg ''proxy must be socks5://host:port'')
            | Some (user, _) \<Rightarrow> if user then Inl (Msg ''no credentials in the proxy address'') else Inr ())
      else Inr ())"

text \<open>\<open>net.JoinHostPort\<close>.\<close>

definition JoinHostPort :: "string \<Rightarrow> string \<Rightarrow> string" where
  "JoinHostPort h port =
     (if CHR '':'' \<in> set h \<or> CHR ''%'' \<in> set h then ''['' @ h @ '']:'' @ port else h @ '':'' @ port)"

definition host_addr :: "host \<Rightarrow> string" where
  "host_addr h = JoinHostPort (host_Address h) (FormatInt (host_Port h))"

subsection \<open>The manager\<close>

definition set_conns :: "(manager \<Rightarrow> manager) \<Rightarrow> ('w, unit) mact" where
  "set_conns f = (\<lambda>m. (Inr (), m\<lparr>conns := f (conns m)\<rparr>))"

definition Disconnect :: "string \<Rightarrow> ('w, unit) mact" where
  "Disconnect i = set_conns (\<lambda>c. c\<lparr>clients := filter (\<lambda>(k, _). k \<noteq> i) (clients c)\<rparr>)"

definition manager_Close :: "('w, unit) mact" where
  "manager_Close = set_conns (\<lambda>c. c\<lparr>mgr_closed := True, clients := []\<rparr>)"

text \<open>
  \<open>Trust\<close> of a host key error: a changed key is never accepted.  A failing call into the local
  file system takes an entry of the script of statements.
\<close>

definition Trust :: "'w outside \<Rightarrow> string \<Rightarrow> string \<Rightarrow> bool \<Rightarrow> ('w, unit) mact" where
  "Trust R addr key changed =
     (if changed then throw (Msg ''a changed host key cannot be accepted'')
      else andThen (on_db statement) (\<lambda>_.
           set_conns (\<lambda>c. c\<lparr>known_file := known_file c @ [known_line R addr key]\<rparr>)))"

definition auth :: "'w outside \<Rightarrow> host \<Rightarrow> ('w, credential) mact" where
  "auth R h =
     (if host_Auth h = ''password'' then andThen (on_net (secret R (''host:'' @ host_ID h))) (\<lambda>p. ret (Password p))
      else if host_Auth h = ''key''
      then andThen (\<lambda>m. (case os_ReadFile (files m) (host_KeyPath h) of None \<Rightarrow> Inl NotExist | Some b \<Rightarrow> Inr b, m)) (\<lambda>b.
        case parse_key R b None of
          Signer k \<Rightarrow> ret (PublicKey k)
        | Key_invalid e \<Rightarrow> throw e
        | Passphrase_missing \<Rightarrow>
            andThen (on_net (secret R (''host:'' @ host_ID h))) (\<lambda>p.
              case parse_key R b (Some p) of
                Signer k \<Rightarrow> ret (PublicKey k)
              | Key_invalid e \<Rightarrow> throw e
              | Passphrase_missing \<Rightarrow> throw (Msg ''passphrase missing'')))
      else if host_Auth h = ''agent'' then andThen (on_net (dial_agent R)) (\<lambda>_. ret AgentKeys)
      else if host_Auth h = ''interactive''
      then (if has_prompt R then ret Interactive else throw (Msg ''no interactive authentication''))
      else throw (Msg ''unknown authentication''))"

text \<open>The host key callback, before any credential is used.\<close>

definition host_key :: "'w outside \<Rightarrow> host \<Rightarrow> string \<Rightarrow> ('w, unit) mact" where
  "host_key R h key =
     (\<lambda>m. (case check_key R (known_file (conns m)) (host_addr h) key of
             Key_ok \<Rightarrow> Inr ()
           | Key_mismatch want \<Rightarrow> Inl (HostKey (host_addr h) (fingerprint R key) (want \<noteq> []))
           | Key_failed e \<Rightarrow> Inl e, m))"

text \<open>A new client for a host whose jump host, if any, is connected.\<close>

definition new_client :: "'w outside \<Rightarrow> host \<Rightarrow> string \<Rightarrow> ('w, unit) mact" where
  "new_client R h i =
     andThen (auth R h) (\<lambda>cred.
     andThen (\<lambda>m. (case known_parse R (known_file (conns m)) of None \<Rightarrow> Inr () | Some e \<Rightarrow> Inl e, m)) (\<lambda>_.
     andThen (on_net (dial R h (if host_JumpID h = [] then None else Some (host_JumpID h)))) (\<lambda>key.
     andThen (host_key R h key) (\<lambda>_.
     andThen (on_net (handshake R h cred)) (\<lambda>_.
     andThen (asks (mgr_closed \<circ> conns)) (\<lambda>closed.
       if closed then throw (Msg ''the application is exiting'')
       else set_conns (\<lambda>c. c\<lparr>clients := (i, Digest_host h) # filter (\<lambda>(k, _). k \<noteq> i) (clients c)\<rparr>)))))))"

definition connect_here :: "'w outside \<Rightarrow> host \<Rightarrow> string \<Rightarrow> ('w, unit) mact" where
  "connect_here R h i =
     andThen (asks conns) (\<lambda>c.
       if mgr_closed c then throw (Msg ''the connection manager is closed'')
       else (case map_of (clients c) i of
               Some dg \<Rightarrow> if dg = Digest_host h then ret () else andThen (Disconnect i) (\<lambda>_. new_client R h i)
             | None \<Rightarrow> new_client R h i))"

definition authority_changed :: "'w call \<Rightarrow> string \<Rightarrow> host \<Rightarrow> bool" where
  "authority_changed c i h =
     (case c_authority c of None \<Rightarrow> False | Some (i', dg, _) \<Rightarrow> i' = i \<and> dg \<noteq> Digest_host h)"

primrec connect :: "'w outside \<Rightarrow> 'w call \<Rightarrow> nat \<Rightarrow> string \<Rightarrow> string list \<Rightarrow> ('w, unit) mact" where
  "connect R c 0 i seen = throw Panic"
| "connect R c (Suc n) i seen =
     andThen Err (\<lambda>_.
       if i \<in> set seen then throw (Msg ''jump hosts form a cycle'')
       else andThen (on_db (Host i)) (\<lambda>h.
            andThen (outcome (ValidateHost h)) (\<lambda>_.
              if authority_changed c i h then throw (Msg ''host configuration changed'')
              else andThen (if host_JumpID h = [] then ret () else connect R c n (host_JumpID h) (i # seen)) (\<lambda>_.
                   connect_here R h i))))"

definition host_ids :: "store \<Rightarrow> string list" where
  "host_ids s = map snd (filter (\<lambda>k. fst k = ''hosts'') (map fst (documents s)))"

definition Connect :: "'w outside \<Rightarrow> 'w call \<Rightarrow> string \<Rightarrow> ('w, unit) mact" where
  "Connect R c i = (\<lambda>m. connect R c (Suc (length (host_ids (db m)))) i [] m)"

text \<open>The background watcher of a client: the connection ended, so the client leaves the cache.\<close>

definition client_ended :: "string \<Rightarrow> ('w, unit) mact" where
  "client_ended i = set_conns (\<lambda>c. c\<lparr>clients := filter (\<lambda>(k, _). k \<noteq> i) (clients c)\<rparr>)"

subsection \<open>The bound on jump hosts is enough\<close>

lemma Host_Inr: "Host i s = (Inr h, s') \<Longrightarrow> find_doc ''hosts'' i s = Some (HostDoc h) \<and> documents s' = documents s"
proof -
  have "as_host d = Some x \<longleftrightarrow> d = HostDoc x" for d x by (cases d) auto
  then show "Host i s = (Inr h, s') \<Longrightarrow> find_doc ''hosts'' i s = Some (HostDoc h) \<and> documents s' = documents s"
    by (auto simp: Host_def Load_def andThen_def find_doc_def split: sum.splits prod.splits option.splits list.splits
        simp: statement_def)
qed

lemma find_host_ids: "find_doc ''hosts'' i s = Some d \<Longrightarrow> i \<in> set (host_ids s)"
  by (force simp: find_doc_def host_ids_def dest: map_of_SomeD)

lemma Err_db: "Err m = (x, m') \<Longrightarrow> db m' = db m"
  using db_Err [of m] by simp

lemma on_db_Inr: "on_db f m = (x, m') \<longleftrightarrow> (\<exists>s. f (db m) = (x, s) \<and> m' = m\<lparr>db := s\<rparr>)"
  by (auto simp: on_db_def split: prod.splits)

lemma andThen_cong:
  "m s = m' s \<Longrightarrow> (\<And>x s1. m s = (Inr x, s1) \<Longrightarrow> f x s1 = g x s1) \<Longrightarrow> andThen m f s = andThen m' g s"
  by (auto simp: andThen_def split: prod.split sum.split)

definition fresh_hosts :: "store \<Rightarrow> string list \<Rightarrow> nat" where
  "fresh_hosts s seen = card (set (host_ids s) - set seen)"

lemma connect_bound:
  "fresh_hosts (db m) seen < n \<Longrightarrow> connect R c n i seen m = connect R c (Suc n) i seen m"
proof (induction n arbitrary: i seen m)
  case (Suc n)
  show ?case
  proof (subst (1 2) connect.simps(2), rule andThen_cong [OF HOL.refl], goal_cases)
    case (1 u m1)
    then have db1: "db m1 = db m" by (simp add: Err_db)
    show ?case
    proof (cases "i \<in> set seen")
      case False
      show ?thesis
      proof (simp only: False if_False, rule andThen_cong [OF HOL.refl], goal_cases)
        case (1 h m2)
        then have h: "find_doc ''hosts'' i (db m) = Some (HostDoc h)" "documents (db m2) = documents (db m)"
          using Host_Inr db1 by (fastforce simp: on_db_Inr)+
        have "set (host_ids (db m2)) - set (i # seen) = (set (host_ids (db m)) - set seen) - {i}"
          using h(2) by (auto simp: host_ids_def)
        moreover have "i \<in> set (host_ids (db m)) - set seen" using find_host_ids h(1) False by simp
        ultimately have "fresh_hosts (db m2) (i # seen) < fresh_hosts (db m) seen"
          unfolding fresh_hosts_def by (simp only: card_Diff1_less finite_Diff finite_set)
        with Suc.prems have "fresh_hosts (db m2) (i # seen) < n" by simp
        then have rec: "db m3 = db m2 \<Longrightarrow> connect R c n j (i # seen) m3 = connect R c (Suc n) j (i # seen) m3" for j m3
          using Suc.IH by simp
        show ?case
        proof (rule andThen_cong [OF HOL.refl], goal_cases)
          case (1 v m3)
          then have "m3 = m2" by (simp add: outcome_def)
          then have e: "connect R c n (host_JumpID h) (i # seen) m3 = connect R c (Suc n) (host_JumpID h) (i # seen) m3"
            using rec by blast
          show ?case
            by (cases "authority_changed c i h"; cases "host_JumpID h = []")
              (simp_all only: if_True if_False andThen_def e simp_thms)
        qed
      qed
    qed simp
  qed
qed simp

text \<open>
  C14: Connecting ends, whatever the jump hosts are.  The recursion over jump hosts never goes
  deeper than there are host records, so every larger bound gives the same outcome and the same
  state as \<open>Connect\<close>; configurations that form a cycle included.
\<close>

theorem connect_bound_suffices:
  assumes "length (host_ids (db m)) < n"
  shows "connect R c n i [] m = Connect R c i m"
proof -
  let ?k = "Suc (length (host_ids (db m)))"
  have few: "fresh_hosts (db m) [] \<le> length (host_ids (db m))"
    by (simp add: fresh_hosts_def card_length)
  have "?k \<le> k \<Longrightarrow> connect R c k i [] m = connect R c ?k i [] m" for k
  proof (induction k rule: dec_induct)
    case (step k)
    then have "fresh_hosts (db m) [] < k" using few by simp
    with step connect_bound [of m "[]" k R c i] show ?case by simp
  qed simp
  with assms show ?thesis by (simp add: Connect_def)
qed

theorem connect_bound_suffices_witness:
  "connect demo_server background 5 ''h'' [] (demo_machine [] []) = Connect demo_server background ''h'' (demo_machine [] [])"
  by (rule connect_bound_suffices) (simp add: demo_machine_def host_ids_def)

subsection \<open>The host key comes first\<close>

lemma host_key_never:
  "\<forall>lines addr key. check_key R lines addr key \<noteq> Key_ok \<Longrightarrow> \<exists>e. host_key R h key m = (Inl e, m)"
  by (cases "check_key R (known_file (conns m)) (host_addr h) key") (auto simp: host_key_def)

lemma new_client_no_key:
  assumes "\<forall>lines addr key. check_key R lines addr key \<noteq> Key_ok"
  shows "new_client (R\<lparr>handshake := f\<rparr>) h i m = new_client R h i m"
proof -
  have "host_key R h key s \<noteq> (Inr x, s')" for key x s s'
    using host_key_never [OF assms, of h key s] by auto
  moreover have "host_key (R\<lparr>handshake := f\<rparr>) h key = host_key R h key" for key
    by (rule ext) (simp add: host_key_def split: key_check.split)
  moreover have "auth (R\<lparr>handshake := f\<rparr>) h = auth R h" by (simp add: auth_def cong: key_parse.case_cong)
  ultimately show ?thesis unfolding new_client_def by (intro andThen_cong) auto
qed

lemma connect_no_key:
  assumes "\<forall>lines addr key. check_key R lines addr key \<noteq> Key_ok"
  shows "connect (R\<lparr>handshake := f\<rparr>) c n i seen m = connect R c n i seen m"
proof (induction n arbitrary: i seen m)
  case (Suc n)
  have here: "connect_here (R\<lparr>handshake := f\<rparr>) h j = connect_here R h j" for h j
    unfolding connect_here_def by (rule ext, intro andThen_cong) (auto simp: new_client_no_key [OF assms] split: option.split intro!: andThen_cong)
  have rec: "connect (R\<lparr>handshake := f\<rparr>) c n j sn = connect R c n j sn" for j sn
    using Suc by (rule ext)
  show ?case unfolding connect.simps here rec by (rule HOL.refl)
qed simp

text \<open>
  C15: No credential leaves before the server's host key is accepted.  When no host key is
  acceptable, connecting behaves the same whatever the authentication step would do: it is
  never reached, neither for the host nor for one of its jump hosts.
\<close>

theorem no_credentials_without_host_key:
  assumes "\<forall>lines addr key. check_key R lines addr key \<noteq> Key_ok"
  shows "Connect (R\<lparr>handshake := f\<rparr>) c i m = Connect R c i m"
  unfolding Connect_def by (rule connect_no_key [OF assms])

theorem no_credentials_without_host_key_witness:
  "Connect (demo_server\<lparr>check_key := \<lambda>_ _ _. Key_mismatch [], handshake := \<lambda>_ _. throw Panic\<rparr>) background ''h'' (demo_machine [] [])
   = Connect (demo_server\<lparr>check_key := \<lambda>_ _ _. Key_mismatch []\<rparr>) background ''h'' (demo_machine [] [])"
  using no_credentials_without_host_key [of "demo_server\<lparr>check_key := \<lambda>_ _ _. Key_mismatch []\<rparr>" "\<lambda>_ _. throw Panic"]
  by simp

subsection \<open>A connection is to the host as it is configured\<close>

lemma andThen_InrD: "andThen m f s = (Inr y, s') \<Longrightarrow> \<exists>x s1. m s = (Inr x, s1) \<and> f x s1 = (Inr y, s')"
  by (erule andThen_Inr) blast

lemma connect_here_digest:
  "connect_here R h i m = (Inr u, m') \<Longrightarrow> map_of (clients (conns m')) i = Some (Digest_host h)"
  unfolding connect_here_def
  by (auto dest!: andThen_InrD simp: asks_def new_client_def set_conns_def split: if_splits option.splits)

text \<open>
  C16: A successful \<open>Connect\<close> leaves a client that was made for the host as it is configured
  now; for a request of the agent, that configuration is the one in the grant.
\<close>

theorem connected_as_configured:
  assumes "Connect R c i m = (Inr u, m')"
  shows "\<exists>h. find_doc ''hosts'' i (db m) = Some (HostDoc h)
     \<and> map_of (clients (conns m')) i = Some (Digest_host h)
     \<and> (case c_authority c of Some (i', dg, _) \<Rightarrow> i' \<noteq> i \<or> dg = Digest_host h | None \<Rightarrow> True)"
proof -
  from assms obtain v m1 h m2 w m3 m4 where steps: "Err m = (Inr v, m1)" "on_db (Host i) m1 = (Inr h, m2)"
    "\<not> authority_changed c i h" "connect_here R h i m4 = (Inr u, m')"
    by (auto simp: Connect_def dest!: andThen_InrD split: if_splits)
  have "find_doc ''hosts'' i (db m) = Some (HostDoc h)"
    using steps(2) Host_Inr [of i "db m1" h] Err_db [OF steps(1)] by (auto simp: on_db_Inr)
  with connect_here_digest [OF steps(4)] steps(3) show ?thesis
    by (auto simp: authority_changed_def split: option.splits)
qed

lemma demo_port: "FormatInt 22 = ''22''"
  by code_simp

definition demo_connected :: "(string \<times> string) list \<Rightarrow> served machine" where
  "demo_connected fs = (demo_machine [''web:22 web-key''] fs)
     \<lparr>conns := \<lparr>clients = [(''h'', Digest_host demo_host)], mgr_closed = False, known_file = [''web:22 web-key'']\<rparr>\<rparr>"

lemma demo_connects: "Connect demo_server background ''h'' (demo_machine [''web:22 web-key''] fs) = (Inr (), demo_connected fs)"
  by (simp add: Connect_def host_ids_def demo_connected_def demo_machine_def demo_host_def connect_here_def new_client_def auth_def host_key_def
      host_addr_def JoinHostPort_def demo_server_def background_def authority_changed_def ValidateHost_def Host_def Load_def
      find_doc_def statement_def Err_def on_reading_def ctx_Err_def on_db_def on_net_def as_msg_def andThen_def asks_def
      outcome_def set_conns_def ret_def demo_port)

theorem connected_as_configured_witness:
  "\<exists>m' h. Connect demo_server background ''h'' (demo_machine [''web:22 web-key''] []) = (Inr (), m')
     \<and> find_doc ''hosts'' ''h'' (db (demo_machine [''web:22 web-key''] [])) = Some (HostDoc h)
     \<and> map_of (clients (conns m')) ''h'' = Some (Digest_host h)"
  using demo_connects connected_as_configured [OF demo_connects, of "[]"] by blast

end
