(* ===== verification/RemoteFiles.thy ===== *)
theory RemoteFiles
  imports Connection
begin

text \<open>
  \<open>internal/remote/files.go\<close>, \<open>authorization.go\<close> and the file part of \<open>local_upload.go\<close>: reading,
  replacing and transferring files over SFTP, and the checks of an agent's request before them.

  Local files are those of the disk and those the application has written itself
  (\<open>st_files\<close>).  A failing call into the local file system takes an entry of the script of
  statements.
\<close>

subsection \<open>Authority\<close>

definition checkAuthority :: "'w call \<Rightarrow> ('w, unit) mact" where
  "checkAuthority c =
     andThen Err (\<lambda>_. case c_authority c of None \<Rightarrow> Err | Some (_, _, check) \<Rightarrow> check)"

definition canonicalFile :: "'w outside \<Rightarrow> 'w call \<Rightarrow> string \<Rightarrow> string \<Rightarrow> ('w, unit) mact" where
  "canonicalFile R c host p =
     (case c_authority c of
        None \<Rightarrow> ret ()
      | Some _ \<Rightarrow>
          andThen (attempt (on_net (real_path R host p))) (\<lambda>x.
          andThen (case x of
                     Inr real \<Rightarrow> ret real
                   | Inl e \<Rightarrow> andThen (attempt (on_net (real_path R host (GoPath.Dir p)))) (\<lambda>y.
                       case y of Inl _ \<Rightarrow> throw e | Inr parent \<Rightarrow> ret (JoinPath [parent, Base p]))) (\<lambda>real.
            if real \<noteq> p then throw (Msg ''the file is reached through a symbolic link'') else ret ())))"

subsection \<open>Reading\<close>

definition SFTP :: "'w outside \<Rightarrow> 'w call \<Rightarrow> string \<Rightarrow> ('w, unit) mact" where
  "SFTP R c host = andThen (Connect R c host) (\<lambda>_. on_net (new_sftp R host))"

definition list_dir :: "'w outside \<Rightarrow> 'w call \<Rightarrow> string \<Rightarrow> string \<Rightarrow> ('w, (string \<times> int \<times> string \<times> time \<times> bool) list) mact" where
  "list_dir R c host dir = andThen (SFTP R c host) (\<lambda>_. on_net (read_dir R host dir))"

text \<open>\<open>io.ReadAll\<close>, behind a \<open>LimitReader\<close> when there is a limit.\<close>

definition read_all :: "'w outside \<Rightarrow> string \<Rightarrow> nat \<Rightarrow> nat option \<Rightarrow> ('w, string) mact" where
  "read_all R host f limit =
     andThen (on_net (reads R host f 0)) (\<lambda>(ps, e).
       let d = concat ps
       in case limit of
            Some l \<Rightarrow> if l \<le> length d then ret (take l d) else (case e of None \<Rightarrow> ret d | Some e \<Rightarrow> throw e)
          | None \<Rightarrow> (case e of None \<Rightarrow> ret d | Some e \<Rightarrow> throw e))"

definition max_edit :: nat where
  "max_edit = 4 * 1024 * 1024"

definition ReadFile :: "'w outside \<Rightarrow> 'w call \<Rightarrow> string \<Rightarrow> string \<Rightarrow> ('w, string \<times> string) mact" where
  "ReadFile R c host p =
     andThen (SFTP R c host) (\<lambda>_.
     andThen (canonicalFile R c host p) (\<lambda>_.
     andThen (on_net (open_read R host p)) (\<lambda>f.
     andThen (read_all R host f (Some (max_edit + 1))) (\<lambda>b.
       if length b > max_edit then throw (Msg ''the file exceeds 4 MiB'') else ret (b, sha256_hex b)))))"

text \<open>A copy through a \<open>contextReader\<close>: each read asks the context first.\<close>

fun checked :: "string list \<Rightarrow> err option \<Rightarrow> (string \<Rightarrow> ('w, unit) mact) \<Rightarrow> ('w, unit) mact" where
  "checked [] e use = andThen Err (\<lambda>_. case e of None \<Rightarrow> ret () | Some e \<Rightarrow> throw e)"
| "checked (p # ps) e use = andThen Err (\<lambda>_. andThen (use p) (\<lambda>_. checked ps e use))"

definition hash_remote :: "'w outside \<Rightarrow> string \<Rightarrow> nat \<Rightarrow> ('w, string \<times> nat) mact" where
  "hash_remote R host f =
     andThen (on_net (reads R host f 0)) (\<lambda>(ps, e).
     andThen (checked ps e (\<lambda>_. ret ())) (\<lambda>_. ret (sha256_hex (concat ps), length (concat ps))))"

definition FileHash :: "'w outside \<Rightarrow> 'w call \<Rightarrow> string \<Rightarrow> string \<Rightarrow> ('w, string \<times> nat) mact" where
  "FileHash R c host p =
     andThen (SFTP R c host) (\<lambda>_.
     andThen (canonicalFile R c host p) (\<lambda>_.
     andThen (on_net (open_read R host p)) (\<lambda>f.
     andThen (on_net (fstat R host f)) (\<lambda>(size, mode, regular).
       if \<not> regular then throw (Msg ''not a regular file'') else hash_remote R host f))))"

subsection \<open>Replacing a file\<close>

text \<open>\<open>Write\<close>, then \<open>Close\<close> whatever the outcome; the first error counts.\<close>

definition write_close :: "'w outside \<Rightarrow> string \<Rightarrow> nat \<Rightarrow> string \<Rightarrow> ('w, unit) mact" where
  "write_close R host f b =
     andThen (attempt (on_net (write_at R host f 0 b))) (\<lambda>e.
     andThen (attempt (on_net (close_file R host f))) (\<lambda>ce.
     andThen (outcome e) (\<lambda>_. outcome ce)))"

definition write_backup :: "'w outside \<Rightarrow> string \<Rightarrow> string \<Rightarrow> string \<Rightarrow> ('w, unit) mact" where
  "write_backup R host backup old =
     andThen (on_net (open_write R host backup True False)) (\<lambda>f.
     andThen (attempt (on_net (chmod R host f 384))) (\<lambda>_. write_close R host f old))"

definition put_in_place :: "'w outside \<Rightarrow> string \<Rightarrow> string \<Rightarrow> string \<Rightarrow> bool \<Rightarrow> ('w, unit) mact" where
  "put_in_place R host tmp p exists =
     andThen Err (\<lambda>_.
       if exists
       then andThen (on_net (has_posix_rename R host)) (\<lambda>ok.
              if ok then on_net (posix_rename R host tmp p)
              else throw (Msg ''the server cannot replace atomically; the file was not changed''))
       else on_net (rename R host tmp p))"

definition write_temporary :: "'w outside \<Rightarrow> string \<Rightarrow> string \<Rightarrow> nat \<Rightarrow> string \<Rightarrow> ('w, unit) mact \<Rightarrow> ('w, unit) mact" where
  "write_temporary R host tmp mode b place =
     andThen (on_net (open_write R host tmp True False)) (\<lambda>f.
       always
         (andThen (attempt (on_net (chmod R host f mode))) (\<lambda>e.
            case e of
              Inl e \<Rightarrow> andThen (attempt (on_net (close_file R host f))) (\<lambda>_. throw e)
            | Inr _ \<Rightarrow> andThen (write_close R host f b) (\<lambda>_. place)))
         (on_net (remove_file R host tmp)))"

definition replace_file :: "'w outside \<Rightarrow> string \<Rightarrow> string \<Rightarrow> string option \<Rightarrow> nat \<Rightarrow> string \<Rightarrow> ('w, string) mact" where
  "replace_file R host p old mode b =
     andThen Err (\<lambda>_.
     andThen (on_db Now) (\<lambda>t.
       let stamp = FormatInt t;
           backup = (case old of None \<Rightarrow> [] | Some _ \<Rightarrow> p @ ''.nexshell-backup-'' @ stamp);
           tmp = p @ ''.nexshell-'' @ stamp
       in andThen (case old of None \<Rightarrow> ret () | Some o1 \<Rightarrow> write_backup R host backup o1) (\<lambda>_.
          andThen (write_temporary R host tmp mode b (put_in_place R host tmp p (old \<noteq> None))) (\<lambda>_.
            ret backup))))"

definition write_absent :: "'w outside \<Rightarrow> string \<Rightarrow> string \<Rightarrow> string \<Rightarrow> string \<Rightarrow> err \<Rightarrow> ('w, string) mact" where
  "write_absent R host p expected b e =
     (if e \<noteq> NotExist then throw e
      else if expected \<noteq> [] \<and> expected \<noteq> ''new'' then throw (Msg ''the file has been deleted'')
      else replace_file R host p None 384 b)"

definition write_present :: "'w outside \<Rightarrow> string \<Rightarrow> string \<Rightarrow> string \<Rightarrow> string \<Rightarrow> nat \<Rightarrow> ('w, string) mact" where
  "write_present R host p expected b f =
     andThen (on_net (fstat R host f)) (\<lambda>(size, mode, regular).
     andThen (read_all R host f (Some (max_edit + 1))) (\<lambda>old.
       if length old > max_edit then throw (Msg ''the file is too large'')
       else if expected = [] \<or> sha256_hex old \<noteq> expected then throw (Msg ''the file has changed'')
       else replace_file R host p (Some old) mode b))"

definition WriteFile :: "'w outside \<Rightarrow> 'w call \<Rightarrow> string \<Rightarrow> string \<Rightarrow> string \<Rightarrow> string \<Rightarrow> ('w, string) mact" where
  "WriteFile R c host p expected b =
     andThen (SFTP R c host) (\<lambda>_.
     andThen (canonicalFile R c host p) (\<lambda>_.
       if \<not> IsAbs p \<or> Clean p = ''/'' then throw (Msg ''the path must be absolute'')
       else andThen (attempt (on_net (open_read R host p))) (\<lambda>x.
         case x of Inl e \<Rightarrow> write_absent R host p expected b e | Inr f \<Rightarrow> write_present R host p expected b f)))"

subsection \<open>Transfers\<close>

definition local_content :: "'w machine \<Rightarrow> string \<Rightarrow> string option" where
  "local_content m p =
     (case map_of (st_files (staged m)) p of Some b \<Rightarrow> Some b | None \<Rightarrow> os_ReadFile (files m) p)"

definition os_Open :: "string \<Rightarrow> ('w, string) mact" where
  "os_Open p =
     andThen (on_db statement) (\<lambda>_ m. (case local_content m p of None \<Rightarrow> Inl NotExist | Some b \<Rightarrow> Inr b, m))"

definition set_local :: "string \<Rightarrow> string \<Rightarrow> ('w, unit) mact" where
  "set_local p b = (\<lambda>m. (Inr (), m\<lparr>staged := (staged m)\<lparr>st_files := (p, b) # st_files (staged m)\<rparr>\<rparr>))"

text \<open>A write at the end of an open local file.\<close>

definition append_local :: "string \<Rightarrow> string \<Rightarrow> ('w, unit) mact" where
  "append_local p b =
     andThen (on_db statement) (\<lambda>_ m.
       set_local p ((case local_content m p of None \<Rightarrow> [] | Some d \<Rightarrow> d) @ b) m)"

text \<open>\<open>os.OpenFile\<close> for writing: the content the file has when it is open.\<close>

definition os_OpenFile :: "string \<Rightarrow> bool \<Rightarrow> bool \<Rightarrow> ('w, string) mact" where
  "os_OpenFile p excl trunc =
     andThen (on_db statement) (\<lambda>_.
     andThen (asks (\<lambda>m. local_content m p)) (\<lambda>x.
       case x of
         Some b \<Rightarrow> if excl then throw (Msg ''file exists'')
                   else let b1 = (if trunc then [] else b) in andThen (set_local p b1) (\<lambda>_. ret b1)
       | None \<Rightarrow> andThen (set_local p []) (\<lambda>_. ret [])))"

text \<open>The pieces in which a local file is read.\<close>

function pieces :: "nat list \<Rightarrow> string \<Rightarrow> string list" where
  "pieces ks d =
     (if d = [] then []
      else let n = (case ks of [] \<Rightarrow> length d | k # _ \<Rightarrow> max 1 k) in take n d # pieces (drop 1 ks) (drop n d))"
  by pat_completeness auto
termination by (relation "measure (\<lambda>(ks, d). length d)") (auto split: list.splits)

declare pieces.simps [simp del]

definition local_pieces :: "'w machine \<Rightarrow> string \<Rightarrow> string list" where
  "local_pieces m d = pieces (ctx_chunks (st_ctx (staged m))) d"

text \<open>The complete existing prefix is compared, by digest, before anything is appended.\<close>

definition check_prefix :: "nat \<Rightarrow> string \<Rightarrow> string \<Rightarrow> ('w, unit) mact" where
  "check_prefix offset src existing =
     (if length src < offset \<or> length existing < offset then throw (Msg ''EOF'')
      else if sha256_hex (take offset src) \<noteq> sha256_hex (take offset existing)
      then throw (Msg ''the existing content differs; nothing was overwritten'')
      else ret ())"

fun write_pieces :: "'w outside \<Rightarrow> string \<Rightarrow> nat \<Rightarrow> nat \<Rightarrow> string list \<Rightarrow> ('w, unit) mact" where
  "write_pieces R host f off [] = Err"
| "write_pieces R host f off (p # ps) =
     andThen Err (\<lambda>_. andThen (on_net (write_at R host f off p)) (\<lambda>_. write_pieces R host f (off + length p) ps))"

definition hash_local :: "string \<Rightarrow> ('w, string) mact" where
  "hash_local d m = andThen (checked (local_pieces m d) None (\<lambda>_. ret ())) (\<lambda>_. ret (sha256_hex d)) m"

definition same_hash :: "string \<Rightarrow> string \<Rightarrow> ('w, unit) mact" where
  "same_hash a b = (if a \<noteq> b then throw (Msg ''the transferred file does not match'') else ret ())"

definition upload :: "'w outside \<Rightarrow> string \<Rightarrow> string \<Rightarrow> string \<Rightarrow> bool \<Rightarrow> bool \<Rightarrow> ('w, unit) mact" where
  "upload R host src_path p resume exclusive =
     andThen (os_Open src_path) (\<lambda>src.
     andThen (on_net (open_write R host p exclusive (\<not> resume))) (\<lambda>f.
     andThen (if resume then andThen (on_net (fstat R host f)) (\<lambda>(size, _, _). ret size) else ret 0) (\<lambda>offset.
       if length src < offset then throw (Msg ''the target is larger than the source'')
       else
     andThen (if offset = 0 then ret ()
              else andThen (on_net (open_read R host p)) (\<lambda>g.
                   andThen (read_all R host g (Some offset)) (\<lambda>existing. check_prefix offset src existing))) (\<lambda>_.
     andThen (\<lambda>m. write_pieces R host f offset (local_pieces m (drop offset src)) m) (\<lambda>_.
     andThen (on_net (close_file R host f)) (\<lambda>_.
     andThen (hash_local src) (\<lambda>h.
     andThen (on_net (open_read R host p)) (\<lambda>g.
     andThen (hash_remote R host g) (\<lambda>(k, _). same_hash h k)))))))))"

definition download :: "'w outside \<Rightarrow> string \<Rightarrow> string \<Rightarrow> string \<Rightarrow> bool \<Rightarrow> bool \<Rightarrow> ('w, unit) mact" where
  "download R host dst_path p resume exclusive =
     andThen (on_net (open_read R host p)) (\<lambda>f.
     andThen (on_net (fstat R host f)) (\<lambda>(total, _, _).
     andThen (os_OpenFile dst_path exclusive (\<not> resume)) (\<lambda>here.
     let offset = length here in
       if total < offset then throw (Msg ''the target is larger than the source'')
       else
     andThen (if offset = 0 then ret ()
              else andThen (os_Open dst_path) (\<lambda>existing.
                   andThen (read_all R host f (Some offset)) (\<lambda>src. check_prefix offset src existing))) (\<lambda>_.
     andThen (on_net (reads R host f offset)) (\<lambda>(ps, e).
     andThen (checked ps e (append_local dst_path)) (\<lambda>_.
     andThen (on_db statement) (\<lambda>_.
     andThen (hash_remote R host f) (\<lambda>(h, _).
     andThen (os_Open dst_path) (\<lambda>d.
     andThen (hash_local d) (\<lambda>k. same_hash h k))))))))))"

definition transfer :: "'w outside \<Rightarrow> 'w call \<Rightarrow> string \<Rightarrow> string \<Rightarrow> string \<Rightarrow> bool \<Rightarrow> bool \<Rightarrow> bool \<Rightarrow> ('w, unit) mact" where
  "transfer R c host local_path p up resume exclusive =
     andThen (SFTP R c host) (\<lambda>_.
       if up then upload R host local_path p resume exclusive else download R host local_path p resume exclusive)"

definition Transfer :: "'w outside \<Rightarrow> 'w call \<Rightarrow> string \<Rightarrow> string \<Rightarrow> string \<Rightarrow> bool \<Rightarrow> bool \<Rightarrow> ('w, unit) mact" where
  "Transfer R c host local_path p up resume = transfer R c host local_path p up resume False"

definition UploadNew :: "'w outside \<Rightarrow> 'w call \<Rightarrow> string \<Rightarrow> string \<Rightarrow> string \<Rightarrow> ('w, unit) mact" where
  "UploadNew R c host local_path p = transfer R c host local_path p True False True"

end
