(* ===== verification/RemoteFilesSafe.thy ===== *)
theory RemoteFilesSafe
  imports RemoteFiles
begin

context preserved
begin

lemma keeps_sum: "(\<And>e. keeps rel (f e)) \<Longrightarrow> (\<And>y. keeps rel (g y)) \<Longrightarrow>
    keeps rel (case x of Inl e \<Rightarrow> f e | Inr y \<Rightarrow> g y)"
  by (simp split: sum.split)

lemma keeps_option_case: "keeps rel f \<Longrightarrow> (\<And>y. keeps rel (g y)) \<Longrightarrow>
    keeps rel (case x of None \<Rightarrow> f | Some y \<Rightarrow> g y)"
  by (simp split: option.split)

lemma keeps_key_parse: "(\<And>k. keeps rel (f k)) \<Longrightarrow> keeps rel g \<Longrightarrow> (\<And>e. keeps rel (h e)) \<Longrightarrow>
    keeps rel (case x of Signer k \<Rightarrow> f k | Passphrase_missing \<Rightarrow> g | Key_invalid e \<Rightarrow> h e)"
  by (simp split: key_parse.split)

lemma keeps_pair: "(\<And>y z. keeps rel (f y z)) \<Longrightarrow> keeps rel (case x of (y, z) \<Rightarrow> f y z)"
  by (simp split: prod.split)

lemma keeps_test: "keeps rel (\<lambda>s. (f s, s))"
  by (simp add: keeps_def refl)

lemmas keeps_rules = keeps_andThen keeps_ret keeps_throw keeps_outcome keeps_attempt keeps_asks keeps_if
  keeps_sum keeps_option_case keeps_key_parse keeps_pair keeps_always keeps_forEach

end

text \<open>
  What \<open>WriteFile\<close> and the transfers guarantee, from what SFTP servers document.

  \<open>content w q\<close> is the content of the file at path \<open>q\<close> of the host in question, \<open>path w f\<close> the path an open
  handle belongs to.  \<open>sftp_laws\<close> are the assumptions: looking at files changes none, exclusive
  creation makes an empty file that was not there, writing changes only the file of its handle,
  a rename puts the one content in the place of the other or, when it fails, may or may not have
  done so, and reading gives the content.
\<close>

definition quiet :: "('w \<Rightarrow> string \<Rightarrow> string option) \<Rightarrow> ('w \<Rightarrow> nat \<Rightarrow> string) \<Rightarrow> ('w, 'a) nact \<Rightarrow> bool" where
  "quiet content path f \<longleftrightarrow> keeps (\<lambda>w w'. content w' = content w \<and> path w' = path w) f"

definition quiet_laws :: "'w outside \<Rightarrow> string \<Rightarrow> ('w \<Rightarrow> string \<Rightarrow> string option) \<Rightarrow> ('w \<Rightarrow> nat \<Rightarrow> string) \<Rightarrow> bool" where
  "quiet_laws R host content path \<longleftrightarrow>
     (\<forall>h j. quiet content path (dial R h j)) \<and> (\<forall>h k. quiet content path (handshake R h k))
     \<and> (\<forall>k. quiet content path (secret R k)) \<and> quiet content path (dial_agent R)
     \<and> quiet content path (new_sftp R host) \<and> (\<forall>q. quiet content path (real_path R host q))
     \<and> (\<forall>f. quiet content path (fstat R host f)) \<and> (\<forall>f k. quiet content path (chmod R host f k))
     \<and> (\<forall>f. quiet content path (close_file R host f)) \<and> quiet content path (has_posix_rename R host)
     \<and> (\<forall>f k. quiet content path (reads R host f k))"

definition open_read_law :: "'w outside \<Rightarrow> string \<Rightarrow> ('w \<Rightarrow> string \<Rightarrow> string option) \<Rightarrow> ('w \<Rightarrow> nat \<Rightarrow> string) \<Rightarrow> bool" where
  "open_read_law R host content path \<longleftrightarrow>
     (\<forall>q w w' x. open_read R host q w = (x, w') \<longrightarrow> content w' = content w
        \<and> (case x of Inr f \<Rightarrow> path w' f = q | Inl e \<Rightarrow> e = NotExist \<longrightarrow> content w q = None))"

definition reads_law :: "'w outside \<Rightarrow> string \<Rightarrow> ('w \<Rightarrow> string \<Rightarrow> string option) \<Rightarrow> ('w \<Rightarrow> nat \<Rightarrow> string) \<Rightarrow> bool" where
  "reads_law R host content path \<longleftrightarrow>
     (\<forall>f w w' ps e. reads R host f 0 w = (Inr (ps, e), w') \<longrightarrow>
        (\<exists>rest. content w (path w f) = Some (concat ps @ rest) \<and> (e = None \<longrightarrow> rest = [])))"

definition open_write_law :: "'w outside \<Rightarrow> string \<Rightarrow> ('w \<Rightarrow> string \<Rightarrow> string option) \<Rightarrow> ('w \<Rightarrow> nat \<Rightarrow> string) \<Rightarrow> bool" where
  "open_write_law R host content path \<longleftrightarrow>
     (\<forall>q w w' x. open_write R host q True False w = (x, w') \<longrightarrow> (\<forall>r. r \<noteq> q \<longrightarrow> content w' r = content w r)
        \<and> (case x of Inr f \<Rightarrow> content w q = None \<and> content w' q = Some [] \<and> path w' f = q | Inl _ \<Rightarrow> True))"

definition write_law :: "'w outside \<Rightarrow> string \<Rightarrow> ('w \<Rightarrow> string \<Rightarrow> string option) \<Rightarrow> ('w \<Rightarrow> nat \<Rightarrow> string) \<Rightarrow> bool" where
  "write_law R host content path \<longleftrightarrow>
     (\<forall>f b w w' x. write_at R host f 0 b w = (x, w') \<longrightarrow> path w' = path w
        \<and> (\<forall>r. r \<noteq> path w f \<longrightarrow> content w' r = content w r)
        \<and> (x = Inr () \<and> content w (path w f) = Some [] \<longrightarrow> content w' (path w f) = Some b))"

definition rename_law :: "'w outside \<Rightarrow> string \<Rightarrow> ('w \<Rightarrow> string \<Rightarrow> string option) \<Rightarrow> bool" where
  "rename_law R host content \<longleftrightarrow>
     (\<forall>a b w w' x. posix_rename R host a b w = (x, w') \<or> rename R host a b w = (x, w') \<longrightarrow>
        (\<forall>r. r \<noteq> a \<and> r \<noteq> b \<longrightarrow> content w' r = content w r)
        \<and> (content w' b = content w a \<or> x \<noteq> Inr () \<and> content w' b = content w b))"

definition remove_law :: "'w outside \<Rightarrow> string \<Rightarrow> ('w \<Rightarrow> string \<Rightarrow> string option) \<Rightarrow> bool" where
  "remove_law R host content \<longleftrightarrow>
     (\<forall>a w w' x. remove_file R host a w = (x, w') \<longrightarrow> (\<forall>r. r \<noteq> a \<longrightarrow> content w' r = content w r))"

definition sftp_laws :: "'w outside \<Rightarrow> string \<Rightarrow> ('w \<Rightarrow> string \<Rightarrow> string option) \<Rightarrow> ('w \<Rightarrow> nat \<Rightarrow> string) \<Rightarrow> bool" where
  "sftp_laws R host content path \<longleftrightarrow>
     quiet_laws R host content path \<and> open_read_law R host content path \<and> reads_law R host content path
     \<and> open_write_law R host content path \<and> write_law R host content path \<and> rename_law R host content
     \<and> remove_law R host content"

definition net_same :: "('w \<Rightarrow> string \<Rightarrow> string option) \<Rightarrow> ('w \<Rightarrow> nat \<Rightarrow> string) \<Rightarrow> 'w machine \<Rightarrow> 'w machine \<Rightarrow> bool" where
  "net_same content path m m' \<longleftrightarrow> content (net m') = content (net m) \<and> path (net m') = path (net m)"

interpretation looking: preserved "net_same content path"
  by unfold_locales (auto simp: net_same_def)

lemma net_Err [simp]: "net (snd (Err m)) = net m"
  by (cases "ctx_Err (st_ctx (staged m))") (auto simp: Err_def on_reading_def as_msg_def split: sum.split)

lemma net_on_db [simp]: "net (snd (on_db f m)) = net m"
  by (simp add: on_db_def split: prod.split)

lemma keeps_net_only: "(\<And>m. net (snd (f m)) = net m) \<Longrightarrow> keeps (net_same content path) f"
  by (simp add: keeps_def net_same_def)

lemma keeps_quiet: "quiet content path f \<Longrightarrow> keeps (net_same content path) (on_net f)"
  by (simp add: keeps_def quiet_def net_same_def on_net_def split: prod.split) (metis snd_conv)

text \<open>What holds of the contents and of the handles, as a condition on the machine.\<close>

definition holds :: "('w \<Rightarrow> string \<Rightarrow> string option) \<Rightarrow> ('w \<Rightarrow> nat \<Rightarrow> string)
    \<Rightarrow> ((string \<Rightarrow> string option) \<Rightarrow> (nat \<Rightarrow> string) \<Rightarrow> bool) \<Rightarrow> 'w machine \<Rightarrow> bool" where
  "holds content path P m \<longleftrightarrow> P (content (net m)) (path (net m))"

lemma holds_looking:
  "keeps (net_same content path) f \<Longrightarrow> spec (holds content path P) f (holds content path P) (\<lambda>_. holds content path P)"
  unfolding keeps_def holds_def net_same_def by (intro specI) (metis snd_conv)+

lemma holds_quiet:
  "quiet content path f \<Longrightarrow> spec (holds content path P) (on_net f) (holds content path P) (\<lambda>_. holds content path P)"
  by (rule holds_looking) (rule keeps_quiet)

lemma holds_step:
  assumes "\<And>w e w'. P (content w) (path w) \<Longrightarrow> f w = (Inl e, w') \<Longrightarrow> E (content w') (path w')"
    and "\<And>w x w'. P (content w) (path w) \<Longrightarrow> f w = (Inr x, w') \<Longrightarrow> Q x (content w') (path w')"
  shows "spec (holds content path P) (on_net f) (holds content path E) (\<lambda>x. holds content path (Q x))"
  using assms by (intro specI) (fastforce simp: on_net_def holds_def split: prod.splits)+

lemma holds_weaken:
  assumes "spec (holds content path P) f (holds content path E) (\<lambda>x. holds content path (Q x))"
    and "\<And>c h. P' c h \<Longrightarrow> P c h" and "\<And>c h. E c h \<Longrightarrow> E' c h" and "\<And>x c h. Q x c h \<Longrightarrow> Q' x c h"
  shows "spec (holds content path P') f (holds content path E') (\<lambda>x. holds content path (Q' x))"
  by (rule spec_weaken [OF assms(1)]) (simp_all add: holds_def assms(2-))

lemma laws_quiet:
  assumes "sftp_laws R host content path"
  shows "quiet content path (dial R h j)" "quiet content path (handshake R h k)" "quiet content path (secret R s)"
    "quiet content path (dial_agent R)" "quiet content path (new_sftp R host)" "quiet content path (real_path R host q)"
    "quiet content path (fstat R host f)" "quiet content path (chmod R host f n)" "quiet content path (close_file R host f)"
    "quiet content path (has_posix_rename R host)" "quiet content path (reads R host f n)"
  using assms by (simp_all add: sftp_laws_def quiet_laws_def)

lemma keeps_set_conns: "keeps (net_same content path) (set_conns f)"
  by (simp add: keeps_def net_same_def set_conns_def)

lemma keeps_Err: "keeps (net_same content path) Err"
  by (rule keeps_net_only) simp

lemma keeps_on_db_net: "keeps (net_same content path) (on_db f)"
  by (rule keeps_net_only) simp

lemma keeps_new_client:
  assumes L: "sftp_laws R host content path"
  shows "keeps (net_same content path) (new_client R h i)"
  unfolding new_client_def host_key_def auth_def
  by (intro looking.keeps_rules looking.keeps_test keeps_quiet laws_quiet [OF L] keeps_set_conns)

lemma keeps_connect:
  assumes L: "sftp_laws R host content path"
  shows "keeps (net_same content path) (connect R c n i seen)"
proof (induction n arbitrary: i seen)
  case (Suc n)
  show ?case
    unfolding connect.simps connect_here_def Disconnect_def
    by (intro looking.keeps_rules keeps_Err keeps_on_db_net keeps_set_conns keeps_new_client [OF L] Suc)
qed (simp add: looking.keeps_throw)

lemma keeps_SFTP:
  assumes L: "sftp_laws R host content path"
  shows "keeps (net_same content path) (SFTP R c host)"
proof -
  have "keeps (net_same content path) (Connect R c host)"
    using keeps_connect [OF L] unfolding keeps_def Connect_def by blast
  then show ?thesis unfolding SFTP_def by (intro looking.keeps_rules keeps_quiet laws_quiet [OF L])
qed

lemma keeps_canonicalFile:
  assumes L: "sftp_laws R host content path"
  shows "keeps (net_same content path) (canonicalFile R c host p)"
  unfolding canonicalFile_def by (intro looking.keeps_rules keeps_quiet laws_quiet [OF L])

lemma keeps_read_all:
  assumes L: "sftp_laws R host content path"
  shows "keeps (net_same content path) (read_all R host f limit)"
  unfolding read_all_def Let_def by (intro looking.keeps_rules keeps_quiet laws_quiet [OF L])

subsection \<open>The steps of a replacement\<close>

lemma law_open_read:
  "sftp_laws R host content path \<Longrightarrow> open_read R host q w = (x, w') \<Longrightarrow> content w' = content w
     \<and> (\<forall>f. x = Inr f \<longrightarrow> path w' f = q) \<and> (x = Inl NotExist \<longrightarrow> content w q = None)"
  unfolding sftp_laws_def open_read_law_def by (fastforce split: sum.splits)

lemma law_reads:
  "sftp_laws R host content path \<Longrightarrow> reads R host f 0 w = (Inr (ps, e), w') \<Longrightarrow>
     \<exists>rest. content w (path w f) = Some (concat ps @ rest) \<and> (e = None \<longrightarrow> rest = [])"
  unfolding sftp_laws_def reads_law_def by blast

lemma law_open_write:
  "sftp_laws R host content path \<Longrightarrow> open_write R host q True False w = (x, w') \<Longrightarrow>
     (\<forall>r. r \<noteq> q \<longrightarrow> content w' r = content w r) \<and> (\<forall>f. x = Inr f \<longrightarrow> content w' q = Some [] \<and> path w' f = q)"
  unfolding sftp_laws_def open_write_law_def by (fastforce split: sum.splits)

lemma law_write_at:
  "sftp_laws R host content path \<Longrightarrow> write_at R host f 0 b w = (x, w') \<Longrightarrow> path w' = path w
     \<and> (\<forall>r. r \<noteq> path w f \<longrightarrow> content w' r = content w r)
     \<and> (x = Inr () \<and> content w (path w f) = Some [] \<longrightarrow> content w' (path w f) = Some b)"
  unfolding sftp_laws_def write_law_def by blast

lemma law_rename:
  "sftp_laws R host content path \<Longrightarrow> posix_rename R host a b w = (x, w') \<or> rename R host a b w = (x, w') \<Longrightarrow>
     (\<forall>r. r \<noteq> a \<and> r \<noteq> b \<longrightarrow> content w' r = content w r)
     \<and> (content w' b = content w a \<or> x \<noteq> Inr () \<and> content w' b = content w b)"
  unfolding sftp_laws_def rename_law_def by blast

lemma law_remove:
  "sftp_laws R host content path \<Longrightarrow> remove_file R host a w = (x, w') \<Longrightarrow> \<forall>r. r \<noteq> a \<longrightarrow> content w' r = content w r"
  unfolding sftp_laws_def remove_law_def by blast

definition agree :: "string set \<Rightarrow> (string \<Rightarrow> string option) \<Rightarrow> (string \<Rightarrow> string option) \<Rightarrow> bool" where
  "agree S g c \<longleftrightarrow> (\<forall>q \<in> S. c q = g q)"

lemma agree_other: "agree S g c \<Longrightarrow> \<forall>r. r \<noteq> q \<longrightarrow> c' r = c r \<Longrightarrow> q \<notin> S \<Longrightarrow> agree S g c'"
  by (auto simp: agree_def)

lemma spec_error_same:
  "spec P m P (\<lambda>_. P) \<Longrightarrow> (\<And>s. P s \<Longrightarrow> E s) \<Longrightarrow> spec P m E (\<lambda>_. P)"
  by (rule spec_weaken)

lemma write_close_spec:
  assumes L: "sftp_laws R host content path" and q: "q \<notin> S"
  shows "spec (holds content path (\<lambda>c h. agree S g c \<and> h f = q \<and> c q = Some [])) (write_close R host f b)
     (holds content path (\<lambda>c _. agree S g c)) (\<lambda>_. holds content path (\<lambda>c _. agree S g c \<and> c q = Some b))"
  unfolding write_close_def
proof (intro spec_andThen spec_attempt)
  let ?W = "\<lambda>e :: err + unit. holds content path (\<lambda>c _. agree S g c \<and> (e = Inr () \<longrightarrow> c q = Some b))"
  show "spec (holds content path (\<lambda>c h. agree S g c \<and> h f = q \<and> c q = Some [])) (on_net (write_at R host f 0 b))
     (\<lambda>s. \<forall>e. ?W (Inl e) s) (\<lambda>x. ?W (Inr x))"
    by (rule spec_weaken [OF holds_step [where P = "\<lambda>c h. agree S g c \<and> h f = q \<and> c q = Some []" and content = content
          and path = path and E = "\<lambda>c _. agree S g c" and Q = "\<lambda>_ c _. agree S g c \<and> c q = Some b"]])
      (use q in \<open>auto simp: holds_def dest!: law_write_at [OF L] intro: agree_other\<close>)
  fix e :: "err + unit"
  show "spec (?W e) (on_net (close_file R host f)) (\<lambda>s. \<forall>ce. ?W e s) (\<lambda>x. ?W e)"
    by (rule spec_weaken [OF holds_quiet]) (use laws_quiet [OF L] in auto)
  show "spec (?W e) (outcome e) (holds content path (\<lambda>c _. agree S g c))
      (\<lambda>_. holds content path (\<lambda>c _. agree S g c \<and> c q = Some b))" for ce :: "err + unit"
    by (rule spec_outcome) (auto simp: holds_def)
  show "spec (holds content path (\<lambda>c _. agree S g c \<and> c q = Some b)) (outcome ce) (holds content path (\<lambda>c _. agree S g c))
      (\<lambda>_. holds content path (\<lambda>c _. agree S g c \<and> c q = Some b))" for ce :: "err + unit"
    by (rule spec_outcome) (auto simp: holds_def)
qed

lemma open_write_spec:
  assumes L: "sftp_laws R host content path" and q: "q \<notin> S"
  shows "spec (holds content path (\<lambda>c _. agree S g c)) (on_net (open_write R host q True False))
     (holds content path (\<lambda>c _. agree S g c)) (\<lambda>f. holds content path (\<lambda>c h. agree S g c \<and> h f = q \<and> c q = Some []))"
  by (rule holds_step) (use q in \<open>auto dest!: law_open_write [OF L] intro: agree_other\<close>)

lemma write_backup_spec:
  assumes L: "sftp_laws R host content path" and q: "q \<notin> S"
  shows "spec (holds content path (\<lambda>c _. agree S g c)) (write_backup R host q old)
     (holds content path (\<lambda>c _. agree S g c)) (\<lambda>_. holds content path (\<lambda>c _. agree S g c \<and> c q = Some old))"
  unfolding write_backup_def
proof (intro spec_andThen spec_attempt)
  let ?O = "\<lambda>f. holds content path (\<lambda>c h. agree S g c \<and> h f = q \<and> c q = Some [])"
  show "spec (holds content path (\<lambda>c _. agree S g c)) (on_net (open_write R host q True False))
      (holds content path (\<lambda>c _. agree S g c)) ?O"
    by (rule open_write_spec [OF L q])
  show "spec (?O f) (on_net (chmod R host f 384)) (\<lambda>s. \<forall>e. ?O f s) (\<lambda>_. ?O f)" for f
    by (rule spec_weaken [OF holds_quiet]) (use laws_quiet [OF L] in auto)
  show "spec (?O f) (write_close R host f old) (holds content path (\<lambda>c _. agree S g c))
      (\<lambda>_. holds content path (\<lambda>c _. agree S g c \<and> c q = Some old))" for f and u :: "err + unit"
    by (rule write_close_spec [OF L q])
qed

lemma put_in_place_spec:
  assumes L: "sftp_laws R host content path" and S: "p \<notin> S" "tmp \<notin> S" "p \<noteq> tmp"
  shows "spec (holds content path (\<lambda>c _. agree S g c \<and> c p = now \<and> c tmp = Some b)) (put_in_place R host tmp p exists)
     (holds content path (\<lambda>c _. agree S g c \<and> c p \<in> {now, Some b})) (\<lambda>_. holds content path (\<lambda>c _. agree S g c \<and> c p = Some b))"
  unfolding put_in_place_def
proof (intro spec_andThen spec_if)
  let ?P = "holds content path (\<lambda>c _. agree S g c \<and> c p = now \<and> c tmp = Some b)"
  let ?E = "holds content path (\<lambda>c _. agree S g c \<and> c p \<in> {now, Some b})"
  let ?Q = "\<lambda>_. holds content path (\<lambda>c _. agree S g c \<and> c p = Some b)"
  have E: "?P m \<Longrightarrow> ?E m" for m by (simp add: holds_def)
  show "spec ?P Err ?E (\<lambda>_. ?P)" by (rule spec_error_same [OF holds_looking [OF keeps_Err] E])
  show "spec ?P (on_net (has_posix_rename R host)) ?E (\<lambda>_. ?P)"
    by (rule spec_error_same [OF holds_quiet E]) (use laws_quiet [OF L] in auto)
  show "spec ?P (throw e) ?E ?Q" for e by (rule spec_throw [OF E])
  show "spec ?P (on_net (posix_rename R host tmp p)) ?E ?Q"
    by (rule holds_step; drule law_rename [OF L disjI1]) (use S in \<open>auto simp: agree_def; metis\<close>)+
  show "spec ?P (on_net (rename R host tmp p)) ?E ?Q"
    by (rule holds_step; drule law_rename [OF L disjI2]) (use S in \<open>auto simp: agree_def; metis\<close>)+
qed

lemma write_temporary_spec:
  assumes L: "sftp_laws R host content path" and S: "p \<notin> S" "tmp \<notin> S" "p \<noteq> tmp"
  shows "spec (holds content path (\<lambda>c _. agree S g c \<and> c p = now))
     (write_temporary R host tmp mode b (put_in_place R host tmp p exists))
     (holds content path (\<lambda>c _. agree S g c \<and> c p \<in> {now, Some b})) (\<lambda>_. holds content path (\<lambda>c _. agree S g c \<and> c p = Some b))"
  unfolding write_temporary_def
proof -
  let ?T = "insert p S"
  let ?g = "g(p := now)"
  have T: "agree ?T ?g c \<longleftrightarrow> agree S g c \<and> c p = now" for c
    using S by (auto simp: agree_def)
  have tmp: "tmp \<notin> ?T" using S by simp
  let ?P = "holds content path (\<lambda>c _. agree S g c \<and> c p = now)"
  let ?O = "\<lambda>f. holds content path (\<lambda>c h. agree ?T ?g c \<and> h f = tmp \<and> c tmp = Some [])"
  let ?E = "holds content path (\<lambda>c _. agree S g c \<and> c p \<in> {now, Some b})"
  let ?Q = "\<lambda>_. holds content path (\<lambda>c _. agree S g c \<and> c p = Some b)"
  have PE: "?P m \<Longrightarrow> ?E m" and OE: "?O f m \<Longrightarrow> ?E m" for m f by (simp_all add: holds_def T)
  have opened: "spec ?P (on_net (open_write R host tmp True False)) ?E ?O"
    by (rule holds_weaken [OF open_write_spec [OF L tmp, of ?g]]) (simp_all add: T)
  have body: "spec (?O f) (andThen (attempt (on_net (chmod R host f mode))) (\<lambda>e.
      case e of Inl e \<Rightarrow> andThen (attempt (on_net (close_file R host f))) (\<lambda>_. throw e)
      | Inr _ \<Rightarrow> andThen (write_close R host f b) (\<lambda>_. put_in_place R host tmp p exists))) ?E ?Q" for f
  proof (rule spec_andThen [OF spec_attempt [where Q = "\<lambda>_. ?O f"]])
    show "spec (?O f) (on_net (chmod R host f mode)) (\<lambda>s. \<forall>e. ?O f s) (\<lambda>_. ?O f)"
      by (rule spec_weaken [OF holds_quiet]) (use laws_quiet [OF L] in auto)
    have closed: "spec (?O f) (attempt (on_net (close_file R host f))) ?E (\<lambda>_. ?O f)"
      by (rule spec_attempt, rule spec_weaken [OF holds_quiet]) (use laws_quiet [OF L] in auto)
    have written: "spec (?O f) (write_close R host f b) ?E
        (\<lambda>_. holds content path (\<lambda>c _. agree S g c \<and> c p = now \<and> c tmp = Some b))"
      by (rule holds_weaken [OF write_close_spec [OF L tmp, of ?g]]) (simp_all add: T)
    fix e :: "err + unit"
    show "spec (?O f) (case e of Inl e \<Rightarrow> andThen (attempt (on_net (close_file R host f))) (\<lambda>_. throw e)
      | Inr _ \<Rightarrow> andThen (write_close R host f b) (\<lambda>_. put_in_place R host tmp p exists)) ?E ?Q"
    proof (cases e)
      case (Inl a)
      show ?thesis unfolding Inl sum.case by (rule spec_andThen [OF closed], rule spec_throw, rule OE)
    next
      case (Inr a)
      show ?thesis unfolding Inr sum.case by (rule spec_andThen [OF written], rule put_in_place_spec [OF L S])
    qed
  qed
  have removed: "spec (holds content path (\<lambda>c _. agree S g c \<and> c p \<in> A)) (on_net (remove_file R host tmp))
      (holds content path (\<lambda>c _. agree S g c \<and> c p \<in> A)) (\<lambda>_. holds content path (\<lambda>c _. agree S g c \<and> c p \<in> A))" for A
    by (rule holds_step; drule law_remove [OF L]) (use S in \<open>auto simp: agree_def; metis\<close>)+
  show "spec ?P (andThen (on_net (open_write R host tmp True False)) (\<lambda>f. always (andThen (attempt (on_net (chmod R host f mode))) (\<lambda>e.
      case e of Inl e \<Rightarrow> andThen (attempt (on_net (close_file R host f))) (\<lambda>_. throw e)
      | Inr _ \<Rightarrow> andThen (write_close R host f b) (\<lambda>_. put_in_place R host tmp p exists)))
      (on_net (remove_file R host tmp)))) ?E ?Q"
    by (rule spec_andThen [OF opened], rule spec_always [OF body removed]) (use removed [of "{Some b}"] in simp)
qed

lemma replace_file_spec:
  assumes L: "sftp_laws R host content path"
  shows "spec (holds content path (\<lambda>c _. c p = now)) (replace_file R host p old mode b)
     (holds content path (\<lambda>c _. c p \<in> {now, Some b}))
     (\<lambda>backup. holds content path (\<lambda>c _. c p = Some b
        \<and> (case old of None \<Rightarrow> backup = [] | Some o1 \<Rightarrow> backup \<noteq> p \<and> c backup = Some o1)))"
    (is "spec ?P _ ?E ?Q")
proof -
  have P: "?P m \<Longrightarrow> ?E m" for m by (simp add: holds_def)
  have put: "spec ?P (let backup = (case old of None \<Rightarrow> [] | Some _ \<Rightarrow> p @ ''.nexshell-backup-'' @ FormatInt t);
        tmp = p @ ''.nexshell-'' @ FormatInt t
      in andThen (case old of None \<Rightarrow> ret () | Some o1 \<Rightarrow> write_backup R host backup o1) (\<lambda>_.
         andThen (write_temporary R host tmp mode b (put_in_place R host tmp p (old \<noteq> None))) (\<lambda>_. ret backup))) ?E ?Q" for t
  proof (cases old)
    case None
    show ?thesis unfolding None option.case andThen_ret Let_def
      by (rule spec_andThen [OF holds_weaken [OF write_temporary_spec [OF L, where S = "{}" and p = p and now = now]] spec_ret])
        (auto simp: agree_def holds_def)
  next
    case (Some o1)
    let ?tmp = "p @ ''.nexshell-'' @ FormatInt t"
    let ?backup = "p @ ''.nexshell-backup-'' @ FormatInt t"
    let ?g = "\<lambda>q. if q = p then now else Some o1"
    have backup: "spec ?P (write_backup R host ?backup o1) ?E (\<lambda>_. holds content path (\<lambda>c _. c p = now \<and> c ?backup = Some o1))"
      by (rule holds_weaken [OF write_backup_spec [OF L, where S = "{p}" and g = ?g]]) (auto simp: agree_def)
    have replace: "spec (holds content path (\<lambda>c _. c p = now \<and> c ?backup = Some o1))
        (write_temporary R host ?tmp mode b (put_in_place R host ?tmp p (old \<noteq> None))) ?E
        (\<lambda>_. holds content path (\<lambda>c _. c p = Some b \<and> c ?backup = Some o1))"
      by (rule holds_weaken [OF write_temporary_spec [OF L, where S = "{?backup}" and g = ?g and p = p and now = now]])
        (auto simp: agree_def)
    show ?thesis unfolding Let_def Some option.case
      by (rule spec_andThen [OF backup], rule spec_andThen [OF replace [unfolded Some]], rule spec_ret) (simp add: holds_def)
  qed
  have looked: "spec ?P Err ?E (\<lambda>_. ?P)" "spec ?P (on_db Now) ?E (\<lambda>_. ?P)"
    by (rule spec_error_same [OF holds_looking [OF keeps_Err] P], assumption)
      (rule spec_error_same [OF holds_looking [OF keeps_on_db_net] P], assumption)
  show ?thesis unfolding replace_file_def Let_def
    by (rule spec_andThen [OF looked(1)], rule spec_andThen [OF looked(2)], rule put [unfolded Let_def])
qed

text \<open>Looking before the replacement: what is read is what is there.\<close>

lemma read_old_spec:
  assumes L: "sftp_laws R host content path"
  shows "spec (holds content path (\<lambda>c h. c p = now \<and> h f = p)) (read_all R host f (Some l)) (holds content path (\<lambda>c _. c p = now))
     (\<lambda>d. holds content path (\<lambda>c _. c p = now \<and> (length d < l \<longrightarrow> now = Some d)))"
proof (rule specI)
  fix m e m' assume "holds content path (\<lambda>c h. c p = now \<and> h f = p) m" "read_all R host f (Some l) m = (Inl e, m')"
  then show "holds content path (\<lambda>c _. c p = now) m'"
    using keeps_read_all [OF L, of f "Some l"] by (auto simp: keeps_def net_same_def holds_def dest!: spec [of _ m])
next
  fix m d m' assume m: "holds content path (\<lambda>c h. c p = now \<and> h f = p) m" "read_all R host f (Some l) m = (Inr d, m')"
  then obtain ps e w where r: "reads R host f 0 (net m) = (Inr (ps, e), w)"
      and d: "l \<le> length (concat ps) \<and> d = take l (concat ps) \<or> length (concat ps) < l \<and> e = None \<and> d = concat ps"
    by (auto simp: read_all_def on_net_def Let_def elim!: andThen_Inr split: prod.splits if_splits option.splits)
  have "net_same content path m m'"
    using keeps_read_all [OF L, of f "Some l"] m(2) by (auto simp: keeps_def dest!: spec [of _ m])
  moreover have "length d < l \<Longrightarrow> now = Some d"
    using law_reads [OF L r] d m(1) by (auto simp: holds_def)
  ultimately show "holds content path (\<lambda>c _. c p = now \<and> (length d < l \<longrightarrow> now = Some d)) m'"
    using m(1) by (simp add: holds_def net_same_def)
qed

text \<open>
  The outcome of \<open>WriteFile\<close> as pre- and postcondition, where \<open>now\<close> is the content before:
  \<open>kept_or_new\<close> whatever happens, \<open>written\<close> on success.
\<close>

definition kept_or_new :: "('w \<Rightarrow> string \<Rightarrow> string option) \<Rightarrow> ('w \<Rightarrow> nat \<Rightarrow> string) \<Rightarrow> string \<Rightarrow> string option \<Rightarrow> string
    \<Rightarrow> 'w machine \<Rightarrow> bool" where
  "kept_or_new content path p now b = holds content path (\<lambda>c _. c p \<in> {now, Some b})"

definition written :: "('w \<Rightarrow> string \<Rightarrow> string option) \<Rightarrow> ('w \<Rightarrow> nat \<Rightarrow> string) \<Rightarrow> string \<Rightarrow> string option \<Rightarrow> string \<Rightarrow> string
    \<Rightarrow> string \<Rightarrow> 'w machine \<Rightarrow> bool" where
  "written content path p now expected b backup = holds content path (\<lambda>c _. c p = Some b \<and>
     (case now of None \<Rightarrow> backup = []
      | Some old \<Rightarrow> sha256_hex old = expected \<and> backup \<noteq> p \<and> c backup = Some old))"

lemma unchanged_kept: "holds content path (\<lambda>c _. c p = now) m \<Longrightarrow> kept_or_new content path p now b m"
  by (simp add: holds_def kept_or_new_def)

lemma replaced_spec:
  assumes L: "sftp_laws R host content path" and "\<And>d. now = Some d \<Longrightarrow> sha256_hex d = expected"
  shows "spec (holds content path (\<lambda>c _. c p = now)) (replace_file R host p now mode b)
     (kept_or_new content path p now b) (written content path p now expected b)"
  unfolding kept_or_new_def written_def
  by (rule holds_weaken [OF replace_file_spec [OF L, of p now now mode b]]) (auto simp: assms(2) split: option.splits)

lemma write_absent_spec:
  assumes L: "sftp_laws R host content path"
  shows "spec (holds content path (\<lambda>c h. c p = now \<and> (e = NotExist \<longrightarrow> now = None))) (write_absent R host p expected b e)
     (kept_or_new content path p now b) (written content path p now expected b)"
proof (cases "e = NotExist \<longrightarrow> now = None")
  case True
  then show ?thesis
    unfolding write_absent_def using replaced_spec [OF L, of now expected p 384 b]
    by (intro spec_if spec_throw) (auto simp: unchanged_kept)
qed (rule spec_False, simp add: holds_def)

lemma write_present_spec:
  assumes L: "sftp_laws R host content path"
  shows "spec (holds content path (\<lambda>c h. c p = now \<and> h f = p)) (write_present R host p expected b f)
     (kept_or_new content path p now b) (written content path p now expected b)"
    (is "spec ?P _ ?E ?Q")
proof -
  have stat: "spec ?P (on_net (fstat R host f)) ?E (\<lambda>_. ?P)"
    by (rule spec_error_same [OF holds_quiet]) (use laws_quiet [OF L] in \<open>auto simp: holds_def kept_or_new_def\<close>)
  have read: "spec ?P (read_all R host f (Some (max_edit + 1))) ?E
      (\<lambda>d. holds content path (\<lambda>c _. c p = now \<and> (length d < max_edit + 1 \<longrightarrow> now = Some d)))"
    by (rule spec_weaken [OF read_old_spec [OF L]]) (auto simp: unchanged_kept)
  have rest: "spec (holds content path (\<lambda>c _. c p = now \<and> (length d < max_edit + 1 \<longrightarrow> now = Some d)))
      (if length d > max_edit then throw (Msg ''the file is too large'')
       else if expected = [] \<or> sha256_hex d \<noteq> expected then throw (Msg ''the file has changed'')
       else replace_file R host p (Some d) mode b) ?E ?Q" for d mode
  proof (cases "now = Some d")
    case True
    then show ?thesis using replaced_spec [OF L, of now expected p mode b]
      by (intro spec_if spec_throw) (auto simp: unchanged_kept)
  next
    case False
    then show ?thesis by (intro spec_if spec_throw spec_False) (auto simp: holds_def kept_or_new_def)
  qed
  show ?thesis unfolding write_present_def
    by (rule spec_andThen [OF stat], unfold split_paired_all prod.case, rule spec_andThen [OF read rest])
qed

lemma WriteFile_spec:
  assumes L: "sftp_laws R host content path"
  shows "spec (holds content path (\<lambda>c _. c p = now)) (WriteFile R c host p expected b)
     (kept_or_new content path p now b) (written content path p now expected b)"
    (is "spec ?P _ ?E ?Q")
proof -
  note looked = spec_error_same [OF holds_looking unchanged_kept]
  have opened: "spec ?P (attempt (on_net (open_read R host p))) ?E (\<lambda>x. holds content path (\<lambda>c h. c p = now
      \<and> (case x of Inl e \<Rightarrow> e = NotExist \<longrightarrow> now = None | Inr f \<Rightarrow> h f = p)))"
    by (rule specI) (auto simp: attempt_def on_net_def holds_def dest!: law_open_read [OF L] split: prod.splits sum.splits)
  have body: "spec (holds content path (\<lambda>c h. c p = now \<and> (case x of Inl e \<Rightarrow> e = NotExist \<longrightarrow> now = None | Inr f \<Rightarrow> h f = p)))
      (case x of Inl e \<Rightarrow> write_absent R host p expected b e | Inr f \<Rightarrow> write_present R host p expected b f) ?E ?Q" for x
    using write_absent_spec [OF L] write_present_spec [OF L] by (cases x) simp_all
  show ?thesis unfolding WriteFile_def
    by (rule spec_andThen [OF looked [OF keeps_SFTP [OF L]]], assumption,
        rule spec_andThen [OF looked [OF keeps_canonicalFile [OF L]]], assumption,
        rule spec_if, rule spec_throw [OF unchanged_kept], assumption, rule spec_andThen [OF opened body])
qed

text \<open>
  C9: \<open>WriteFile\<close> replaces a file or leaves it: whatever fails or is cancelled on the way, the file
  then has the old or the new content.  When it returns, the content is the new one, and if
  there was a file before, its content was the expected one and is in the backup.
\<close>

theorem write_file_atomic:
  assumes "sftp_laws R host content path" and "WriteFile R c host p expected b m = (x, m')"
  shows "(content (net m') p = content (net m) p \<or> content (net m') p = Some b)
     \<and> (case x of Inl _ \<Rightarrow> True
        | Inr backup \<Rightarrow> content (net m') p = Some b
            \<and> (case content (net m) p of None \<Rightarrow> backup = []
               | Some old \<Rightarrow> sha256_hex old = expected \<and> backup \<noteq> p \<and> content (net m') backup = Some old))"
proof -
  note s = WriteFile_spec [OF assms(1), of p "content (net m) p" c expected b]
  have m: "holds content path (\<lambda>c _. c p = content (net m) p) m" by (simp add: holds_def)
  show ?thesis
  proof (cases x)
    case (Inl e)
    have "kept_or_new content path p (content (net m) p) b m'"
      by (rule specE [OF s m]) (use assms(2) Inl in simp)
    then show ?thesis by (simp add: Inl kept_or_new_def holds_def)
  next
    case (Inr backup)
    have "written content path p (content (net m) p) expected b backup m'"
      by (rule specD [OF s m]) (use assms(2) Inr in simp)
    then show ?thesis by (simp add: Inr written_def holds_def)
  qed
qed

subsection \<open>The concrete server keeps the laws\<close>

lemma demo_quiet_laws: "quiet_laws demo_server host served_content served_path"
proof -
  have same: "quiet served_content served_path (ret x)" for x :: 'a
    by (simp add: quiet_def keeps_def ret_def)
  have other: "quiet served_content served_path (\<lambda>w. (g w, w))" for g :: "served \<Rightarrow> err + 'a"
    by (simp add: quiet_def keeps_def)
  have "quiet served_content served_path (demo_reads f k)" for f k
    by (simp add: quiet_def keeps_def demo_reads_def split: option.split)
  then show ?thesis by (simp add: quiet_laws_def demo_server_def same other)
qed

lemma map_of_without: "map_of (filter (\<lambda>(q, _). q \<noteq> p) xs) r = (if r = p then None else map_of xs r)"
  by (induction xs) auto

lemma served_put: "served_content (put_content p b w) q = (if q = p then b else served_content w q)"
  by (simp add: served_content_def put_content_def map_of_without split: option.split)

lemma served_handles: "handles (put_content p b w) = handles w"
  by (simp add: put_content_def)

lemma served_path_put: "served_path (put_content p b w) = served_path w"
  by (simp add: served_path_def served_handles fun_eq_iff)

lemma served_new_handle:
  "new_handle p w = (x, w') \<Longrightarrow> served_content w' = served_content w \<and> (\<exists>f. x = Inr f \<and> served_path w' f = p)"
  by (auto simp: new_handle_def served_content_def served_path_def fun_eq_iff Let_def)

lemma demo_laws: "sftp_laws demo_server host served_content served_path"
proof -
  have "open_read_law demo_server host served_content served_path"
    by (auto simp: open_read_law_def demo_server_def dest!: served_new_handle split: if_splits)
  moreover have "reads_law demo_server host served_content served_path"
    by (simp add: reads_law_def demo_server_def demo_reads_def split: option.split)
  moreover have "open_write_law demo_server host served_content served_path"
    by (auto simp: open_write_law_def demo_server_def demo_open_write_def served_put dest!: served_new_handle
        split: if_splits option.splits)
  moreover have "write_law demo_server host served_content served_path"
    by (auto simp: write_law_def demo_server_def demo_write_def served_put served_path_put split: option.splits)
  moreover have "rename_law demo_server host served_content"
    by (auto simp: rename_law_def demo_server_def demo_rename_def served_put split: if_splits option.splits)
  moreover have "remove_law demo_server host served_content"
    by (simp add: remove_law_def demo_server_def served_put)
  ultimately show ?thesis by (simp add: sftp_laws_def demo_quiet_laws)
qed

lemma demo_stamp: "FormatInt 0 = ''0''"
  by code_simp

lemma demo_write_file:
  "\<exists>m'. WriteFile demo_server background ''h'' ''/a'' (sha256_hex ''old'') ''new'' (demo_machine [''web:22 web-key''] [(''/a'', ''old'')])
          = (Inr ''/a.nexshell-backup-0'', m')"
proof -
  have sf: "SFTP demo_server background ''h'' (demo_machine [''web:22 web-key''] fs) = (Inr (), demo_connected fs)" for fs
    unfolding SFTP_def
    by (rule trans [OF andThen_step], rule demo_connects) (simp add: on_net_def demo_server_def ret_def demo_connected_def demo_machine_def)
  have p: "IsAbs ''/a''" "Clean ''/a'' \<noteq> ''/''" by code_simp+
  have "Suc (Suc (Suc (Suc (max_edit - 4)))) = max_edit" by (simp add: max_edit_def)
  then obtain k where l: "max_edit = Suc (Suc (Suc (Suc k)))" by metis
  show ?thesis
    unfolding WriteFile_def
    by (rule exI, rule trans [OF andThen_step], rule sf)
      (simp add: p l canonicalFile_def background_def write_present_def read_all_def replace_file_def write_backup_def
        write_close_def write_temporary_def put_in_place_def demo_connected_def demo_machine_def demo_server_def
        demo_open_write_def demo_rename_def demo_reads_def demo_write_def served_content_def served_path_def put_content_def
        new_handle_def Let_def Now_def Err_def on_reading_def ctx_Err_def on_db_def on_net_def as_msg_def andThen_def
        attempt_def always_def outcome_def ret_def demo_stamp)
qed

theorem write_file_atomic_witness:
  "\<exists>m'. WriteFile demo_server background ''h'' ''/a'' (sha256_hex ''old'') ''new'' (demo_machine [''web:22 web-key''] [(''/a'', ''old'')])
          = (Inr ''/a.nexshell-backup-0'', m')
     \<and> served_content (net m') ''/a'' = Some ''new'' \<and> served_content (net m') ''/a.nexshell-backup-0'' = Some ''old''"
proof -
  let ?m = "demo_machine [''web:22 web-key''] [(''/a'', ''old'')]"
  obtain m' where "WriteFile demo_server background ''h'' ''/a'' (sha256_hex ''old'') ''new'' ?m = (Inr ''/a.nexshell-backup-0'', m')"
    using demo_write_file by blast
  moreover from write_file_atomic [OF demo_laws this] have "served_content (net m') ''/a'' = Some ''new''"
      "served_content (net m') ''/a.nexshell-backup-0'' = Some ''old''"
    by (simp_all add: demo_machine_def served_content_def)
  ultimately show ?thesis by blast
qed

end
