(* ===== verification/Command.thy ===== *)
theory Command
  imports Connection
begin

text \<open>
  Commands for a server's shell: quoting (\<open>internal/remote/connection.go\<close>, \<open>session.go\<close>), the
  commands built for the agent's operations (\<open>executor.go\<close>), command snippets
  (\<open>snippets.go\<close>) and running a command (\<open>session.go\<close>).

  \<open>shell_words\<close> is what the shell makes of a command without expansions, from the POSIX rules
  for quotes and words: it gives the words of a simple command, and nothing when the text is not
  one (an operator, an expansion, an unfinished quote).  It is the reference the quoting is
  proved against.
\<close>

subsection \<open>Quoting\<close>

definition apostrophe :: char where
  "apostrophe = CHR 0x27"

definition replaceQuotes :: "string \<Rightarrow> string" where
  "replaceQuotes s = ReplaceAll s [apostrophe] [apostrophe, CHR 0x22, apostrophe, CHR 0x22, apostrophe]"

definition Quote :: "string \<Rightarrow> string" where
  "Quote s = [apostrophe] @ replaceQuotes s @ [apostrophe]"

subsection \<open>Commands of operations\<close>

definition name_start :: "char \<Rightarrow> bool" where
  "name_start c \<longleftrightarrow> code_in 97 122 c \<or> code_in 65 90 c \<or> code_in 48 57 c"

text \<open>The regular expression \<open>resourceName\<close>.\<close>

definition resourceName :: "string \<Rightarrow> bool" where
  "resourceName s \<longleftrightarrow> s \<noteq> [] \<and> name_start (hd s) \<and> (\<forall>c \<in> set s. name_start c \<or> c \<in> set ''_.@:+-'')"

definition Mutates :: "string \<Rightarrow> bool" where
  "Mutates op \<longleftrightarrow> op \<in> {''upload_local'', ''terminal_write'', ''file_write'', ''service_restart'', ''package_install'', ''shell''}"

definition newline :: string where
  "newline = [CHR 0x0A]"

definition script_newline :: string where
  "script_newline = [CHR 0x5C] @ ''n''"

definition monitorScript :: string where
  "monitorScript = concat (map (\<lambda>l. l @ newline)
     [''export LC_ALL=C'',
      ''section() { printf '' @ [apostrophe] @ script_newline @ ''@@%s'' @ script_newline @ [apostrophe] @ '' '' @ [CHR 0x22] @ ''$1''
        @ [CHR 0x22] @ ''; shift; '' @ [CHR 0x22] @ ''$@'' @ [CHR 0x22] @ '' 2>&1; printf '' @ [apostrophe] @ script_newline @ ''@@exit:%s''
        @ script_newline @ [apostrophe] @ '' '' @ [CHR 0x22] @ ''$?'' @ [CHR 0x22] @ ''; }'',
      ''section cpu cat /proc/stat'', ''section memory cat /proc/meminfo'', ''section load cat /proc/loadavg'',
      ''section network cat /proc/net/dev'', ''section disks df -Pk'',
      ''section processes ps -eo pid,user,pcpu,pmem,comm --sort=-pcpu'', ''section ports ss -tunap'',
      ''section system uname -a'', ''section uptime cat /proc/uptime''])"

text \<open>The command that installs a package with whichever package manager there is.\<close>

definition install_command :: "string \<Rightarrow> string" where
  "install_command name =
     ''if command -v apt-get >/dev/null 2>&1; then DEBIAN_FRONTEND=noninteractive apt-get install -y -- '' @ Quote name
     @ ''; elif command -v dnf >/dev/null 2>&1; then dnf install -y -- '' @ Quote name
     @ ''; else printf '' @ [apostrophe] @ ''%s'' @ script_newline @ [apostrophe] @ '' '' @ [apostrophe]
     @ map char_of [228 :: nat, 184, 141, 230, 148, 175, 230, 140, 129, 231, 154, 132, 232, 189, 175, 228, 187, 182, 229, 140, 133, 231,
                    174, 161, 231, 144, 134, 229, 153, 168]
     @ [apostrophe] @ '' >&2; exit 127; fi''"

definition BuildCommand :: "request \<Rightarrow> err + string" where
  "BuildCommand r =
     (if Operation r = ''observe'' then Inr monitorScript
      else if Operation r = ''service_status'' \<or> Operation r = ''service_restart''
      then (if \<not> resourceName (Resource r) then Inl (Msg ''invalid service name'')
            else Inr (''systemctl --no-pager '' @ (if Operation r = ''service_restart'' then ''restart'' else ''status'')
                      @ '' -- '' @ Quote (Resource r)))
      else if Operation r = ''logs''
      then (if \<not> resourceName (Resource r) then Inl (Msg ''invalid service name'')
            else Inr (''journalctl --no-pager -n 150 -u '' @ Quote (Resource r)))
      else if Operation r = ''package_install''
      then (if \<not> resourceName (Resource r) \<or> HasPrefix (Resource r) ''-'' then Inl (Msg ''invalid package name'')
            else Inr (install_command (Resource r)))
      else if Operation r = ''shell''
      then (if TrimSpace (Command r) = [] then Inl (Msg ''the command is empty'') else Inr (Command r))
      else Inl (Msg (''unsupported operation: '' @ Operation r)))"

subsection \<open>Snippets\<close>

text \<open>
  The parameters of a template, \<open>{{name}}\<close>: the template as characters and parameter names, as the
  matches of \<open>parameterPattern\<close> from the left cut it.
\<close>

datatype piece = Literal char | Param string

definition param_start :: "char \<Rightarrow> bool" where
  "param_start c \<longleftrightarrow> code_in 97 122 c \<or> code_in 65 90 c \<or> c = CHR ''_''"

definition param_char :: "char \<Rightarrow> bool" where
  "param_char c \<longleftrightarrow> param_start c \<or> code_in 48 57 c"

definition param_at :: "string \<Rightarrow> string option" where
  "param_at s =
     (let name = takeWhile param_char (drop 2 s)
      in if HasPrefix s ''{{'' \<and> name \<noteq> [] \<and> param_start (hd name) \<and> HasPrefix (drop (2 + length name) s) ''}}''
         then Some name else None)"

function snippet :: "string \<Rightarrow> piece list" where
  "snippet s =
     (case s of [] \<Rightarrow> []
      | c # cs \<Rightarrow> (case param_at s of
          Some name \<Rightarrow> Param name # snippet (drop (length name + 4) s)
        | None \<Rightarrow> Literal c # snippet cs))"
  by pat_completeness auto
termination by (relation "measure length") auto

declare snippet.simps [simp del]

fun param_name :: "piece \<Rightarrow> string list" where
  "param_name (Param n) = [n]" | "param_name (Literal _) = []"

definition Parameters :: "string \<Rightarrow> string list" where
  "Parameters template = sort (remdups (concat (map param_name (snippet template))))"

fun expand_piece :: "(string \<Rightarrow> string option) \<Rightarrow> piece \<Rightarrow> string" where
  "expand_piece vals (Literal c) = [c]"
| "expand_piece vals (Param n) = Quote (case vals n of None \<Rightarrow> [] | Some v \<Rightarrow> v)"

definition ExpandSnippet :: "string \<Rightarrow> (string \<Rightarrow> string option) \<Rightarrow> err + string" where
  "ExpandSnippet template vals =
     (case find (\<lambda>n. vals n = None) (Parameters template) of
        Some n \<Rightarrow> Inl (Msg (''missing parameter '' @ n))
      | None \<Rightarrow> Inr (concat (map (expand_piece vals) (snippet template))))"

subsection \<open>What the shell makes of it\<close>

datatype quoting = Bare | Single | Double

text \<open>
  \<open>w\<close> is the word under way, if one has begun.  A parameter outside quotes adds exactly its value to
  the word it stands in: this is what a template means.
\<close>

fun add :: "string option \<Rightarrow> string \<Rightarrow> string option" where
  "add None v = Some v"
| "add (Some w) v = Some (w @ v)"

definition special :: "char \<Rightarrow> bool" where
  "special c \<longleftrightarrow> c \<in> set ''|&;<>()$*?[]#~=%!{}^'' \<or> c \<in> {CHR 0x5C, CHR 0x60, CHR 0x0A}"

fun lex :: "(string \<Rightarrow> string option) \<Rightarrow> quoting \<Rightarrow> string option \<Rightarrow> piece list \<Rightarrow> string list option" where
  "lex vals q w [] = (if q = Bare then Some (case w of None \<Rightarrow> [] | Some v \<Rightarrow> [v]) else None)"
| "lex vals q w (Param n # ps) =
     (case (q, vals n) of (Bare, Some v) \<Rightarrow> lex vals Bare (add w v) ps | _ \<Rightarrow> None)"
| "lex vals Single w (Literal c # ps) =
     (if c = apostrophe then lex vals Bare w ps else lex vals Single (add w [c]) ps)"
| "lex vals Double w (Literal c # ps) =
     (if c = CHR 0x22 then lex vals Bare w ps
      else if c \<in> {CHR 0x5C, CHR 0x60, CHR 0x24} then None
      else lex vals Double (add w [c]) ps)"
| "lex vals Bare w (Literal c # ps) =
     (if c = apostrophe then lex vals Single (add w []) ps
      else if c = CHR 0x22 then lex vals Double (add w []) ps
      else if c = CHR '' '' \<or> c = CHR 0x09
      then (case w of None \<Rightarrow> lex vals Bare None ps | Some v \<Rightarrow> map_option ((#) v) (lex vals Bare None ps))
      else if special c then None
      else lex vals Bare (add w [c]) ps)"

definition shell_words :: "string \<Rightarrow> string list option" where
  "shell_words s = lex (\<lambda>_. None) Bare None (map Literal s)"

lemma Split_char:
  "Split (c # s) [d] = (if c = d then [] # Split s [d] else (c # hd (Split s [d])) # tl (Split s [d]))"
proof -
  have "Index (c # s) [d] = (if c = d then Some 0 else map_option Suc (Index s [d]))"
    by (simp add: HasPrefix_def split: option.split)
  then show ?thesis
    by (subst Split.simps) (simp add: Split.simps [of s "[d]"] split: option.split)
qed

lemma Split_Nil: "Split [] [d] = [[]]"
  by (subst Split.simps) simp

lemma Split_around: "Split (s @ d # t) [d] = Split s [d] @ Split t [d]"
proof (induction s)
  case (Cons c s)
  show ?case by (cases "Split s [d]") (auto simp: Split_char Cons.IH)
qed (simp add: Split_char Split_Nil)

lemma Split_alone: "d \<notin> set s \<Longrightarrow> Split s [d] = [s]"
  by (induction s) (auto simp: Split_char Split_Nil)

lemma ReplaceAll_char: "ReplaceAll s [d] new = concat (map (\<lambda>c. if c = d then new else [c]) s)"
proof (induction s)
  case Nil
  show ?case by (simp add: ReplaceAll_def Split.simps)
next
  case (Cons c s)
  obtain x xs where "Split s [d] = x # xs" using Split_not_Nil [of s "[d]"] by (cases "Split s [d]") auto
  then show ?case using Cons by (cases xs) (auto simp: ReplaceAll_def Split_char)
qed

lemma add_add: "add (add w u) v = add w (u @ v)"
  by (cases w) simp_all

lemma lex_inside:
  "lex vals Single (add w u) (map Literal (replaceQuotes s @ apostrophe # rest))
     = lex vals Bare (add w (u @ s)) (map Literal rest)"
proof (induction s arbitrary: u)
  case Nil
  show ?case by (simp add: replaceQuotes_def ReplaceAll_char)
next
  case (Cons c s)
  then show ?case
    by (cases "c = apostrophe") (simp_all add: replaceQuotes_def ReplaceAll_char add_add apostrophe_def)
qed

text \<open>A quoted string is one word, or part of one, whatever it holds.\<close>

lemma lex_Quote:
  "lex vals Bare w (map Literal (Quote v @ rest)) = lex vals Bare (add w v) (map Literal rest)"
  using lex_inside [of vals w "[]" v rest] by (simp add: Quote_def)

lemma lex_Literals: "lex vals q w (map Literal s) = lex vals' q w (map Literal s)"
  by (induction s arbitrary: q w; case_tac q; case_tac w) auto

lemma lex_expand:
  assumes "\<And>n. Param n \<in> set ps \<Longrightarrow> vals n \<noteq> None" and "lex vals q w ps = Some ws"
  shows "lex vals q w (map Literal (concat (map (expand_piece vals) ps))) = Some ws"
  using assms
proof (induction ps arbitrary: q w ws)
  case (Cons p ps)
  show ?case
  proof (cases p)
    case (Param n)
    obtain v where v: "vals n = Some v" using Cons.prems(1) [of n] Param by auto
    then show ?thesis using Cons Param by (cases q) (simp_all add: lex_Quote [unfolded map_append])
  next
    case (Literal c)
    then show ?thesis using Cons by (cases q) (auto split: if_splits option.splits)
  qed
qed simp

text \<open>
  C17: Expanding a snippet keeps the meaning of the template: when its parameters stand outside
  quotes, the shell reads the expansion as the words of the template with each value, whatever
  it holds, in the place of its parameter.
\<close>

theorem snippet_keeps_words:
  assumes "ExpandSnippet template vals = Inr out"
    and "lex vals Bare None (snippet template) = Some ws"
  shows "shell_words out = Some ws"
proof -
  have "vals n \<noteq> None" if "Param n \<in> set (snippet template)" for n
  proof -
    have "n \<in> set (Parameters template)" using that by (force simp: Parameters_def)
    then show ?thesis using assms(1) by (auto simp: ExpandSnippet_def find_None_iff split: option.splits)
  qed
  then show ?thesis
    using lex_expand [of "snippet template" vals Bare None ws] assms
    unfolding shell_words_def by (subst lex_Literals [of _ _ _ _ vals]) (auto simp: ExpandSnippet_def split: option.splits)
qed

definition demo_template :: string where
  "demo_template = ''grep -- {{pattern}} {{file}}''"

definition demo_values :: "string \<Rightarrow> string option" where
  "demo_values = map_of [(''pattern'', ''a'' @ [apostrophe] @ ''; touch x''), (''file'', ''a b'')]"

theorem snippet_keeps_words_witness:
  "\<exists>out. ExpandSnippet demo_template demo_values = Inr out
     \<and> shell_words out = Some [''grep'', ''--'', ''a'' @ [apostrophe] @ ''; touch x'', ''a b'']"
proof -
  have out: "ExpandSnippet demo_template demo_values
      = Inr (''grep -- '' @ Quote (''a'' @ [apostrophe] @ ''; touch x'') @ '' '' @ Quote ''a b'')" by code_simp
  have "lex demo_values Bare None (snippet demo_template) = Some [''grep'', ''--'', ''a'' @ [apostrophe] @ ''; touch x'', ''a b'']"
    by code_simp
  with out snippet_keeps_words [OF out] show ?thesis by blast
qed

text \<open>
  A command built for a service is one call with fixed words and the name of the service as
  the last one.
\<close>

theorem service_command_words:
  assumes "BuildCommand r = Inr cmd" and "Operation r \<in> {''service_status'', ''service_restart'', ''logs''}"
  shows "shell_words cmd =
    Some ((if Operation r = ''logs'' then [''journalctl'', ''--no-pager'', ''-n'', ''150'', ''-u'']
           else [''systemctl'', ''--no-pager'', if Operation r = ''service_restart'' then ''restart'' else ''status'', ''--''])
          @ [Resource r])"
proof -
  have one: "lex (\<lambda>_. None) Bare None (map Literal (Quote v)) = Some [v]" for v
    using lex_Quote [of "\<lambda>_. None" None v "[]"] by simp
  show ?thesis using assms
    by (auto simp: BuildCommand_def shell_words_def one apostrophe_def special_def split: if_splits)
qed

theorem service_command_words_witness:
  "\<exists>cmd. BuildCommand ((demo_request [])\<lparr>Operation := ''logs'', Resource := ''ssh.service''\<rparr>) = Inr cmd
     \<and> shell_words cmd = Some [''journalctl'', ''--no-pager'', ''-n'', ''150'', ''-u'', ''ssh.service'']"
proof -
  let ?r = "(demo_request [])\<lparr>Operation := ''logs'', Resource := ''ssh.service''\<rparr>"
  have "resourceName ''ssh.service''" by code_simp
  then have "BuildCommand ?r = Inr (''journalctl --no-pager -n 150 -u '' @ Quote ''ssh.service'')"
    by (simp add: BuildCommand_def)
  with service_command_words [OF this] show ?thesis by simp
qed

text \<open>A parameter inside quotes ends them: its value is read as part of the command.\<close>

lemma quoted_parameter_escapes:
  "ExpandSnippet ([apostrophe] @ ''{{x}}'' @ [apostrophe]) (map_of [(''x'', ''a; reboot'')])
     = Inr ([apostrophe, apostrophe] @ ''a; reboot'' @ [apostrophe, apostrophe])"
  by code_simp

subsection \<open>Running a command\<close>

text \<open>
  The outcome of a command is the exit code and the error, both as Go returns them.  \<open>write\<close> is
  the writer given for both outputs, with its own state; the copy of an output ends with the
  first error of the writer, and \<open>Wait\<close> reports that error when the command itself had none.
\<close>

definition exitStatus :: "err option \<Rightarrow> int \<times> err option" where
  "exitStatus e =
     (case e of None \<Rightarrow> (0, None) | Some (ExitStatus n) \<Rightarrow> (n, Some (ExitStatus n)) | Some e \<Rightarrow> (- 1, Some e))"

fun copy_output :: "('c \<Rightarrow> string \<Rightarrow> ('w, 'c \<times> err option) mact) \<Rightarrow> 'c \<Rightarrow> err option \<Rightarrow> err option \<Rightarrow> (bool \<times> string) list
    \<Rightarrow> ('w, 'c \<times> err option) mact" where
  "copy_output write w out er [] = ret (w, case out of Some e \<Rightarrow> Some e | None \<Rightarrow> er)"
| "copy_output write w out er ((o1, b) # bs) =
     (if (if o1 then out else er) \<noteq> None then copy_output write w out er bs
      else andThen (write w b) (\<lambda>(w1, e). copy_output write w1 (if o1 then e else out) (if o1 then er else e) bs))"

definition run_command :: "'w outside \<Rightarrow> 'w call \<Rightarrow> string \<Rightarrow> string \<Rightarrow> ('c \<Rightarrow> string \<Rightarrow> ('w, 'c \<times> err option) mact) \<Rightarrow> 'c
    \<Rightarrow> ('w, int \<times> err option \<times> 'c) mact" where
  "run_command R c host cmd write w =
     andThen (attempt (Connect R c host)) (\<lambda>x.
       case x of Inl e \<Rightarrow> ret (- 1, Some e, w)
       | Inr _ \<Rightarrow> andThen (attempt (on_net (start_command R host cmd))) (\<lambda>x.
           case x of Inl e \<Rightarrow> ret (- 1, Some e, w)
           | Inr _ \<Rightarrow> andThen (on_net (\<lambda>w. case run_output R host w of (x, w') \<Rightarrow> (Inr x, w'))) (\<lambda>(chunks, ended).
               andThen (copy_output write w None None chunks) (\<lambda>(w1, ce).
                 case ended of
                   Inl _ \<Rightarrow> ret (- 1, Some (Msg ''the remote outcome is not confirmed''), w1)
                 | Inr we \<Rightarrow> (case exitStatus (case we of Some e \<Rightarrow> Some e | None \<Rightarrow> ce) of
                     (code, e) \<Rightarrow> ret (code, e, w1))))))"

end
