(* ===== verification/Terminals.thy ===== *)
theory Terminals
  imports Command
begin

text \<open>
  \<open>internal/remote/desktop.go\<close>: the terminals of the workspace the agent may look at and type into.

  A terminal is the view and the writer the user interface registered for it.  Its \<open>t_writes\<close> say
  what becomes of the successive writes; \<open>Stuck n\<close> is a write that took \<open>n\<close> bytes and had not
  returned when the context ended.
\<close>

text \<open>\<open>[]rune(s)\<close>: the encodings of the runes, U+FFFD for a byte that starts none.\<close>

function runes :: "string \<Rightarrow> string list" where
  "runes s =
     (if s = [] then []
      else if utf8_width s = 0 then map char_of [0xEF :: nat, 0xBF, 0xBD] # runes (tl s)
      else take (utf8_width s) s # runes (drop (utf8_width s) s))"
  by pat_completeness auto
termination by (relation "measure length") (simp_all del: length_drop add: utf8_width_drop)

declare runes.simps [simp del]

record terminal_info =
  ti_ID :: string
  ti_HostID :: string
  ti_Active :: bool

definition terminal_info_json :: "terminal_info \<Rightarrow> json" where
  "terminal_info_json i =
     JObj [(''terminal_id'', JStr (ti_ID i)), (''host_id'', JStr (ti_HostID i)), (''active'', JBool (ti_Active i))]"

definition set_terms :: "(terminals \<Rightarrow> terminals) \<Rightarrow> ('w, unit) mact" where
  "set_terms f = (\<lambda>m. (Inr (), m\<lparr>terms := f (terms m)\<rparr>))"

definition Register :: "string \<Rightarrow> terminal \<Rightarrow> ('w, string) mact" where
  "Register host t =
     andThen (on_db NewID) (\<lambda>i.
     andThen (set_terms (\<lambda>d. d\<lparr>sessions := sessions d @ [(i, t\<lparr>t_host := host\<rparr>)]\<rparr>)) (\<lambda>_. ret i))"

definition Remove_terminal :: "string \<Rightarrow> ('w, unit) mact" where
  "Remove_terminal i =
     set_terms (\<lambda>d. d\<lparr>sessions := filter (\<lambda>(j, _). j \<noteq> i) (sessions d),
                      active_terminal := (if active_terminal d = i then [] else active_terminal d)\<rparr>)"

definition Select_terminal :: "string \<Rightarrow> ('w, unit) mact" where
  "Select_terminal i = set_terms (\<lambda>d. d\<lparr>active_terminal := i\<rparr>)"

text \<open>The terminals of the given hosts, in the order of registration where Go's map has none.\<close>

definition List_terminals :: "terminals \<Rightarrow> string list \<Rightarrow> terminal_info list" where
  "List_terminals d hosts =
     map (\<lambda>(i, t). \<lparr>ti_ID = i, ti_HostID = t_host t, ti_Active = (i = active_terminal d)\<rparr>)
       (filter (\<lambda>(i, t). t_host t \<in> set hosts \<and> t_alive t) (sessions d))"

definition put_terminal :: "string \<Rightarrow> terminal \<Rightarrow> ('w, unit) mact" where
  "put_terminal i t = set_terms (\<lambda>d. d\<lparr>sessions := map (\<lambda>(j, u). (j, if j = i then t else u)) (sessions d)\<rparr>)"

definition type_into :: "string \<Rightarrow> terminal \<Rightarrow> string \<Rightarrow> ('w, unit) mact" where
  "type_into i t b =
     (let took = (\<lambda>n. put_terminal i (t\<lparr>t_received := t_received t @ take n b, t_writes := drop 1 (t_writes t)\<rparr>))
      in case t_writes t of
           Short n # _ \<Rightarrow>
             andThen (took n) (\<lambda>_. if n < length b then throw (Msg ''short write'') else ret ())
         | Failed e # _ \<Rightarrow> andThen (took 0) (\<lambda>_. throw e)
         | Stuck n # _ \<Rightarrow> andThen (took n) (\<lambda>_. throw (Msg ''the delivery of the input is unknown''))
         | _ \<Rightarrow> took (length b))"

definition terminal_connect :: "'w outside \<Rightarrow> request \<Rightarrow> ('w, string) mact" where
  "terminal_connect R r =
     (case open_terminal R of
        None \<Rightarrow> throw (Msg ''no terminal workbench'')
      | Some f \<Rightarrow>
          andThen (on_net (f (HostID r))) (\<lambda>t.
          andThen (Register (HostID r) t) (\<lambda>i.
            ret (render (terminal_info_json \<lparr>ti_ID = i, ti_HostID = HostID r, ti_Active = False\<rparr>)))))"

definition Perform :: "'w outside \<Rightarrow> request \<Rightarrow> ('w, string) mact" where
  "Perform R r =
     andThen Err (\<lambda>_.
       if Operation r = ''terminal_connect'' then terminal_connect R r
       else andThen (asks (\<lambda>m. map_of (sessions (terms m)) (Resource r))) (\<lambda>x.
         case x of
           None \<Rightarrow> throw (Msg ''the terminal is closed or of another server'')
         | Some t \<Rightarrow>
             if t_host t \<noteq> HostID r \<or> \<not> t_alive t then throw (Msg ''the terminal is closed or of another server'')
             else if Operation r = ''terminal_read''
             then (let rs = runes (t_screen t) in ret (concat (drop (length rs - 16000) rs)))
             else if Operation r = ''terminal_write''
             then (if Content r = [] \<or> 16384 < length (Content r) then throw (Msg ''terminal input must be 1 to 16384 bytes'')
                   else andThen (type_into (Resource r) t (Content r)) (\<lambda>_.
                        ret ''the input was sent to the terminal; this does not mean that the command ended or succeeded''))
             else throw (Msg ''unknown terminal operation'')))"

subsection \<open>Input goes only where it is asked to\<close>

lemma terms_Err [simp]: "terms (snd (Err m)) = terms m"
  by (cases "ctx_Err (st_ctx (staged m))") (auto simp: Err_def on_reading_def as_msg_def split: sum.split)

lemma Err_terms: "Err m = (x, m') \<Longrightarrow> terms m' = terms m"
  using terms_Err [of m] by simp

definition received :: "terminals \<Rightarrow> string \<Rightarrow> string" where
  "received d i = (case map_of (sessions d) i of None \<Rightarrow> [] | Some t \<Rightarrow> t_received t)"

lemma map_of_put:
  "map_of (map (\<lambda>(j, u). (j, if j = i then t else u)) xs) k
     = (if k = i \<and> map_of xs k \<noteq> None then Some t else map_of xs k)"
  by (induction xs) auto

lemma type_into_reaches:
  assumes "type_into i t b m = (x, m')" and "map_of (sessions (terms m)) i = Some t"
  shows "\<exists>n. received (terms m') = (received (terms m))(i := received (terms m) i @ take n b)
     \<and> (\<forall>u. x = Inr u \<longrightarrow> length b \<le> n)"
proof -
  let ?took = "\<lambda>n. put_terminal i (t\<lparr>t_received := t_received t @ take n b, t_writes := drop 1 (t_writes t)\<rparr>)"
  have took: "\<exists>m1. ?took n m = (Inr (), m1) \<and> received (terms m1) = (received (terms m))(i := received (terms m) i @ take n b)" for n
    using assms(2) by (auto simp: put_terminal_def set_terms_def received_def map_of_put fun_eq_iff)
  show ?thesis
  proof (cases "t_writes t")
    case Nil
    then show ?thesis using assms(1) took [of "length b"]
      by (intro exI [of _ "length b"]) (auto simp: type_into_def)
  next
    case (Cons w ws)
    show ?thesis
    proof (cases w)
      case Delivered
      then show ?thesis using assms(1) Cons took [of "length b"]
      by (intro exI [of _ "length b"]) (auto simp: type_into_def)
    next
      case (Short n)
      then show ?thesis using assms(1) Cons took [of n]
        by (intro exI [of _ n]) (auto simp: type_into_def andThen_def ret_def throw_def split: if_splits)
    next
      case (Failed e)
      then show ?thesis using assms(1) Cons took [of 0] by (intro exI [of _ 0]) (auto simp: type_into_def andThen_def throw_def)
    next
      case (Stuck n)
      then show ?thesis using assms(1) Cons took [of n] by (intro exI [of _ n]) (auto simp: type_into_def andThen_def throw_def)
    qed
  qed
qed

text \<open>
  C18: Input typed for the agent reaches only the terminal the request names, and only when that
  terminal is alive and belongs to the server of the request; it gets a piece of the content
  from its start, of at most 16384 bytes, and all of it when \<open>Perform\<close> returns.  Looking at a
  terminal types nothing.
\<close>

theorem terminal_input_confined:
  assumes "Perform R r m = (x, m')" and "Operation r \<noteq> ''terminal_connect''"
  shows "received (terms m') = received (terms m)
     \<or> Operation r = ''terminal_write'' \<and> length (Content r) \<le> 16384
       \<and> (\<exists>t n. map_of (sessions (terms m)) (Resource r) = Some t \<and> t_host t = HostID r \<and> t_alive t
            \<and> received (terms m') = (received (terms m))(Resource r := received (terms m) (Resource r) @ take n (Content r))
            \<and> (case x of Inr _ \<Rightarrow> length (Content r) \<le> n | Inl _ \<Rightarrow> True))"
proof -
  obtain y m1 where e: "Err m = (y, m1)" by (cases "Err m")
  have same: "terms m1 = terms m" by (rule Err_terms [OF e])
  show ?thesis
  proof (cases "\<exists>u t. y = Inr u \<and> Operation r = ''terminal_write'' \<and> map_of (sessions (terms m1)) (Resource r) = Some t
      \<and> t_host t = HostID r \<and> t_alive t \<and> length (Content r) \<le> 16384 \<and> Content r \<noteq> []")
    case True
    then obtain t where t: "Operation r = ''terminal_write''" "map_of (sessions (terms m1)) (Resource r) = Some t"
      "t_host t = HostID r" "t_alive t" "length (Content r) \<le> 16384" "Content r \<noteq> []" "y = Inr ()" by auto
    obtain z m2 where typed: "type_into (Resource r) t (Content r) m1 = (z, m2)" by (cases "type_into (Resource r) t (Content r) m1")
    then have "m' = m2" and z: "\<And>u. x = Inr u \<Longrightarrow> z = Inr ()"
      using assms e t by (auto simp: Perform_def andThen_def asks_def ret_def split: sum.splits)
    with type_into_reaches [OF typed t(2)] obtain n
      where "received (terms m') = (received (terms m))(Resource r := received (terms m) (Resource r) @ take n (Content r))"
        "\<forall>u. x = Inr u \<longrightarrow> length (Content r) \<le> n" using same by auto
    then show ?thesis using t same by (auto split: sum.split)
  next
    case False
    then have "terms m' = terms m1"
      using assms e by (auto simp: Perform_def andThen_def asks_def ret_def throw_def Let_def split: sum.splits option.splits if_splits)
    then show ?thesis using same by simp
  qed
qed

definition demo_terminal :: "delivery list \<Rightarrow> terminal" where
  "demo_terminal ws = \<lparr>t_host = ''h'', t_alive = True, t_screen = [], t_received = ''a'', t_writes = ws\<rparr>"

theorem terminal_input_confined_witness:
  "\<exists>m'. Perform demo_server ((demo_request [])\<lparr>Operation := ''terminal_write'', HostID := ''h'', Resource := ''t'', Content := ''bcd''\<rparr>)
        ((demo_machine [] [])\<lparr>terms := \<lparr>sessions = [(''t'', demo_terminal [Short 2])], active_terminal = []\<rparr>\<rparr>)
      = (Inl (Msg ''short write''), m') \<and> received (terms m') ''t'' = ''abc''"
proof -
  let ?r = "(demo_request [])\<lparr>Operation := ''terminal_write'', HostID := ''h'', Resource := ''t'', Content := ''bcd''\<rparr>"
  let ?m = "(demo_machine [] [])\<lparr>terms := \<lparr>sessions = [(''t'', demo_terminal [Short 2])], active_terminal = []\<rparr>\<rparr>"
  obtain m' where run: "Perform demo_server ?r ?m = (Inl (Msg ''short write''), m')" "received (terms m') ''t'' = ''abc''"
    by (simp add: Perform_def andThen_def Err_def on_reading_def ctx_Err_def as_msg_def asks_def demo_machine_def
        demo_terminal_def demo_request_def type_into_def put_terminal_def set_terms_def throw_def received_def)
  from terminal_input_confined [OF run(1)] have "received (terms m') ''u'' = received (terms ?m) ''u''" by auto
  with run show ?thesis by blast
qed

end
