(* ===== verification/Executor.thy ===== *)
theory Executor
  imports Terminals RemoteFilesSafe
begin

text \<open>
  \<open>internal/remote/executor.go\<close> and \<open>local_upload.go\<close>: executing a request of the agent once and
  recording what came of it.

  The log of an execution is a local file; the result keeps its first 32768 bytes.  The error of
  a Go call that also returns a value is the second component of the value.  The lock per host
  and the timeout of a request are not modelled: a timeout is a cancelled check of the context.
\<close>

subsection \<open>Errors as text\<close>

fun err_text :: "err \<Rightarrow> string" where
  "err_text NoRows = ''sql: no rows in result set''"
| "err_text (Sql n) = ''database error''"
| "err_text Decode = ''invalid document''"
| "err_text Panic = ''panic''"
| "err_text Cancelled = ''context canceled''"
| "err_text (Msg m) = m"
| "err_text (Correctable m) = m"
| "err_text (Blocked m) = m"
| "err_text (Interrupt a) = ''interrupt''"
| "err_text NotExist = ''file does not exist''"
| "err_text (ExitStatus n) = ''Process exited with status '' @ FormatInt n"
| "err_text (HostKey a f changed) = (if changed then ''the identity of the server has changed: '' else ''first connection: '') @ a @ '' '' @ f"

subsection \<open>Capturing output\<close>

record capture =
  cap_out :: string
  cap_prefix :: string
  cap_err :: "err option"

definition output_limit :: nat where
  "output_limit = 32768"

definition capture_write :: "string \<Rightarrow> capture \<Rightarrow> string \<Rightarrow> ('w, capture \<times> err option) mact" where
  "capture_write task cap b =
     andThen (attempt (append_local (cap_out cap) b)) (\<lambda>x.
       let e = (case x of Inl e \<Rightarrow> Some e | Inr _ \<Rightarrow> None);
           cap1 = (if e = None then cap else cap\<lparr>cap_err := e\<rparr>);
           room = output_limit - length (cap_prefix cap);
           piece = take room b;
           cap2 = cap1\<lparr>cap_prefix := cap_prefix cap @ piece\<rparr>
       in if room = 0 then ret (cap1, e)
          else andThen (attempt (on_db (Event task ''execution_delta'' piece))) (\<lambda>y.
            case y of Inl ee \<Rightarrow> ret (cap2\<lparr>cap_err := Some ee\<rparr>, Some ee) | Inr _ \<Rightarrow> ret (cap2, e)))"

text \<open>Writing a value, if there is one; an error otherwise.  The exit code is 0 once there is a value.\<close>

definition capture_value :: "string \<Rightarrow> capture \<Rightarrow> err + string \<Rightarrow> ('w, int \<times> err option \<times> capture) mact" where
  "capture_value task cap x =
     (case x of Inl e \<Rightarrow> ret (- 1, Some e, cap)
      | Inr b \<Rightarrow> andThen (capture_write task cap b) (\<lambda>(cap1, e). ret (0, e, cap1)))"

subsection \<open>Uploading an approved local file\<close>

definition remove_local :: "string \<Rightarrow> ('w, unit) mact" where
  "remove_local p = (\<lambda>m. (Inr (), m\<lparr>staged := (staged m)\<lparr>st_files := filter (\<lambda>(q, _). q \<noteq> p) (st_files (staged m))\<rparr>\<rparr>))"

definition upload_checks :: "'w outside \<Rightarrow> 'w call \<Rightarrow> request \<Rightarrow> bool \<Rightarrow> ('w, unit) mact" where
  "upload_checks R c r new =
     andThen (checkAuthority c) (\<lambda>_.
     andThen (SFTP R c (HostID r)) (\<lambda>_.
     andThen (canonicalFile R c (HostID r) (Resource r)) (\<lambda>_.
       if \<not> new then ret ()
       else andThen (attempt (on_net (lstat R (HostID r) (Resource r)))) (\<lambda>x.
         case x of
           Inr _ \<Rightarrow> throw (Msg ''the target exists; choose replace or resume'')
         | Inl e \<Rightarrow> if e \<noteq> NotExist then throw e else ret ()))))"

text \<open>The first component says whether the transfer has started.\<close>

definition upload_staged :: "'w outside \<Rightarrow> 'w call \<Rightarrow> request \<Rightarrow> string \<Rightarrow> capture \<Rightarrow> ('w, bool \<times> err option \<times> capture) mact" where
  "upload_staged R c r copy cap =
     (let new = (UploadMode r = [] \<or> UploadMode r = ''new'')
      in andThen (attempt (upload_checks R c r new)) (\<lambda>x.
         case x of Inl e \<Rightarrow> ret (False, Some e, cap)
         | Inr _ \<Rightarrow>
             andThen (attempt (if new then UploadNew R c (HostID r) copy (Resource r)
                               else Transfer R c (HostID r) copy (Resource r) True (UploadMode r = ''resume''))) (\<lambda>x.
               case x of Inl e \<Rightarrow> ret (True, Some e, cap)
               | Inr _ \<Rightarrow>
                   andThen (capture_write (TaskID r) cap
                      (''uploaded and verified: '' @ Resource r @ newline @ ''sha256='' @ SourceHash r)) (\<lambda>(cap1, e).
                     ret (True, e, cap1)))))"

definition snapshot_local :: "request \<Rightarrow> ('w, string) mact" where
  "snapshot_local r = (\<lambda>m. on_staging (Snapshot (files m) (LocalPath r) (SourceHash r)) m)"

definition uploadLocal :: "'w outside \<Rightarrow> 'w call \<Rightarrow> request \<Rightarrow> capture \<Rightarrow> ('w, bool \<times> err option \<times> capture) mact" where
  "uploadLocal R c r cap =
     andThen (attempt (snapshot_local r)) (\<lambda>x.
       case x of Inl e \<Rightarrow> ret (False, Some e, cap)
       | Inr copy \<Rightarrow> always (upload_staged R c r copy cap) (remove_local copy))"

subsection \<open>The operations\<close>

definition file_write :: "'w outside \<Rightarrow> 'w call \<Rightarrow> request \<Rightarrow> capture \<Rightarrow> ('w, int \<times> err option \<times> capture) mact" where
  "file_write R c r cap =
     andThen (attempt (WriteFile R c (HostID r) (Resource r) (ExpectedHash r) (Content r))) (\<lambda>x.
       case x of Inl e \<Rightarrow> ret (- 1, Some e, cap)
       | Inr backup \<Rightarrow>
           andThen (attempt (ReadFile R c (HostID r) (Resource r))) (\<lambda>y.
             case y of Inl e \<Rightarrow> ret (- 1, Some e, cap)
             | Inr (b, hash) \<Rightarrow>
                 if b \<noteq> Content r then ret (- 1, Some (Msg ''what was written does not match''), cap)
                 else andThen (capture_write (TaskID r) cap (''written and verified sha256='' @ hash @ '' backup='' @ backup)) (\<lambda>(cap1, _).
                   ret (0, None, cap1))))"

definition run_operation :: "'w outside \<Rightarrow> 'w call \<Rightarrow> request \<Rightarrow> capture \<Rightarrow> ('w, int \<times> err option \<times> capture) mact" where
  "run_operation R c r cap =
     (if IsOperation (Operation r)
      then andThen (attempt (\<lambda>m. on_reading (Inspect (files m) (LocalPath r) (Operation r) [ReadOffset r]) m)) (\<lambda>x.
             capture_value (TaskID r) cap (map_sum id (\<lambda>i. render (info_json i)) x))
      else if Operation r = ''upload_local''
      then andThen (uploadLocal R c r cap) (\<lambda>(started, e, cap1). ret (if e = None \<or> \<not> started then 0 else - 1, e, cap1))
      else if Operation r = ''file_hash''
      then andThen (attempt (FileHash R c (HostID r) (Resource r))) (\<lambda>x.
             capture_value (TaskID r) cap
               (map_sum id (\<lambda>(hash, size). ''sha256='' @ hash @ newline @ ''size='' @ FormatNat size) x))
      else if Operation r \<in> {''terminal_connect'', ''terminal_read'', ''terminal_write''}
      then (if \<not> has_desktop R then ret (- 1, Some (Msg ''no terminal workbench''), cap)
            else andThen (attempt (Perform R r)) (capture_value (TaskID r) cap))
      else if Operation r = ''file_read''
      then andThen (attempt (ReadFile R c (HostID r) (Resource r))) (\<lambda>x.
             andThen (capture_value (TaskID r) cap
               (map_sum id (\<lambda>(b, hash). render (JObj [(''content'', JStr b), (''sha256'', JStr hash)])) x)) (\<lambda>(code, e, cap1).
               ret (if e = None then code else - 1, e, cap1)))
      else if Operation r = ''file_write'' then file_write R c r cap
      else (case BuildCommand r of
              Inl e \<Rightarrow> ret (- 1, Some e, cap)
            | Inr cmd \<Rightarrow> run_command R c (HostID r) cmd (capture_write (TaskID r)) cap))"

subsection \<open>Execute\<close>

definition quiet_operations :: "string list" where
  "quiet_operations = [''file_hash'', ''file_read'', ''terminal_read'', ''terminal_connect'']"

definition finished :: "request \<Rightarrow> result \<Rightarrow> int \<Rightarrow> err option \<Rightarrow> string \<Rightarrow> time \<Rightarrow> result" where
  "finished r result code e output t =
     result\<lparr>ExitCode := code, Output := output, FinishedAt := t,
            res_Error := (case e of None \<Rightarrow> res_Error result | Some e \<Rightarrow> err_text e),
            res_Status := (case e of None \<Rightarrow> ''succeeded''
              | Some _ \<Rightarrow> if code < 0 \<and> \<not> IsOperation (Operation r) \<and> Operation r \<notin> set quiet_operations
                          then ''unknown'' else ''failed'')\<rparr>"

definition open_artifact :: "string \<Rightarrow> ('w, string) mact" where
  "open_artifact i = andThen (on_db (Artifact i)) (\<lambda>p. andThen (set_local p []) (\<lambda>_. ret p))"

definition run_claimed :: "'w outside \<Rightarrow> 'w call \<Rightarrow> request \<Rightarrow> result \<Rightarrow> ('w, result) mact" where
  "run_claimed R c r result =
     andThen (on_db (Finish result)) (\<lambda>_.
     andThen (run_operation R c r \<lparr>cap_out = res_Artifact result, cap_prefix = [], cap_err = None\<rparr>) (\<lambda>(code, e, cap).
     andThen (on_db Now) (\<lambda>t.
       let done_result = finished r result code (case cap_err cap of Some x \<Rightarrow> Some x | None \<Rightarrow> e) (cap_prefix cap) t
       in andThen (on_db (Finish done_result)) (\<lambda>_. ret done_result))))"

definition Execute :: "'w outside \<Rightarrow> 'w call \<Rightarrow> request \<Rightarrow> ('w, result) mact" where
  "Execute R c r =
     (if TaskID r = [] \<or> CallID r = [] \<or> HostID r = [] \<and> \<not> IsOperation (Operation r)
      then throw (Msg ''missing execution identity'')
      else andThen (checkAuthority c) (\<lambda>_.
           andThen (on_db (Claim r)) (\<lambda>(result, won).
             if \<not> won then ret result
             else andThen (attempt (open_artifact (res_ID result))) (\<lambda>x.
               case x of
                 Inl e \<Rightarrow> andThen (attempt (on_db (Finish (result\<lparr>res_Status := ''failed'', res_Error := err_text e\<rparr>)))) (\<lambda>_. throw e)
               | Inr path \<Rightarrow> run_claimed R c r (result\<lparr>res_Artifact := path\<rparr>)))))"

end
