(* ===== verification/ExecutorSafe.thy ===== *)
theory ExecutorSafe
  imports Executor StoreFrames LocalFilesSafe
begin

text \<open>
  What \<open>Execute\<close> guarantees: a recorded call is never run again, a finished one is recorded with a
  definite status, its output is bounded and is the beginning of its log, and an outcome that was
  not confirmed is never reported as one that was.

  The locale \<open>calm\<close> is the interface between the remote operations and these proofs: a relation
  of machines that the basic steps keep is kept by the operations built from them.
\<close>

subsection \<open>What remote operations leave alone\<close>

locale calm = preserved rel for rel :: "'w machine \<Rightarrow> 'w machine \<Rightarrow> bool" +
  assumes net_only: "rel m (m\<lparr>net := w\<rparr>)"
    and conns_step: "keeps rel (set_conns g)"
    and Err_step: "keeps rel Err"
    and statement_step: "keeps rel (on_db statement)"
    and Host_step: "keeps rel (on_db (Host i))"
    and Now_step: "keeps rel (on_db Now)"
begin

lemma net_step: "keeps rel (on_net f)"
  by (simp add: keeps_def on_net_def net_only split: prod.split)

lemmas basic_steps = net_step conns_step Err_step statement_step Host_step Now_step keeps_test

lemma keeps_connect_any: "keeps rel (connect R c n i seen)"
proof (induction n arbitrary: i seen)
  case (Suc n)
  show ?case
    unfolding connect.simps connect_here_def Disconnect_def new_client_def host_key_def auth_def
    by (intro keeps_rules basic_steps Suc)
qed (simp add: keeps_throw)

lemma keeps_Connect_any: "keeps rel (Connect R c i)"
  using keeps_connect_any unfolding keeps_def Connect_def by blast

lemma keeps_SFTP_any: "keeps rel (SFTP R c host)"
  unfolding SFTP_def by (intro keeps_rules basic_steps keeps_Connect_any)

lemma keeps_canonical_any: "keeps rel (canonicalFile R c host p)"
  unfolding canonicalFile_def by (intro keeps_rules basic_steps)

lemma keeps_read_all_any: "keeps rel (read_all R host f l)"
  unfolding read_all_def Let_def by (intro keeps_rules basic_steps)

lemma keeps_ReadFile: "keeps rel (ReadFile R c host p)"
  unfolding ReadFile_def by (intro keeps_rules basic_steps keeps_SFTP_any keeps_canonical_any keeps_read_all_any)

lemma keeps_checked: "(\<And>p. keeps rel (use p)) \<Longrightarrow> keeps rel (checked ps e use)"
  by (induction ps) (auto intro!: keeps_rules basic_steps)

lemma keeps_hash_remote: "keeps rel (hash_remote R host f)"
  unfolding hash_remote_def by (intro keeps_rules basic_steps keeps_checked)

lemma keeps_FileHash: "keeps rel (FileHash R c host p)"
  unfolding FileHash_def
  by (intro keeps_rules basic_steps keeps_SFTP_any keeps_canonical_any keeps_hash_remote)

lemma keeps_write_close: "keeps rel (write_close R host f b)"
  unfolding write_close_def by (intro keeps_rules basic_steps)

lemma keeps_replace_file: "keeps rel (replace_file R host p old mode b)"
  unfolding replace_file_def Let_def write_backup_def write_temporary_def put_in_place_def
  by (intro keeps_rules basic_steps keeps_write_close)

lemma keeps_WriteFile: "keeps rel (WriteFile R c host p expected b)"
  unfolding WriteFile_def write_absent_def write_present_def
  by (intro keeps_rules basic_steps keeps_SFTP_any keeps_canonical_any keeps_read_all_any keeps_replace_file)

lemma keeps_write_pieces: "keeps rel (write_pieces R host f off ps)"
  by (induction ps arbitrary: off) (auto intro!: keeps_rules basic_steps)

lemma keeps_at: "(\<And>m. keeps rel (g m)) \<Longrightarrow> keeps rel (\<lambda>m. g m m)"
  by (simp add: keeps_def)

lemma keeps_os_Open: "keeps rel (os_Open p)"
  unfolding os_Open_def by (intro keeps_rules basic_steps)

lemma keeps_hash_local: "keeps rel (hash_local d)"
  unfolding hash_local_def by (rule keeps_at [of "\<lambda>m. andThen (checked (local_pieces m d) None (\<lambda>_. ret ())) (\<lambda>_. ret (sha256_hex d))"])
    (intro keeps_rules keeps_checked)

lemma keeps_upload: "keeps rel (upload R host src p resume exclusive)"
  unfolding upload_def check_prefix_def same_hash_def
  by (intro keeps_rules basic_steps keeps_os_Open keeps_read_all_any keeps_hash_local keeps_hash_remote
      keeps_at [of "\<lambda>m. write_pieces R host f off (local_pieces m d)" for f off d] keeps_write_pieces)

lemma keeps_copy_output: "(\<And>w b. keeps rel (wr w b)) \<Longrightarrow> keeps rel (copy_output wr w o1 e1 bs)"
  by (induction bs arbitrary: w o1 e1) (auto intro!: keeps_rules)

lemma keeps_run_command: "(\<And>w b. keeps rel (wr w b)) \<Longrightarrow> keeps rel (run_command R c host cmd wr w)"
  unfolding run_command_def by (intro keeps_rules basic_steps keeps_Connect_any keeps_copy_output)

lemma keeps_file_write:
  "(\<And>w b. keeps rel (capture_write (TaskID r) w b)) \<Longrightarrow> keeps rel (file_write R c r cap)"
  unfolding file_write_def by (intro keeps_rules basic_steps keeps_WriteFile keeps_ReadFile)

text \<open>What the operations of the agent do beyond the steps above.\<close>

lemma keeps_run_operation:
  assumes capture: "\<And>w b. keeps rel (capture_write (TaskID r) w b)"
    and upload: "keeps rel (uploadLocal R c r cap)" and perform: "keeps rel (Perform R r)"
    and inspect: "\<And>p op os. keeps rel (\<lambda>m. on_reading (Inspect (files m) p op os) m)"
  shows "keeps rel (run_operation R c r cap)"
  unfolding run_operation_def capture_value_def
  by (intro keeps_rules capture upload perform inspect keeps_FileHash keeps_ReadFile keeps_file_write keeps_run_command)

lemma keeps_uploadLocal:
  assumes capture: "\<And>w b. keeps rel (capture_write (TaskID r) w b)" and authority: "keeps rel (checkAuthority c)"
    and snapshot: "keeps rel (snapshot_local r)" and remove: "\<And>p. keeps rel (remove_local p)"
  shows "keeps rel (uploadLocal R c r cap)"
  unfolding uploadLocal_def upload_staged_def upload_checks_def Let_def UploadNew_def Transfer_def transfer_def if_True
  by (intro keeps_rules basic_steps capture authority snapshot remove keeps_SFTP_any keeps_canonical_any keeps_upload)

end

subsection \<open>What the record keeps\<close>

text \<open>
  The check a call carries looks at the store and changes neither the executions nor anything
  outside it; \<open>Execute\<close> is given only such calls.
\<close>

definition untouched :: "'w machine \<Rightarrow> 'w machine \<Rightarrow> bool" where
  "untouched m m' \<longleftrightarrow> executions (db m') = executions (db m) \<and> fresh (db m') = fresh (db m)
     \<and> documents (db m') = documents (db m)
     \<and> net m' = net m \<and> terms m' = terms m \<and> st_files (staged m') = st_files (staged m)"

interpretation looking_on: preserved untouched
  by unfold_locales (auto simp: untouched_def)

definition calm_call :: "'w call \<Rightarrow> bool" where
  "calm_call c \<longleftrightarrow> (case c_authority c of None \<Rightarrow> True | Some (_, _, check) \<Rightarrow> keeps untouched check)"

lemma st_files_Err [simp]: "st_files (staged (snd (Err m))) = st_files (staged m)"
  by (cases "ctx_Err (st_ctx (staged m))") (auto simp: Err_def on_reading_def as_msg_def split: sum.split)

lemma untouched_Err: "keeps untouched Err"
  by (simp add: keeps_def untouched_def)

lemma untouched_checkAuthority:
  assumes "calm_call c"
  shows "keeps untouched (checkAuthority c)"
proof (cases "c_authority c")
  case None
  then show ?thesis unfolding checkAuthority_def by (simp add: looking_on.keeps_andThen untouched_Err)
next
  case (Some a)
  then show ?thesis using assms unfolding checkAuthority_def calm_call_def
    by (cases a) (simp add: looking_on.keeps_andThen untouched_Err)
qed

text \<open>
  Relations of databases that what an operation does to the database keeps, while it runs: the
  statements it reads with, new identifiers and events.
\<close>

locale recording = preserved rel for rel :: "store \<Rightarrow> store \<Rightarrow> bool" +
  assumes statement_kept: "keeps rel statement"
    and Host_kept: "keeps rel (Host i)"
    and Now_kept: "keeps rel Now"
    and NewID_kept: "keeps rel NewID"
    and Event_kept: "keeps rel (Event task kind content)"
    and looking_kept: "executions s' = executions s \<Longrightarrow> fresh s' = fresh s \<Longrightarrow> documents s' = documents s \<Longrightarrow> rel s s'"

sublocale recording \<subseteq> db: calm "via_db rel"
proof unfold_locales
  note same = keeps_same_db [OF preserved_axioms]
  show "keeps (via_db rel) (set_conns g)" for g by (rule same) (simp add: set_conns_def)
  show "keeps (via_db rel) Err" by (rule same) simp
  show "keeps (via_db rel) (on_db statement)" by (intro keeps_on_db statement_kept)
  show "keeps (via_db rel) (on_db (Host i))" for i by (intro keeps_on_db Host_kept)
  show "keeps (via_db rel) (on_db Now)" by (intro keeps_on_db Now_kept)
qed (auto simp: via_db_def intro: refl trans)

context recording
begin

lemma keeps_local: "(\<And>m. db (snd (f m)) = db m) \<Longrightarrow> keeps (via_db rel) f"
  by (rule keeps_same_db [OF preserved_axioms])

lemma keeps_append: "keeps (via_db rel) (append_local p b)"
  unfolding append_local_def
  by (intro db.keeps_andThen db.statement_step keeps_local) (simp add: set_local_def)

lemma keeps_capture: "keeps (via_db rel) (capture_write task w b)"
  unfolding capture_write_def Let_def
  by (intro db.keeps_rules keeps_append keeps_on_db Event_kept)

lemma keeps_set_terms: "keeps (via_db rel) (set_terms f)"
  by (rule keeps_local) (simp add: set_terms_def)

lemma keeps_type_into: "keeps (via_db rel) (type_into i t b)"
proof -
  have "keeps (via_db rel) (put_terminal i u)" for u
    unfolding put_terminal_def by (rule keeps_set_terms)
  then show ?thesis unfolding type_into_def Let_def
    by (auto intro!: db.keeps_rules split: list.split delivery.split)
qed

lemma keeps_Perform: "keeps (via_db rel) (Perform R r)"
  unfolding Perform_def terminal_connect_def Register_def Let_def
  by (intro db.keeps_rules db.basic_steps keeps_on_db NewID_kept keeps_set_terms keeps_type_into)

lemma keeps_authority:
  assumes "calm_call (c :: 'w call)"
  shows "keeps (via_db rel) (checkAuthority c)"
proof -
  have "via_db rel m m'" if "untouched m m'" for m m' :: "'w machine"
    using that looking_kept by (simp add: via_db_def untouched_def)
  with untouched_checkAuthority [OF assms] show ?thesis by (simp add: keeps_def)
qed

lemma keeps_operation:
  assumes "calm_call c"
  shows "keeps (via_db rel) (run_operation R c r cap)"
proof (rule db.keeps_run_operation [OF keeps_capture db.keeps_uploadLocal [OF keeps_capture keeps_authority [OF assms]] keeps_Perform])
  show "keeps (via_db rel) (snapshot_local r)" by (rule keeps_local) (simp add: snapshot_local_def)
  show "keeps (via_db rel) (remove_local p)" for p by (rule keeps_local) (simp add: remove_local_def)
  show "keeps (via_db rel) (\<lambda>m. on_reading (Inspect (files m) p op os) m)" for p op os by (rule keeps_local) simp
qed

text \<open>What claiming, finishing and creating a log keep as well, a whole execution keeps.\<close>

lemma keeps_Execute:
  assumes "calm_call c" and claim: "keeps rel (Claim r)" and finish: "\<And>x. keeps rel (Finish x)"
    and artifact: "\<And>i. keeps rel (Artifact i)"
  shows "keeps (via_db rel) (Execute R c r)"
proof -
  have open_step: "keeps (via_db rel) (open_artifact i)" for i
  proof -
    have "keeps (via_db rel) (set_local p b)" for p b by (rule keeps_local) (simp add: set_local_def)
    then show ?thesis unfolding open_artifact_def by (intro db.keeps_rules keeps_on_db artifact)
  qed
  have run_step: "keeps (via_db rel) (run_claimed R c r result)" for result
    unfolding run_claimed_def Let_def
    by (intro db.keeps_rules keeps_on_db finish Now_kept keeps_operation assms(1))
  show ?thesis unfolding Execute_def
    by (intro db.keeps_rules keeps_on_db claim finish keeps_authority assms(1) open_step run_step)
qed

end

definition same_executions :: "store \<Rightarrow> store \<Rightarrow> bool" where
  "same_executions s s' \<longleftrightarrow> executions s' = executions s"

interpretation quiet_db: store_quiet same_executions
  by unfold_locales (auto simp: same_executions_def)

interpretation table: recording same_executions
  by unfold_locales (simp_all add: quiet_db.keeps_quiet, simp add: same_executions_def)

subsection \<open>A recorded call is not run again\<close>

text \<open>
  C19: A call that has been recorded is never executed again.  \<open>Execute\<close> then touches neither the
  servers, nor a terminal, nor a local file, nor the record, and what it returns is what was
  recorded, for exactly the same request.
\<close>

theorem recorded_call_not_repeated:
  assumes "executions_ok (db m)" and "calm_call c"
    and "find_execution (TaskID r) (CallID r) (db m) = Some x" and "Execute R c r m = (y, m')"
  shows "net m' = net m \<and> terms m' = terms m \<and> st_files (staged m') = st_files (staged m)
     \<and> executions (db m') = executions (db m)
     \<and> (case y of Inr res \<Rightarrow> res = ex_Payload x \<and> ex_Digest x = Digest_request r | Inl _ \<Rightarrow> True)"
proof -
  obtain a m1 where a: "checkAuthority c m = (a, m1)" by (cases "checkAuthority c m")
  have u: "untouched m m1" by (rule looking_on.keepsD [OF untouched_checkAuthority [OF assms(2)] a])
  obtain b s where b: "Claim r (db m1) = (b, s)" by (cases "Claim r (db m1)")
  have ok: "executions_ok (db m1)" using assms(1) u by (simp add: executions_ok_def untouched_def)
  have known: "find_execution (TaskID r) (CallID r) (db m1) = Some x"
    using assms(3) u find_execution_cong [of "db m1" "db m"] by (simp add: untouched_def)
  have same: "executions s = executions (db m1)" using Claim_table [OF b] known by auto
  have lost: "\<not> won \<and> res = ex_Payload x \<and> ex_Digest x = Digest_request r" if "b = Inr (res, won)" for res won
  proof -
    from that b obtain z i where z: "find_execution (TaskID r) (CallID r) s = Some z" "ex_Digest z = Digest_request r"
      "res = ex_Payload z" "fresh (db m1) = i # fresh s" "won \<longleftrightarrow> res_ID res = i"
      using Claim_result [of r "db m1" res won s] by auto
    then have "z = x" using known same find_execution_cong [of s "db m1"] by simp
    moreover have "res_ID (ex_Payload x) \<noteq> i"
      using ok z(4) find_execution_in [OF known] by (auto simp: executions_ok_def)
    ultimately show ?thesis using z by simp
  qed
  show ?thesis
  proof (cases "(TaskID r = [] \<or> CallID r = [] \<or> HostID r = [] \<and> \<not> IsOperation (Operation r)) \<or> (\<exists>e. a = Inl e)")
    case True
    then have "(m' = m \<or> m' = m1) \<and> (\<exists>e. y = Inl e)"
      using assms(4) a by (auto simp: Execute_def throw_def andThen_def split: if_splits)
    then show ?thesis using u by (auto simp: untouched_def)
  next
    case False
    then obtain v where v: "checkAuthority c m = (Inr v, m1)" using a by (cases a) auto
    have "\<not> (TaskID r = [] \<or> CallID r = [] \<or> HostID r = [] \<and> \<not> IsOperation (Operation r))" using False by blast
    note run = Execute_def [of R c r, unfolded if_not_P [OF this]]
    have claim: "on_db (Claim r) m1 = (b, m1\<lparr>db := s\<rparr>)" using b by (simp add: on_db_def)
    have "m' = m1\<lparr>db := s\<rparr> \<and> (\<forall>res. y = Inr res \<longrightarrow> b = Inr (res, False))"
    proof (cases b)
      case (Inl e)
      then show ?thesis using assms(4) claim unfolding run by (auto simp: andThen_def v)
    next
      case (Inr p)
      obtain res won where p: "p = (res, won)" by (cases p)
      with lost Inr have "\<not> won" by simp
      then show ?thesis using assms(4) claim Inr p unfolding run by (auto simp: andThen_def v ret_def)
    qed
    then show ?thesis using u lost same by (auto simp: untouched_def split: sum.split)
  qed
qed

subsection \<open>What a finished call leaves in the record\<close>

lemma finish_last:
  "ex_ID x \<notin> set (map ex_ID xs) \<Longrightarrow> res_ID r = ex_ID x \<Longrightarrow> map (finish_row r) (xs @ [x]) = xs @ [x\<lparr>ex_Payload := r\<rparr>]"
  by (induction xs) (auto simp: finish_row_def)

lemma Finish_executions: "Finish r s = (Inr u, s') \<Longrightarrow> executions s' = map (finish_row r) (executions s)"
  by (auto simp: Finish_def modify_def andThen_def dest: statement_same split: prod.splits sum.splits)

lemma same_table: "keeps (via_db same_executions) f \<Longrightarrow> f m = (x, m') \<Longrightarrow> executions (db m') = executions (db m)"
  by (drule (1) table.db.keepsD) (simp add: via_db_def same_executions_def)

lemma run_claimed_record:
  assumes "calm_call c" and "run_claimed R c r result m = (Inr res, m')"
    and "executions (db m) = xs @ [x]" and "ex_ID x \<notin> set (map ex_ID xs)" and "res_ID result = ex_ID x"
  shows "executions (db m') = xs @ [x\<lparr>ex_Payload := res\<rparr>]
     \<and> (\<exists>m1 code e cap m2 t. on_db (Finish result) m = (Inr (), m1)
          \<and> run_operation R c r \<lparr>cap_out = res_Artifact result, cap_prefix = [], cap_err = None\<rparr> m1 = (Inr (code, e, cap), m2)
          \<and> net m' = net m2 \<and> staged m' = staged m2 \<and> files m' = files m2
          \<and> res = finished r result code (case cap_err cap of Some x \<Rightarrow> Some x | None \<Rightarrow> e) (cap_prefix cap) t)"
proof -
  from assms(2) obtain m1 code e cap m2 t m3 where
    steps: "on_db (Finish result) m = (Inr (), m1)"
      "run_operation R c r \<lparr>cap_out = res_Artifact result, cap_prefix = [], cap_err = None\<rparr> m1 = (Inr (code, e, cap), m2)"
      "on_db Now m2 = (Inr t, m3)" "on_db (Finish res) m3 = (Inr (), m')"
    and res: "res = finished r result code (case cap_err cap of Some x \<Rightarrow> Some x | None \<Rightarrow> e) (cap_prefix cap) t"
    by (auto simp: run_claimed_def Let_def dest!: andThen_InrD)
  have "executions (db m1) = xs @ [x\<lparr>ex_Payload := result\<rparr>]"
    using steps(1) assms(3-5) finish_last [of x xs result] by (auto simp: on_db_Inr dest!: Finish_executions)
  then have 3: "executions (db m3) = xs @ [x\<lparr>ex_Payload := result\<rparr>]"
    using same_table [OF table.keeps_operation [OF assms(1)] steps(2)] same_table [OF table.db.Now_step steps(3)] by simp
  have "res_ID res = ex_ID x" using res assms(5) by (simp add: finished_def)
  then have "executions (db m') = xs @ [x\<lparr>ex_Payload := res\<rparr>]"
    using steps(4) 3 assms(4) finish_last [of "x\<lparr>ex_Payload := result\<rparr>" xs res] by (auto simp: on_db_Inr dest!: Finish_executions)
  moreover have "net m' = net m2" "staged m' = staged m2" "files m' = files m2" using steps(3,4) by (auto simp: on_db_Inr)
  ultimately show ?thesis using steps res by blast
qed

lemma local_content_db [simp]: "local_content (m\<lparr>db := s\<rparr>) p = local_content m p"
  by (simp add: local_content_def cong: option.case_cong)

text \<open>The first execution of a call: what is in the table afterwards, and how it ran.\<close>

lemma open_artifact_Inr:
  assumes "open_artifact i m = (Inr p, m')"
  shows "executions (db m') = executions (db m) \<and> net m' = net m \<and> local_content m' p = Some []"
proof -
  from assms obtain s where s: "Artifact i (db m) = (Inr p, s)" "m' = (m\<lparr>db := s\<rparr>)
      \<lparr>staged := (staged m)\<lparr>st_files := (p, []) # st_files (staged m)\<rparr>\<rparr>"
    by (auto simp: open_artifact_def set_local_def on_db_Inr dest!: andThen_InrD)
  with quiet_db.keepsD [OF quiet_db.keeps_Artifact s(1)] show ?thesis
    by (simp add: same_executions_def local_content_def)
qed

lemma Execute_fresh:
  assumes ok: "executions_ok (db m)" and calm: "calm_call c"
    and new: "find_execution (TaskID r) (CallID r) (db m) = None" and run: "Execute R c r m = (Inr res, m')"
  obtains i t0 m1 code e cap m2 t p where
    "executions (db m') = executions (db m) @ [(claim_row i t0 r)\<lparr>ex_Payload := res\<rparr>]"
    "net m1 = net m" "local_content m1 p = Some []"
    "run_operation R c r \<lparr>cap_out = p, cap_prefix = [], cap_err = None\<rparr> m1 = (Inr (code, e, cap), m2)"
    "net m' = net m2" "staged m' = staged m2" "files m' = files m2"
    "res = finished r ((new_result i r t0)\<lparr>res_Artifact := p\<rparr>) code
       (case cap_err cap of Some x \<Rightarrow> Some x | None \<Rightarrow> e) (cap_prefix cap) t"
proof -
  from run obtain u ma result won mb where
    a: "checkAuthority c m = (Inr u, ma)" and b: "on_db (Claim r) ma = (Inr (result, won), mb)"
    and rest: "(if \<not> won then ret result else andThen (attempt (open_artifact (res_ID result))) (\<lambda>x.
         case x of Inl e \<Rightarrow> andThen (attempt (on_db (Finish (result\<lparr>res_Status := ''failed'', res_Error := err_text e\<rparr>)))) (\<lambda>_. throw e)
         | Inr path \<Rightarrow> run_claimed R c r (result\<lparr>res_Artifact := path\<rparr>))) mb = (Inr res, m')"
    unfolding Execute_def by (fastforce dest!: andThen_InrD split: if_splits)
  have u: "untouched m ma" by (rule looking_on.keepsD [OF untouched_checkAuthority [OF calm] a])
  then have oka: "executions_ok (db ma)" "find_execution (TaskID r) (CallID r) (db ma) = None"
    using ok new find_execution_cong [of "db ma" "db m"] by (simp_all add: untouched_def executions_ok_def)
  from b have claim: "Claim r (db ma) = (Inr (result, won), db mb)" "net mb = net ma" by (auto simp: on_db_Inr)
  from Claim_table [OF claim(1)] obtain i t0 where row: "executions (db mb) = executions (db ma) @ [claim_row i t0 r]"
      "fresh (db ma) = i # fresh (db mb)"
  proof (elim disjE exE conjE)
    assume "executions (db mb) = executions (db ma)"
    moreover obtain z where "find_execution (TaskID r) (CallID r) (db mb) = Some z"
      using claim(1) by (rule Claim_result)
    ultimately show thesis using oka(2) find_execution_cong [of "db mb" "db ma"] by simp
  qed
  from claim(1) obtain z j where z: "find_execution (TaskID r) (CallID r) (db mb) = Some z" "result = ex_Payload z"
      "fresh (db ma) = j # fresh (db mb)" "won \<longleftrightarrow> res_ID result = j"
    by (rule Claim_result)
  have "find_execution (TaskID r) (CallID r) (db mb) = Some (claim_row i t0 r)"
    using oka(2) row(1) by (simp add: find_execution_def find_snoc claim_row_def)
  then have result: "result = new_result i r t0" "won" using z row(2) by (simp_all add: claim_row_def new_result_def)
  have new_id: "i \<notin> set (map ex_ID (executions (db ma)))" using oka(1) row(2) by (auto simp: executions_ok_def)
  from rest result obtain p mc where o: "open_artifact i mb = (Inr p, mc)"
      and c: "run_claimed R c r (result\<lparr>res_Artifact := p\<rparr>) mc = (Inr res, m')"
    by (auto simp: attempt_def new_result_def dest!: andThen_InrD split: sum.splits prod.splits)
  have row': "executions (db mc) = executions (db ma) @ [claim_row i t0 r]"
    using open_artifact_Inr [OF o] row(1) by simp
  have "res_ID (result\<lparr>res_Artifact := p\<rparr>) = ex_ID (claim_row i t0 r)" using result by (simp add: new_result_def claim_row_def)
  from run_claimed_record [OF calm c row' _ this] new_id obtain md code e cap m2 t where d:
    "executions (db m') = executions (db ma) @ [(claim_row i t0 r)\<lparr>ex_Payload := res\<rparr>]"
    "on_db (Finish (result\<lparr>res_Artifact := p\<rparr>)) mc = (Inr (), md)"
    "run_operation R c r \<lparr>cap_out = p, cap_prefix = [], cap_err = None\<rparr> md = (Inr (code, e, cap), m2)"
    "net m' = net m2" "staged m' = staged m2" "files m' = files m2"
    "res = finished r (result\<lparr>res_Artifact := p\<rparr>) code (case cap_err cap of Some x \<Rightarrow> Some x | None \<Rightarrow> e) (cap_prefix cap) t"
    by (auto simp: claim_row_def)
  have "net md = net m" "local_content md p = Some []"
    using d(2) open_artifact_Inr [OF o] claim(2) u by (auto simp: on_db_Inr untouched_def)
  with d u result show thesis by (intro that) (auto simp: untouched_def)
qed


subsection \<open>Outcomes that were not confirmed\<close>

definition command_operations :: "string set" where
  "command_operations = {''observe'', ''service_status'', ''service_restart'', ''logs'', ''package_install'', ''shell''}"

lemma run_operation_command:
  "Operation r \<in> command_operations \<Longrightarrow> run_operation R c r cap =
     (case BuildCommand r of Inl e \<Rightarrow> ret (- 1, Some e, cap)
      | Inr cmd \<Rightarrow> run_command R c (HostID r) cmd (capture_write (TaskID r)) cap)"
  by (auto simp: run_operation_def command_operations_def IsOperation_def)

lemma unconfirmed_code:
  assumes "\<forall>h w. snd (fst (run_output R h w)) = Inl ()" and "run_command R c h cmd wr w m = (Inr (code, e, w'), m')"
  shows "code = - 1 \<and> e \<noteq> None"
  using assms(2)
  by (auto simp: run_command_def ret_def on_net_def dest!: andThen_InrD split: sum.splits prod.splits)
    (metis assms(1) fst_conv snd_conv sum.distinct(1))+


text \<open>
  The same status is given to a command that was never sent, because it could not even be built.
\<close>

lemma unsent_is_unknown:
  assumes "executions_ok (db m)" and "calm_call c" and "find_execution (TaskID r) (CallID r) (db m) = None"
    and "Operation r \<in> command_operations" and "BuildCommand r = Inl e" and "Execute R c r m = (Inr res, m')"
  shows "net m' = net m \<and> res_Status res = ''unknown'' \<and> res_Error res = err_text e"
proof -
  from assms(1-3,6) obtain i t0 m1 code e' cap m2 t p where
    "executions (db m') = executions (db m) @ [(claim_row i t0 r)\<lparr>ex_Payload := res\<rparr>]"
    "net m1 = net m" "local_content m1 p = Some []"
    and ran: "run_operation R c r \<lparr>cap_out = p, cap_prefix = [], cap_err = None\<rparr> m1 = (Inr (code, e', cap), m2)"
    and "net m' = net m2" "staged m' = staged m2" "files m' = files m2"
    and res: "res = finished r ((new_result i r t0)\<lparr>res_Artifact := p\<rparr>) code
       (case cap_err cap of Some x \<Rightarrow> Some x | None \<Rightarrow> e') (cap_prefix cap) t"
    by (rule Execute_fresh)
  then show ?thesis using assms(4,5)
    by (auto simp: run_operation_command finished_def command_operations_def IsOperation_def quiet_operations_def)
qed

subsection \<open>The output is the beginning of the log\<close>

definition same_local :: "'w machine \<Rightarrow> 'w machine \<Rightarrow> bool" where
  "same_local m m' \<longleftrightarrow> st_files (staged m') = st_files (staged m) \<and> files m' = files m"

lemma files_Err [simp]: "files (snd (Err m)) = files m"
  by (cases "ctx_Err (st_ctx (staged m))") (auto simp: Err_def on_reading_def as_msg_def split: sum.split)

lemma local_on_db: "keeps same_local (on_db f)"
  by (simp add: keeps_def same_local_def on_db_def split: prod.split)

interpretation local_files: calm same_local
proof unfold_locales
  show "keeps same_local Err" by (simp add: keeps_def same_local_def)
  show "keeps same_local (set_conns g)" for g by (simp add: keeps_def same_local_def set_conns_def)
qed (simp add: same_local_def, simp add: same_local_def, simp add: same_local_def, (rule local_on_db)+)

text \<open>A capture whose writes have all succeeded holds the beginning of its log.\<close>

definition captured :: "string \<Rightarrow> capture \<Rightarrow> 'w machine \<Rightarrow> bool" where
  "captured p cap m \<longleftrightarrow> cap_out cap = p \<and> length (cap_prefix cap) \<le> output_limit
     \<and> (cap_err cap = None \<longrightarrow> (\<exists>d. local_content m (cap_out cap) = Some d \<and> cap_prefix cap = take output_limit d))"

lemma captured_same: "keeps same_local f \<Longrightarrow> spec (captured p cap) f (captured p cap) (\<lambda>_. captured p cap)"
  by (rule specI; drule (1) local_files.keepsD)
    (auto simp: captured_def same_local_def local_content_def split: option.splits)

lemma append_local_content:
  assumes "append_local p b m = (x, m')"
  shows "case x of Inl _ \<Rightarrow> local_content m' = local_content m
     | Inr _ \<Rightarrow> local_content m' p = Some ((case local_content m p of None \<Rightarrow> [] | Some d \<Rightarrow> d) @ b)"
  using assms
  by (auto simp: append_local_def andThen_def on_db_def set_local_def fun_eq_iff split: prod.splits sum.splits)
    (simp_all add: local_content_def)

lemma captured_write:
  "spec (captured p cap) (capture_write task cap b) (\<lambda>_. True) (\<lambda>(cap1, _). captured p cap1)"
proof (rule specI)
  fix m y m' assume cap: "captured p cap m" and w: "capture_write task cap b m = (Inr y, m')"
  obtain cap1 e where y: "y = (cap1, e)" by (cases y)
  obtain x m1 where x: "append_local (cap_out cap) b m = (x, m1)" by (cases "append_local (cap_out cap) b m")
  let ?piece = "take (output_limit - length (cap_prefix cap)) b"
  let ?ev = "on_db (Event task ''execution_delta'' ?piece) m1"
  have rest: "cap_out cap1 = cap_out cap \<and> cap_prefix cap1 = cap_prefix cap @ ?piece
      \<and> (cap_err cap1 = None \<longrightarrow> cap_err cap = None \<and> (\<exists>u. x = Inr u)) \<and> local_content m' = local_content m1"
    using w x unfolding y
    by (cases x; cases "output_limit \<le> length (cap_prefix cap)"; cases "fst ?ev")
      (auto simp: capture_write_def andThen_def attempt_def ret_def Let_def on_db_def fun_eq_iff split: prod.splits)
  have "length (cap_prefix cap1) \<le> output_limit" using rest cap by (auto simp: captured_def min_def)
  moreover have "\<exists>d. local_content m' (cap_out cap1) = Some d \<and> cap_prefix cap1 = take output_limit d" if none: "cap_err cap1 = None"
  proof -
    from none rest cap obtain d where d: "local_content m (cap_out cap) = Some d" "cap_prefix cap = take output_limit d"
      by (auto simp: captured_def)
    with append_local_content [OF x] rest none have "local_content m' (cap_out cap1) = Some (d @ b)" by auto
    moreover have "cap_prefix cap1 = take output_limit (d @ b)" using rest d(2) by (auto simp: min_def)
    ultimately show ?thesis by blast
  qed
  ultimately show "(case y of (cap1, _) \<Rightarrow> captured p cap1) m'" using rest cap by (simp add: y captured_def)
qed simp

lemma captured_value:
  "spec (captured p cap) (capture_value task cap x) (\<lambda>_. True) (\<lambda>(_, _, cap1). captured p cap1)"
  unfolding capture_value_def
  by (cases x) (auto intro!: spec_ret spec_andThen [OF captured_write])

lemma captured_copy:
  "spec (captured p cap) (copy_output (capture_write task) cap o1 e1 bs) (\<lambda>_. True) (\<lambda>(cap1, _). captured p cap1)"
proof (induction bs arbitrary: cap o1 e1)
  case (Cons b bs)
  obtain out d where "b = (out, d)" by (cases b)
  then show ?case using Cons by (auto intro!: spec_andThen [OF captured_write])
qed (auto intro!: spec_ret)

lemma captured_run_command:
  "spec (captured p cap) (run_command R c host cmd (capture_write task) cap) (\<lambda>_. True) (\<lambda>(_, _, cap1). captured p cap1)"
proof -
  have same: "spec (captured p cap) (attempt f) (\<lambda>_. True) (\<lambda>_. captured p cap)" if "keeps same_local f" for f :: "('w, 'b) mact"
    by (rule spec_attempt, rule spec_weaken [OF captured_same [OF that]]) auto
  show ?thesis
    unfolding run_command_def
    by (rule spec_andThen [OF same [OF local_files.keeps_Connect_any]])
       (auto split: sum.split prod.split
         intro!: spec_ret spec_andThen [OF same [OF local_files.net_step]] spec_andThen [OF captured_copy]
           spec_andThen [OF spec_weaken [OF captured_same [OF local_files.net_step]]])
qed

lemma local_reading: "keeps same_local (\<lambda>m. on_reading (Inspect (files m) p op os) m)"
  by (simp add: keeps_def same_local_def on_reading_def split: prod.split)

lemma local_set_terms: "keeps same_local (set_terms f)"
  by (simp add: keeps_def same_local_def set_terms_def)

lemma local_type_into: "keeps same_local (type_into i t b)"
proof -
  have "keeps same_local (put_terminal i u)" for u
    unfolding put_terminal_def by (rule local_set_terms)
  then show ?thesis unfolding type_into_def Let_def
    by (auto intro!: local_files.keeps_rules split: list.split delivery.split)
qed

lemma local_Perform: "keeps same_local (Perform R r)"
  unfolding Perform_def terminal_connect_def Register_def Let_def
  by (intro local_files.keeps_rules local_files.basic_steps local_on_db local_set_terms local_type_into)

lemma captured_run_operation:
  assumes "Operation r \<noteq> ''upload_local''"
  shows "spec (captured p cap) (run_operation R c r cap) (\<lambda>_. True) (\<lambda>(_, _, cap1). captured p cap1)"
proof -
  have same: "spec (captured p cap) (attempt f) (\<lambda>_. True) (\<lambda>_. captured p cap)" if "keeps same_local f" for f :: "('w, 'b) mact"
    by (rule spec_attempt, rule spec_weaken [OF captured_same [OF that]]) auto
  have wrote: "spec (captured p cap) (file_write R c r cap) (\<lambda>_. True) (\<lambda>(_, _, cap1). captured p cap1)"
    unfolding file_write_def
    by (rule spec_andThen [OF same [OF local_files.keeps_WriteFile]])
      (auto split: sum.split intro!: spec_ret spec_andThen [OF same [OF local_files.keeps_ReadFile]] spec_andThen [OF captured_write])
  have read: "spec (captured p cap) (andThen (capture_value (TaskID r) cap x) (\<lambda>(code, e, cap1).
       ret (if e = None then code else - 1, e, cap1))) (\<lambda>_. True) (\<lambda>(_, _, cap1). captured p cap1)" for x
    by (rule spec_andThen [OF captured_value]) (auto intro!: spec_ret)
  show ?thesis
    unfolding run_operation_def if_not_P [OF assms]
    by (intro spec_if spec_andThen [OF same [OF local_reading]] spec_andThen [OF same [OF local_files.keeps_FileHash]]
        spec_andThen [OF same [OF local_Perform]] spec_andThen [OF same [OF local_files.keeps_ReadFile]]
        captured_value read wrote spec_ret)
      (auto split: sum.split intro!: spec_ret captured_run_command)
qed


subsection \<open>Concrete executions\<close>

text \<open>Two requests: looking at a local directory, and a command that is blank.\<close>

definition demo_stat :: request where
  "demo_stat = (demo_request [])\<lparr>HostID := [], Operation := ''local_stat'', LocalPath := ''/srv''\<rparr>"

definition demo_blank :: request where
  "demo_blank = demo_request []"

definition demo_local :: "served machine" where
  "demo_local = (demo_machine [] [])\<lparr>files := demo_disk\<rparr>"

definition demo_ctx :: ctx where
  "demo_ctx = \<lparr>ctx_roots = [], ctx_checks = [], ctx_chunks = []\<rparr>"

definition demo_state :: "served machine \<Rightarrow> bool" where
  "demo_state m \<longleftrightarrow> sql (db m) = [] \<and> clock (db m) = [] \<and> st_ctx (staged m) = demo_ctx \<and> files m = demo_disk
     \<and> notices (db m) = changes_init"

lemma demo_inspect: "\<exists>i. Inspect demo_disk ''/srv'' ''local_stat'' [0] demo_ctx = (Inr i, demo_ctx)"
proof -
  have "open_local demo_disk ''/srv'' [] = Inr ([''srv''], Folder 0 [] [
       (''app'', Folder 0 [] [(''a.txt'', Regular ''t'' ''hello''), (''up'', Link 2 ''..''), (''lib'', Link 3 ''sub''),
                              (''sub'', Folder 0 [] [(''b'', Regular ''t'' ''x'')])]),
       (''key'', Regular ''t'' ''secret'')])" by code_simp
  then show ?thesis by (simp add: Inspect_def IsOperation_def andThen_def ctx_Err_def Let_def demo_ctx_def)
qed

lemma demo_stat_runs:
  assumes "demo_state m"
  shows "\<exists>cap m'. run_operation R background demo_stat \<lparr>cap_out = p, cap_prefix = [], cap_err = None\<rparr> m = (Inr (0, None, cap), m')
     \<and> cap_err cap = None \<and> demo_state m'"
proof -
  obtain i where i: "Inspect demo_disk ''/srv'' ''local_stat'' [0] demo_ctx = (Inr i, demo_ctx)"
    using demo_inspect by blast
  have r: "Operation demo_stat = ''local_stat''" "LocalPath demo_stat = ''/srv''" "ReadOffset demo_stat = 0"
    by (simp_all add: demo_stat_def demo_request_def)
  show ?thesis using assms
    by (simp add: run_operation_def r IsOperation_def andThen_def attempt_def on_reading_def demo_state_def i capture_value_def
        capture_write_def append_local_def local_content_def set_local_def as_msg_def statement_def on_db_def Event_def Now_def
        wake_task_def notify_def subscribers_def changes_init_def output_limit_def Let_def ret_def)
qed

lemma demo_blank_runs:
  "run_operation R c demo_blank cap m = (Inr (- 1, Some (Msg ''the command is empty''), cap), m)"
  by (simp add: run_operation_def demo_blank_def demo_request_def IsOperation_def BuildCommand_def TrimSpace_def
      trim_space_left.simps trim_space_right.simps ret_def)

lemma demo_executes:
  assumes "TaskID r \<noteq> []" "CallID r \<noteq> []" "HostID r \<noteq> [] \<or> IsOperation (Operation r)"
    and runs: "\<And>p m. demo_state m \<Longrightarrow> \<exists>code e cap m'.
      run_operation R background r \<lparr>cap_out = p, cap_prefix = [], cap_err = None\<rparr> m = (Inr (code, e, cap), m') \<and> demo_state m'"
  shows "\<exists>res m'. Execute R background r demo_local = (Inr res, m')"
proof -
  have ck: "checkAuthority background demo_local = (Inr (), demo_local)"
    by (simp add: checkAuthority_def andThen_def background_def Err_def on_reading_def ctx_Err_def as_msg_def demo_local_def demo_machine_def)
  let ?result = "new_result ''x'' r 0"
  let ?m = "demo_local\<lparr>db := (db demo_local)\<lparr>fresh := [], executions := [claim_row ''x'' 0 r]\<rparr>\<rparr>"
  have "Claim r (db demo_local) = (Inr (?result, True), (db demo_local)\<lparr>fresh := [], executions := [claim_row ''x'' 0 r]\<rparr>)"
    by (subst Claim_first) (simp_all add: demo_local_def demo_machine_def find_execution_def)
  then have claim: "on_db (Claim r) demo_local = (Inr (?result, True), ?m)" by (simp add: on_db_def)
  have base: "Base ''x'' = ''x''" by code_simp
  obtain p m1 where o: "open_artifact ''x'' ?m = (Inr p, m1)" "demo_state m1"
    by (simp add: open_artifact_def Artifact_def base andThen_def on_db_def statement_def set_local_def Let_def ret_def
        demo_state_def demo_local_def demo_machine_def demo_ctx_def)
  obtain m2 where f: "on_db (Finish (?result\<lparr>res_Artifact := p\<rparr>)) m1 = (Inr (), m2)" "demo_state m2"
    using o(2) by (simp add: Finish_def modify_def andThen_def on_db_def statement_def demo_state_def)
  obtain code e cap m3 where r: "run_operation R background r \<lparr>cap_out = p, cap_prefix = [], cap_err = None\<rparr> m2
      = (Inr (code, e, cap), m3)" "demo_state m3" using runs [OF f(2)] by blast
  have "\<exists>res m'. run_claimed R background r (?result\<lparr>res_Artifact := p\<rparr>) m1 = (Inr res, m')"
    using f r by (simp add: run_claimed_def andThen_def on_db_def Now_def demo_state_def Let_def Finish_def modify_def
        statement_def ret_def)
  then show ?thesis using assms(1-3)
    by (auto simp: Execute_def andThen_def ck claim attempt_def o new_result_def)
qed

lemma demo_stat_executes: "\<exists>res m'. Execute R background demo_stat demo_local = (Inr res, m')"
  by (rule demo_executes) (use demo_stat_runs in \<open>simp_all add: demo_stat_def demo_request_def IsOperation_def, blast\<close>)

lemma demo_blank_executes: "\<exists>res m'. Execute R background demo_blank demo_local = (Inr res, m')"
  by (rule demo_executes) (simp_all add: demo_blank_runs, simp_all add: demo_blank_def demo_request_def)

lemma demo_local_ok:
  "executions_ok (db demo_local)" "calm_call background" "find_execution t c (db demo_local) = None"
  by (simp_all add: demo_local_def demo_machine_def executions_ok_def calm_call_def background_def find_execution_def)




theorem recorded_call_not_repeated_witness:
  "\<exists>y m'. Execute demo_server background demo_blank (demo_local\<lparr>db := (db demo_local)\<lparr>executions := [claim_row ''y'' 0 demo_blank]\<rparr>\<rparr>)
       = (y, m') \<and> net m' = net demo_local
     \<and> (case y of Inr res \<Rightarrow> res_ID res = ''y'' | Inl _ \<Rightarrow> True)"
proof -
  let ?m = "demo_local\<lparr>db := (db demo_local)\<lparr>executions := [claim_row ''y'' 0 demo_blank]\<rparr>\<rparr>"
  obtain y m' where run: "Execute demo_server background demo_blank ?m = (y, m')"
    by (cases "Execute demo_server background demo_blank ?m")
  have ok: "executions_ok (db ?m)"
    by (simp add: executions_ok_def claim_row_def new_result_def demo_local_def demo_machine_def)
  have "find_execution (TaskID demo_blank) (CallID demo_blank) (db ?m) = Some (claim_row ''y'' 0 demo_blank)"
    by (simp add: find_execution_def claim_row_def)
  from recorded_call_not_repeated [OF ok demo_local_ok(2) this run] run show ?thesis
    by (auto simp: claim_row_def new_result_def split: sum.split)
qed

end
