(* ===== verification/Tools.thy ===== *)
theory Tools
  imports Executor Policy
begin

text \<open>
  \<open>internal/agent/tools.go\<close>, \<open>verification.go\<close> and part of \<open>attachments.go\<close>: the tools the model calls.

  A tool gets the task as it was when its run started.  Its result is text for the model or an
  error: \<open>Correctable\<close> for a mistake the model may correct, \<open>Interrupt\<close> for a request that waits for
  approval.  \<open>caller\<close> is the identity of the call in its context; the texts of events and
  messages are ASCII renderings.
\<close>

subsection \<open>The identity of a call\<close>

record caller =
  run_id :: string
  agent_name :: string
  tool_call_id :: string

definition executionAgentName :: "caller \<Rightarrow> string" where
  "executionAgentName k = (if agent_name k = [] then ''operator'' else agent_name k)"

definition executionCallID :: "caller \<Rightarrow> string" where
  "executionCallID k = run_id k @ '':'' @ tool_call_id k"

subsection \<open>Results as text\<close>

text \<open>
  \<open>time.Time\<close> in RFC 3339, from the nanoseconds since the zero time in UTC; the date is computed from
  the days since the first of March of the year 0.
\<close>

definition padded :: "nat \<Rightarrow> int \<Rightarrow> string" where
  "padded n i = (let s = FormatNat (nat i) in replicate (n - length s) CHR ''0'' @ s)"

definition civil :: "int \<Rightarrow> int \<times> int \<times> int" where
  "civil days =
     (let z = days + 306;
          era = z div 146097; doe = z mod 146097;
          yoe = (doe - doe div 1460 + doe div 36524 - doe div 146096) div 365;
          doy = doe - (365 * yoe + yoe div 4 - yoe div 100);
          mp = (5 * doy + 2) div 153;
          d = doy - (153 * mp + 2) div 5 + 1;
          m = (if mp < 10 then mp + 3 else mp - 9)
      in (yoe + era * 400 + (if m \<le> 2 then 1 else 0), m, d))"

definition rfc3339 :: "time \<Rightarrow> string" where
  "rfc3339 t =
     (let ns = t mod 1000000000; s = t div 1000000000; sod = s mod 86400;
          frac = rev (dropWhile (\<lambda>c. c = CHR ''0'') (rev (padded 9 ns)))
      in case civil (s div 86400) of (y, m, d) \<Rightarrow>
           padded 4 y @ ''-'' @ padded 2 m @ ''-'' @ padded 2 d @ ''T'' @ padded 2 (sod div 3600) @ '':''
           @ padded 2 (sod div 60 mod 60) @ '':'' @ padded 2 (sod mod 60)
           @ (if ns = 0 then [] else ''.'' @ frac) @ ''Z'')"

definition result_json :: "result \<Rightarrow> json" where
  "result_json r = JObj
     ([(''id'', JStr (res_ID r)), (''request'', JObj (request_fields (res_Request r))), (''status'', JStr (res_Status r)),
       (''exit_code'', JInt (ExitCode r))]
      @ omit_str ''output'' (Output r) @ omit_str ''artifact'' (res_Artifact r) @ omit_str ''error'' (res_Error r)
      @ [(''started_at'', JStr (rfc3339 (StartedAt r))), (''finished_at'', JStr (rfc3339 (FinishedAt r)))])"

subsection \<open>Known results and verification\<close>

definition unsettled :: "result \<Rightarrow> bool" where
  "unsettled r \<longleftrightarrow> res_Status r = ''unknown'' \<or> res_Status r = ''running''"

definition local_result :: "result \<Rightarrow> bool" where
  "local_result r \<longleftrightarrow> IsOperation (Operation (res_Request r))"

definition checkKnownResults :: "string \<Rightarrow> unit sact" where
  "checkKnownResults task =
     andThen (Results task) (\<lambda>rs.
       if list_ex (\<lambda>r. \<not> local_result r \<and> unsettled r) rs then throw (Msg ''an operation has an unknown result'') else ret ())"

text \<open>The last result with the given identifier, when none before an unsettled one.\<close>

definition last_result :: "string \<Rightarrow> result list \<Rightarrow> result option" where
  "last_result i rs = find (\<lambda>r. res_ID r = i) (rev rs)"

definition evidence_ok :: "result \<Rightarrow> string \<Rightarrow> bool" where
  "evidence_ok r expected \<longleftrightarrow>
     \<not> HasPrefix (Operation (res_Request r)) ''terminal_'' \<and> \<not> Mutates (Operation (res_Request r))
     \<and> res_Status r = ''succeeded'' \<and> Contains (Output r) expected"

definition newer_on_host :: "result \<Rightarrow> result \<Rightarrow> bool" where
  "newer_on_host found r \<longleftrightarrow> HostID (res_Request r) = HostID (res_Request found) \<and> StartedAt found < StartedAt r"

definition verifyResult :: "task \<Rightarrow> caller \<Rightarrow> result list \<Rightarrow> string \<Rightarrow> string \<Rightarrow> unit sact" where
  "verifyResult t k rs i expected =
     (if executionAgentName k \<noteq> ''operator'' then throw (Correctable ''the main agent does the final verification'')
      else if list_ex unsettled rs then throw (Msg ''some executions are not confirmed'')
      else (case last_result i rs of
              None \<Rightarrow> throw (Correctable ''the evidence is not of this task'')
            | Some found \<Rightarrow>
                if HostID (res_Request found) \<notin> set (HostIDs (Grant t)) then throw (Correctable ''the evidence is not of this task'')
                else if \<not> evidence_ok found expected then throw (Correctable ''the evidence does not satisfy the conditions'')
                else if list_ex (newer_on_host found) rs then throw (Correctable ''use the last read-only check of this server'')
                else andThen Now (\<lambda>now.
                     Put (''verification:'' @ task_ID t) (HostID (res_Request found))
                       (VerificationDoc \<lparr>v_HostID = HostID (res_Request found), v_ExecutionID = i, v_ExpectedText = expected,
                                         v_AgentName = executionAgentName k, v_At = now\<rparr>))))"

definition hasOperations :: "string \<Rightarrow> store \<Rightarrow> bool \<times> store" where
  "hasOperations task s =
     (case Results task s of (Inl _, s1) \<Rightarrow> (True, s1) | (Inr rs, s1) \<Rightarrow> (list_ex (\<lambda>r. \<not> local_result r) rs, s1))"

text \<open>The last remote result of each host; the order in which Go goes through the hosts does not matter.\<close>

fun last_per_host :: "result list \<Rightarrow> (string \<times> result) list" where
  "last_per_host [] = []"
| "last_per_host (r # rs) =
     (if local_result r \<or> HostID (res_Request r) \<in> fst ` set (last_per_host rs) then last_per_host rs
      else (HostID (res_Request r), r) # last_per_host rs)"

fun each_verified :: "string \<Rightarrow> (string \<times> result) list \<Rightarrow> store \<Rightarrow> bool \<times> store" where
  "each_verified task [] s = (True, s)"
| "each_verified task ((h, r) # hs) s =
     (case Load as_verification (''verification:'' @ task) h s of
        (Inl _, s1) \<Rightarrow> (False, s1)
      | (Inr v, s1) \<Rightarrow> if v_ExecutionID v \<noteq> res_ID r then (False, s1) else each_verified task hs s1)"

definition allVerified :: "string \<Rightarrow> store \<Rightarrow> bool \<times> store" where
  "allVerified task s =
     (case Results task s of
        (Inl _, s1) \<Rightarrow> (False, s1)
      | (Inr rs, s1) \<Rightarrow>
          if rs = [] \<or> list_ex (\<lambda>r. \<not> local_result r \<and> unsettled r) rs \<or> last_per_host rs = [] then (False, s1)
          else each_verified task (last_per_host rs) s1)"

subsection \<open>Attached files\<close>

definition attachedFile :: "task \<Rightarrow> string \<Rightarrow> bool sact" where
  "attachedFile t p =
     andThen (attempt (Load as_attachment (''local_inputs:'' @ task_ID t) (Digest (JStr p)))) (\<lambda>x.
       case x of
         Inl e \<Rightarrow> if e = NoRows then ret False else throw e
       | Inr a \<Rightarrow> ret (at_GrantID a = grant_ID (Grant t) \<and> at_Path a = p))"

subsection \<open>Executing a request\<close>

definition log_event :: "string \<Rightarrow> string \<Rightarrow> string \<Rightarrow> ('w, unit) mact" where
  "log_event i kind content = andThen (on_db (Event i kind content)) (\<lambda>_. ret ())"

text \<open>An error of these checks becomes a correctable one.\<close>

definition corrected :: "('w, 'a) mact \<Rightarrow> ('w, 'a) mact" where
  "corrected f = andThen (attempt f) (\<lambda>x. case x of Inl e \<Rightarrow> throw (Correctable (err_text e)) | Inr y \<Rightarrow> ret y)"

definition canonical_request :: "request \<Rightarrow> ('w, request) mact" where
  "canonical_request r =
     (if LocalPath r = [] then ret r
      else andThen (asks (\<lambda>m. CanonicalPath (files m) (LocalPath r))) (\<lambda>x.
        case x of Inl e \<Rightarrow> throw (Correctable e) | Inr p \<Rightarrow> ret (r\<lparr>LocalPath := p\<rparr>)))"

definition local_allowed :: "task \<Rightarrow> request \<Rightarrow> ('w, bool) mact" where
  "local_allowed t r = corrected
     (andThen (on_db Now) (\<lambda>now.
      andThen (outcome (as_msg (EvaluateLocal t r now))) (\<lambda>ok.
        if ok then ret True else on_db (attachedFile t (LocalPath r)))))"

definition remote_allowed :: "task \<Rightarrow> request \<Rightarrow> ('w, bool) mact" where
  "remote_allowed t r =
     andThen (attempt (on_db (Host (HostID r)))) (\<lambda>x.
       case x of
         Inl e \<Rightarrow> throw (if e = NoRows then Correctable ''invalid server id'' else e)
       | Inr h \<Rightarrow>
           andThen (if Mutates (Operation r) then on_db (checkKnownResults (task_ID t)) else ret ()) (\<lambda>_.
           corrected (andThen (on_db Now) (\<lambda>now. outcome (as_msg (Evaluate t h r now))))))"

text \<open>Whether an approval lets the request go on (\<open>True\<close>), or it was refused (\<open>False\<close>).\<close>

definition approval_given :: "task \<Rightarrow> request \<Rightarrow> ('w, bool) mact" where
  "approval_given t r =
     andThen (attempt (on_db (Load as_approval ''approvals'' (Digest_request r)))) (\<lambda>x.
       case x of
         Inl e \<Rightarrow>
           if e \<noteq> NoRows then throw e
           else throw (Interrupt \<lparr>InterruptID = [], ap_Request = r, ap_Digest = Digest_request r, ap_GrantID = grant_ID (Grant t),
                                  Reason = ''the operation needs approval'', Approved = False, Decided = False\<rparr>)
       | Inr a \<Rightarrow>
           if Decided a \<and> ap_GrantID a = grant_ID (Grant t) \<and> \<not> Approved a then ret False
           else if \<not> ApprovedFor a t r
           then throw (Interrupt \<lparr>InterruptID = [], ap_Request = r, ap_Digest = Digest_request r, ap_GrantID = grant_ID (Grant t),
                                  Reason = ''the operation needs approval'', Approved = False, Decided = False\<rparr>)
           else ret True)"

text \<open>The check repeated just before an execution.\<close>

definition recheck :: "task \<Rightarrow> request \<Rightarrow> ('w, unit) mact" where
  "recheck t r =
     (if IsOperation (Operation r)
      then andThen (on_db Now) (\<lambda>now. andThen (outcome (as_msg (EvaluateLocal t r now))) (\<lambda>_. ret ()))
      else andThen (on_db (Host (HostID r))) (\<lambda>h.
           andThen (on_db Now) (\<lambda>now. andThen (outcome (as_msg (Evaluate t h r now))) (\<lambda>_. ret ()))))"

definition guarded :: "task \<Rightarrow> request \<Rightarrow> 'w call" where
  "guarded t r =
     \<lparr>c_roots = LocalRoots (Grant t),
      c_authority = Some (HostID r, map_lookup (Identities (Grant t)) (HostID r), recheck t r)\<rparr>"

definition run_allowed :: "'w outside \<Rightarrow> task \<Rightarrow> request \<Rightarrow> ('w, string) mact" where
  "run_allowed R t r =
     andThen (log_event (task_ID t) ''execution_start''
       (HostID r @ '' '' @ Operation r @ '' '' @ Resource r @ '' '' @ LocalPath r)) (\<lambda>_.
     andThen (with_roots (LocalRoots (Grant t))) (\<lambda>_.
     andThen (Execute R (guarded t r) r) (\<lambda>res.
     andThen (log_event (task_ID t) ''execution_result''
       (res_ID res @ '' '' @ res_Status res @ '' exit='' @ FormatInt (ExitCode res) @ newline @ Output res)) (\<lambda>_.
       if unsettled res then throw (Msg ''the remote result is not confirmed; stopping'')
       else ret (render (result_json res))))))"

definition executeTool :: "'w outside \<Rightarrow> task \<Rightarrow> request \<Rightarrow> ('w, string) mact" where
  "executeTool R t r0 =
     andThen (canonical_request r0) (\<lambda>r.
     andThen (if IsOperation (Operation r) then local_allowed t r else remote_allowed t r) (\<lambda>allowed.
     andThen (if allowed then ret True else approval_given t r) (\<lambda>go.
       if go then run_allowed R t r else ret ''the user refused this operation'')))"

subsection \<open>The tools\<close>

record operation_input =
  in_LocalPath :: string
  in_SourceHash :: string
  in_UploadMode :: string
  in_HostID :: string
  in_Operation :: string
  in_Resource :: string
  in_Command :: string
  in_Content :: string
  in_ExpectedHash :: string
  in_TimeoutSeconds :: int

definition operate_request :: "task \<Rightarrow> caller \<Rightarrow> operation_input \<Rightarrow> request" where
  "operate_request t k i =
     \<lparr>ReadOffset = 0, LocalPath = in_LocalPath i, SourceHash = in_SourceHash i, UploadMode = in_UploadMode i,
      RunID = run_id k, AgentName = executionAgentName k, TaskID = task_ID t, CallID = executionCallID k, HostID = in_HostID i,
      Operation = in_Operation i, Resource = in_Resource i, Command = in_Command i, Content = in_Content i,
      ExpectedHash = in_ExpectedHash i, TimeoutSeconds = in_TimeoutSeconds i\<rparr>"

definition operate :: "'w outside \<Rightarrow> task \<Rightarrow> caller \<Rightarrow> operation_input \<Rightarrow> ('w, string) mact" where
  "operate R t k i = executeTool R t (operate_request t k i)"

definition local_files_request :: "task \<Rightarrow> caller \<Rightarrow> string \<Rightarrow> string \<Rightarrow> int \<Rightarrow> request" where
  "local_files_request t k op p offset =
     \<lparr>ReadOffset = offset, LocalPath = p, SourceHash = [], UploadMode = [],
      RunID = run_id k, AgentName = executionAgentName k, TaskID = task_ID t, CallID = executionCallID k, HostID = [],
      Operation = ''local_'' @ op, Resource = [], Command = [], Content = [], ExpectedHash = [], TimeoutSeconds = 0\<rparr>"

definition local_files_tool :: "'w outside \<Rightarrow> task \<Rightarrow> caller \<Rightarrow> string \<Rightarrow> string \<Rightarrow> int \<Rightarrow> ('w, string) mact" where
  "local_files_tool R t k op p offset =
     (if op \<noteq> ''stat'' \<and> op \<noteq> ''list'' \<and> op \<noteq> ''read'' then throw (Correctable ''the operation must be stat, list or read'')
      else executeTool R t (local_files_request t k op p offset))"

definition verify_execution :: "task \<Rightarrow> caller \<Rightarrow> string \<Rightarrow> string \<Rightarrow> ('w, string) mact" where
  "verify_execution t k i expected =
     (if expected = [] then throw (Correctable ''the expected text is missing'')
      else andThen (on_db (Results (task_ID t))) (\<lambda>rs.
           andThen (on_db (verifyResult t k rs i expected)) (\<lambda>_.
           andThen (log_event (task_ID t) ''verified'' (i @ '': '' @ expected)) (\<lambda>_. ret ''verified''))))"

definition evidence_size :: nat where
  "evidence_size = 16384"

definition read_evidence :: "task \<Rightarrow> string \<Rightarrow> int \<Rightarrow> ('w, string) mact" where
  "read_evidence t i offset =
     (if offset < 0 then throw (Correctable ''offset cannot be negative'')
      else andThen (on_db (Results (task_ID t))) (\<lambda>rs.
        case find (\<lambda>r. res_ID r = i) rs of
          None \<Rightarrow> throw (Correctable ''the evidence is not of this task'')
        | Some r \<Rightarrow> andThen (os_Open (res_Artifact r)) (\<lambda>d. ret (take evidence_size (drop (nat offset) d)))))"

definition host_info_json :: "host \<Rightarrow> json" where
  "host_info_json h = JObj [(''host_id'', JStr (host_ID h)), (''name'', JStr (host_Name h)),
     (''address'', JStr (host_Address h)), (''user'', JStr (host_User h))]"

fun load_hosts :: "string list \<Rightarrow> ('w, host list) mact" where
  "load_hosts [] = ret []"
| "load_hosts (i # is) = andThen (on_db (Host i)) (\<lambda>h. andThen (load_hosts is) (\<lambda>hs. ret (h # hs)))"

definition workspace_context :: "'w outside \<Rightarrow> task \<Rightarrow> ('w, string) mact" where
  "workspace_context R t =
     andThen (load_hosts (HostIDs (Grant t))) (\<lambda>hs.
     andThen (asks (\<lambda>m. if has_desktop R then List_terminals (terms m) (HostIDs (Grant t)) else [])) (\<lambda>ts.
       ret (render (JObj [(''local_roots'', JArr (map JStr (LocalRoots (Grant t)))), (''hosts'', JArr (map host_info_json hs)),
                          (''terminals'', JArr (map terminal_info_json ts))]))))"

end
