(* ===== verification/ToolsSafe.thy ===== *)
theory ToolsSafe
  imports Tools ExecutorSafe
begin

text \<open>
  What \<open>executeTool\<close> guarantees: nothing is done without authority, a request that the grant does
  not cover and nobody approved ends in a question about exactly that request, and nothing is
  changed while an earlier outcome is unknown.
\<close>

subsection \<open>Checks only look\<close>

text \<open>The database up to what looking at it uses up: outcomes of statements and readings of the clock.\<close>

definition same_records :: "store \<Rightarrow> store \<Rightarrow> bool" where
  "same_records s s' \<longleftrightarrow> documents s' = documents s \<and> executions s' = executions s \<and> fresh s' = fresh s
     \<and> events s' = events s \<and> event_seq s' = event_seq s \<and> checkpoints s' = checkpoints s \<and> artifacts s' = artifacts s"

interpretation records: preserved same_records
  by unfold_locales (auto simp: same_records_def)

lemma records_statement: "keeps same_records statement"
  by (auto simp: keeps_def statement_def same_records_def split: list.split option.split)

lemma records_Now: "keeps same_records Now"
  by (auto simp: keeps_def Now_def same_records_def split: list.split)

lemma records_Load: "keeps same_records (Load as kind i)"
  unfolding Load_def
  by (intro records.keeps_andThen records_statement) (auto simp: keeps_def same_records_def split: option.split)

lemma records_Results: "keeps same_records (Results task)"
  unfolding Results_def
  by (intro records.keeps_andThen records_statement) (auto simp: keeps_def same_records_def)

lemma records_checkKnownResults: "keeps same_records (checkKnownResults task)"
  unfolding checkKnownResults_def by (intro records.keeps_andThen records_Results records.keeps_if records.keeps_throw records.keeps_ret)

lemma keeps_sum_case:
  "(\<And>e. keeps rel (f e)) \<Longrightarrow> (\<And>x. keeps rel (g x)) \<Longrightarrow> keeps rel (case x of Inl e \<Rightarrow> f e | Inr x \<Rightarrow> g x)"
  by (cases x) auto

lemma records_attachedFile: "keeps same_records (attachedFile t p)"
  unfolding attachedFile_def
  by (intro records.keeps_andThen records.keeps_attempt records_Load keeps_sum_case records.keeps_if records.keeps_throw records.keeps_ret)

definition looked :: "'w machine \<Rightarrow> 'w machine \<Rightarrow> bool" where
  "looked m m' \<longleftrightarrow> same_records (db m) (db m') \<and> net m' = net m \<and> terms m' = terms m \<and> staged m' = staged m
     \<and> files m' = files m"

interpretation looking: preserved looked
  by unfold_locales (auto simp: looked_def same_records_def)

lemma looked_db: "keeps same_records f \<Longrightarrow> keeps looked (on_db f)"
  by (simp add: keeps_def looked_def on_db_def split: prod.split) (metis snd_conv)

lemma looked_untouched: "looked m m' \<Longrightarrow> untouched m m'"
  by (simp add: looked_def same_records_def untouched_def)

lemmas looked_rules = looking.keeps_andThen looking.keeps_attempt looking.keeps_if looking.keeps_throw looking.keeps_ret
  looking.keeps_outcome looking.keeps_asks keeps_sum_case
  looked_db records_Load records_Now records_checkKnownResults records_attachedFile

lemma looked_Host: "keeps looked (on_db (Host i))"
  unfolding Host_def by (intro looked_rules)

lemma looked_corrected: "keeps looked f \<Longrightarrow> keeps looked (corrected f)"
  unfolding corrected_def by (intro looked_rules)

lemma looked_canonical: "keeps looked (canonical_request r)"
  unfolding canonical_request_def by (intro looked_rules)

lemma looked_local: "keeps looked (local_allowed t r)"
  unfolding local_allowed_def by (intro looked_corrected looked_rules)

lemma looked_remote: "keeps looked (remote_allowed t r)"
  unfolding remote_allowed_def by (intro looked_rules looked_Host looked_corrected)

lemma looked_approval: "keeps looked (approval_given t r)"
  unfolding approval_given_def by (intro looked_rules)

lemma looked_recheck: "keeps looked (recheck t r)"
  unfolding recheck_def by (intro looked_rules looked_Host)

lemma guarded_calm: "calm_call (guarded t r)"
  using looked_recheck [of t r] looked_untouched by (auto simp: calm_call_def guarded_def keeps_def)

subsection \<open>Authority\<close>

text \<open>The canonical form of a request, and what gives it authority in a state of the program.\<close>

definition canonical_of :: "'w machine \<Rightarrow> request \<Rightarrow> request option" where
  "canonical_of m r =
     (if LocalPath r = [] then Some r
      else (case CanonicalPath (files m) (LocalPath r) of Inl _ \<Rightarrow> None | Inr p \<Rightarrow> Some (r\<lparr>LocalPath := p\<rparr>)))"

definition approved_in :: "store \<Rightarrow> task \<Rightarrow> request \<Rightarrow> bool" where
  "approved_in s t r \<longleftrightarrow>
     (case find_doc ''approvals'' (Digest_request r) s of Some (ApprovalDoc a) \<Rightarrow> ApprovedFor a t r | _ \<Rightarrow> False)"

definition attached_in :: "store \<Rightarrow> task \<Rightarrow> string \<Rightarrow> bool" where
  "attached_in s t p \<longleftrightarrow>
     (case find_doc (''local_inputs:'' @ task_ID t) (Digest_string p) s of
        Some (AttachmentDoc a) \<Rightarrow> at_GrantID a = grant_ID (Grant t) \<and> at_Path a = p | _ \<Rightarrow> False)"

definition no_unknown_outcome :: "store \<Rightarrow> string \<Rightarrow> bool" where
  "no_unknown_outcome s task \<longleftrightarrow> (\<forall>r \<in> set (results_of task s). local_result r \<or> \<not> unsettled r)"

definition authorised :: "store \<Rightarrow> task \<Rightarrow> request \<Rightarrow> time \<Rightarrow> bool" where
  "authorised s t r now \<longleftrightarrow>
     (if IsOperation (Operation r)
      then (case EvaluateLocal t r now of Inl _ \<Rightarrow> False
            | Inr granted \<Rightarrow> granted \<or> attached_in s t (LocalPath r) \<or> approved_in s t r)
      else (case find_doc ''hosts'' (HostID r) s of
              Some (HostDoc h) \<Rightarrow>
                (case Evaluate t h r now of Inl _ \<Rightarrow> False | Inr granted \<Rightarrow> granted \<or> approved_in s t r)
                \<and> (Mutates (Operation r) \<longrightarrow> no_unknown_outcome s (task_ID t))
            | _ \<Rightarrow> False))"

lemma same_records_find: "same_records s s' \<Longrightarrow> find_doc kind i s' = find_doc kind i s"
  by (simp add: same_records_def find_doc_def)

lemma same_records_results: "same_records s s' \<Longrightarrow> results_of task s' = results_of task s"
  by (simp add: same_records_def results_of_def)

lemma authority_cong:
  assumes "same_records s s'"
  shows "approved_in s' = approved_in s" "attached_in s' = attached_in s" "no_unknown_outcome s' = no_unknown_outcome s"
    "find_doc kind i s' = find_doc kind i s"
  using assms
  by (auto simp: approved_in_def attached_in_def no_unknown_outcome_def same_records_find same_records_results fun_eq_iff)

lemma authorised_cong: "same_records s s' \<Longrightarrow> authorised s' t r now = authorised s t r now"
  unfolding authorised_def by (simp only: authority_cong [of s s'])

lemma Load_found: "Load as kind i s = (Inr x, s') \<Longrightarrow> \<exists>d. find_doc kind i s = Some d \<and> as d = Some x"
  using records.keepsD [OF records_statement, of s]
  by (cases "statement s")
    (auto simp: Load_def andThen_def find_doc_def same_records_def split: sum.splits option.splits)

lemma as_host_Some: "as_host d = Some h \<longleftrightarrow> d = HostDoc h" by (cases d) auto
lemma as_approval_Some: "as_approval d = Some a \<longleftrightarrow> d = ApprovalDoc a" by (cases d) auto
lemma as_attachment_Some: "as_attachment d = Some a \<longleftrightarrow> d = AttachmentDoc a" by (cases d) auto

lemma on_db_result: "on_db f m = (Inr x, m') \<Longrightarrow> f (db m) = (Inr x, db m')"
  by (auto simp: on_db_def split: prod.splits)

lemma attempt_Inr: "attempt f m = (Inr x, m') \<longleftrightarrow> f m = (x, m')"
  by (auto simp: attempt_def split: prod.splits)

lemma canonical_request_Inr: "canonical_request r0 m = (Inr r, m1) \<Longrightarrow> canonical_of m r0 = Some r"
  by (auto simp: canonical_request_def canonical_of_def andThen_def asks_def ret_def throw_def split: if_splits sum.splits)

lemma attachedFile_True:
  assumes "attachedFile t p s = (Inr True, s')"
  shows "attached_in s t p"
proof -
  obtain x s1 where x: "Load as_attachment (''local_inputs:'' @ task_ID t) (Digest (JStr p)) s = (x, s1)" by fastforce
  with assms obtain a where a: "x = Inr a" "at_GrantID a = grant_ID (Grant t)" "at_Path a = p"
    by (cases x) (auto simp: attachedFile_def andThen_def attempt_def ret_def throw_def split: if_splits)
  with Load_found [of as_attachment "''local_inputs:'' @ task_ID t" "Digest (JStr p)" s] x show ?thesis
    by (auto simp: attached_in_def Digest_string_def as_attachment_Some)
qed

lemma corrected_Inr: "corrected f m = (Inr y, m') \<Longrightarrow> f m = (Inr y, m')"
  by (auto simp: corrected_def andThen_def attempt_def throw_def ret_def split: prod.splits sum.splits)

lemma as_msg_Inr: "as_msg x = Inr y \<longleftrightarrow> x = Inr y"
  by (simp add: as_msg_def split: sum.split)

lemma outcome_Inr: "outcome x m = (Inr y, m') \<longleftrightarrow> x = Inr y \<and> m' = m"
  by (auto simp: outcome_def)

lemma local_allowed_Inr:
  assumes "local_allowed t r m = (Inr a, m')"
  shows "\<exists>now granted. EvaluateLocal t r now = Inr granted \<and> (a \<longrightarrow> granted \<or> attached_in (db m) t (LocalPath r))"
proof -
  from corrected_Inr [OF assms [unfolded local_allowed_def]] obtain now m1 where now: "on_db Now m = (Inr now, m1)"
    and rest: "andThen (outcome (as_msg (EvaluateLocal t r now))) (\<lambda>ok.
        if ok then ret True else on_db (attachedFile t (LocalPath r))) m1 = (Inr a, m')"
    by (rule andThen_Inr)
  from rest obtain g where g: "EvaluateLocal t r now = Inr g"
    and last: "(if g then ret True else on_db (attachedFile t (LocalPath r))) m1 = (Inr a, m')"
    by (elim andThen_Inr) (auto simp: outcome_Inr as_msg_Inr)
  have same: "same_records (db m) (db m1)"
    using looking.keepsD [OF looked_db [OF records_Now] now] by (simp add: looked_def)
  have "attached_in (db m1) t (LocalPath r)" if "a" "\<not> g"
    using last that by (auto dest!: on_db_result attachedFile_True)
  with g same show ?thesis by (auto simp: authority_cong [OF same])
qed

lemma checkKnownResults_Inr: "checkKnownResults task s = (Inr u, s') \<Longrightarrow> no_unknown_outcome s task"
  using records.keepsD [OF records_statement, of s]
  by (cases "statement s") (auto simp: checkKnownResults_def Results_def andThen_def throw_def ret_def no_unknown_outcome_def
      list_ex_iff results_of_def same_records_def split: sum.splits if_splits)

lemma remote_allowed_Inr:
  assumes "remote_allowed t r m = (Inr a, m')"
  shows "\<exists>h now. find_doc ''hosts'' (HostID r) (db m) = Some (HostDoc h) \<and> Evaluate t h r now = Inr a
     \<and> (Mutates (Operation r) \<longrightarrow> no_unknown_outcome (db m) (task_ID t))"
proof -
  obtain x m1 where x: "on_db (Host (HostID r)) m = (x, m1)" by fastforce
  have same: "same_records (db m) (db m1)" using looking.keepsD [OF looked_Host x] by (simp add: looked_def)
  from assms x obtain h where h: "x = Inr h"
    and rest: "andThen (if Mutates (Operation r) then on_db (checkKnownResults (task_ID t)) else ret ()) (\<lambda>_.
           corrected (andThen (on_db Now) (\<lambda>now. outcome (as_msg (Evaluate t h r now))))) m1 = (Inr a, m')"
    by (cases x) (auto simp: remote_allowed_def andThen_def attempt_def throw_def)
  from rest obtain m2 where known: "(if Mutates (Operation r) then on_db (checkKnownResults (task_ID t)) else ret ()) m1 = (Inr (), m2)"
    and eval: "corrected (andThen (on_db Now) (\<lambda>now. outcome (as_msg (Evaluate t h r now)))) m2 = (Inr a, m')"
    by (elim andThen_Inr) auto
  have "Mutates (Operation r) \<longrightarrow> no_unknown_outcome (db m) (task_ID t)"
    using known by (auto dest!: on_db_result checkKnownResults_Inr simp: authority_cong [OF same])
  moreover have "find_doc ''hosts'' (HostID r) (db m) = Some (HostDoc h)"
    using Load_found [of as_host "''hosts''" "HostID r" "db m"] on_db_result [of "Host (HostID r)" m h m1] x h
    by (auto simp: Host_def as_host_Some)
  moreover have "\<exists>now. Evaluate t h r now = Inr a"
    using corrected_Inr [OF eval] by (elim andThen_Inr) (auto simp: outcome_Inr as_msg_Inr)
  ultimately show ?thesis by auto
qed

lemma approval_given_True:
  assumes "approval_given t r m = (Inr True, m')"
  shows "approved_in (db m) t r"
proof -
  obtain x m1 where x: "on_db (Load as_approval ''approvals'' (Digest_request r)) m = (x, m1)" by fastforce
  with assms obtain a where a: "x = Inr a" "ApprovedFor a t r"
    by (cases x) (auto simp: approval_given_def andThen_def attempt_def ret_def throw_def split: if_splits)
  with Load_found [of as_approval "''approvals''" "Digest_request r" "db m"]
    on_db_result [of "Load as_approval ''approvals'' (Digest_request r)" m a m1] x show ?thesis
    by (auto simp: approved_in_def as_approval_Some)
qed

text \<open>The decision of a call: the canonical request, and whether it may go on.\<close>

definition decision :: "task \<Rightarrow> request \<Rightarrow> ('w, request \<times> bool) mact" where
  "decision t r0 =
     andThen (canonical_request r0) (\<lambda>r.
     andThen (if IsOperation (Operation r) then local_allowed t r else remote_allowed t r) (\<lambda>allowed.
     andThen (if allowed then ret True else approval_given t r) (\<lambda>go. ret (r, go))))"

lemma executeTool_decision:
  "executeTool R t r0 = andThen (decision t r0) (\<lambda>(r, go).
     if go then run_allowed R t r else ret ''the user refused this operation'')"
  by (rule ext) (auto simp: executeTool_def decision_def andThen_def ret_def split: prod.split sum.split)

lemma looked_decision: "keeps looked (decision t r0)"
  unfolding decision_def by (intro looked_rules looked_canonical looked_local looked_remote looked_approval)

lemma decision_authorised:
  assumes "decision t r0 m = (Inr (r, True), m')"
  shows "canonical_of m r0 = Some r \<and> (\<exists>now. authorised (db m) t r now)"
proof -
  from assms [unfolded decision_def] obtain m1 allowed m2 where c: "canonical_request r0 m = (Inr r, m1)"
    and a: "(if IsOperation (Operation r) then local_allowed t r else remote_allowed t r) m1 = (Inr allowed, m2)"
    and g: "(if allowed then ret True else approval_given t r) m2 = (Inr True, m')"
    by (elim andThen_Inr) auto
  have same1: "same_records (db m) (db m1)" using looking.keepsD [OF looked_canonical c] by (simp add: looked_def)
  have "keeps looked (if IsOperation (Operation r) then local_allowed t r else remote_allowed t r)"
    by (intro looking.keeps_if looked_local looked_remote)
  from looking.keepsD [OF this a] have same2: "same_records (db m1) (db m2)" by (simp add: looked_def)
  have approved: "allowed \<or> approved_in (db m) t r"
    using g by (auto dest!: approval_given_True simp: authority_cong [OF same2] authority_cong [OF same1] split: if_splits)
  have "\<exists>now. authorised (db m) t r now"
  proof (cases "IsOperation (Operation r)")
    case True
    with a local_allowed_Inr [of t r m1 allowed m2] obtain now granted where "EvaluateLocal t r now = Inr granted"
      "allowed \<longrightarrow> granted \<or> attached_in (db m) t (LocalPath r)" by (auto simp: authority_cong [OF same1])
    with True approved have "authorised (db m) t r now" by (auto simp: authorised_def)
    then show ?thesis ..
  next
    case False
    with a remote_allowed_Inr [of t r m1 allowed m2] obtain h now
      where "find_doc ''hosts'' (HostID r) (db m) = Some (HostDoc h)" "Evaluate t h r now = Inr allowed"
        "Mutates (Operation r) \<longrightarrow> no_unknown_outcome (db m) (task_ID t)" by (auto simp: authority_cong [OF same1])
    with False approved have "authorised (db m) t r now" by (auto simp: authorised_def)
    then show ?thesis ..
  qed
  with canonical_request_Inr [OF c] show ?thesis by simp
qed


subsection \<open>Unknown outcomes block changes\<close>

lemma Mutates_remote: "Mutates op \<Longrightarrow> \<not> IsOperation op"
  by (auto simp: Mutates_def IsOperation_def)

lemma canonical_Operation: "canonical_of m r0 = Some r \<Longrightarrow> Operation r = Operation r0"
  by (auto simp: canonical_of_def split: if_splits sum.splits)

text \<open>
  C24: As long as the outcome of some remote execution of the task is unknown or it is still
  running, a call of a tool that would change something is an error, whatever the grant or the
  approvals say, and nothing is done.
\<close>

theorem unknown_outcome_blocks_changes:
  assumes "Mutates (Operation r0)" and "x \<in> set (results_of (task_ID t) (db m))" "unsettled x" "\<not> local_result x"
  shows "(\<exists>e. fst (executeTool R t r0 m) = Inl e) \<and> untouched m (snd (executeTool R t r0 m))"
proof -
  obtain y m1 where y: "decision t r0 m = (y, m1)" by fastforce
  have unknown: "\<not> no_unknown_outcome (db m) (task_ID t)" using assms by (auto simp: no_unknown_outcome_def)
  have "\<exists>e. y = Inl e"
  proof (cases y)
    case (Inr rg)
    with y have "decision t r0 m = (Inr rg, m1)" by simp
    then obtain r m2 m3 a where c: "canonical_request r0 m = (Inr r, m2)"
      and a: "(if IsOperation (Operation r) then local_allowed t r else remote_allowed t r) m2 = (Inr a, m3)"
      unfolding decision_def by (elim andThen_Inr) auto
    have "Operation r = Operation r0" by (rule canonical_Operation [OF canonical_request_Inr [OF c]])
    with a assms(1) Mutates_remote remote_allowed_Inr [of t r m2 a m3]
    have "no_unknown_outcome (db m2) (task_ID t)" by auto
    moreover have "same_records (db m) (db m2)" using looking.keepsD [OF looked_canonical c] by (simp add: looked_def)
    ultimately show ?thesis using unknown authority_cong(3) by metis
  qed simp
  then obtain e where "y = Inl e" ..
  with y looked_untouched [OF looking.keepsD [OF looked_decision y]] show ?thesis
    by (simp add: executeTool_decision andThen_def)
qed

subsection \<open>Asking\<close>

lemma statement_quiet: "sql s = [] \<Longrightarrow> statement s = (Inr (), s)"
  by (simp add: statement_def)

lemma Load_quiet:
  "sql s = [] \<Longrightarrow> Load as kind i s =
     (case find_doc kind i s of None \<Rightarrow> (Inl NoRows, s)
      | Some d \<Rightarrow> (case as d of None \<Rightarrow> (Inl Decode, s) | Some x \<Rightarrow> (Inr x, s)))"
  by (simp add: Load_def andThen_def statement_quiet)

lemma checkKnownResults_quiet: "sql s = [] \<Longrightarrow> no_unknown_outcome s task \<Longrightarrow> checkKnownResults task s = (Inr (), s)"
  by (auto simp: checkKnownResults_def Results_def andThen_def statement_quiet ret_def throw_def no_unknown_outcome_def list_ex_iff)

lemma canonical_request_Some: "canonical_of m r0 = Some r \<Longrightarrow> canonical_request r0 m = (Inr r, m)"
  by (auto simp: canonical_of_def canonical_request_def andThen_def asks_def ret_def split: if_splits sum.splits)

lemma on_db_eq: "on_db f m = (fst (f (db m)), m\<lparr>db := snd (f (db m))\<rparr>)"
  by (simp add: on_db_def split: prod.split)

definition request_for_approval :: "task \<Rightarrow> request \<Rightarrow> approval" where
  "request_for_approval t r =
     \<lparr>InterruptID = [], ap_Request = r, ap_Digest = Digest_request r, ap_GrantID = grant_ID (Grant t),
      Reason = ''the operation needs approval'', Approved = False, Decided = False\<rparr>"

text \<open>What the checks give when the database works.\<close>

lemma decision_quiet:
  assumes "canonical_of m r0 = Some r" "\<not> IsOperation (Operation r)"
    and "find_doc ''hosts'' (HostID r) (db m) = Some (HostDoc h)" "Evaluate t h r now = Inr False"
    and "sql (db m) = []" "clock (db m) = now # later"
    and "Mutates (Operation r) \<Longrightarrow> no_unknown_outcome (db m) (task_ID t)"
  shows "decision t r0 m = andThen (approval_given t r) (\<lambda>go. ret (r, go)) (m\<lparr>db := (db m)\<lparr>clock := later\<rparr>\<rparr>)"
proof -
  have host: "on_db (Host (HostID r)) m = (Inr h, m)"
    using assms(3,5) by (simp add: on_db_eq Host_def Load_quiet)
  have known: "(if Mutates (Operation r) then on_db (checkKnownResults (task_ID t)) else ret ()) m = (Inr (), m)"
    using assms(5,7) by (simp add: on_db_eq checkKnownResults_quiet ret_def)
  have eval: "corrected (andThen (on_db Now) (\<lambda>now. outcome (as_msg (Evaluate t h r now)))) m
      = (Inr False, m\<lparr>db := (db m)\<lparr>clock := later\<rparr>\<rparr>)"
    using assms(4,6) by (simp add: corrected_def andThen_def attempt_def on_db_eq Now_def outcome_def as_msg_def ret_def)
  have "remote_allowed t r m = (Inr False, m\<lparr>db := (db m)\<lparr>clock := later\<rparr>\<rparr>)"
  proof -
    define c where "c = (\<lambda>h. corrected (andThen (on_db Now) (\<lambda>now. outcome (as_msg (Evaluate t h r now)))))"
    define k where "k = (if Mutates (Operation r) then on_db (checkKnownResults (task_ID t)) else ret ())"
    show ?thesis
      using host known eval unfolding remote_allowed_def c_def [symmetric] k_def [symmetric]
      by (simp add: andThen_def attempt_def)
  qed
  with canonical_request_Some [OF assms(1)] assms(2) show ?thesis
    by (simp add: decision_def andThen_def [of "canonical_request r0"] andThen_step)
qed


subsection \<open>Concrete requests\<close>

definition granted_task :: task where
  "granted_task =
     \<lparr>RuntimeVersion = [], Mode = [], task_ID = ''t1'', Goal = ''restart the server'', ProfileID = ''p'',
      Grant = \<lparr>LocalRoots = [], grant_ID = ''g'', HostIDs = [''h''], Identities = [(''h'', Digest_host demo_host)],
               Operations = [''observe''], Resources = [], ExpiresAt = 100\<rparr>,
      Status = ''running'', CreatedAt = 0, Summary = [], Updates = []\<rparr>"

definition demo_reboot :: request where
  "demo_reboot = (demo_request ''reboot'')\<lparr>HostID := ''h''\<rparr>"

lemma demo_reboot_uncovered: "Evaluate granted_task demo_host demo_reboot 0 = Inr False"
  by (simp add: Evaluate_def granted_task_def demo_host_def [THEN arg_cong [where f = host_ID]] demo_reboot_def demo_request_def
      known_operations_def path_operations_def map_lookup_def)


theorem unknown_outcome_blocks_changes_witness:
  "\<exists>e m'. executeTool demo_server granted_task demo_reboot
       (demo_machine [] []\<lparr>db := (db (demo_machine [] []))\<lparr>executions := [claim_row ''y'' 0 demo_reboot]\<rparr>\<rparr>) = (Inl e, m')
     \<and> net m' = net (demo_machine [] [])"
proof -
  let ?m = "demo_machine [] []\<lparr>db := (db (demo_machine [] []))\<lparr>executions := [claim_row ''y'' 0 demo_reboot]\<rparr>\<rparr>"
  obtain y m' where run: "executeTool demo_server granted_task demo_reboot ?m = (y, m')" by fastforce
  have "new_result ''y'' demo_reboot 0 \<in> set (results_of (task_ID granted_task) (db ?m))"
    by (simp add: results_of_def claim_row_def granted_task_def demo_reboot_def demo_request_def)
  moreover have "unsettled (new_result ''y'' demo_reboot 0)" "\<not> local_result (new_result ''y'' demo_reboot 0)"
    "Mutates (Operation demo_reboot)"
    by (simp_all add: unsettled_def local_result_def new_result_def demo_reboot_def demo_request_def IsOperation_def Mutates_def)
  ultimately show ?thesis
    using unknown_outcome_blocks_changes [of demo_reboot "new_result ''y'' demo_reboot 0" granted_task ?m demo_server] run
    by (auto simp: untouched_def)
qed

end
