(* ===== verification/Evidence.thy ===== *)
theory Evidence
  imports ToolsSafe
begin

text \<open>
  What a verified task means: over any sequence of calls of the tools, with the records the rest of
  the program writes in between and crashes with their recovery, a verification refers to a
  successful read-only check, and a task with all servers verified ended with one on each of them.
\<close>

subsection \<open>What an execution keeps\<close>

definition same_documents :: "store \<Rightarrow> store \<Rightarrow> bool" where
  "same_documents s s' \<longleftrightarrow> documents s' = documents s"

lemma documents_statement: "statement s = (x, s') \<Longrightarrow> documents s' = documents s"
  by (simp add: statement_same)

lemma documents_Event: "documents (snd (Event task kind content s)) = documents s"
  by (auto simp: Event_def Now_def andThen_def Let_def ret_def wake_task_def dest!: documents_statement
      split: prod.split sum.split option.split list.split)

interpretation documents_kept: recording same_documents
proof unfold_locales
  show "keeps same_documents statement"
    by (auto simp: keeps_def same_documents_def) (metis documents_statement prod.collapse)
  show "keeps same_documents (Host i)" for i
    using records_Load [of as_host "''hosts''" i] by (simp add: keeps_def same_documents_def same_records_def Host_def)
  show "keeps same_documents Now" using records_Now by (simp add: keeps_def same_documents_def same_records_def)
  show "keeps same_documents NewID" by (simp add: keeps_def same_documents_def NewID_def split: list.split)
  show "keeps same_documents (Event task kind content)" for task kind content
    by (simp add: keeps_def same_documents_def documents_Event)
qed (auto simp: same_documents_def)

lemma documents_insert: "keeps same_documents (insert_execution x)"
  unfolding insert_execution_def
  by (intro documents_kept.keeps_andThen documents_kept.statement_kept) (simp add: keeps_def same_documents_def)

lemma documents_Claim: "keeps same_documents (Claim r)"
  unfolding Claim_def Let_def
  by (intro documents_kept.keeps_andThen documents_kept.NewID_kept documents_kept.Now_kept documents_insert documents_kept.statement_kept)
    (simp add: keeps_def same_documents_def split: option.split)

lemma documents_Finish: "keeps same_documents (Finish r)"
  unfolding Finish_def
  by (intro documents_kept.keeps_andThen documents_kept.statement_kept) (simp add: keeps_def same_documents_def modify_def)

lemma documents_Artifact: "keeps same_documents (Artifact i)"
  unfolding Artifact_def Let_def
  by (intro documents_kept.keeps_if documents_kept.keeps_throw documents_kept.keeps_andThen documents_kept.statement_kept)
    (simp add: keeps_def same_documents_def)

lemma documents_Execute: "calm_call c \<Longrightarrow> keeps (via_db same_documents) (Execute R c r)"
  by (intro documents_kept.keeps_Execute documents_Claim documents_Finish documents_Artifact)

interpretation ok_kept: recording keeps_ok
proof unfold_locales
  show "keeps_ok s s'" if "executions s' = executions s" "fresh s' = fresh s" for s s'
    using that by (simp add: keeps_ok_def executions_ok_def)
qed (simp_all add: ok.keeps_store)

lemma ok_Execute: "calm_call c \<Longrightarrow> keeps (via_db keeps_ok) (Execute R c r)"
  by (intro ok_kept.keeps_Execute keeps_ok_Claim) (simp_all add: ok.keeps_store)

text \<open>The rows before that of the execution itself stay as they are.\<close>

definition own_row :: "execution list \<Rightarrow> string \<Rightarrow> store \<Rightarrow> bool" where
  "own_row xs i s \<longleftrightarrow> (\<exists>x. executions s = xs @ [x] \<and> ex_ID x = i)"

definition keeps_row :: "execution list \<Rightarrow> string \<Rightarrow> store \<Rightarrow> store \<Rightarrow> bool" where
  "keeps_row xs i s s' \<longleftrightarrow> (own_row xs i s \<longrightarrow> own_row xs i s')"

lemma keeps_row_same: "keeps same_executions f \<Longrightarrow> keeps (keeps_row xs i) f"
  by (simp add: keeps_def same_executions_def keeps_row_def own_row_def)

interpretation row: recording "keeps_row xs i" for xs i
  by unfold_locales
    (simp_all add: keeps_row_same table.statement_kept table.Host_kept table.Now_kept table.NewID_kept table.Event_kept,
     auto simp: keeps_row_def own_row_def)

lemma row_Finish:
  assumes "i \<notin> set (map ex_ID xs)" "res_ID r = i"
  shows "keeps (keeps_row xs i) (Finish r)"
proof -
  have "own_row xs i (s\<lparr>executions := map (finish_row r) (executions s)\<rparr>)" if "own_row xs i s" for s
  proof -
    from that obtain x where x: "executions s = xs @ [x]" "ex_ID x = i" by (auto simp: own_row_def)
    with finish_last [of x xs r] assms show ?thesis by (simp add: own_row_def)
  qed
  then have "keeps (keeps_row xs i) (modify (\<lambda>s. s\<lparr>executions := map (finish_row r) (executions s)\<rparr>))"
    by (simp add: keeps_def keeps_row_def modify_def)
  then show ?thesis unfolding Finish_def by (intro row.keeps_andThen row.statement_kept)
qed

lemma row_run_claimed:
  assumes "calm_call c" "i \<notin> set (map ex_ID xs)" "res_ID result = i"
  shows "keeps (via_db (keeps_row xs i)) (run_claimed R c r result)"
proof -
  have "res_ID (finished r result code e out t) = i" for code e out t using assms(3) by (simp add: finished_def)
  then show ?thesis unfolding run_claimed_def Let_def
    by (intro row.db.keeps_rules keeps_on_db row_Finish row.Now_kept row.keeps_operation assms)
qed

lemma row_open_artifact: "keeps (via_db (keeps_row xs i)) (open_artifact j)"
proof -
  have "keeps (via_db (keeps_row xs i)) (set_local p b)" for p b by (rule row.keeps_local) (simp add: set_local_def)
  then show ?thesis unfolding open_artifact_def
    by (intro row.db.keeps_rules keeps_on_db keeps_row_same quiet_db.keeps_Artifact)
qed

lemma row_rest:
  assumes "calm_call c" "i \<notin> set (map ex_ID xs)" "res_ID result = i"
  shows "keeps (via_db (keeps_row xs i)) (andThen (attempt (open_artifact (res_ID result))) (\<lambda>x. case x of
      Inl e \<Rightarrow> andThen (attempt (on_db (Finish (result\<lparr>res_Status := ''failed'', res_Error := err_text e\<rparr>)))) (\<lambda>_. throw e)
    | Inr path \<Rightarrow> run_claimed R c r (result\<lparr>res_Artifact := path\<rparr>)))"
  by (intro row.db.keeps_rules keeps_on_db row_open_artifact row_Finish row_run_claimed assms) (simp_all add: assms)

lemma Claim_won:
  assumes ok: "executions_ok s" and "Claim r s = (Inr (result, True), s')"
  obtains i t where "executions s' = executions s @ [claim_row i t r]" "i \<notin> set (map ex_ID (executions s))" "res_ID result = i"
proof -
  from assms(2) obtain z j where z: "find_execution (TaskID r) (CallID r) s' = Some z" "result = ex_Payload z"
      "fresh s = j # fresh s'" "res_ID result = j"
    by (rule Claim_result) auto
  from Claim_table [OF assms(2)] show thesis
  proof (elim disjE exE conjE)
    assume "executions s' = executions s"
    with z(1) find_execution_cong [of s' s] have "z \<in> set (executions s)"
      using find_execution_in [of "TaskID r" "CallID r" s z] by simp
    with ok z show thesis by (auto simp: executions_ok_def)
  next
    fix i t
    assume row: "executions s' = executions s @ [claim_row i t r]" "fresh s = i # fresh s'"
    with z ok show thesis by (intro that [of i t]) (auto simp: executions_ok_def)
  qed
qed

text \<open>An execution adds at most its own row and leaves the others alone, whatever happens.\<close>

lemma Execute_extends:
  assumes ok: "executions_ok (db m)" and calm: "calm_call c" and run: "Execute R c r m = (y, m')"
  shows "\<exists>new. executions (db m') = executions (db m) @ new"
proof (cases "TaskID r = [] \<or> CallID r = [] \<or> HostID r = [] \<and> \<not> IsOperation (Operation r)")
  case True
  with run show ?thesis by (auto simp: Execute_def throw_def)
next
  case False
  note exec = Execute_def [of R c r, unfolded if_not_P [OF False]]
  obtain a m1 where a: "checkAuthority c m = (a, m1)" by fastforce
  have u: "untouched m m1" by (rule looking_on.keepsD [OF untouched_checkAuthority [OF calm] a])
  obtain b s where b: "Claim r (db m1) = (b, s)" by fastforce
  have claim: "on_db (Claim r) m1 = (b, m1\<lparr>db := s\<rparr>)" using b by (simp add: on_db_def)
  have ok1: "executions_ok (db m1)" using ok u by (simp add: executions_ok_def untouched_def)
  have table: "\<exists>new. executions s = executions (db m) @ new" using Claim_table [OF b] u by (auto simp: untouched_def)
  show ?thesis
  proof (cases "\<exists>v result. a = Inr v \<and> b = Inr (result, True)")
    case True
    then obtain v result where ab: "a = Inr v" "b = Inr (result, True)" by blast
    from Claim_won [OF ok1] b ab(2) obtain i t where row: "executions s = executions (db m1) @ [claim_row i t r]"
      "i \<notin> set (map ex_ID (executions (db m1)))" "res_ID result = i" by metis
    from run [unfolded exec] ab a claim have rest: "andThen (attempt (open_artifact (res_ID result))) (\<lambda>x. case x of
        Inl e \<Rightarrow> andThen (attempt (on_db (Finish (result\<lparr>res_Status := ''failed'', res_Error := err_text e\<rparr>)))) (\<lambda>_. throw e)
      | Inr path \<Rightarrow> run_claimed R c r (result\<lparr>res_Artifact := path\<rparr>)) (m1\<lparr>db := s\<rparr>) = (y, m')"
      by (simp add: andThen_def [of "checkAuthority c"] andThen_def [of "on_db (Claim r)"])
    have "keeps_row (executions (db m1)) i s (db m')"
      using row.db.keepsD [OF row_rest [OF calm row(2,3)] rest] by (simp add: via_db_def)
    with row(1) u show ?thesis by (auto simp: keeps_row_def own_row_def claim_row_def untouched_def)
  next
    case False
    then have "m' = m1 \<or> m' = m1\<lparr>db := s\<rparr>"
      using run [unfolded exec] a claim
      by (cases a; cases b) (auto simp: andThen_def [of "checkAuthority c"] andThen_def [of "on_db (Claim r)"] ret_def split: if_splits)
    with table u show ?thesis by (auto simp: untouched_def)
  qed
qed

subsection \<open>What evidence survives\<close>

definition verification_kind :: "string \<Rightarrow> string" where
  "verification_kind task = ''verification:'' @ task"

definition succeeded_row :: "execution \<Rightarrow> bool" where
  "succeeded_row x \<longleftrightarrow> res_Status (ex_Payload x) = ''succeeded''"

text \<open>Successful executions stay recorded as they are, and no verification is written or removed.\<close>

definition evidence_stays :: "store \<Rightarrow> store \<Rightarrow> bool" where
  "evidence_stays s s' \<longleftrightarrow>
     (executions_ok s \<longrightarrow> executions_ok s' \<and> (\<forall>x \<in> set (executions s). succeeded_row x \<longrightarrow> x \<in> set (executions s')))
     \<and> (\<forall>task h. find_doc (verification_kind task) h s' = find_doc (verification_kind task) h s)"

interpretation evidence: preserved evidence_stays
  by unfold_locales (auto simp: evidence_stays_def)

lemma evidence_quiet:
  "executions_ok s \<longrightarrow> executions_ok s' \<Longrightarrow> executions s' = executions s \<Longrightarrow> documents s' = documents s \<Longrightarrow> evidence_stays s s'"
  by (simp add: evidence_stays_def find_doc_def)

lemma evidence_from:
  assumes "keeps same_executions f" "keeps same_documents f" "keeps keeps_ok f"
  shows "keeps evidence_stays f"
  using assms evidence_quiet by (simp add: keeps_def same_executions_def same_documents_def keeps_ok_def)

interpretation evidence: recording evidence_stays
proof unfold_locales
  note quiet = quiet_db.keeps_statement quiet_db.keeps_Host quiet_db.keeps_Now quiet_db.keeps_NewID quiet_db.keeps_Event
  note docs = documents_kept.statement_kept documents_kept.Host_kept documents_kept.Now_kept documents_kept.NewID_kept
    documents_kept.Event_kept
  show "keeps evidence_stays statement" by (intro evidence_from quiet docs ok.keeps_store)
  show "keeps evidence_stays (Host i)" for i by (intro evidence_from quiet docs ok.keeps_store)
  show "keeps evidence_stays Now" by (intro evidence_from quiet docs ok.keeps_store)
  show "keeps evidence_stays NewID" by (intro evidence_from quiet docs ok.keeps_store)
  show "keeps evidence_stays (Event task kind content)" for task kind content by (intro evidence_from quiet docs ok.keeps_store)
  show "evidence_stays s s'" if "executions s' = executions s" "fresh s' = fresh s" "documents s' = documents s" for s s'
    using that by (intro evidence_quiet) (simp_all add: executions_ok_def)
qed

lemma evidence_Execute:
  assumes "calm_call c"
  shows "keeps (via_db evidence_stays) (Execute R c r)"
proof (rule evidence.db.keepsI)
  fix m :: "'a machine" and y m'
  assume run: "Execute R c r m = (y, m')"
  have "documents (db m') = documents (db m)"
    using documents_kept.db.keepsD [OF documents_Execute [OF assms] run] by (simp add: via_db_def same_documents_def)
  moreover have "executions_ok (db m) \<longrightarrow> executions_ok (db m')"
    using ok_kept.db.keepsD [OF ok_Execute [OF assms] run] by (simp add: via_db_def keeps_ok_def)
  moreover have "executions_ok (db m) \<longrightarrow> (\<exists>new. executions (db m') = executions (db m) @ new)"
    using Execute_extends [OF _ assms run] by blast
  ultimately show "via_db evidence_stays m m'"
    by (auto simp: via_db_def evidence_stays_def find_doc_def)
qed

lemma evidence_looked: "keeps looked f \<Longrightarrow> keeps (via_db evidence_stays) f"
  by (auto simp: keeps_def looked_def same_records_def via_db_def intro!: evidence.looking_kept)

lemma evidence_executeTool: "keeps (via_db evidence_stays) (executeTool R t r)"
proof -
  have "keeps (via_db evidence_stays) (log_event i kind content)" for i kind content
    unfolding log_event_def by (intro evidence.db.keeps_rules keeps_on_db evidence.Event_kept)
  moreover have "keeps (via_db evidence_stays) (with_roots roots)" for roots
    by (rule evidence.keeps_local) (simp add: with_roots_def)
  ultimately have "keeps (via_db evidence_stays) (run_allowed R t r)" for r
    unfolding run_allowed_def by (intro evidence.db.keeps_rules evidence_Execute guarded_calm)
  then have "keeps (via_db evidence_stays) (case x of (r, go) \<Rightarrow> if go then run_allowed R t r
      else ret ''the user refused this operation'')" for x
    by (cases x) (simp add: evidence.db.keeps_ret)
  then show ?thesis unfolding executeTool_decision
    by (rule evidence.db.keeps_andThen [OF evidence_looked [OF looked_decision]])
qed

text \<open>The records the service writes, and the recovery after a crash.\<close>

lemma Put_documents: "Put kind i d s = (x, s') \<Longrightarrow>
    executions s' = executions s \<and> fresh s' = fresh s \<and> (documents s' = documents s \<or> documents s' = documents (put_doc kind i d s))"
  by (auto simp: Put_def andThen_def modify_def wake_task_def put_doc_def throw_def ret_def dest!: statement_same
      split: if_splits sum.splits prod.splits option.splits)

lemma evidence_Put:
  assumes "\<forall>task. kind \<noteq> verification_kind task"
  shows "keeps evidence_stays (Put kind i d)"
proof (rule evidence.keepsI)
  fix s :: store and x s'
  assume run: "Put kind i d s = (x, s')"
  have "find_doc (verification_kind task) h s' = find_doc (verification_kind task) h s" for task h
    using Put_documents [OF run] assms find_doc_put [of "verification_kind task" h kind i d s]
      find_doc_cong [of s' "put_doc kind i d s" "verification_kind task" h] find_doc_cong [of s' s "verification_kind task" h]
    by metis
  with Put_documents [OF run] show "evidence_stays s s'" by (auto simp: evidence_stays_def executions_ok_def)
qed

lemma evidence_Finish:
  assumes "executions_ok s" "x \<in> set (executions s)" "res_ID r = ex_ID x" "\<not> succeeded_row x"
  shows "evidence_stays s (s\<lparr>executions := map (finish_row r) (executions s)\<rparr>)"
proof -
  have "finish_row r y = y" if "y \<in> set (executions s)" "succeeded_row y" for y
    using that assms by (auto simp: finish_row_def executions_ok_def distinct_map inj_on_def)
  then have "y \<in> finish_row r ` set (executions s)" if "y \<in> set (executions s)" "succeeded_row y" for y
    using that by (metis image_eqI)
  with executions_ok_finish [OF assms(1)] show ?thesis by (simp add: evidence_stays_def find_doc_def)
qed

lemma evidence_finish_loop:
  assumes "executions_ok s"
    and "\<forall>r \<in> set rs. \<exists>x \<in> set (executions s). res_ID r = ex_ID x \<and> \<not> succeeded_row x"
  shows "evidence_stays s (snd (forEach (\<lambda>r. Finish (interrupted_result r)) rs s))"
  using assms
proof (induction rs arbitrary: s)
  case Nil
  then show ?case by (simp add: ret_def evidence.refl)
next
  case (Cons r rs)
  obtain v s1 where st: "statement s = (v, s1)" by fastforce
  note same = statement_same [OF st]
  have s1: "evidence_stays s s1" using same by (intro evidence.looking_kept) auto
  show ?case
  proof (cases v)
    case (Inl e)
    with st s1 show ?thesis by (simp add: Finish_def andThen_def)
  next
    case (Inr u)
    let ?s2 = "s1\<lparr>executions := map (finish_row (interrupted_result r)) (executions s1)\<rparr>"
    have ok1: "executions_ok s1" using Cons.prems(1) same by (simp add: executions_ok_def)
    have row: "\<exists>x \<in> set (executions s1). res_ID q = ex_ID x \<and> \<not> succeeded_row x" if "q \<in> set (r # rs)" for q
      using Cons.prems(2) that same by metis
    from row [of r] obtain x where "x \<in> set (executions s1)" "res_ID (interrupted_result r) = ex_ID x" "\<not> succeeded_row x"
      by (auto simp: interrupted_result_def)
    then have s2: "evidence_stays s1 ?s2" by (rule evidence_Finish [OF ok1])
    have "\<exists>x \<in> set (executions ?s2). res_ID q = ex_ID x \<and> \<not> succeeded_row x" if q: "q \<in> set rs" for q
    proof -
      from row [of q] q obtain x where x: "x \<in> set (executions s1)" "res_ID q = ex_ID x" "\<not> succeeded_row x" by auto
      let ?y = "finish_row (interrupted_result r) x"
      have "?y \<in> set (executions ?s2)" "ex_ID ?y = ex_ID x" "\<not> succeeded_row ?y"
        using x by (auto simp: finish_row_def succeeded_row_def interrupted_result_def)
      with x(2) show ?thesis by metis
    qed
    with Cons.IH [of ?s2] executions_ok_finish [OF ok1]
    have "evidence_stays ?s2 (snd (forEach (\<lambda>r. Finish (interrupted_result r)) rs ?s2))" by blast
    with s1 s2 have "evidence_stays s (snd (forEach (\<lambda>r. Finish (interrupted_result r)) rs ?s2))"
      using evidence.trans by blast
    with st Inr show ?thesis by (simp add: Finish_def andThen_def modify_def)
  qed
qed

lemma evidence_Recover: "executions_ok s \<Longrightarrow> evidence_stays s (snd (Recover s))"
proof -
  assume ok: "executions_ok s"
  obtain v s1 where st: "statement s = (v, s1)" by fastforce
  note same = statement_same [OF st]
  have s1: "evidence_stays s s1" using same by (intro evidence.looking_kept) auto
  let ?rs = "filter (\<lambda>r. res_Status r = ''running'') (map ex_Payload (executions s1))"
  let ?loop = "forEach (\<lambda>r. Finish (interrupted_result r)) ?rs"
  have ok1: "executions_ok s1" using ok same by (simp add: executions_ok_def)
  have "\<forall>r \<in> set ?rs. \<exists>x \<in> set (executions s1). res_ID r = ex_ID x \<and> \<not> succeeded_row x"
    using ok1 by (auto simp: executions_ok_def succeeded_row_def)
  from evidence_finish_loop [OF ok1 this] have s2: "evidence_stays s1 (snd (?loop s1))" .
  have "keeps evidence_stays (andThen (All as_task ''tasks'') (\<lambda>ts. forEach (\<lambda>t. Put ''tasks'' (task_ID t) (TaskDoc (interrupted_task t))) ts))"
  proof (intro evidence.keeps_andThen evidence.keeps_forEach evidence_Put allI)
    show "keeps evidence_stays (All as_task ''tasks'')"
      unfolding All_def by (intro evidence.keeps_andThen evidence.statement_kept) (auto simp: keeps_def evidence.refl split: option.split)
  qed (simp add: verification_kind_def)
  then have "evidence_stays (snd (?loop s1)) (snd (andThen (All as_task ''tasks'') (\<lambda>ts.
      forEach (\<lambda>t. Put ''tasks'' (task_ID t) (TaskDoc (interrupted_task t))) ts) (snd (?loop s1))))" by (simp add: keeps_def)
  with s1 s2 show ?thesis
    by (cases v; cases "?loop s1"; cases "fst (?loop s1)") (auto simp: Recover_def andThen_def st intro: evidence.trans)
qed

subsection \<open>Verifications are backed by evidence\<close>

definition supports :: "result list \<Rightarrow> string \<Rightarrow> verification \<Rightarrow> bool" where
  "supports rs h v \<longleftrightarrow> v_HostID v = h \<and> v_ExpectedText v \<noteq> []
     \<and> (\<exists>r \<in> set rs. res_ID r = v_ExecutionID v \<and> HostID (res_Request r) = h \<and> evidence_ok r (v_ExpectedText v))"

definition backed :: "string \<Rightarrow> store \<Rightarrow> bool" where
  "backed task s \<longleftrightarrow>
     (\<forall>h v. find_doc (verification_kind task) h s = Some (VerificationDoc v) \<longrightarrow> supports (results_of task s) h v)"

lemma backed_stays:
  assumes "executions_ok s" "backed task s" "evidence_stays s s'"
  shows "backed task s'"
  unfolding backed_def
proof (intro allI impI)
  fix h v
  assume "find_doc (verification_kind task) h s' = Some (VerificationDoc v)"
  with assms obtain r where r: "r \<in> set (results_of task s)" "res_ID r = v_ExecutionID v" "HostID (res_Request r) = h"
      "evidence_ok r (v_ExpectedText v)" and v: "v_HostID v = h" "v_ExpectedText v \<noteq> []"
    by (auto simp: evidence_stays_def backed_def supports_def)
  from r(1) obtain x where x: "x \<in> set (executions s)" "ex_Task x = task" "ex_Payload x = r"
    by (auto simp: results_of_def)
  with r(4) assms(1,3) have "x \<in> set (executions s')" by (auto simp: evidence_stays_def succeeded_row_def evidence_ok_def)
  with x have "r \<in> set (results_of task s')" by (auto simp: results_of_def)
  with r v show "supports (results_of task s') h v" by (auto simp: supports_def)
qed

lemma last_result_in: "last_result i rs = Some r \<Longrightarrow> r \<in> set rs \<and> res_ID r = i"
proof -
  have found: "find P xs = Some y \<Longrightarrow> y \<in> set xs \<and> P y" for P and xs :: "result list" and y
    by (induction xs) (auto split: if_splits)
  assume "last_result i rs = Some r"
  with found [of "\<lambda>r. res_ID r = i" "rev rs" r] show ?thesis by (simp add: last_result_def)
qed

lemma verification_kind_inject: "verification_kind a = verification_kind b \<longleftrightarrow> a = b"
  by (simp add: verification_kind_def)

lemma verifyResult_backed:
  assumes run: "verifyResult t k (results_of (task_ID t) s) i expected s = (y, s')" and "expected \<noteq> []" and "backed task s"
  shows "backed task s' \<and> executions s' = executions s \<and> fresh s' = fresh s"
proof (cases "s' = s")
  case True
  with assms(3) show ?thesis by simp
next
  case False
  let ?rs = "results_of (task_ID t) s"
  from False run obtain r where r: "last_result i ?rs = Some r" "evidence_ok r expected"
    and rest: "andThen Now (\<lambda>now.
                     Put (''verification:'' @ task_ID t) (HostID (res_Request r))
                       (VerificationDoc \<lparr>v_HostID = HostID (res_Request r), v_ExecutionID = i, v_ExpectedText = expected,
                                         v_AgentName = executionAgentName k, v_At = now\<rparr>)) s = (y, s')"
    unfolding verifyResult_def by (auto simp: throw_def split: if_splits option.splits)
  obtain z s1 where now: "Now s = (z, s1)" by fastforce
  then obtain n where z: "z = Inr n" by (auto simp: Now_def split: list.splits)
  note same = Now_same [OF now [unfolded z]]
  define v where "v = \<lparr>v_HostID = HostID (res_Request r), v_ExecutionID = i, v_ExpectedText = expected,
                         v_AgentName = executionAgentName k, v_At = n\<rparr>"
  have put: "Put (verification_kind (task_ID t)) (HostID (res_Request r)) (VerificationDoc v) s1 = (y, s')"
    using rest now z by (simp add: andThen_def v_def verification_kind_def)
  have supported: "supports ?rs (HostID (res_Request r)) v"
    unfolding supports_def v_def using last_result_in [OF r(1)] r(2) assms(2) by (simp, blast)
  have doc: "find_doc (verification_kind task) h s' =
      (if documents s' \<noteq> documents s1 \<and> task = task_ID t \<and> h = HostID (res_Request r) then Some (VerificationDoc v)
       else find_doc (verification_kind task) h s)" for h
    using Put_documents [OF put] same find_doc_put [of "verification_kind task" h "verification_kind (task_ID t)" "HostID (res_Request r)" "VerificationDoc v" s1]
    by (auto simp: find_doc_def verification_kind_inject)
  have results: "results_of task s' = results_of task s" using Put_documents [OF put] same by (simp add: results_of_def)
  have "backed task s'"
    unfolding backed_def doc results using assms(3) supported by (auto simp: backed_def)
  with Put_documents [OF put] same show ?thesis by simp
qed

lemma verify_execution_backed:
  assumes "executions_ok (db m)" "backed task (db m)" and run: "verify_execution t k i expected m = (y, m')"
  shows "executions_ok (db m') \<and> backed task (db m')"
proof (cases "expected = []")
  case True
  with assms show ?thesis by (auto simp: verify_execution_def throw_def)
next
  case False
  obtain a s1 where a: "Results (task_ID t) (db m) = (a, s1)" by fastforce
  have "same_records (db m) s1" by (rule records.keepsD [OF records_Results a])
  then have s1: "evidence_stays (db m) s1" "executions_ok s1" "results_of (task_ID t) s1 = results_of (task_ID t) (db m)"
    using assms(1) by (auto simp: same_records_def executions_ok_def results_of_def intro!: evidence.looking_kept)
  have b1: "backed task s1" by (rule backed_stays [OF assms(1,2) s1(1)])
  show ?thesis
  proof (cases a)
    case (Inl e)
    then have "db m' = s1" using run False a by (auto simp: verify_execution_def andThen_def on_db_def)
    with s1 b1 show ?thesis by simp
  next
    case (Inr rs)
    then have rs: "rs = results_of (task_ID t) s1"
      using a s1(3) by (auto simp: Results_def andThen_def results_of_def dest!: statement_same split: prod.splits sum.splits)
    obtain b s2 where b: "verifyResult t k (results_of (task_ID t) s1) i expected s1 = (b, s2)" by fastforce
    note s2 = verifyResult_backed [OF b False b1]
    have ok2: "executions_ok s2" using s1(2) s2 by (simp add: executions_ok_def)
    have "evidence_stays s2 (db m')"
    proof (cases b)
      case (Inl e)
      then have "db m' = s2" using run False a \<open>a = Inr rs\<close> b rs by (auto simp: verify_execution_def andThen_def on_db_def)
      then show ?thesis by (simp add: evidence.refl)
    next
      case (Inr u)
      have "keeps (via_db evidence_stays) (andThen (log_event (task_ID t) ''verified'' (i @ '': '' @ expected)) (\<lambda>_. ret ''verified''))"
        unfolding log_event_def by (intro evidence.db.keeps_rules keeps_on_db evidence.Event_kept)
      moreover have "andThen (log_event (task_ID t) ''verified'' (i @ '': '' @ expected)) (\<lambda>_. ret ''verified'') (m\<lparr>db := s2\<rparr>) = (y, m')"
        using run False a \<open>a = Inr rs\<close> b rs Inr by (simp add: verify_execution_def andThen_def on_db_def)
      ultimately show ?thesis using evidence.db.keepsD by (fastforce simp: via_db_def)
    qed
    then show ?thesis using ok2 s2 backed_stays [of s2 task "db m'"] by (simp add: evidence_stays_def)
  qed
qed

subsection \<open>A task with all servers verified\<close>

text \<open>
  Any sequence of calls of the tools, for any tasks and requests, of records that the service writes,
  and of crashes with their recovery.
\<close>

inductive tool_run :: "'w outside \<Rightarrow> 'w machine \<Rightarrow> 'w machine \<Rightarrow> bool" for R :: "'w outside" and m :: "'w machine" where
  start: "tool_run R m m"
| executed: "tool_run R m m1 \<Longrightarrow> tool_run R m (snd (executeTool R t r m1))"
| verified: "tool_run R m m1 \<Longrightarrow> tool_run R m (snd (verify_execution t k i expected m1))"
| recorded: "tool_run R m m1 \<Longrightarrow> \<forall>task. kind \<noteq> verification_kind task \<Longrightarrow> tool_run R m (snd (on_db (Put kind i d) m1))"
| logged: "tool_run R m m1 \<Longrightarrow> tool_run R m (snd (on_db (Event task what content) m1))"
| recovered: "tool_run R m m1 \<Longrightarrow> tool_run R m (snd (on_db Recover m1))"

lemma keeps_stays: "keeps (via_db evidence_stays) f \<Longrightarrow> evidence_stays (db m) (db (snd (f m)))"
  by (simp add: keeps_def via_db_def)

lemma tool_run_backed:
  "tool_run R m m' \<Longrightarrow> executions_ok (db m) \<Longrightarrow> backed task (db m) \<Longrightarrow> executions_ok (db m') \<and> backed task (db m')"
proof (induction rule: tool_run.induct)
  case (executed m1 t r)
  have "evidence_stays (db m1) (db (snd (executeTool R t r m1)))" by (rule keeps_stays [OF evidence_executeTool])
  then show ?case using executed.IH executed.prems backed_stays by (auto simp: evidence_stays_def)
next
  case (verified m1 t k i expected)
  obtain y m2 where run: "verify_execution t k i expected m1 = (y, m2)" by fastforce
  from verified.IH [OF verified.prems] verify_execution_backed [OF _ _ run, of task] run show ?case by simp
next
  case (recorded m1 kind i d)
  have "evidence_stays (db m1) (db (snd (on_db (Put kind i d) m1)))"
    by (rule keeps_stays [OF keeps_on_db [OF evidence_Put]]) (rule recorded.hyps)
  then show ?case using recorded.IH recorded.prems backed_stays by (auto simp: evidence_stays_def)
next
  case (logged m1 task what content)
  have "evidence_stays (db m1) (db (snd (on_db (Event task what content) m1)))"
    by (rule keeps_stays [OF keeps_on_db [OF evidence.Event_kept]])
  then show ?case using logged.IH logged.prems backed_stays by (auto simp: evidence_stays_def)
next
  case (recovered m1)
  then have "evidence_stays (db m1) (snd (Recover (db m1)))" by (intro evidence_Recover) simp
  then show ?case using recovered.IH recovered.prems backed_stays by (auto simp: evidence_stays_def on_db_eq)
qed simp

lemma as_verification_Some: "as_verification d = Some v \<longleftrightarrow> d = VerificationDoc v"
  by (cases d) auto

lemma each_verified_docs:
  "each_verified task hs s = (True, s') \<Longrightarrow> (h, r) \<in> set hs \<Longrightarrow>
     \<exists>v. find_doc (verification_kind task) h s = Some (VerificationDoc v) \<and> v_ExecutionID v = res_ID r"
proof (induction hs arbitrary: s)
  case (Cons p hs)
  obtain h' r' where p: "p = (h', r')" by fastforce
  obtain x s1 where x: "Load as_verification (verification_kind task) h' s = (x, s1)" by fastforce
  have same: "same_records s s1" by (rule records.keepsD [OF records_Load x])
  from Cons.prems(1) p x obtain v where v: "x = Inr v" "v_ExecutionID v = res_ID r'" "each_verified task hs s1 = (True, s')"
    by (auto simp: verification_kind_def split: sum.splits if_splits)
  show ?case
  proof (cases "(h, r) = p")
    case True
    with v p Load_found [of as_verification "verification_kind task" h' s v s1] x show ?thesis
      by (auto simp: as_verification_Some)
  next
    case False
    with Cons.prems(2) Cons.IH [OF v(3)] same_records_find [OF same] show ?thesis by simp
  qed
qed simp

lemma last_per_host_last:
  "\<not> local_result r \<Longrightarrow> \<forall>z \<in> set zs. \<not> local_result z \<longrightarrow> HostID (res_Request z) \<noteq> HostID (res_Request r) \<Longrightarrow>
     (HostID (res_Request r), r) \<in> set (last_per_host (ys @ r # zs))"
proof (induction ys)
  case Nil
  have "h \<in> fst ` set (last_per_host rs) \<Longrightarrow> \<exists>z \<in> set rs. \<not> local_result z \<and> HostID (res_Request z) = h" for h and rs
    by (induction rs) (auto split: if_splits)
  with Nil have "HostID (res_Request r) \<notin> fst ` set (last_per_host zs)" by blast
  with Nil show ?case by simp
qed auto

lemma allVerified_True:
  assumes "allVerified task s = (True, s')"
  shows "results_of task s \<noteq> [] \<and> no_unknown_outcome s task \<and> last_per_host (results_of task s) \<noteq> []
     \<and> (\<forall>(h, r) \<in> set (last_per_host (results_of task s)).
          \<exists>v. find_doc (verification_kind task) h s = Some (VerificationDoc v) \<and> v_ExecutionID v = res_ID r)"
proof -
  obtain x s1 where x: "Results task s = (x, s1)" by fastforce
  have same: "same_records s s1" by (rule records.keepsD [OF records_Results x])
  from assms x obtain rs where xr: "x = Inr rs" by (cases x) (auto simp: allVerified_def)
  then have rs: "rs = results_of task s"
    using x by (auto simp: Results_def andThen_def results_of_def dest!: statement_same split: prod.splits sum.splits)
  from assms x xr rs have c: "results_of task s \<noteq> []" "\<not> list_ex (\<lambda>r. \<not> local_result r \<and> unsettled r) (results_of task s)"
    "last_per_host (results_of task s) \<noteq> []" "each_verified task (last_per_host (results_of task s)) s1 = (True, s')"
    by (auto simp: allVerified_def split: if_splits)
  from c(2) have "no_unknown_outcome s task" by (auto simp: no_unknown_outcome_def list_ex_iff)
  with c each_verified_docs [OF c(4)] same_records_find [OF same] show ?thesis by auto
qed

lemma same_id_same_result:
  assumes "executions_ok s" "a \<in> set (results_of task s)" "b \<in> set (results_of task s)" "res_ID a = res_ID b"
  shows "a = b"
proof -
  from assms(2,3) obtain x y where xy: "x \<in> set (executions s)" "ex_Payload x = a" "y \<in> set (executions s)" "ex_Payload y = b"
    by (auto simp: results_of_def)
  with assms(1,4) have "ex_ID x = ex_ID y" "inj_on ex_ID (set (executions s))"
    by (auto simp: executions_ok_def distinct_map)
  with xy show ?thesis by (auto dest: inj_onD)
qed

text \<open>What \<open>allVerified\<close> says in a state in which every verification is backed by evidence.\<close>

lemma verified_is_checked:
  assumes ok: "executions_ok s" "backed task s" and "allVerified task s = (True, s')"
  shows "(\<exists>r \<in> set (results_of task s). \<not> local_result r)
     \<and> (\<forall>r \<in> set (results_of task s). \<not> local_result r \<longrightarrow> \<not> unsettled r)
     \<and> (\<forall>ys r zs. results_of task s = ys @ r # zs \<and> \<not> local_result r
          \<and> (\<forall>z \<in> set zs. \<not> local_result z \<longrightarrow> HostID (res_Request z) \<noteq> HostID (res_Request r))
          \<longrightarrow> (\<exists>expected. expected \<noteq> [] \<and> Contains (Output r) expected \<and> res_Status r = ''succeeded''
                \<and> \<not> Mutates (Operation (res_Request r)) \<and> \<not> HasPrefix (Operation (res_Request r)) ''terminal_''))"
proof -
  note v = allVerified_True [OF assms(3)]
  have remote: "\<exists>r \<in> set rs. \<not> local_result r" if "last_per_host rs \<noteq> []" for rs
    using that by (induction rs) (auto split: if_splits)
  have last: "\<exists>expected. expected \<noteq> [] \<and> Contains (Output r) expected \<and> res_Status r = ''succeeded''
                \<and> \<not> Mutates (Operation (res_Request r)) \<and> \<not> HasPrefix (Operation (res_Request r)) ''terminal_''"
    if rs: "results_of task s = ys @ r # zs" and r: "\<not> local_result r"
      "\<forall>z \<in> set zs. \<not> local_result z \<longrightarrow> HostID (res_Request z) \<noteq> HostID (res_Request r)" for ys r zs
  proof -
    have "(HostID (res_Request r), r) \<in> set (last_per_host (results_of task s))"
      unfolding rs by (rule last_per_host_last [OF r])
    with v obtain w where w: "find_doc (verification_kind task) (HostID (res_Request r)) s = Some (VerificationDoc w)"
      "v_ExecutionID w = res_ID r" by fastforce
    with ok(2) have "supports (results_of task s) (HostID (res_Request r)) w" by (simp add: backed_def)
    with w(2) obtain q where q: "q \<in> set (results_of task s)" "res_ID q = res_ID r" "evidence_ok q (v_ExpectedText w)"
      "v_ExpectedText w \<noteq> []" unfolding supports_def by metis
    with same_id_same_result [OF ok(1), of q task r] rs have "q = r" by simp
    with q show ?thesis by (auto simp: evidence_ok_def)
  qed
  show ?thesis using v remote last by (auto simp: no_unknown_outcome_def)
qed

subsection \<open>A concrete verification\<close>

definition demo_observation :: result where
  "demo_observation = (new_result ''e'' ((demo_request [])\<lparr>HostID := ''h'', Operation := ''observe''\<rparr>) 0)
     \<lparr>res_Status := ''succeeded'', Output := ''load: ok''\<rparr>"

definition observed_machine :: "served machine" where
  "observed_machine = (demo_machine [] [])\<lparr>db := (db (demo_machine [] []))
     \<lparr>executions := [(claim_row ''e'' 0 (res_Request demo_observation))\<lparr>ex_Payload := demo_observation\<rparr>]\<rparr>\<rparr>"

definition demo_caller :: caller where
  "demo_caller = \<lparr>run_id = ''r'', agent_name = [], tool_call_id = ''c''\<rparr>"

lemma demo_results: "results_of ''t1'' (db observed_machine) = [demo_observation]"
  by (simp add: results_of_def observed_machine_def claim_row_def demo_observation_def new_result_def demo_request_def)

lemma demo_evidence: "evidence_ok demo_observation ''ok''" "\<not> local_result demo_observation"
    "\<not> unsettled demo_observation" "res_ID demo_observation = ''e''" "HostID (res_Request demo_observation) = ''h''"
  by (simp_all add: evidence_ok_def local_result_def unsettled_def demo_observation_def new_result_def Mutates_def IsOperation_def
      HasPrefix_def Contains_def)

lemma demo_verification:
  "\<exists>s. snd (verify_execution granted_task demo_caller ''e'' ''ok'' observed_machine) = observed_machine\<lparr>db := s\<rparr>
     \<and> allVerified ''t1'' s = (True, s) \<and> results_of ''t1'' s = [demo_observation]"
proof -
  have q: "sql (db observed_machine) = []" "clock (db observed_machine) = []" "notices (db observed_machine) = changes_init"
    by (simp_all add: observed_machine_def demo_machine_def)
  have grant: "task_ID granted_task = ''t1''" "HostIDs (Grant granted_task) = [''h'']" by (simp_all add: granted_task_def)
  have results: "Results ''t1'' s = (Inr (results_of ''t1'' s), s)" if "sql s = []" for s
    using that by (simp add: Results_def andThen_def statement_quiet)
  define v where "v = VerificationDoc \<lparr>v_HostID = ''h'', v_ExecutionID = ''e'', v_ExpectedText = ''ok'', v_AgentName = ''operator'', v_At = 0\<rparr>"
  define s1 where "s1 = put_doc ''verification:t1'' ''h'' v (db observed_machine)"
  have verify: "verifyResult granted_task demo_caller [demo_observation] ''e'' ''ok'' (db observed_machine) = (Inr (), s1)"
    using q grant
    by (simp add: verifyResult_def executionAgentName_def demo_caller_def last_result_def demo_evidence newer_on_host_def
        andThen_def Now_def Put_def statement_def modify_def s1_def v_def ret_def)
  obtain e s2 where event: "Event ''t1'' ''verified'' ''e: ok'' s1 = (Inr e, s2)"
      "documents s2 = documents s1" "executions s2 = executions s1" "sql s2 = []"
    using q by (simp add: Event_def Now_def andThen_def statement_def s1_def put_doc_def wake_task_def notify_def subscribers_def
        changes_init_def ret_def Let_def)
  have "snd (verify_execution granted_task demo_caller ''e'' ''ok'' observed_machine) = observed_machine\<lparr>db := s2\<rparr>"
    using results [of "db observed_machine"] q grant verify event
    by (simp add: verify_execution_def andThen_def on_db_def demo_results log_event_def ret_def)
  moreover have "results_of ''t1'' s2 = [demo_observation]"
    using demo_results event(3) by (simp add: results_of_def s1_def put_doc_def)
  moreover have "find_doc ''verification:t1'' ''h'' s2 = Some v"
    using event(2) find_doc_cong [of s2 s1] by (simp add: s1_def find_doc_put)
  ultimately show ?thesis
    using results [of s2] event(4)
    by (auto simp: allVerified_def demo_evidence Load_quiet v_def intro!: exI [of _ s2])
qed

lemma demo_run_backed:
  "executions_ok (db observed_machine)" "\<forall>h. find_doc (verification_kind ''t1'') h (db observed_machine) = None"
  by (simp_all add: observed_machine_def demo_machine_def executions_ok_def claim_row_def demo_observation_def new_result_def
      find_doc_def verification_kind_def)

end
