(* ===== verification/Conversation.thy ===== *)
theory Conversation
  imports Evidence "HOL-Library.Sublist"
begin

text \<open>
  \<open>internal/agent/history_recovery.go\<close>: the history of a conversation is completed where a turn was
  interrupted, so that the model's protocol is kept when the task is resumed.
\<close>

subsection \<open>Completing an interrupted history\<close>

definition is_tool :: "message \<Rightarrow> bool" where
  "is_tool m \<longleftrightarrow> m_Role m = ''tool''"

definition calls_tools :: "message \<Rightarrow> bool" where
  "calls_tools m \<longleftrightarrow> m_Role m = ''assistant'' \<and> m_ToolCalls m \<noteq> []"

text \<open>The answer to a call that got none; its text is an ASCII rendering.\<close>

definition missing_answer :: "string \<Rightarrow> message" where
  "missing_answer call =
     \<lparr>m_Role = ''tool'',
      m_Content = render (JObj [(''is_error'', JBool True), (''retryable'', JBool False),
        (''error'', JStr ''the call was interrupted; its result is not confirmed''),
        (''next_step'', JStr ''check with a read-only operation first; do not repeat changes'')]),
      m_ToolCallID = call, m_ToolCalls = []\<rparr>"

definition missing :: "message \<Rightarrow> message list \<Rightarrow> message list" where
  "missing m answers = map missing_answer (filter (\<lambda>c. c \<notin> m_ToolCallID ` set answers) (m_ToolCalls m))"

function completeInterruptedToolCalls :: "message list \<Rightarrow> message list" where
  "completeInterruptedToolCalls [] = []"
| "completeInterruptedToolCalls (m # ms) =
     (if \<not> calls_tools m then m # completeInterruptedToolCalls ms
      else m # takeWhile is_tool ms @ missing m (takeWhile is_tool ms) @ completeInterruptedToolCalls (dropWhile is_tool ms))"
  by pat_completeness auto
termination
  by (relation "measure length") (auto simp: le_imp_less_Suc length_dropWhile_le)

text \<open>The protocol of the model: the calls of a message are answered by the tool messages right after it.\<close>

fun answered :: "message list \<Rightarrow> bool" where
  "answered [] \<longleftrightarrow> True"
| "answered (m # ms) \<longleftrightarrow>
     (calls_tools m \<longrightarrow> set (m_ToolCalls m) \<subseteq> m_ToolCallID ` set (takeWhile is_tool ms)) \<and> answered ms"

lemma missing_tool: "x \<in> set (missing m answers) \<Longrightarrow> is_tool x"
  by (auto simp: missing_def missing_answer_def is_tool_def)

lemma tool_calls_nothing: "is_tool m \<Longrightarrow> \<not> calls_tools m"
  by (auto simp: is_tool_def calls_tools_def)

lemma answered_tools: "list_all is_tool xs \<Longrightarrow> answered (xs @ ys) = answered ys"
  by (induction xs) (auto simp: tool_calls_nothing)

lemma completed_head: "takeWhile is_tool (completeInterruptedToolCalls (dropWhile is_tool ms)) = []"
  by (induction ms) auto

lemma missing_call [simp]: "m_ToolCallID (missing_answer call) = call"
  by (simp add: missing_answer_def)

lemma answers_of_message:
  "set (m_ToolCalls m) \<subseteq> m_ToolCallID ` set (takeWhile is_tool ms @ missing m (takeWhile is_tool ms))"
  unfolding missing_def by (auto simp: image_Un image_image)

text \<open>
  C30: A history is completed so that every tool call of every message has its answer among the tool
  messages right after it.  Nothing is dropped or reordered: what was there is a subsequence of the
  result, what is added are answers that say that the outcome is not confirmed, and a history that
  was complete is left alone.
\<close>

theorem history_is_completed:
  "answered (completeInterruptedToolCalls h) \<and> subseq h (completeInterruptedToolCalls h)
     \<and> (answered h \<longrightarrow> completeInterruptedToolCalls h = h)
     \<and> (\<forall>x \<in> set (completeInterruptedToolCalls h). x \<in> set h \<or> (\<exists>call. x = missing_answer call))"
proof (induction h rule: completeInterruptedToolCalls.induct)
  case (2 m ms)
  show ?case
  proof (cases "calls_tools m")
    case False
    with 2(1) show ?thesis by auto
  next
    case True
    let ?a = "takeWhile is_tool ms" and ?rest = "dropWhile is_tool ms"
    note IH = 2(2) [unfolded not_not, OF True]
    have tools: "list_all is_tool (?a @ missing m ?a)"
      using missing_tool by (auto simp: list_all_iff dest: set_takeWhileD)
    have "takeWhile is_tool (completeInterruptedToolCalls ?rest) = []"
      by (rule completed_head)
    then have "takeWhile is_tool (?a @ missing m ?a @ completeInterruptedToolCalls ?rest) = ?a @ missing m ?a"
      using tools takeWhile_append2 [of "?a @ missing m ?a" is_tool "completeInterruptedToolCalls ?rest"] by (simp add: list_all_iff)
    with IH answers_of_message [of m ms] have ok: "answered (completeInterruptedToolCalls (m # ms))"
      using True answered_tools [OF tools] by simp
    have "subseq (?a @ ?rest) (?a @ missing m ?a @ completeInterruptedToolCalls ?rest)"
      using IH by (intro list_emb_append_mono) (auto intro: list_emb_append2)
    then have sub: "subseq (m # ms) (completeInterruptedToolCalls (m # ms))" using True by simp
    have same: "completeInterruptedToolCalls (m # ms) = m # ms" if "answered (m # ms)"
    proof -
      from that True have "missing m ?a = []" by (auto simp: missing_def filter_empty_conv)
      moreover have "answered ?rest"
        using that answered_tools [of ?a ?rest] by (simp add: list_all_iff) (metis set_takeWhileD takeWhile_dropWhile_id)
      ultimately show ?thesis using IH True by simp
    qed
    have "x \<in> set (m # ms) \<or> (\<exists>call. x = missing_answer call)" if "x \<in> set (completeInterruptedToolCalls (m # ms))" for x
      using that True IH by (auto simp: missing_def dest: set_takeWhileD set_dropWhileD)
    with ok sub same show ?thesis by blast
  qed
qed simp

theorem history_is_completed_witness:
  "completeInterruptedToolCalls [\<lparr>m_Role = ''assistant'', m_Content = [], m_ToolCallID = [], m_ToolCalls = [''c'']\<rparr>,
       \<lparr>m_Role = ''tool'', m_Content = ''ok'', m_ToolCallID = ''c'', m_ToolCalls = []\<rparr>]
     = [\<lparr>m_Role = ''assistant'', m_Content = [], m_ToolCallID = [], m_ToolCalls = [''c'']\<rparr>,
       \<lparr>m_Role = ''tool'', m_Content = ''ok'', m_ToolCallID = ''c'', m_ToolCalls = []\<rparr>]"
  using history_is_completed [of "[\<lparr>m_Role = ''assistant'', m_Content = [], m_ToolCallID = [], m_ToolCalls = [''c'']\<rparr>,
       \<lparr>m_Role = ''tool'', m_Content = ''ok'', m_ToolCallID = ''c'', m_ToolCalls = []\<rparr>]"]
  by (simp add: calls_tools_def is_tool_def)

end
