(* ===== verification/GoJsonRead.thy ===== *)
theory GoJsonRead
  imports GoJson GoEncoding "HOL-Library.Char_ord" "HOL-Library.List_Lexorder"
begin

text \<open>
  Reading JSON with \<open>encoding/json\<close>: \<open>json.Valid\<close>, and \<open>Decoder.Decode\<close> into \<open>any\<close> with \<open>UseNumber\<close>, which
  reads the first value of its input; and what \<open>json.Marshal\<close> writes for such a value.

  Each call of a reader takes a bound on the bytes it may still read, which the length of the text
  gives.  Numbers keep their text.
\<close>

datatype any =
    Null
  | Bool bool
  | Number string
  | String string
  | Array "any list"
  | Object "(string \<times> any) list"

definition skip_space :: "string \<Rightarrow> string" where
  "skip_space = dropWhile (\<lambda>c. c \<in> {CHR '' '', CHR 0x09, CHR 0x0A, CHR 0x0D})"

subsection \<open>Numbers\<close>

text \<open>The digits at the front, of which there has to be one.\<close>

definition digits1 :: "string \<Rightarrow> (string \<times> string) option" where
  "digits1 s = (case takeWhile is_digit s of [] \<Rightarrow> None | d \<Rightarrow> Some (d, dropWhile is_digit s))"

definition read_fraction :: "string \<Rightarrow> (string \<times> string) option" where
  "read_fraction s = (case s of
      c # t \<Rightarrow> if c = CHR ''.'' then map_option (\<lambda>(d, r). (c # d, r)) (digits1 t) else Some ([], s)
    | [] \<Rightarrow> Some ([], s))"

definition read_exponent :: "string \<Rightarrow> (string \<times> string) option" where
  "read_exponent s = (case s of
      c # t \<Rightarrow>
        if c = CHR ''e'' \<or> c = CHR ''E''
        then (case t of
                g # u \<Rightarrow> if g = CHR ''+'' \<or> g = CHR ''-'' then map_option (\<lambda>(d, r). (c # g # d, r)) (digits1 u)
                         else map_option (\<lambda>(d, r). (c # d, r)) (digits1 t)
              | [] \<Rightarrow> None)
        else Some ([], s)
    | [] \<Rightarrow> Some ([], s))"

definition read_whole :: "string \<Rightarrow> (string \<times> string) option" where
  "read_whole s = (case s of
      c # t \<Rightarrow> if c = CHR ''0'' then Some ([c], t) else digits1 s
    | [] \<Rightarrow> None)"

definition read_unsigned :: "string \<Rightarrow> (string \<times> string) option" where
  "read_unsigned s =
     (case read_whole s of None \<Rightarrow> None | Some (a, s1) \<Rightarrow>
       (case read_fraction s1 of None \<Rightarrow> None | Some (b, s2) \<Rightarrow>
         (case read_exponent s2 of None \<Rightarrow> None | Some (c, s3) \<Rightarrow> Some (a @ b @ c, s3))))"

definition read_number :: "string \<Rightarrow> (string \<times> string) option" where
  "read_number s = (case s of
      c # t \<Rightarrow> if c = CHR ''-'' then map_option (\<lambda>(n, r). (c # n, r)) (read_unsigned t) else read_unsigned s
    | [] \<Rightarrow> None)"

subsection \<open>Strings\<close>

definition hex4 :: "string \<Rightarrow> nat option" where
  "hex4 s = (case s of
      a # b # c # d # _ \<Rightarrow>
        (case (hex_value (byte_of a), hex_value (byte_of b), hex_value (byte_of c), hex_value (byte_of d)) of
           (Some p, Some q, Some r, Some t) \<Rightarrow> Some (((unat p * 16 + unat q) * 16 + unat r) * 16 + unat t)
         | _ \<Rightarrow> None)
    | _ \<Rightarrow> None)"

text \<open>\<open>utf8.EncodeRune\<close>; a surrogate becomes the replacement character.\<close>

definition encode_rune :: "nat \<Rightarrow> string" where
  "encode_rune r =
     (let n = (if 0xD800 \<le> r \<and> r \<le> 0xDFFF \<or> 0x10FFFF < r then 0xFFFD else r)
      in if n < 0x80 then [char_of n]
         else if n < 0x800 then [char_of (0xC0 + n div 64), char_of (0x80 + n mod 64)]
         else if n < 0x10000 then [char_of (0xE0 + n div 4096), char_of (0x80 + n div 64 mod 64), char_of (0x80 + n mod 64)]
         else [char_of (0xF0 + n div 262144), char_of (0x80 + n div 4096 mod 64), char_of (0x80 + n div 64 mod 64),
               char_of (0x80 + n mod 64)])"

definition low_surrogate :: "string \<Rightarrow> nat option" where
  "low_surrogate s = (case s of
      a # b # t \<Rightarrow>
        if a = CHR 0x5C \<and> b = CHR ''u''
        then (case hex4 t of Some n \<Rightarrow> if 0xDC00 \<le> n \<and> n \<le> 0xDFFF then Some n else None | None \<Rightarrow> None)
        else None
    | _ \<Rightarrow> None)"

definition simple_escape :: "char \<Rightarrow> char option" where
  "simple_escape c =
     (if c = CHR 0x22 \<or> c = CHR 0x5C \<or> c = CHR ''/'' then Some c
      else map_of [(CHR ''b'', CHR 0x08), (CHR ''f'', CHR 0x0C), (CHR ''n'', CHR 0x0A), (CHR ''r'', CHR 0x0D), (CHR ''t'', CHR 0x09)] c)"

text \<open>After an opening quote: the contents of the string and what comes after its closing quote.\<close>

fun read_string :: "nat \<Rightarrow> string \<Rightarrow> (string \<times> string) option" where
  "read_string 0 s = None"
| "read_string (Suc n) s =
     (case s of
        [] \<Rightarrow> None
      | c # t \<Rightarrow>
          if c = CHR 0x22 then Some ([], t)
          else if of_char c < (32 :: nat) then None
          else if c = CHR 0x5C
          then (case t of
                  [] \<Rightarrow> None
                | e # u \<Rightarrow>
                    if e = CHR ''u''
                    then (case hex4 u of
                            None \<Rightarrow> None
                          | Some h \<Rightarrow>
                              (case (if 0xD800 \<le> h \<and> h \<le> 0xDBFF then low_surrogate (drop 4 u) else None) of
                                 Some l \<Rightarrow> map_option (\<lambda>(x, r). (encode_rune (0x10000 + (h - 0xD800) * 1024 + (l - 0xDC00)) @ x, r))
                                             (read_string n (drop 10 u))
                               | None \<Rightarrow> map_option (\<lambda>(x, r). (encode_rune h @ x, r)) (read_string n (drop 4 u))))
                    else (case simple_escape e of
                            None \<Rightarrow> None
                          | Some k \<Rightarrow> map_option (\<lambda>(x, r). (k # x, r)) (read_string n u)))
          else if utf8_width s = 0 then map_option (\<lambda>(x, r). (encode_rune 0xFFFD @ x, r)) (read_string n t)
          else map_option (\<lambda>(x, r). (take (utf8_width s) s @ x, r)) (read_string n (drop (utf8_width s) s)))"

subsection \<open>Values\<close>

definition max_nesting :: nat where
  "max_nesting = 10000"

definition literal :: "string \<Rightarrow> any \<Rightarrow> string \<Rightarrow> (any \<times> string) option" where
  "literal w v s = (if take (length w) s = w then Some (v, drop (length w) s) else None)"

text \<open>\<open>n\<close> bounds the steps, \<open>d\<close> is how deep the value is nested.\<close>

fun read_value :: "nat \<Rightarrow> nat \<Rightarrow> string \<Rightarrow> (any \<times> string) option"
  and read_elements :: "nat \<Rightarrow> nat \<Rightarrow> string \<Rightarrow> (any list \<times> string) option"
  and read_members :: "nat \<Rightarrow> nat \<Rightarrow> string \<Rightarrow> ((string \<times> any) list \<times> string) option" where
  "read_value 0 d s = None"
| "read_value (Suc n) d s =
     (case skip_space s of
        [] \<Rightarrow> None
      | c # t \<Rightarrow>
          if c = CHR 0x22 then map_option (\<lambda>(x, r). (String x, r)) (read_string (Suc (length t)) t)
          else if c = CHR ''['' \<or> c = CHR 0x7B
          then if max_nesting \<le> d then None
               else if c = CHR ''[''
               then (case skip_space t of
                       [] \<Rightarrow> None
                     | e # u \<Rightarrow> if e = CHR '']'' then Some (Array [], u)
                               else map_option (\<lambda>(xs, r). (Array xs, r)) (read_elements n (Suc d) t))
               else (case skip_space t of
                       [] \<Rightarrow> None
                     | e # u \<Rightarrow> if e = CHR 0x7D then Some (Object [], u)
                               else map_option (\<lambda>(xs, r). (Object xs, r)) (read_members n (Suc d) t))
          else if c = CHR ''n'' then literal ''null'' Null (c # t)
          else if c = CHR ''t'' then literal ''true'' (Bool True) (c # t)
          else if c = CHR ''f'' then literal ''false'' (Bool False) (c # t)
          else map_option (\<lambda>(x, r). (Number x, r)) (read_number (c # t)))"
| "read_elements 0 d s = None"
| "read_elements (Suc n) d s =
     (case read_value n d s of
        None \<Rightarrow> None
      | Some (v, r) \<Rightarrow>
          (case skip_space r of
             [] \<Rightarrow> None
           | c # u \<Rightarrow>
               if c = CHR '']'' then Some ([v], u)
               else if c = CHR '','' then map_option (\<lambda>(vs, r). (v # vs, r)) (read_elements n d u)
               else None))"
| "read_members 0 d s = None"
| "read_members (Suc n) d s =
     (case skip_space s of
        [] \<Rightarrow> None
      | c # t \<Rightarrow>
          if c \<noteq> CHR 0x22 then None
          else (case read_string (Suc (length t)) t of
                  None \<Rightarrow> None
                | Some (k, r) \<Rightarrow>
                    (case skip_space r of
                       [] \<Rightarrow> None
                     | e # u \<Rightarrow>
                         if e \<noteq> CHR '':'' then None
                         else (case read_value n d u of
                                 None \<Rightarrow> None
                               | Some (v, r) \<Rightarrow>
                                   (case skip_space r of
                                      [] \<Rightarrow> None
                                    | c # w \<Rightarrow>
                                        if c = CHR 0x7D then Some ([(k, v)], w)
                                        else if c = CHR '','' then map_option (\<lambda>(ms, r). ((k, v) # ms, r)) (read_members n d w)
                                        else None)))))"

text \<open>Every call but the first reads at least a byte before it calls again twice, so twice the length is enough.\<close>

definition Decode_first :: "string \<Rightarrow> any option" where
  "Decode_first s = map_option fst (read_value (2 * length s + 2) 0 s)"

definition Valid :: "string \<Rightarrow> bool" where
  "Valid s = (case read_value (2 * length s + 2) 0 s of None \<Rightarrow> False | Some (_, r) \<Rightarrow> skip_space r = [])"

subsection \<open>Writing a decoded value\<close>

text \<open>An object is a map: of equal keys the last one stays, and \<open>json.Marshal\<close> sorts them.\<close>

definition sorted_members :: "(string \<times> 'a) list \<Rightarrow> (string \<times> 'a) list" where
  "sorted_members ms =
     map (\<lambda>k. (k, the (map_of (rev ms) k))) (sort (remdups (map fst ms)))"

fun Marshal :: "any \<Rightarrow> string" where
  "Marshal Null = ''null''"
| "Marshal (Bool b) = (if b then ''true'' else ''false'')"
| "Marshal (Number n) = n"
| "Marshal (String s) = json_string s"
| "Marshal (Array vs) = ''['' @ Join (map Marshal vs) '','' @ '']''"
| "Marshal (Object ms) =
     CHR 0x7B # Join (map (\<lambda>(k, v). json_string k @ '':'' @ v) (sorted_members (map (\<lambda>(k, v). (k, Marshal v)) ms))) '','' @ [CHR 0x7D]"

end
