(* ===== verification/Recovery.thy ===== *)
theory Recovery
  imports Conversation GoJsonRead
begin

text \<open>
  \<open>internal/agent/model_retry.go\<close>, \<open>tool_recovery.go\<close>, \<open>runtime_observer.go\<close> and the rest of \<open>tools.go\<close>: how
  often a failing call of the model is repeated, how mistakes in tool calls are answered and when
  the answers end, and what is recorded of delegated tasks and of plans.
\<close>

subsection \<open>Repeating a call of the model\<close>

text \<open>
  The errors of the model library: an answer of the service with an HTTP status, a connection that
  timed out, and others.
\<close>

datatype model_error = Api nat err | Timeout err | Other err

fun cause :: "model_error \<Rightarrow> err" where
  "cause (Api _ e) = e"
| "cause (Timeout e) = e"
| "cause (Other e) = e"

fun modelErrorAction :: "model_error \<Rightarrow> bool \<times> string" where
  "modelErrorAction (Api n e) =
     (if n = 401 \<or> n = 403 then (False, ''the model service refused the authentication'')
      else if n = 400 \<or> n = 404 \<or> n = 422 then (False, ''the model service does not support this request'')
      else if n = 429 \<or> n = 500 \<or> n = 502 \<or> n = 503 \<or> n = 504 then (True, ''the model service is not available for now'')
      else (False, []))"
| "modelErrorAction (Timeout e) = (True, ''the connection to the model timed out'')"
| "modelErrorAction (Other e) = (False, [])"

text \<open>
  \<open>retry_call n\<close> has \<open>n\<close> attempts left.  The wait between two attempts ends early only when the context
  does, which its check after the wait sees.
\<close>

fun retry_call :: "nat \<Rightarrow> ('w, model_error + 'a) mact \<Rightarrow> ('w, 'a) mact" where
  "retry_call 0 call = throw (Msg ''the model request was not completed'')"
| "retry_call (Suc n) call =
     andThen Err (\<lambda>_.
     andThen call (\<lambda>out.
       case out of
         Inr x \<Rightarrow> ret x
       | Inl e \<Rightarrow>
           andThen Err (\<lambda>_.
             case modelErrorAction e of (retry, text) \<Rightarrow>
               if \<not> retry \<or> n = 0 then throw (if text \<noteq> [] then Blocked text else cause e)
               else andThen Err (\<lambda>_. retry_call n call))))"

definition retryModelCall :: "('w, model_error + 'a) mact \<Rightarrow> ('w, 'a) mact" where
  "retryModelCall = retry_call 3"

lemma snd_andThen:
  "snd (andThen m f s) = (case m s of (Inl e, s1) \<Rightarrow> s1 | (Inr x, s1) \<Rightarrow> snd (f x s1))"
  by (simp add: andThen_def split: prod.split sum.split)

lemma retry_call_bound:
  assumes call: "\<And>m. count (snd (call m)) \<le> Suc (count m)" and idle: "\<And>m. count (snd (Err m)) = count m"
  shows "count (snd (retry_call n call m)) \<le> count m + n"
proof (induction n arbitrary: m)
  case (Suc n)
  obtain a m1 where a: "Err m = (a, m1)" by fastforce
  obtain b m2 where b: "call m1 = (b, m2)" by fastforce
  obtain c m3 where c: "Err m2 = (c, m3)" by fastforce
  obtain d m4 where d: "Err m3 = (d, m4)" by fastforce
  have "count m1 = count m" "count m2 \<le> Suc (count m1)" "count m3 = count m2" "count m4 = count m3"
    using idle [of m] call [of m1] idle [of m2] idle [of m3] a b c d by simp_all
  moreover have "count (snd (retry_call n call m4)) \<le> count m4 + n" by (rule Suc.IH)
  ultimately show ?case
    using a b c d
    by (auto simp: snd_andThen throw_def ret_def split: sum.split prod.split)
qed (simp add: throw_def)

text \<open>
  A call of the model is made at most three times, and just once when the service refused the
  authentication or does not support the request; what is reported then is the error that blocks
  the task, with the reason.
\<close>

theorem model_call_bounded:
  assumes "\<And>m. count (snd (call m)) \<le> Suc (count m)" and "\<And>m. count (snd (Err m)) = count m"
    and "retryModelCall call m = (y, m')"
  shows "count m' \<le> count m + (3 :: nat)
     \<and> (\<forall>n e m1 m2 m3. n \<in> {400, 401, 403, 404, 422} \<and> Err m = (Inr (), m1) \<and> call m1 = (Inr (Inl (Api n e)), m2)
          \<and> Err m2 = (Inr (), m3) \<longrightarrow> (\<exists>text. y = Inl (Blocked text)) \<and> m' = m3 \<and> count m' \<le> count m + 1)"
proof (intro conjI allI impI)
  show "count m' \<le> count m + 3"
    using retry_call_bound [of count call 3 m] assms by (simp add: retryModelCall_def)
next
  fix n e m1 m2 m3
  assume h: "n \<in> {400, 401, 403, 404, 422} \<and> Err m = (Inr (), m1) \<and> call m1 = (Inr (Inl (Api n e)), m2) \<and> Err m2 = (Inr (), m3)"
  obtain msg where "modelErrorAction (Api n e) = (False, msg)" "msg \<noteq> []" using h by auto
  with h assms(3) have y: "y = Inl (Blocked msg)" "m' = m3"
    by (auto simp: retryModelCall_def numeral_3_eq_3 andThen_def throw_def simp del: modelErrorAction.simps)
  with h assms(1) [of m1] assms(2) [of m] assms(2) [of m2]
  show "\<exists>text. y = Inl (Blocked text)" "m' = m3" "count m' \<le> count m + 1" by auto
qed

theorem model_call_bounded_witness:
  "\<forall>m. net (snd (retryModelCall (\<lambda>m. (Inr (Inl (Api 503 Cancelled) :: model_error + unit), m\<lparr>net := Suc (net m)\<rparr>)) m)) \<le> net m + (3 :: nat)"
proof
  fix m :: "nat machine"
  let ?call = "\<lambda>m. (Inr (Inl (Api 503 Cancelled) :: model_error + unit), m\<lparr>net := Suc (net m)\<rparr>) :: (err + _) \<times> nat machine"
  have "net (snd (Err m)) = net m" for m :: "nat machine"
    by (cases "ctx_Err (st_ctx (staged m))") (auto simp: Err_def on_reading_def as_msg_def split: sum.split)
  then show "net (snd (retryModelCall ?call m)) \<le> net m + 3"
    using model_call_bounded [of net ?call m "fst (retryModelCall ?call m)" "snd (retryModelCall ?call m)"] by simp
qed

subsection \<open>Answering mistakes in tool calls\<close>

text \<open>
  A \<open>recoveryTool\<close> has a name, may share the budget of its run and may record its answers in a task.
  The state of a run is how often a tool was given the same wrong call, and the mistakes counted in
  the shared budget.
\<close>

record recovery_tool =
  rt_name :: string
  rt_budget :: bool
  rt_task :: "string option"

record corrections =
  attempts :: "((string \<times> string) \<times> nat) list"
  failures :: nat

type_synonym ('w, 'a) cact = "('w machine \<times> corrections, err, 'a) act"

definition on_machine :: "('w, 'a) mact \<Rightarrow> ('w, 'a) cact" where
  "on_machine f = (\<lambda>(m, c). case f m of (x, m1) \<Rightarrow> (x, (m1, c)))"

definition attempts_of :: "corrections \<Rightarrow> string \<times> string \<Rightarrow> nat" where
  "attempts_of c k = (case map_of (attempts c) k of None \<Rightarrow> 0 | Some n \<Rightarrow> n)"

definition canonical_arguments :: "string \<Rightarrow> string" where
  "canonical_arguments args = (case Decode_first args of None \<Rightarrow> args | Some v \<Rightarrow> Marshal v)"

definition correction_key :: "recovery_tool \<Rightarrow> string \<Rightarrow> string \<Rightarrow> string \<times> string" where
  "correction_key t args msg = (rt_name t, canonical_arguments args @ [CHR 0x00] @ msg)"

definition correction_limit :: nat where
  "correction_limit = 12"

definition correction_text :: "string \<Rightarrow> nat \<Rightarrow> string" where
  "correction_text msg n =
     render (JObj [(''is_error'', JBool True), (''error'', JStr msg), (''retryable'', JBool (n < 3)),
       (''next_step'', JStr (if n < 3 then ''correct the arguments or add read-only evidence; do not repeat changes''
                             else ''the same request failed three times; use another read-only check or say what is missing''))])"

definition record_correction :: "recovery_tool \<Rightarrow> string \<Rightarrow> ('w, unit) mact" where
  "record_correction t msg =
     (case rt_task t of None \<Rightarrow> ret () | Some i \<Rightarrow> log_event i ''tool_feedback'' (rt_name t @ '': '' @ msg))"

definition feedback :: "recovery_tool \<Rightarrow> string \<Rightarrow> string \<Rightarrow> ('w, string) cact" where
  "feedback t args msg = (\<lambda>(m, c).
     let k = correction_key t args msg;
         n = Suc (attempts_of c k);
         c1 = c\<lparr>attempts := (k, n) # attempts c\<rparr>;
         c2 = (if rt_budget t \<and> n \<le> 3 then c1\<lparr>failures := Suc (failures c1)\<rparr> else c1)
     in if 3 < n then (Inl (Blocked ''the same tool request failed several times''), (m, c2))
        else if rt_budget t \<and> correction_limit < failures c2 then (Inl (Blocked ''tool calls were corrected too often in this turn''), (m, c2))
        else andThen (on_machine (record_correction t msg)) (\<lambda>_. ret (correction_text msg n)) (m, c2))"

definition InvokableRun :: "recovery_tool \<Rightarrow> (string \<Rightarrow> ('w, string) mact) \<Rightarrow> string \<Rightarrow> ('w, string) cact" where
  "InvokableRun t inner args =
     andThen (on_machine Err) (\<lambda>_.
       let trimmed = TrimSpace args;
           normalized = (if trimmed = [] \<and> rt_name t = ''workspace_context'' then ''{}'' else trimmed)
       in if \<not> Valid normalized \<or> \<not> HasPrefix normalized ''{'' then feedback t args ''the arguments must be a JSON object''
          else andThen (attempt (on_machine (inner args))) (\<lambda>x.
            case x of
              Inr y \<Rightarrow> ret y
            | Inl (Correctable msg) \<Rightarrow> feedback t args msg
            | Inl e \<Rightarrow> throw e))"

text \<open>What a call of a tool that does not exist is answered with.\<close>

definition tool_names :: "string list" where
  "tool_names = [''operate'', ''verify_execution'', ''read_evidence'', ''local_files'', ''workspace_context'', ''skill'']"

definition handleUnknown :: "recovery_tool \<Rightarrow> caller \<Rightarrow> string \<Rightarrow> ('w, string) cact" where
  "handleUnknown t k name =
     andThen (on_machine Err) (\<lambda>_.
       feedback t name (''there is no tool '' @ name @ ''; the tools are ''
         @ Join (tool_names @ (if executionAgentName k = ''operator'' then [''write_todos'', ''task''] else [])) '', ''))"

text \<open>Any number of answers, one after the other, with their outcomes.\<close>

fun feedback_all :: "(recovery_tool \<times> string \<times> string) list \<Rightarrow> 'w machine \<times> corrections \<Rightarrow> (err + string) list \<times> 'w machine \<times> corrections" where
  "feedback_all [] s = ([], s)"
| "feedback_all ((t, args, msg) # calls) s =
     (case feedback t args msg s of (x, s1) \<Rightarrow> (case feedback_all calls s1 of (xs, s2) \<Rightarrow> (x # xs, s2)))"

definition is_answer :: "err + string \<Rightarrow> bool" where
  "is_answer x \<longleftrightarrow> (case x of Inr _ \<Rightarrow> True | Inl _ \<Rightarrow> False)"

lemma feedback_cases:
  assumes "feedback t args msg (m, c) = (x, (m', c'))"
  shows "attempts_of c' k = (if k = correction_key t args msg then Suc (attempts_of c k) else attempts_of c k)
     \<and> failures c \<le> failures c'
     \<and> (is_answer x \<longrightarrow> attempts_of c (correction_key t args msg) < 3
          \<and> (rt_budget t \<longrightarrow> failures c' = Suc (failures c) \<and> failures c' \<le> correction_limit))"
proof -
  have "c' = (let n = Suc (attempts_of c (correction_key t args msg)); c1 = c\<lparr>attempts := (correction_key t args msg, n) # attempts c\<rparr>
      in if rt_budget t \<and> n \<le> 3 then c1\<lparr>failures := Suc (failures c1)\<rparr> else c1)"
    using assms by (auto simp: feedback_def Let_def andThen_def on_machine_def ret_def split: if_splits prod.splits sum.splits)
  then show ?thesis
    using assms by (auto simp: feedback_def Let_def is_answer_def attempts_of_def split: if_splits)
qed

text \<open>The answers to one wrong call of a tool among the outcomes.\<close>

fun answers_to :: "string \<times> string \<Rightarrow> (recovery_tool \<times> string \<times> string) list \<Rightarrow> (err + string) list \<Rightarrow> nat" where
  "answers_to k ((t, args, msg) # calls) (x # xs) =
     (if is_answer x \<and> correction_key t args msg = k then 1 else 0) + answers_to k calls xs"
| "answers_to k _ _ = 0"

lemma answers_bound: "feedback_all calls (m, c) = (xs, s) \<Longrightarrow> answers_to k calls xs \<le> 3 - attempts_of c k"
proof (induction calls arbitrary: m c xs)
  case (Cons call calls)
  obtain t args msg where call: "call = (t, args, msg)" by (cases call)
  obtain x m1 c1 where x: "feedback t args msg (m, c) = (x, (m1, c1))" by (metis prod_cases3)
  obtain ys where ys: "feedback_all calls (m1, c1) = (ys, s)" "xs = x # ys"
    using Cons.prems call x by (auto split: prod.splits)
  from Cons.IH [OF ys(1)] feedback_cases [OF x, of k] show ?case
    unfolding call ys(2) by (auto split: if_splits)
qed simp

lemma budget_bound:
  "feedback_all calls (m, c) = (xs, s) \<Longrightarrow> \<forall>(t, _) \<in> set calls. rt_budget t \<Longrightarrow>
     length (filter is_answer xs) \<le> correction_limit - failures c"
proof (induction calls arbitrary: m c xs)
  case (Cons call calls)
  obtain t args msg where call: "call = (t, args, msg)" by (cases call)
  obtain x m1 c1 where x: "feedback t args msg (m, c) = (x, (m1, c1))" by (metis prod_cases3)
  obtain ys where ys: "feedback_all calls (m1, c1) = (ys, s)" "xs = x # ys"
    using Cons.prems(1) call x by (auto split: prod.splits)
  from Cons.prems(2) call have "rt_budget t" "\<forall>(t, _) \<in> set calls. rt_budget t" by auto
  with Cons.IH [OF ys(1)] feedback_cases [OF x] show ?case
    unfolding ys(2) by (fastforce split: if_splits)
qed simp



subsection \<open>Delegated tasks and plans\<close>

text \<open>
  \<open>json.Unmarshal\<close> of the arguments of \<open>task\<close>: a field is found under its name in any case, \<open>null\<close>
  leaves it empty, and anything but a string is an error.
\<close>

definition fold_key :: "string \<Rightarrow> string" where
  "fold_key s = map lower (ReplaceAll (ReplaceAll s [CHR 0xC5, CHR 0xBF] ''s'') [CHR 0xE2, CHR 0x84, CHR 0xAA] ''k'')"

fun string_field :: "string \<Rightarrow> string \<Rightarrow> (string \<times> any) list \<Rightarrow> string option" where
  "string_field name x [] = Some x"
| "string_field name x ((k, v) # ms) =
     (if fold_key k \<noteq> name then string_field name x ms
      else (case v of String y \<Rightarrow> string_field name y ms | Null \<Rightarrow> string_field name x ms | _ \<Rightarrow> None))"

definition task_input :: "string \<Rightarrow> (string \<times> string) option" where
  "task_input args =
     (if \<not> Valid args then None
      else (case Decode_first args of
              Some Null \<Rightarrow> Some ([], [])
            | Some (Object ms) \<Rightarrow>
                (case (string_field ''subagent_type'' [] ms, string_field ''description'' [] ms) of
                   (Some a, Some d) \<Rightarrow> Some (a, d) | _ \<Rightarrow> None)
            | _ \<Rightarrow> None))"

text \<open>
  The todo list of the agent library: how it reads one from arguments, as contents with states, and
  the text it has as JSON.
\<close>

record todo_format =
  read_todos :: "string \<Rightarrow> (string \<times> string) list option"
  todos_text :: "(string \<times> string) list \<Rightarrow> string"

definition todo_ok :: "string \<times> string \<Rightarrow> bool" where
  "todo_ok x \<longleftrightarrow> fst x \<noteq> [] \<and> snd x \<in> {''pending'', ''in_progress'', ''completed''}"

definition subtask_json :: "subtask_event \<Rightarrow> json" where
  "subtask_json e = JObj [(''RunID'', JStr (st_RunID e)), (''Agent'', JStr (st_Agent e)), (''State'', JStr (st_State e)),
     (''Message'', JStr (st_Message e))]"

definition emitSubtask :: "string \<Rightarrow> caller \<Rightarrow> string \<Rightarrow> string \<Rightarrow> ('w, unit) mact" where
  "emitSubtask task k state msg =
     (let e = \<lparr>st_RunID = run_id k, st_Agent = agent_name k, st_State = state, st_Message = take 8192 msg\<rparr>
      in andThen (on_db (Put (''subtasks:'' @ task) (run_id k) (SubtaskDoc e))) (\<lambda>_.
           log_event task ''subtask_state'' (render (subtask_json e))))"

text \<open>The observer's own answers are neither recorded nor counted in the budget of the run.\<close>

definition observer_tool :: "bool \<Rightarrow> recovery_tool" where
  "observer_tool root = \<lparr>rt_name = (if root then ''observer'' else ''worker observer''), rt_budget = False, rt_task = None\<rparr>"

definition child_caller :: "task \<Rightarrow> caller \<Rightarrow> caller" where
  "child_caller t k = k\<lparr>run_id := task_ID t @ ''/child/'' @ tool_call_id k, agent_name := ''operations_worker''\<rparr>"

definition run_subtask :: "task \<Rightarrow> caller \<Rightarrow> (caller \<Rightarrow> ('w, string) cact) \<Rightarrow> ('w, string) cact" where
  "run_subtask t child inner =
     andThen (on_machine (emitSubtask (task_ID t) child ''running'' [])) (\<lambda>_.
     andThen (attempt (inner child)) (\<lambda>x.
     andThen (on_machine (emitSubtask (task_ID t) child
        (case x of Inr _ \<Rightarrow> ''completed'' | Inl (Interrupt _) \<Rightarrow> ''interrupted'' | Inl _ \<Rightarrow> ''failed'')
        (case x of Inr out \<Rightarrow> out | Inl _ \<Rightarrow> []))) (\<lambda>_.
     outcome x)))"

definition save_plan :: "todo_format \<Rightarrow> task \<Rightarrow> (string \<times> string) list \<Rightarrow> ('w, unit) mact" where
  "save_plan F t todos =
     andThen (on_db (Put ''plans'' (task_ID t) (PlanDoc todos))) (\<lambda>_.
       log_event (task_ID t) ''plan_updated'' (todos_text F todos))"

definition WrapInvokableToolCall :: "todo_format \<Rightarrow> task \<Rightarrow> bool \<Rightarrow> string \<Rightarrow> (caller \<Rightarrow> string \<Rightarrow> ('w, string) cact) \<Rightarrow> caller \<Rightarrow> string \<Rightarrow> ('w, string) cact" where
  "WrapInvokableToolCall F t root name inner k args =
     andThen (on_machine Err) (\<lambda>_.
       if name = ''task'' \<and> (case task_input args of None \<Rightarrow> True | Some (a, d) \<Rightarrow> a \<noteq> ''operations_worker'' \<or> d = [])
       then feedback (observer_tool root) args ''task needs operations_worker and a description''
       else if name = ''task''
       then (if root then run_subtask t (child_caller t k) (\<lambda>c. inner c args)
             else throw (Correctable ''a sub-agent cannot delegate''))
       else if name = ''write_todos''
       then (case read_todos F args of
               None \<Rightarrow> feedback (observer_tool root) args ''the plan is malformed''
             | Some todos \<Rightarrow>
                 if \<not> list_all todo_ok todos then feedback (observer_tool root) args ''a step of the plan needs a content and a state''
                 else andThen (inner k args) (\<lambda>out.
                      andThen (if root then on_machine (save_plan F t todos) else ret ()) (\<lambda>_. ret out)))
       else inner k args)"

end
