(* ===== verification/Service.thy ===== *)
theory Service
  imports Recovery References
begin

text \<open>
  \<open>internal/agent/service.go\<close>, \<open>conversation.go\<close>, \<open>attachments.go\<close>, \<open>events.go\<close> and \<open>runtime_version.go\<close>: tasks and
  the runs of the agent on them.

  A run is the loop of the agent library between \<open>start\<close> and the goroutine that ends it.  What the
  library does is a parameter: it calls the operations \<open>gen_input\<close>, \<open>gen_resume\<close> and \<open>consumeEvents\<close> of
  this theory in any order, calls the tools, and leaves the loop with an exit reason.  The locks are
  not modelled: every operation is one step.
\<close>

subsection \<open>State\<close>

record input =
  in_Text :: string
  in_ApprovalID :: string

record run =
  run_task :: task
  inbox :: "input list"
  history :: "message list"
  pending :: bool
  run_error :: "err option"
  run_summary :: string
  cancelled :: bool
  stopping :: bool

record 'w service =
  machine :: "'w machine"
  active :: "(string \<times> run) list"
  closed :: bool

type_synonym ('w, 'a) vact = "('w service, err, 'a) act"

definition within :: "('w, 'a) mact \<Rightarrow> ('w, 'a) vact" where
  "within f = (\<lambda>s. case f (machine s) of (x, m) \<Rightarrow> (x, s\<lparr>machine := m\<rparr>))"

definition find_run :: "string \<Rightarrow> 'w service \<Rightarrow> run option" where
  "find_run i s = map_of (active s) i"

definition set_run :: "string \<Rightarrow> run \<Rightarrow> ('w, unit) vact" where
  "set_run i r = (\<lambda>s. (Inr (), s\<lparr>active := (i, r) # filter (\<lambda>(j, _). j \<noteq> i) (active s)\<rparr>))"

definition drop_run :: "string \<Rightarrow> ('w, unit) vact" where
  "drop_run i = (\<lambda>s. (Inr (), s\<lparr>active := filter (\<lambda>(j, _). j \<noteq> i) (active s)\<rparr>))"

definition RuntimeVersion_now :: string where
  "RuntimeVersion_now = ''deep-v1''"

definition checkpointID :: "task \<Rightarrow> string" where
  "checkpointID t = RuntimeVersion_now @ '':'' @ task_ID t"

definition prepareVersion :: "task \<Rightarrow> err + unit" where
  "prepareVersion t =
     (if RuntimeVersion t = RuntimeVersion_now then Inr ()
      else if RuntimeVersion t \<noteq> [] then Inl (Msg ''unsupported runtime version'')
      else Inl (Msg ''the conversation has to be upgraded; resume it''))"

definition eight_hours :: time where
  "eight_hours = 8 * 3600 * 1000000000"

subsection \<open>New tasks\<close>

text \<open>The digests of the hosts as they are configured now.\<close>

fun identify :: "string list \<Rightarrow> (string \<times> string) list \<Rightarrow> ('w, (string \<times> string) list) mact" where
  "identify [] m = ret m"
| "identify (i # is) m = andThen (on_db (Host i)) (\<lambda>h. identify is (map_set i (Digest_host h) m))"

definition canonical_roots :: "string list \<Rightarrow> ('w, string list) mact" where
  "canonical_roots roots = andThen (asks (\<lambda>m. CanonicalRoots (files m) roots)) (\<lambda>x. outcome (as_msg x))"

definition new_task :: "string \<Rightarrow> string \<Rightarrow> string \<Rightarrow> string list \<Rightarrow> string list \<Rightarrow> string list \<Rightarrow> string list \<Rightarrow> ('w, task) mact" where
  "new_task mode goal profile roots hosts ops resources =
     andThen (on_db NewID) (\<lambda>i.
     andThen (on_db Now) (\<lambda>created.
     andThen (on_db NewID) (\<lambda>g.
     andThen (on_db Now) (\<lambda>now.
     andThen (identify hosts []) (\<lambda>ids.
       let t = \<lparr>RuntimeVersion = RuntimeVersion_now, Mode = mode, task_ID = i, Goal = goal, ProfileID = profile,
                Grant = \<lparr>LocalRoots = roots, grant_ID = g, HostIDs = hosts, Identities = ids, Operations = ops,
                         Resources = resources, ExpiresAt = now + eight_hours\<rparr>,
                Status = ''ready'', CreatedAt = created, Summary = [], Updates = []\<rparr>
       in andThen (on_db (Put ''tasks'' i (TaskDoc t))) (\<lambda>_. ret t))))))"

definition NewTask :: "string \<Rightarrow> string \<Rightarrow> string list \<Rightarrow> string list \<Rightarrow> string list \<Rightarrow> string list \<Rightarrow> ('w, task) mact" where
  "NewTask goal profile hosts ops resources local_roots =
     (if TrimSpace goal = [] \<or> hosts = [] then throw (Msg ''choose a server and fill in the goal'')
      else andThen (canonical_roots local_roots) (\<lambda>roots. new_task [] goal profile roots hosts ops resources))"

definition conversation_operations :: "string list" where
  "conversation_operations = [''observe'', ''service_status'', ''logs'', ''terminal_connect'', ''terminal_read'']"

definition NewConversation :: "string \<Rightarrow> string list \<Rightarrow> string list \<Rightarrow> ('w, task) mact" where
  "NewConversation profile hosts local_roots =
     andThen (on_db (Load as_model ''models'' profile)) (\<lambda>_.
     andThen (canonical_roots local_roots) (\<lambda>roots.
       new_task ''conversation'' ''work with the user'' profile roots hosts conversation_operations []))"

subsection \<open>Starting a run\<close>

definition load_task :: "string \<Rightarrow> ('w, task) mact" where
  "load_task i = on_db (Load as_task ''tasks'' i)"

definition load_history :: "string \<Rightarrow> ('w, message list) mact" where
  "load_history i = andThen (attempt (on_db (Load as_history ''history'' i))) (\<lambda>x.
     case x of Inr h \<Rightarrow> ret h | Inl e \<Rightarrow> if e = NoRows then ret [] else throw e)"

text \<open>\<open>factory\<close> makes the model of a profile.\<close>

definition prepare_run :: "(model_profile \<Rightarrow> ('w, unit) mact) \<Rightarrow> string \<Rightarrow> ('w, task \<times> message list) mact" where
  "prepare_run factory i =
     andThen (load_task i) (\<lambda>t.
       case prepareVersion t of
         Inl e \<Rightarrow> throw e
       | Inr _ \<Rightarrow>
           andThen (on_db Now) (\<lambda>now.
             if \<not> now < ExpiresAt (Grant t) then throw (Msg ''confirm the scope of the task and resume it'')
             else andThen (on_db (Load as_model ''models'' (ProfileID t))) (\<lambda>p.
                  andThen (factory p) (\<lambda>_.
                  andThen (load_history i) (\<lambda>h.
                    let repaired = (if Status t \<in> {''failed'', ''interrupted'', ''blocked''} then completeInterruptedToolCalls h else h)
                    in andThen (on_db (Put ''tasks'' i (TaskDoc (t\<lparr>Status := ''running''\<rparr>)))) (\<lambda>_.
                         ret (t\<lparr>Status := ''running''\<rparr>, repaired)))))))"

definition start :: "(model_profile \<Rightarrow> ('w, unit) mact) \<Rightarrow> string \<Rightarrow> input \<Rightarrow> ('w, unit) vact" where
  "start factory i x =
     (\<lambda>s. if closed s then (Inl (Msg ''the application is closing''), s)
          else if find_run i s \<noteq> None then (Inl (Msg ''the task is still running''), s)
          else andThen (within (prepare_run factory i)) (\<lambda>(t, h).
                 set_run i \<lparr>run_task = t, inbox = [x], history = h, pending = False, run_error = None, run_summary = [],
                            cancelled = False, stopping = False\<rparr>) s)"

subsection \<open>What the user does\<close>

text \<open>\<open>accepts\<close> says whether the loop of a run still takes a message; a loop that was told to stop may not.\<close>

definition Submit :: "(run \<Rightarrow> bool) \<Rightarrow> (model_profile \<Rightarrow> ('w, unit) mact) \<Rightarrow> string \<Rightarrow> string \<Rightarrow> ('w, unit) vact" where
  "Submit accepts factory i words =
     (\<lambda>s. case find_run i s of
        Some r \<Rightarrow>
          if \<not> accepts r then (Inl (Msg ''the task is stopping''), s)
          else set_run i (r\<lparr>inbox := inbox r @ [\<lparr>in_Text = words, in_ApprovalID = []\<rparr>]\<rparr>) s
      | None \<Rightarrow>
          andThen (within (load_task i)) (\<lambda>t.
          andThen (if Status t = ''awaiting_approval'' \<or> Status t = ''interrupted''
                   then within (on_db (Put ''tasks'' i (TaskDoc (t\<lparr>Updates := Updates t @ [words]\<rparr>)))) else ret ()) (\<lambda>_.
            start factory i \<lparr>in_Text = words, in_ApprovalID = []\<rparr>)) s)"

text \<open>The files of a message, resolved and without repetitions.\<close>

fun resolve_all :: "string list \<Rightarrow> string list \<Rightarrow> ('w, string list) mact" where
  "resolve_all seen [] = ret seen"
| "resolve_all seen (p # ps) =
     andThen (asks (\<lambda>m. ResolveReference (files m) p)) (\<lambda>x.
       case x of Inl e \<Rightarrow> throw (Msg e)
       | Inr real \<Rightarrow> resolve_all (if real \<in> set seen then seen else seen @ [real]) ps)"

definition attach :: "string \<Rightarrow> string \<Rightarrow> string \<Rightarrow> ('w, unit) mact" where
  "attach i g p = on_db (Put (''local_inputs:'' @ i) (Digest_string p) (AttachmentDoc \<lparr>at_Path = p, at_GrantID = g\<rparr>))"

definition SubmitFiles :: "(run \<Rightarrow> bool) \<Rightarrow> (model_profile \<Rightarrow> ('w, unit) mact) \<Rightarrow> string \<Rightarrow> string \<Rightarrow> string list \<Rightarrow> ('w, unit) vact" where
  "SubmitFiles accepts factory i words paths =
     (if paths = [] then Submit accepts factory i words
      else andThen (within (load_task i)) (\<lambda>t.
           andThen (within (on_db Now)) (\<lambda>now.
             if \<not> now < ExpiresAt (Grant t) then throw (Msg ''confirm the scope of the task and resume it'')
             else andThen (within (resolve_all [] paths)) (\<lambda>real.
                  andThen (within (forEach (attach i (grant_ID (Grant t))) real)) (\<lambda>_.
                    Submit accepts factory i (words @ newline @ newline @ ''attached local files:''
                      @ concat (map (\<lambda>p. newline @ ''- '' @ p) real)))))))"

definition resume_words :: string where
  "resume_words = ''continue; check the state first and do not repeat finished changes''"

definition renewed :: "task \<Rightarrow> string \<Rightarrow> time \<Rightarrow> (string \<times> string) list \<Rightarrow> task" where
  "renewed t g now ids = t\<lparr>
     Status := (if RuntimeVersion t \<noteq> RuntimeVersion_now then ''interrupted'' else Status t),
     RuntimeVersion := RuntimeVersion_now,
     Grant := (Grant t)\<lparr>grant_ID := g, ExpiresAt := now + eight_hours, Identities := ids\<rparr>\<rparr>"

definition renew :: "string \<Rightarrow> ('w, unit) mact" where
  "renew i =
     andThen (load_task i) (\<lambda>t.
     andThen (on_db (Results i)) (\<lambda>rs.
       if list_ex unsettled rs then throw (Msg ''an execution is not confirmed; use a new task'')
       else andThen (on_db NewID) (\<lambda>g.
            andThen (on_db Now) (\<lambda>now.
            andThen (identify (HostIDs (Grant t)) (Identities (Grant t))) (\<lambda>ids.
              on_db (Put ''tasks'' i (TaskDoc (renewed t g now ids))))))))"

definition Resume :: "(model_profile \<Rightarrow> ('w, unit) mact) \<Rightarrow> string \<Rightarrow> ('w, unit) vact" where
  "Resume factory i =
     andThen (within (renew i)) (\<lambda>_. start factory i \<lparr>in_Text = resume_words, in_ApprovalID = []\<rparr>)"

definition decide_record :: "string \<Rightarrow> string \<Rightarrow> bool \<Rightarrow> ('w, unit) mact" where
  "decide_record i approval accept =
     andThen (on_db (Load as_approval ''approvals'' approval)) (\<lambda>a.
       if TaskID (ap_Request a) \<noteq> i then throw (Msg ''the approval is not of this task'')
       else andThen (load_task i) (\<lambda>t.
            if RuntimeVersion t \<noteq> RuntimeVersion_now \<or> ap_GrantID a \<noteq> grant_ID (Grant t) then throw (Msg ''the grant is no longer valid'')
            else andThen (on_db Now) (\<lambda>now.
              if \<not> now < ExpiresAt (Grant t) then throw (Msg ''the grant is no longer valid'')
              else andThen (on_db (Put ''approvals'' approval (ApprovalDoc (a\<lparr>Approved := accept, Decided := True\<rparr>)))) (\<lambda>_.
                   log_event i ''approval_decision'' (approval @ '' approved='' @ (if accept then ''true'' else ''false''))))))"

definition Decide :: "(model_profile \<Rightarrow> ('w, unit) mact) \<Rightarrow> string \<Rightarrow> string \<Rightarrow> bool \<Rightarrow> ('w, unit) vact" where
  "Decide factory i approval accept =
     andThen (within (decide_record i approval accept)) (\<lambda>_. start factory i \<lparr>in_Text = [], in_ApprovalID = approval\<rparr>)"

definition interrupt_waiting :: "string \<Rightarrow> ('w, unit) mact" where
  "interrupt_waiting i =
     andThen (attempt (load_task i)) (\<lambda>x. case x of
         Inr t \<Rightarrow>
           if Status t = ''awaiting_approval'' \<or> Status t = ''ready''
           then andThen (attempt (on_db (Put ''tasks'' i (TaskDoc (t\<lparr>Status := ''interrupted'', Grant := (Grant t)\<lparr>ExpiresAt := 0\<rparr>\<rparr>))))) (\<lambda>_.
                andThen (attempt (log_event i ''task_state'' ''interrupted'')) (\<lambda>_. ret ()))
           else ret ()
       | Inl _ \<Rightarrow> ret ())"

definition stop_run :: "run \<Rightarrow> run" where
  "stop_run r = r\<lparr>cancelled := True, stopping := True\<rparr>"

definition Cancel_task :: "string \<Rightarrow> ('w, unit) vact" where
  "Cancel_task i = (\<lambda>s. case find_run i s of
       Some r \<Rightarrow> set_run i (stop_run r) s
     | None \<Rightarrow> within (interrupt_waiting i) s)"

definition Stop :: "('w, unit) vact" where
  "Stop = (\<lambda>s. (Inr (), s\<lparr>closed := True, active := map (\<lambda>(i, r). (i, stop_run r)) (active s)\<rparr>))"

subsection \<open>What the loop calls\<close>

text \<open>
  An operation on a run: on the machine and on the run of a task.  A message that is appended stays
  in the history even when it cannot be saved.
\<close>

type_synonym ('w, 'a) ract = "('w machine \<times> run, err, 'a) act"

definition below :: "('w, 'a) mact \<Rightarrow> ('w, 'a) ract" where
  "below f = (\<lambda>(m, r). case f m of (x, m1) \<Rightarrow> (x, (m1, r)))"

definition change :: "(run \<Rightarrow> run) \<Rightarrow> ('w, unit) ract" where
  "change f = (\<lambda>(m, r). (Inr (), (m, f r)))"

definition save_history :: "string \<Rightarrow> ('w, unit) ract" where
  "save_history i = (\<lambda>(m, r). below (on_db (Put ''history'' i (HistoryDoc (history r)))) (m, r))"

definition append_history :: "string \<Rightarrow> message \<Rightarrow> ('w, unit) ract" where
  "append_history i msg = andThen (change (\<lambda>r. r\<lparr>history := history r @ [msg]\<rparr>)) (\<lambda>_. save_history i)"

definition user_message :: "string \<Rightarrow> message" where
  "user_message words = \<lparr>m_Role = ''user'', m_Content = words, m_ToolCallID = [], m_ToolCalls = []\<rparr>"

definition take_input :: "string \<Rightarrow> input \<Rightarrow> ('w, unit) ract" where
  "take_input i x =
     (if in_Text x = [] then ret ()
      else andThen (append_history i (user_message (in_Text x))) (\<lambda>_. below (log_event i ''user'' (in_Text x))))"

fun as_plan :: "doc \<Rightarrow> (string \<times> string) list option" where "as_plan (PlanDoc x) = Some x" | "as_plan _ = None"

text \<open>The todo list and the messages a turn starts with.\<close>

definition gen_input :: "string \<Rightarrow> input list \<Rightarrow> ('w, (string \<times> string) list \<times> message list) ract" where
  "gen_input i items =
     andThen (forEach (take_input i) items) (\<lambda>_.
     andThen (attempt (below (on_db (Load as_plan ''plans'' i)))) (\<lambda>x.
       case x of
         Inl e \<Rightarrow> if e = NoRows then (\<lambda>(m, r). (Inr ([], history r), (m, r))) else throw e
       | Inr todos \<Rightarrow> (\<lambda>(m, r). (Inr (todos, history r), (m, r)))))"

text \<open>The decisions that go back to the interrupted calls: the interrupt and whether it was approved.\<close>

fun gen_resume :: "input list \<Rightarrow> ('w, (string \<times> bool) list) mact" where
  "gen_resume [] = ret []"
| "gen_resume (x # xs) =
     (if in_ApprovalID x = [] then gen_resume xs
      else andThen (on_db (Load as_approval ''approvals'' (in_ApprovalID x))) (\<lambda>a.
           andThen (gen_resume xs) (\<lambda>ts. ret ((InterruptID a, Approved a) # ts))))"

text \<open>
  An event of the agent library.  A stream ends with an error or with the end of the file, and the
  library puts its chunks together; \<open>Missing\<close> is an output without a message.
\<close>

datatype agent_output =
    Missing
  | Whole message
  | Streamed string "message list" "err option"

record agent_event =
  ae_cancelled :: bool
  ae_error :: "err option"
  ae_interrupts :: "(string \<times> approval option) list option"
  ae_agent :: string
  ae_output :: "agent_output option"

definition no_reply :: err where
  "no_reply = Blocked ''the model gave no valid reply''"

definition fail_run :: "err \<Rightarrow> ('w, 'a) ract" where
  "fail_run e = andThen (change (\<lambda>r. r\<lparr>run_error := Some e\<rparr>)) (\<lambda>_. throw e)"

definition ask_approval :: "string \<Rightarrow> string \<times> approval option \<Rightarrow> ('w, unit) mact" where
  "ask_approval i p =
     (case p of (point, None) \<Rightarrow> ret ()
      | (point, Some a) \<Rightarrow>
          andThen (on_db (Put ''approvals'' (ap_Digest a) (ApprovalDoc (a\<lparr>InterruptID := point\<rparr>)))) (\<lambda>_.
            log_event i ''approval_required'' (ap_Digest a)))"

text \<open>The chunks of a stream, whose role is the last one given.\<close>

fun read_stream :: "string \<Rightarrow> string \<Rightarrow> message list \<Rightarrow> err option \<Rightarrow> ('w, unit) ract" where
  "read_stream i role [] end = (\<lambda>(m, r).
     case end of
       None \<Rightarrow> (Inr (), (m, r))
     | Some e \<Rightarrow> fail_run (if role = ''assistant'' \<and> \<not> cancelled r then Blocked ''the reply broke off; it is not repeated'' else e) (m, r))"
| "read_stream i role (c # cs) end =
     (let role1 = (if m_Role c \<noteq> [] then m_Role c else role)
      in andThen (if role1 = ''assistant'' \<and> m_Content c \<noteq> [] then below (log_event i ''assistant_delta'' (m_Content c)) else ret ()) (\<lambda>_.
           read_stream i role1 cs end))"

definition take_message :: "string \<Rightarrow> bool \<Rightarrow> message \<Rightarrow> ('w, bool) ract" where
  "take_message i streaming msg =
     (if m_Role msg = ''assistant'' \<and> TrimSpace (m_Content msg) = [] \<and> m_ToolCalls msg = [] then fail_run no_reply
      else andThen (append_history i msg) (\<lambda>_.
           andThen (if m_Role msg = ''assistant'' \<and> m_Content msg \<noteq> []
                    then andThen (change (\<lambda>r. r\<lparr>run_summary := m_Content msg\<rparr>)) (\<lambda>_.
                         if streaming then ret () else below (log_event i ''assistant'' (m_Content msg)))
                    else ret ()) (\<lambda>_.
             ret (m_Role msg = ''assistant''))))"

text \<open>The output of an event; the result says whether the main agent has spoken.\<close>

definition take_output :: "(message list \<Rightarrow> err + message option) \<Rightarrow> string \<Rightarrow> string \<Rightarrow> agent_output \<Rightarrow> ('w, bool) ract" where
  "take_output concat_messages i agent out =
     (if agent \<noteq> [] \<and> agent \<noteq> ''operator''
      then (case out of
              Streamed _ cs end \<Rightarrow>
                (case end of Some e \<Rightarrow> throw e
                 | None \<Rightarrow> (case concat_messages cs of Inl e \<Rightarrow> throw e | Inr _ \<Rightarrow> ret False))
            | _ \<Rightarrow> ret False)
      else (case out of
              Missing \<Rightarrow> ret False
            | Whole msg \<Rightarrow> take_message i False msg
            | Streamed role cs end \<Rightarrow>
                andThen (read_stream i role cs end) (\<lambda>_.
                  case concat_messages cs of
                    Inl e \<Rightarrow> throw e
                  | Inr None \<Rightarrow> ret False
                  | Inr (Some msg) \<Rightarrow> take_message i True msg)))"

fun consume :: "(message list \<Rightarrow> err + message option) \<Rightarrow> string \<Rightarrow> bool \<Rightarrow> agent_event list \<Rightarrow> ('w, unit) ract" where
  "consume concat_messages i spoken [] = (\<lambda>(m, r).
     if \<not> pending r \<and> \<not> spoken then fail_run no_reply (m, r)
     else if \<not> pending r then change (\<lambda>r. r\<lparr>stopping := True\<rparr>) (m, r)
     else (Inr (), (m, r)))"
| "consume concat_messages i spoken (e # es) =
     (if ae_cancelled e then consume concat_messages i spoken es
      else (case ae_error e of
        Some x \<Rightarrow> fail_run x
      | None \<Rightarrow>
          andThen (case ae_interrupts e of
                     None \<Rightarrow> ret ()
                   | Some ps \<Rightarrow> andThen (change (\<lambda>r. r\<lparr>pending := True\<rparr>)) (\<lambda>_. below (forEach (ask_approval i) ps))) (\<lambda>_.
          andThen (case ae_output e of None \<Rightarrow> ret False | Some out \<Rightarrow> take_output concat_messages i (ae_agent e) out) (\<lambda>spoke.
            consume concat_messages i (spoken \<or> spoke) es))))"

definition consumeEvents :: "(message list \<Rightarrow> err + message option) \<Rightarrow> string \<Rightarrow> agent_event list \<Rightarrow> ('w, unit) ract" where
  "consumeEvents concat_messages i es = consume concat_messages i False es"

subsection \<open>The end of a run\<close>

definition blocked_text :: "err option \<Rightarrow> string option" where
  "blocked_text e = (case e of Some (Blocked x) \<Rightarrow> Some x | _ \<Rightarrow> None)"

text \<open>
  Status and summary a run ends with, where \<open>exit\<close> is the exit reason of the loop, and \<open>operated\<close> and
  \<open>verified\<close> what \<open>hasOperations\<close> and \<open>allVerified\<close> give when they are asked.
\<close>

definition exit_status :: "run \<Rightarrow> err option \<Rightarrow> bool \<Rightarrow> bool \<Rightarrow> string \<times> string" where
  "exit_status r exit operated verified =
     (if pending r then (''awaiting_approval'', run_summary r)
      else if cancelled r then (''interrupted'', run_summary r)
      else case (blocked_text (run_error r), blocked_text exit) of
        (Some x, _) \<Rightarrow> (''blocked'', x)
      | (None, Some x) \<Rightarrow> (''blocked'', x)
      | (None, None) \<Rightarrow>
          (case (run_error r, exit) of
             (Some e, _) \<Rightarrow> (''failed'', err_text e)
           | (None, Some e) \<Rightarrow> (''interrupted'', err_text e)
           | (None, None) \<Rightarrow>
               (if Mode (run_task r) = ''conversation'' \<and> \<not> operated then ''ready''
                else if verified then ''completed'' else ''needs_verification'', run_summary r)))"

definition needs_answer :: "run \<Rightarrow> err option \<Rightarrow> bool" where
  "needs_answer r exit \<longleftrightarrow> \<not> pending r \<and> \<not> cancelled r \<and> run_error r = None \<and> exit = None"

definition end_status :: "string \<Rightarrow> run \<Rightarrow> err option \<Rightarrow> store \<Rightarrow> (string \<times> string) \<times> store" where
  "end_status i r exit s =
     (if \<not> needs_answer r exit then (exit_status r exit False False, s)
      else (let (operated, s1) = (if Mode (run_task r) = ''conversation'' then hasOperations i s else (True, s));
                (verified, s2) = (if Mode (run_task r) = ''conversation'' \<and> \<not> operated then (False, s1) else allVerified i s1)
            in (exit_status r exit operated verified, s2)))"

definition end_run :: "string \<Rightarrow> run \<Rightarrow> err option \<Rightarrow> ('w, unit) mact" where
  "end_run i r exit =
     andThen (on_db (\<lambda>s. case end_status i r exit s of (x, s1) \<Rightarrow> (Inr x, s1))) (\<lambda>(status, words).
     andThen (attempt (on_db (Put ''tasks'' i (TaskDoc ((run_task r)\<lparr>Status := status, Summary := words\<rparr>))))) (\<lambda>_.
     andThen (attempt (log_event i ''task_state'' status)) (\<lambda>_. ret ())))"

definition finish_run :: "string \<Rightarrow> err option \<Rightarrow> ('w, unit) vact" where
  "finish_run i exit = (\<lambda>s. case find_run i s of
       None \<Rightarrow> (Inr (), s)
     | Some r \<Rightarrow> andThen (within (end_run i r exit)) (\<lambda>_. drop_run i) s)"

text \<open>The operations of the loop on the run of a task.\<close>

definition on_run :: "string \<Rightarrow> ('w, 'a) ract \<Rightarrow> ('w, 'a) vact" where
  "on_run i f = (\<lambda>s. case find_run i s of
       None \<Rightarrow> (Inl Panic, s)
     | Some r \<Rightarrow> (case f (machine s, r) of (x, (m, r1)) \<Rightarrow>
                    (x, s\<lparr>machine := m, active := (i, r1) # filter (\<lambda>(j, _). j \<noteq> i) (active s)\<rparr>)))"

end
