(* ===== verification/ServiceSafe.thy ===== *)
theory ServiceSafe
  imports Service
begin

text \<open>
  What the service guarantees: an approval is decided only while its grant is the task's, a resumed
  task has none of its old approvals, a task is completed only when its servers were checked, and
  there is one run per task and none that was not cancelled after the application began to close.
\<close>

subsection \<open>Deciding\<close>

lemma within_db [simp]: "snd (on_db f m) = m\<lparr>db := snd (f (db m))\<rparr>"
  by (simp add: on_db_eq)

lemma looked_load_task: "keeps looked (load_task i)"
  unfolding load_task_def by (intro looked_rules)

lemma looked_find: "looked m m' \<Longrightarrow> find_doc kind i (db m') = find_doc kind i (db m)"
  by (simp add: looked_def same_records_find)

lemma load_task_Inr: "load_task i m = (Inr t, m') \<Longrightarrow> find_doc ''tasks'' i (db m) = Some (TaskDoc t)"
  unfolding load_task_def using Load_found [of as_task "''tasks''" i "db m" t "db m'"] on_db_result by fastforce

lemma log_event_find [simp]: "find_doc kind j (db (snd (log_event i what content m))) = find_doc kind j (db m)"
proof -
  have "documents (db (snd (log_event i what content m))) = documents (db m)"
    using documents_Event [of i what content "db m"]
    by (cases "Event i what content (db m)") (auto simp: log_event_def andThen_def on_db_def ret_def split: sum.split)
  then show ?thesis by (rule find_doc_cong)
qed

lemma Put_find:
  "find_doc k j (snd (Put kind i d s)) = find_doc k j s \<or> k = kind \<and> j = i \<and> find_doc k j (snd (Put kind i d s)) = Some d"
  using Put_documents [of kind i d s "fst (Put kind i d s)" "snd (Put kind i d s)"] find_doc_put [of k j kind i d s]
    find_doc_cong [of "snd (Put kind i d s)" "put_doc kind i d s" k j] find_doc_cong [of "snd (Put kind i d s)" s k j]
  by (auto split: if_splits)


subsection \<open>Resuming\<close>

lemma looked_identify: "keeps looked (identify is ids)"
  by (induction "is" arbitrary: ids) (auto intro!: looked_rules looked_Host)

lemma not_approved:
  "\<forall>k a. find_doc ''approvals'' k s = Some (ApprovalDoc a) \<longrightarrow> ap_GrantID a \<noteq> grant_ID (Grant t) \<Longrightarrow> \<not> approved_in s t r"
  by (auto simp: approved_in_def ApprovedFor_def split: option.splits doc.splits)

lemma not_attached:
  "\<forall>k a. find_doc (''local_inputs:'' @ task_ID t) k s = Some (AttachmentDoc a) \<longrightarrow> at_GrantID a \<noteq> grant_ID (Grant t) \<Longrightarrow>
     \<not> attached_in s t p"
  by (auto simp: attached_in_def split: option.splits doc.splits)

lemma renew_Inr:
  assumes "renew i m = (Inr u, m')" and "fresh (db m) = g # later"
  obtains t ids now where "find_doc ''tasks'' i (db m) = Some (TaskDoc t)" "\<not> list_ex unsettled (results_of i (db m))"
    "\<forall>k j. find_doc k j (db m') = (if k = ''tasks'' \<and> j = i then Some (TaskDoc (renewed t g now ids)) else find_doc k j (db m))"
proof -
  from assms(1) [unfolded renew_def] obtain t m1 rs m2 where t: "load_task i m = (Inr t, m1)"
    and rs: "on_db (Results i) m1 = (Inr rs, m2)"
    and rest: "(if list_ex unsettled rs then throw (Msg ''an execution is not confirmed; use a new task'')
       else andThen (on_db NewID) (\<lambda>g.
            andThen (on_db Now) (\<lambda>now.
            andThen (identify (HostIDs (Grant t)) (Identities (Grant t))) (\<lambda>ids.
              on_db (Put ''tasks'' i (TaskDoc (renewed t g now ids))))))) m2 = (Inr u, m')"
    by (elim andThen_Inr)
  have l1: "looked m m1" by (rule looking.keepsD [OF looked_load_task t])
  have "keeps looked (on_db (Results i))" by (rule looked_db [OF records_Results])
  then have l2: "looked m m2" using looking.keepsD rs l1 looking.trans by blast
  have "rs = results_of i (db m1)"
    using on_db_result [OF rs] by (auto simp: Results_def andThen_def results_of_def dest!: statement_same split: prod.splits sum.splits)
  then have rs_eq: "rs = results_of i (db m)" using l1 by (simp add: looked_def same_records_results)
  from rest have settled: "\<not> list_ex unsettled rs" by (auto split: if_splits)
  from rest settled obtain g' m3 now m4 ids m5 where g: "on_db NewID m2 = (Inr g', m3)" and now: "on_db Now m3 = (Inr now, m4)"
    and ids: "identify (HostIDs (Grant t)) (Identities (Grant t)) m4 = (Inr ids, m5)"
    and put: "on_db (Put ''tasks'' i (TaskDoc (renewed t g' now ids))) m5 = (Inr u, m')"
    by (auto elim!: andThen_Inr)
  have "g' = g" using on_db_result [OF g] assms(2) l2 by (auto simp: NewID_def looked_def same_records_def)
  moreover have "documents (db m3) = documents (db m2)"
    using documents_kept.keepsD [OF documents_kept.NewID_kept on_db_result [OF g]] by (simp add: same_documents_def)
  moreover have "documents (db m4) = documents (db m3)" using on_db_result [OF now] by (auto dest: Now_same)
  moreover have "documents (db m5) = documents (db m4)"
    using looking.keepsD [OF looked_identify ids] by (simp add: looked_def same_records_def)
  ultimately have docs: "g' = g" "documents (db m5) = documents (db m)" using l2 by (auto simp: looked_def same_records_def)
  let ?t = "renewed t g now ids"
  have "documents (db m') = documents (put_doc ''tasks'' i (TaskDoc ?t) (db m5))"
    using Put_Inr [OF on_db_result [OF put]] docs(1) by simp
  then have "find_doc k j (db m') = find_doc k j (put_doc ''tasks'' i (TaskDoc ?t) (db m5))" for k j
    by (rule find_doc_cong)
  moreover have "find_doc k j (db m5) = find_doc k j (db m)" for k j by (rule find_doc_cong [OF docs(2)])
  ultimately show thesis
    using that [of t now ids] load_task_Inr [OF t] settled rs_eq by (simp add: find_doc_put)
qed


subsection \<open>Completing\<close>

lemma exit_completed:
  assumes "fst (exit_status r exit operated verified) = ''completed''"
  shows "needs_answer r exit \<and> verified"
  using assms by (auto simp: exit_status_def needs_answer_def split: if_splits option.splits)

lemma end_status_completed:
  assumes "fst (fst (end_status i r exit s)) = ''completed''"
  obtains s1 s2 where "needs_answer r exit" "same_records s s1" "allVerified i s1 = (True, s2)"
proof -
  have n: "needs_answer r exit"
    using assms exit_completed [of r exit False False] by (cases "needs_answer r exit") (auto simp: end_status_def)
  define p where "p = (if Mode (run_task r) = ''conversation'' then hasOperations i s else (True, s))"
  obtain operated s1 where p: "p = (operated, s1)" by fastforce
  have same: "same_records s s1"
  proof (cases "Mode (run_task r) = ''conversation''")
    case True
    with p have "hasOperations i s = (operated, s1)" by (simp add: p_def)
    moreover obtain x s2 where x: "Results i s = (x, s2)" by fastforce
    ultimately have "s1 = s2" by (auto simp: hasOperations_def split: sum.splits)
    with records.keepsD [OF records_Results x] show ?thesis by simp
  qed (use p in \<open>simp add: p_def records.refl\<close>)
  define q where "q = (if Mode (run_task r) = ''conversation'' \<and> \<not> operated then (False, s1) else allVerified i s1)"
  obtain verified s2 where q: "q = (verified, s2)" by fastforce
  have "end_status i r exit s = (exit_status r exit operated verified, s2)"
    using n p q by (simp add: end_status_def p_def [symmetric] q_def [symmetric])
  with assms exit_completed [of r exit operated verified] have "verified" by simp
  with q have "allVerified i s1 = (True, s2)" by (auto simp: q_def split: if_splits)
  with n same show thesis by (rule that)
qed

text \<open>
  C26: A task is completed only when the last thing done on every one of its servers is a successful
  check.  If a run ends as \<open>completed\<close> after any sequence of tool calls, records, crashes and
  recoveries from a state without verifications of the task, then nothing is waiting for an
  approval, the run was not cancelled and ended without an error, no remote execution of the task
  has an unknown outcome, and the last one on each server is a successful read-only execution, not
  of a terminal, whose output contains the nonempty text that was expected of it.
\<close>

theorem completed_only_when_checked:
  assumes "executions_ok (db m)" and "\<forall>h. find_doc (verification_kind task) h (db m) = None"
    and "tool_run R m m'" and "fst (fst (end_status task r exit (db m'))) = ''completed''"
  shows "\<not> pending r \<and> \<not> cancelled r \<and> run_error r = None \<and> exit = None
     \<and> (\<exists>q \<in> set (results_of task (db m')). \<not> local_result q)
     \<and> (\<forall>q \<in> set (results_of task (db m')). \<not> local_result q \<longrightarrow> \<not> unsettled q)
     \<and> (\<forall>ys q zs. results_of task (db m') = ys @ q # zs \<and> \<not> local_result q
          \<and> (\<forall>z \<in> set zs. \<not> local_result z \<longrightarrow> HostID (res_Request z) \<noteq> HostID (res_Request q))
          \<longrightarrow> (\<exists>expected. expected \<noteq> [] \<and> Contains (Output q) expected \<and> res_Status q = ''succeeded''
                \<and> \<not> Mutates (Operation (res_Request q)) \<and> \<not> HasPrefix (Operation (res_Request q)) ''terminal_''))"
proof -
  from assms(4) obtain s1 s2 where e: "needs_answer r exit" "same_records (db m') s1" "allVerified task s1 = (True, s2)"
    by (rule end_status_completed)
  have ok: "executions_ok (db m')" "backed task (db m')"
    using tool_run_backed [OF assms(3,1), of task] assms(2) by (auto simp: backed_def)
  have "evidence_stays (db m') s1" using e(2) by (intro evidence.looking_kept) (auto simp: same_records_def)
  then have ok1: "executions_ok s1" "backed task s1"
    using ok backed_stays by (auto simp: evidence_stays_def)
  from verified_is_checked [OF ok1 e(3)] e(1) same_records_results [OF e(2)] show ?thesis
    unfolding needs_answer_def by simp
qed

subsection \<open>One run per task\<close>

text \<open>
  Everything that happens to the service: what the user does, what the loops and the tools do, in
  any order, with any arguments and any library.
\<close>

inductive service_run :: "(run \<Rightarrow> bool) \<Rightarrow> (model_profile \<Rightarrow> ('w, unit) mact) \<Rightarrow> (message list \<Rightarrow> err + message option)
    \<Rightarrow> 'w outside \<Rightarrow> 'w service \<Rightarrow> 'w service \<Rightarrow> bool" for accepts factory cm R s where
  begun: "service_run accepts factory cm R s s"
| submitted: "service_run accepts factory cm R s u \<Longrightarrow> service_run accepts factory cm R s (snd (SubmitFiles accepts factory i words paths u))"
| resumed: "service_run accepts factory cm R s u \<Longrightarrow> service_run accepts factory cm R s (snd (Resume factory i u))"
| decided: "service_run accepts factory cm R s u \<Longrightarrow> service_run accepts factory cm R s (snd (Decide factory i approval accept u))"
| cancelled: "service_run accepts factory cm R s u \<Longrightarrow> service_run accepts factory cm R s (snd (Cancel_task i u))"
| stopped: "service_run accepts factory cm R s u \<Longrightarrow> service_run accepts factory cm R s (snd (Stop u))"
| turn: "service_run accepts factory cm R s u \<Longrightarrow> service_run accepts factory cm R s (snd (on_run i (gen_input i items) u))"
| answered: "service_run accepts factory cm R s u \<Longrightarrow> service_run accepts factory cm R s (snd (within (gen_resume items) u))"
| events: "service_run accepts factory cm R s u \<Longrightarrow> service_run accepts factory cm R s (snd (on_run i (consumeEvents cm i es) u))"
| executed: "service_run accepts factory cm R s u \<Longrightarrow> service_run accepts factory cm R s (snd (within (executeTool R t r) u))"
| verified: "service_run accepts factory cm R s u \<Longrightarrow> service_run accepts factory cm R s (snd (within (verify_execution t k e expected) u))"
| ended: "service_run accepts factory cm R s u \<Longrightarrow> service_run accepts factory cm R s (snd (finish_run i exit u))"

definition orderly :: "'w service \<Rightarrow> bool" where
  "orderly s \<longleftrightarrow> distinct (map fst (active s)) \<and> (closed s \<longrightarrow> (\<forall>(i, r) \<in> set (active s). cancelled r))"

definition running_tasks :: "'w service \<Rightarrow> string set" where
  "running_tasks s = fst ` set (active s)"

definition orderly_step :: "'w service \<Rightarrow> 'w service \<Rightarrow> bool" where
  "orderly_step s s' \<longleftrightarrow> (orderly s \<longrightarrow> orderly s') \<and> (closed s \<longrightarrow> closed s' \<and> running_tasks s' \<subseteq> running_tasks s)"

interpretation order: preserved orderly_step
  by unfold_locales (auto simp: orderly_step_def)

lemma within_eq [simp]: "snd (within f s) = s\<lparr>machine := snd (f (machine s))\<rparr>"
  by (simp add: within_def split: prod.split)

lemma order_within: "keeps orderly_step (within f)"
  by (simp add: keeps_def within_def orderly_step_def orderly_def running_tasks_def split: prod.split)

lemma distinct_remove: "distinct (map fst xs) \<Longrightarrow> distinct (map fst (filter (\<lambda>(j, _). j \<noteq> i) xs))"
  by (induction xs) auto

lemma replace_run:
  assumes "find_run i s = Some r" "cancelled r \<longrightarrow> cancelled r'"
  shows "orderly_step s (s\<lparr>machine := m, active := (i, r') # filter (\<lambda>(j, _). j \<noteq> i) (active s)\<rparr>)"
proof -
  from assms(1) have r: "(i, r) \<in> set (active s)" by (auto simp: find_run_def dest: map_of_SomeD)
  have "closed s \<Longrightarrow> orderly s \<Longrightarrow> cancelled r'" using r assms(2) by (auto simp: orderly_def)
  with r distinct_remove [of "active s" i] show ?thesis
    by (auto simp: orderly_step_def orderly_def running_tasks_def intro: rev_image_eqI)
qed

lemma order_set_run:
  "find_run i s = Some r \<Longrightarrow> cancelled r \<longrightarrow> cancelled r' \<Longrightarrow> orderly_step s (snd (set_run i r' s))"
  using replace_run [of i s r r' "machine s"] by (simp add: set_run_def)

lemma order_start: "keeps orderly_step (start factory i x)"
proof (rule order.keepsI)
  fix s :: "'a service" and y s'
  assume run: "start factory i x s = (y, s')"
  show "orderly_step s s'"
  proof (cases "closed s \<or> find_run i s \<noteq> None")
    case True
    with run show ?thesis by (auto simp: start_def order.refl split: if_splits)
  next
    case False
    obtain p s1 where p: "within (prepare_run factory i) s = (p, s1)" by fastforce
    then have "s1 = s\<lparr>machine := snd (prepare_run factory i (machine s))\<rparr>" using within_eq [of "prepare_run factory i" s] by simp
    with p False run have "s' = s\<lparr>machine := snd (prepare_run factory i (machine s))\<rparr>
        \<or> (\<exists>r. s' = snd (set_run i r (s\<lparr>machine := snd (prepare_run factory i (machine s))\<rparr>)))"
      by (cases p) (auto simp: start_def andThen_def split: prod.splits, metis snd_conv)
    with False show ?thesis
      by (auto simp: set_run_def orderly_step_def orderly_def intro: distinct_remove)
  qed
qed

lemma order_Submit: "keeps orderly_step (Submit accepts factory i words)"
proof (rule order.keepsI)
  fix s :: "'a service" and y s'
  assume run: "Submit accepts factory i words s = (y, s')"
  show "orderly_step s s'"
  proof (cases "find_run i s")
    case None
    let ?f = "andThen (within (load_task i)) (\<lambda>t.
          andThen (if Status t = ''awaiting_approval'' \<or> Status t = ''interrupted''
                   then within (on_db (Put ''tasks'' i (TaskDoc (t\<lparr>Updates := Updates t @ [words]\<rparr>)))) else ret ()) (\<lambda>_.
            start factory i \<lparr>in_Text = words, in_ApprovalID = []\<rparr>))"
    have "keeps orderly_step ?f" by (intro order.keeps_andThen order.keeps_if order.keeps_ret order_within order_start)
    moreover have "?f s = (y, s')" using run None by (simp add: Submit_def)
    ultimately show ?thesis by (rule order.keepsD)
  next
    case (Some r)
    with run show ?thesis using order_set_run [OF Some, of "r\<lparr>inbox := inbox r @ [\<lparr>in_Text = words, in_ApprovalID = []\<rparr>]\<rparr>"]
      by (auto simp: Submit_def order.refl split: if_splits)
  qed
qed

lemmas order_rules = order.keeps_andThen order.keeps_if order.keeps_ret order.keeps_throw order_within order_start order_Submit

lemma order_Cancel: "orderly_step s (snd (Cancel_task i s))"
  using order_within [of "interrupt_waiting i"] order_set_run [of i s _ "stop_run _"]
  by (auto simp: Cancel_task_def keeps_def stop_run_def split: option.split)

lemma order_Stop: "orderly_step s (snd (Stop s))"
  by (auto simp: Stop_def orderly_step_def orderly_def running_tasks_def comp_def case_prod_unfold stop_run_def image_image)

text \<open>What the loop does to a run leaves it cancelled.\<close>

definition still :: "'w machine \<times> run \<Rightarrow> 'w machine \<times> run \<Rightarrow> bool" where
  "still p p' \<longleftrightarrow> cancelled (snd p') = cancelled (snd p)"

interpretation still: preserved still
  by unfold_locales (auto simp: still_def)

lemma still_below: "keeps still (below f)"
  by (simp add: keeps_def below_def still_def split: prod.split)

lemma still_change: "(\<And>r. cancelled (f r) = cancelled r) \<Longrightarrow> keeps still (change f)"
  by (simp add: keeps_def change_def still_def split: prod.split)

lemmas still_rules = still.keeps_andThen still.keeps_if still.keeps_ret still.keeps_throw still.keeps_attempt still.keeps_forEach
  still_below still_change keeps_sum_case

lemma still_append: "keeps still (append_history i msg)"
  unfolding append_history_def
  by (intro still_rules) (simp_all add: save_history_def keeps_def below_def still_def split: prod.split)

lemma still_fail: "keeps still (fail_run e)"
  unfolding fail_run_def by (intro still_rules) simp

lemma still_gen_input: "keeps still (gen_input i items)"
proof -
  have "keeps still (\<lambda>(m, r). (Inr (x, history r), (m, r)))" for x
    by (simp add: keeps_def still_def split: prod.split)
  moreover have "keeps still (take_input i x)" for x unfolding take_input_def by (intro still_rules still_append)
  ultimately show ?thesis unfolding gen_input_def by (intro still_rules)
qed

lemma still_read_stream: "keeps still (read_stream i role cs end)"
proof (induction cs arbitrary: role)
  case Nil
  show ?case
    by (simp add: keeps_def still_def fail_run_def change_def throw_def andThen_def split: option.split prod.split)
next
  case (Cons c cs)
  then show ?case unfolding read_stream.simps Let_def by (intro still_rules)
qed

lemma still_take_output: "keeps still (take_output cm i agent out)"
proof -
  have msg: "keeps still (take_message i streaming msg)" for streaming msg
    unfolding take_message_def by (intro still_rules still_append still_fail) simp_all
  have "keeps still (case mo of None \<Rightarrow> ret False | Some msg \<Rightarrow> take_message i True msg)" for mo
    by (cases mo) (auto intro: still_rules msg)
  then show ?thesis unfolding take_output_def
    by (cases out) (auto intro!: still_rules msg still_read_stream split: option.split sum.split)
qed

lemma still_consume: "keeps still (consume cm i spoken es)"
proof (induction es arbitrary: spoken)
  case Nil
  show ?case by (simp add: keeps_def still_def fail_run_def change_def throw_def andThen_def split: prod.split)
next
  case (Cons e es)
  have "keeps still (case ae_interrupts e of None \<Rightarrow> ret ()
      | Some ps \<Rightarrow> andThen (change (\<lambda>r. r\<lparr>pending := True\<rparr>)) (\<lambda>_. below (forEach (ask_approval i) ps)))"
    by (cases "ae_interrupts e") (auto intro!: still_rules)
  moreover have "keeps still (case ae_output e of None \<Rightarrow> ret False | Some out \<Rightarrow> take_output cm i (ae_agent e) out)"
    by (cases "ae_output e") (auto intro!: still_rules still_take_output)
  ultimately show ?case
    by (cases "ae_error e") (auto intro!: still_rules still_fail Cons)
qed

lemma order_on_run:
  assumes "keeps still f"
  shows "orderly_step s (snd (on_run i f s))"
proof (cases "find_run i s")
  case (Some r)
  have "still (machine s, r) (snd (f (machine s, r)))" using assms by (simp add: keeps_def)
  then show ?thesis
    using replace_run [OF Some] Some by (auto simp: on_run_def still_def split: prod.split)
qed (simp add: on_run_def order.refl)

lemma order_finish: "orderly_step s (snd (finish_run i exit s))"
proof -
  have "keeps orderly_step (drop_run i)"
    by (auto simp: keeps_def drop_run_def orderly_step_def orderly_def running_tasks_def distinct_remove)
  then have "keeps orderly_step (andThen (within (end_run i r exit)) (\<lambda>_. drop_run i))" for r
    by (intro order_rules)
  then show ?thesis by (auto simp: finish_run_def keeps_def order.refl split: option.split)
qed


subsection \<open>Concrete tasks\<close>

definition demo_tasks :: "served machine" where
  "demo_tasks = (demo_machine [] [])\<lparr>db := (db (demo_machine [] []))
     \<lparr>documents := [((''tasks'', ''t1''), TaskDoc granted_task), ((''hosts'', ''h''), HostDoc demo_host)], fresh := [''g2'']\<rparr>\<rparr>"

definition demo_run :: run where
  "demo_run = \<lparr>run_task = granted_task, inbox = [], history = [], pending = False, run_error = None, run_summary = ''ok'',
     cancelled = False, stopping = True\<rparr>"

lemma demo_renews: "\<exists>m'. renew ''t1'' demo_tasks = (Inr (), m')"
proof -
  have q: "sql (db demo_tasks) = []" "clock (db demo_tasks) = []" "fresh (db demo_tasks) = [''g2'']"
    "notices (db demo_tasks) = changes_init" "executions (db demo_tasks) = []"
    "find_doc ''tasks'' ''t1'' (db demo_tasks) = Some (TaskDoc granted_task)"
    "find_doc ''hosts'' ''h'' (db demo_tasks) = Some (HostDoc demo_host)"
    by (simp_all add: demo_tasks_def demo_machine_def find_doc_def)
  have "HostIDs (Grant granted_task) = [''h'']" by (simp add: granted_task_def)
  then show ?thesis using q
    by (simp add: renew_def load_task_def andThen_def on_db_eq Load_quiet Results_def statement_quiet results_of_def NewID_def
        Now_def Host_def ret_def Put_def modify_def wake_task_def notify_def subscribers_def changes_init_def put_doc_def find_doc_def)
qed


theorem completed_only_when_checked_witness:
  "\<exists>m'. tool_run demo_server observed_machine m' \<and> fst (fst (end_status ''t1'' demo_run None (db m'))) = ''completed''
     \<and> (\<exists>expected. expected \<noteq> [] \<and> Contains (Output demo_observation) expected)"
proof -
  let ?m = "snd (verify_execution granted_task demo_caller ''e'' ''ok'' observed_machine)"
  have run: "tool_run demo_server observed_machine ?m" by (rule tool_run.verified [OF tool_run.start])
  obtain s where s: "db ?m = s" "allVerified ''t1'' s = (True, s)" "results_of ''t1'' s = [] @ demo_observation # []"
    using demo_verification by auto
  then have "fst (fst (end_status ''t1'' demo_run None (db ?m))) = ''completed''"
    by (simp add: end_status_def needs_answer_def exit_status_def blocked_text_def demo_run_def granted_task_def)
  from completed_only_when_checked [OF demo_run_backed run this] s demo_evidence(2) run this show ?thesis by fastforce
qed


end
