(* ===== verification/Monitor.thy ===== *)
theory Monitor
  imports Command "HOL-Library.AList"
begin

text \<open>
  \<open>internal/remote/monitor.go\<close> and \<open>disks.go\<close>: what the monitoring script reports of a server, and how
  the report is read.

  Counters are words of 64 bits that wrap around, as in the code.  Quotients are kept as their
  operands: \<open>Share a b\<close> is \<open>100 * a / b\<close>, and \<open>Rates\<close> holds differences of counters and the time between
  the two snapshots.
\<close>

subsection \<open>Sections\<close>

datatype metric_value = Nothing | Words string | Share "64 word" "64 word" | Sizes "64 word" "64 word" "64 word"
  | Rates "(string \<times> 64 word \<times> 64 word) list" time

record metric =
  mt_Value :: metric_value
  mt_State :: string
  mt_Error :: string

record snapshot =
  sn_At :: time
  sn_CPU :: metric
  sn_Memory :: metric
  sn_Load :: metric
  sn_Network :: metric
  sn_Disks :: metric
  sn_Processes :: metric
  sn_Ports :: metric
  sn_Uptime :: metric
  sn_System :: metric
  sn_TotalTicks :: "64 word"
  sn_IdleTicks :: "64 word"
  sn_Net :: "(string \<times> 64 word \<times> 64 word) list"

definition good :: "metric_value \<Rightarrow> metric" where
  "good v = \<lparr>mt_Value = v, mt_State = ''ok'', mt_Error = []\<rparr>"

definition warming_up :: metric where
  "warming_up = \<lparr>mt_Value = Nothing, mt_State = ''warming_up'', mt_Error = []\<rparr>"

definition section_metric :: "string \<Rightarrow> string list \<Rightarrow> metric" where
  "section_metric code held =
     (let v = TrimSpace (Join held newline)
      in if code = ''0'' then good (Words v)
         else \<lparr>mt_Value = Nothing, mt_State = (if code = ''127'' then ''unsupported'' else ''error''), mt_Error = v\<rparr>)"

text \<open>The sections read so far, the name of the open one and its lines.\<close>

fun read_sections :: "(string \<times> metric) list \<Rightarrow> string \<Rightarrow> string list \<Rightarrow> string list \<Rightarrow> (string \<times> metric) list" where
  "read_sections parts active held [] = parts"
| "read_sections parts active held (l # ls) =
     (if HasPrefix l ''@@exit:'' then read_sections ((active, section_metric (TrimPrefix l ''@@exit:'') held) # parts) [] [] ls
      else if HasPrefix l ''@@'' then read_sections parts (TrimPrefix l ''@@'') [] ls
      else read_sections parts active (if active \<noteq> [] then held @ [l] else held) ls)"

definition get_part :: "(string \<times> metric) list \<Rightarrow> string \<Rightarrow> metric" where
  "get_part parts name =
     (case map_of parts name of
        Some m \<Rightarrow> m
      | None \<Rightarrow> \<lparr>mt_Value = Nothing, mt_State = ''unsupported'', mt_Error = ''the report lacks '' @ name\<rparr>)"

fun words_of :: "metric \<Rightarrow> string" where
  "words_of \<lparr>mt_Value = Words s, mt_State = st, mt_Error = e\<rparr> = s"
| "words_of _ = []"

subsection \<open>Processor, memory, network\<close>

text \<open>At most the first eight columns count; the fourth and the fifth are idle time.\<close>

fun sum_ticks :: "nat \<Rightarrow> string list \<Rightarrow> 64 word \<Rightarrow> 64 word \<Rightarrow> err option \<times> 64 word \<times> 64 word" where
  "sum_ticks i [] whole idle = (None, whole, idle)"
| "sum_ticks i (f # fs) whole idle =
     (if 8 < i then (None, whole, idle)
      else case ParseUint f of
        None \<Rightarrow> (Some (Msg ''invalid number''), whole, idle)
      | Some n \<Rightarrow> sum_ticks (Suc i) fs (whole + of_nat n) (if i = 4 \<or> i = 5 then idle + of_nat n else idle))"

definition cpu_metric :: "snapshot option \<Rightarrow> 64 word \<Rightarrow> 64 word \<Rightarrow> metric" where
  "cpu_metric prev whole idle =
     (case prev of
        None \<Rightarrow> warming_up
      | Some p \<Rightarrow>
          if sn_TotalTicks p < whole \<and> sn_IdleTicks p \<le> idle \<and> idle - sn_IdleTicks p \<le> whole - sn_TotalTicks p
          then good (Share (whole - sn_TotalTicks p - (idle - sn_IdleTicks p)) (whole - sn_TotalTicks p))
          else warming_up)"

definition parse_cpu :: "snapshot option \<Rightarrow> snapshot \<Rightarrow> err option \<times> snapshot" where
  "parse_cpu prev s =
     (if mt_State (sn_CPU s) \<noteq> ''ok'' then (None, s)
      else let fields = Fields (hd (Split (words_of (sn_CPU s)) newline)) in
        if length fields < 5 \<or> hd fields \<noteq> ''cpu'' then (Some (Msg ''invalid /proc/stat''), s)
        else case sum_ticks 1 (tl fields) 0 0 of
          (e, whole, idle) \<Rightarrow>
            let s1 = s\<lparr>sn_TotalTicks := whole, sn_IdleTicks := idle\<rparr>
            in if e \<noteq> None then (e, s1) else (None, s1\<lparr>sn_CPU := cpu_metric prev whole idle\<rparr>))"

fun memory_counts :: "string list \<Rightarrow> (string \<Rightarrow> 64 word option) \<Rightarrow> string \<Rightarrow> 64 word option" where
  "memory_counts [] m = m"
| "memory_counts (l # ls) m =
     memory_counts ls
       (case Fields l of
          name # amount # _ \<Rightarrow>
            (case ParseUint amount of None \<Rightarrow> m | Some n \<Rightarrow> m(TrimSuffix name '':'' \<mapsto> of_nat n * 1024))
        | _ \<Rightarrow> m)"

definition parse_memory :: "metric \<Rightarrow> metric" where
  "parse_memory mt =
     (if mt_State mt \<noteq> ''ok'' then mt
      else let m = memory_counts (Split (words_of mt) newline) (\<lambda>_. None) in
        case (m ''MemTotal'', m ''MemAvailable'') of
          (Some whole, Some avail) \<Rightarrow>
            if whole = 0 \<or> whole < avail
            then \<lparr>mt_Value = Nothing, mt_State = ''unsupported'', mt_Error = ''no valid memory counters''\<rparr>
            else mt\<lparr>mt_Value := Sizes whole avail (whole - avail)\<rparr>
        | _ \<Rightarrow> \<lparr>mt_Value = Nothing, mt_State = ''unsupported'', mt_Error = ''no valid memory counters''\<rparr>)"

fun network_counts :: "string list \<Rightarrow> (string \<times> 64 word \<times> 64 word) list \<Rightarrow> (string \<times> 64 word \<times> 64 word) list" where
  "network_counts [] counts = counts"
| "network_counts (l # ls) counts =
     network_counts ls
       (case Cut l '':'' of
          (name, rest, True) \<Rightarrow>
            (let f = Fields rest in
               if length f < 9 then counts
               else case (ParseUint (f ! 0), ParseUint (f ! 8)) of
                 (Some rx, Some tx) \<Rightarrow> AList.update (TrimSpace name) (of_nat rx, of_nat tx) counts
               | _ \<Rightarrow> counts)
        | _ \<Rightarrow> counts)"

fun rates :: "(string \<times> 64 word \<times> 64 word) list \<Rightarrow> (string \<times> 64 word \<times> 64 word) list \<Rightarrow> (string \<times> 64 word \<times> 64 word) list" where
  "rates old [] = []"
| "rates old ((name, rx, tx) # counts) =
     (case map_of old name of
        Some (rx0, tx0) \<Rightarrow> (if rx0 \<le> rx \<and> tx0 \<le> tx then [(name, rx - rx0, tx - tx0)] else [])
      | None \<Rightarrow> []) @ rates old counts"

definition parse_network :: "snapshot option \<Rightarrow> snapshot \<Rightarrow> snapshot" where
  "parse_network prev s =
     (if mt_State (sn_Network s) \<noteq> ''ok'' then s
      else let counts = network_counts (Split (words_of (sn_Network s)) newline) [] in
        s\<lparr>sn_Net := counts, sn_Network :=
          (case prev of
             Some p \<Rightarrow> if sn_At p < sn_At s then good (Rates (rates (sn_Net p) counts) (sn_At s - sn_At p)) else warming_up
           | None \<Rightarrow> warming_up)\<rparr>)"

definition sections_snapshot :: "(string \<times> metric) list \<Rightarrow> time \<Rightarrow> snapshot" where
  "sections_snapshot parts now = \<lparr>sn_At = now, sn_CPU = get_part parts ''cpu'', sn_Memory = get_part parts ''memory'',
     sn_Load = get_part parts ''load'', sn_Network = get_part parts ''network'', sn_Disks = get_part parts ''disks'',
     sn_Processes = get_part parts ''processes'', sn_Ports = get_part parts ''ports'', sn_Uptime = get_part parts ''uptime'',
     sn_System = get_part parts ''system'', sn_TotalTicks = 0, sn_IdleTicks = 0, sn_Net = []\<rparr>"

definition ParseSnapshot :: "string \<Rightarrow> time \<Rightarrow> snapshot option \<Rightarrow> err option \<times> snapshot" where
  "ParseSnapshot report now prev =
     (let s = sections_snapshot (read_sections [] [] [] (Split report newline)) now in
        case parse_cpu prev s of
          (Some e, s1) \<Rightarrow> (Some e, s1)
        | (None, s1) \<Rightarrow> (None, parse_network prev (s1\<lparr>sn_Memory := parse_memory (sn_Memory s1)\<rparr>)))"

definition Monitor_host :: "'w outside \<Rightarrow> 'w call \<Rightarrow> string \<Rightarrow> snapshot option \<Rightarrow> ('w, snapshot) mact" where
  "Monitor_host R c host prev =
     andThen (run_command R c host monitorScript (\<lambda>out b. ret (out @ b, None)) []) (\<lambda>(_, e, out).
       case e of
         Some e \<Rightarrow> throw e
       | None \<Rightarrow>
           andThen (on_db Now) (\<lambda>now.
             case ParseSnapshot out now prev of (Some e, _) \<Rightarrow> throw e | (None, s) \<Rightarrow> ret s))"

subsection \<open>Disks\<close>

record disk_usage =
  du_Filesystem :: string
  du_Mount :: string
  du_Total :: nat
  du_Used :: nat
  du_Available :: int
  du_Percent :: nat

text \<open>
  \<open>diskUsageLine\<close>.  The spaces and the digits of the expression are taken as far as they go: none of
  them can be followed by one more of its kind.  Only the spaces before the last column may give one
  back, when nothing else is left for it; the first column is the shortest that works.
\<close>

definition re_space :: "char \<Rightarrow> bool" where
  "re_space c \<longleftrightarrow> c \<in> {CHR 0x09, CHR 0x0A, CHR 0x0C, CHR 0x0D, CHR 0x20}"

definition spaced_digits :: "bool \<Rightarrow> string \<Rightarrow> (string \<times> string) option" where
  "spaced_digits negatable s =
     (if s = [] \<or> \<not> re_space (hd s) then None
      else let t = dropWhile re_space s;
               (sign, u) = (if negatable \<and> HasPrefix t ''-'' then (''-'', tl t) else ([], t))
           in if u = [] \<or> \<not> is_digit (hd u) then None else Some (sign @ takeWhile is_digit u, dropWhile is_digit u))"

definition last_column :: "string \<Rightarrow> string option" where
  "last_column s =
     (let spaces = takeWhile re_space s; t = dropWhile re_space s
      in if spaces = [] then None
         else if t \<noteq> [] then (if CHR 0x0A \<in> set t then None else Some t)
         else if 2 \<le> length spaces \<and> last spaces \<noteq> CHR 0x0A then Some [last spaces] else None)"

definition columns_after :: "string \<Rightarrow> (string \<times> string \<times> string \<times> string \<times> string) option" where
  "columns_after s =
     (case spaced_digits False s of None \<Rightarrow> None
      | Some (whole, s) \<Rightarrow> (case spaced_digits False s of None \<Rightarrow> None
      | Some (used, s) \<Rightarrow> (case spaced_digits True s of None \<Rightarrow> None
      | Some (avail, s) \<Rightarrow> (case spaced_digits False s of None \<Rightarrow> None
      | Some (percent, s) \<Rightarrow>
          if s = [] \<or> hd s \<noteq> CHR ''%'' then None
          else (case last_column (tl s) of None \<Rightarrow> None | Some mount \<Rightarrow> Some (whole, used, avail, percent, mount))))))"

fun disk_columns :: "string \<Rightarrow> string \<Rightarrow> (string \<times> string \<times> string \<times> string \<times> string \<times> string) option" where
  "disk_columns name [] = None"
| "disk_columns name (c # s) =
     (if c = CHR 0x0A then None
      else case columns_after s of
        Some x \<Rightarrow> Some (name @ [c], x)
      | None \<Rightarrow> disk_columns (name @ [c]) s)"

definition disk_row :: "string \<times> string \<times> string \<times> string \<times> string \<times> string \<Rightarrow> disk_usage option" where
  "disk_row x = (case x of (name, whole, used, avail, percent, mount) \<Rightarrow>
     (case (ParseUint whole, ParseUint used, ParseInt avail, ParseUint percent) of
        (Some t, Some u, Some a, Some p) \<Rightarrow>
          Some \<lparr>du_Filesystem = name, du_Mount = mount, du_Total = t, du_Used = u, du_Available = a, du_Percent = p\<rparr>
      | _ \<Rightarrow> None))"

fun disk_rows :: "nat \<Rightarrow> string list \<Rightarrow> err + disk_usage list" where
  "disk_rows i [] = Inr []"
| "disk_rows i (l # ls) =
     (if TrimSpace l = [] then disk_rows (Suc i) ls
      else case disk_columns [] (TrimSpace l) of
        None \<Rightarrow> Inl (Msg (''malformed disk line '' @ FormatNat (i + 2)))
      | Some x \<Rightarrow>
          (case disk_row x of
             None \<Rightarrow> Inl (Msg (''invalid number in disk line '' @ FormatNat (i + 2)))
           | Some d \<Rightarrow> (case disk_rows (Suc i) ls of Inl e \<Rightarrow> Inl e | Inr ds \<Rightarrow> Inr (d # ds))))"

definition ParseDiskUsage :: "string \<Rightarrow> err + disk_usage list" where
  "ParseDiskUsage out =
     (let ls = Split (TrimSpace out) newline
      in if \<not> HasPrefix (TrimSpace (hd ls)) ''Filesystem'' then Inl (Msg ''the disk data has no header'')
         else disk_rows 0 (tl ls))"

subsection \<open>What the figures mean\<close>

lemma rates_sound:
  "(name, rx, tx) \<in> set (rates old counts) \<Longrightarrow>
     \<exists>rx0 tx0 rx1 tx1. map_of old name = Some (rx0, tx0) \<and> (name, rx1, tx1) \<in> set counts
       \<and> unat rx1 = unat rx0 + unat rx \<and> unat tx1 = unat tx0 + unat tx"
proof (induction counts)
  case (Cons x counts)
  obtain n rx1 tx1 where x: "x = (n, rx1, tx1)" by (cases x)
  have diff: "unat b = unat a + unat (b - a)" if "a \<le> b" for a b :: "64 word"
    using that by (simp add: unat_sub word_le_nat_alt)
  from Cons x show ?case
    by (auto split: option.splits if_splits) (metis diff)+
qed simp

definition section_like :: "metric \<Rightarrow> bool" where
  "section_like m \<longleftrightarrow> (\<exists>w. m = good (Words w)) \<or> mt_Value m = Nothing \<and> mt_State m \<noteq> ''ok''"

lemma section_metric_like: "section_like (section_metric code held)"
  by (cases "code = ''0''") (auto simp: section_like_def section_metric_def Let_def)

lemma read_sections_like: "\<forall>m \<in> snd ` set parts. section_like m \<Longrightarrow> \<forall>m \<in> snd ` set (read_sections parts active held ls). section_like m"
  by (induction parts active held ls rule: read_sections.induct) (auto simp: section_metric_like)

lemma part_section: "section_like (get_part (read_sections [] active held ls) name)"
  using read_sections_like [of "[]" active held ls]
  by (force simp: get_part_def section_like_def split: option.split dest: map_of_SomeD)

lemma parse_cpu_range:
  assumes "parse_cpu prev s = (None, s')" and "section_like (sn_CPU s)"
  shows "sn_Memory s' = sn_Memory s \<and> sn_Network s' = sn_Network s \<and> sn_At s' = sn_At s
    \<and> (mt_Value (sn_CPU s') = Share busy whole \<longrightarrow>
         0 < whole \<and> busy \<le> whole \<and> (\<exists>p. prev = Some p \<and> unat (sn_TotalTicks s') = unat (sn_TotalTicks p) + unat whole))"
proof (cases "mt_State (sn_CPU s) = ''ok''")
  case False
  with assms show ?thesis by (auto simp: parse_cpu_def section_like_def good_def)
next
  case True
  obtain e ticks idle where t: "sum_ticks 1 (tl (Fields (hd (Split (words_of (sn_CPU s)) newline)))) 0 0 = (e, ticks, idle)"
    by (metis prod_cases3)
  have s': "s' = s\<lparr>sn_TotalTicks := ticks, sn_IdleTicks := idle, sn_CPU := cpu_metric prev ticks idle\<rparr>"
    using assms(1) True t by (auto simp: parse_cpu_def Let_def split: if_splits)
  have "0 < whole \<and> busy \<le> whole \<and> (\<exists>p. prev = Some p \<and> unat ticks = unat (sn_TotalTicks p) + unat whole)"
    if c: "mt_Value (cpu_metric prev ticks idle) = Share busy whole"
  proof -
    from c obtain p where p: "prev = Some p" "sn_TotalTicks p < ticks" "idle - sn_IdleTicks p \<le> ticks - sn_TotalTicks p"
      "whole = ticks - sn_TotalTicks p" "busy = whole - (idle - sn_IdleTicks p)"
      by (auto simp: cpu_metric_def warming_up_def good_def split: option.splits if_splits)
    have "unat whole = unat ticks - unat (sn_TotalTicks p)" "unat (sn_TotalTicks p) < unat ticks"
      using p(2) unfolding p(4) by (simp_all add: unat_sub word_less_nat_alt less_imp_le)
    moreover have "busy \<le> whole" using p(3) unfolding p(5) p(4) [symmetric] by (simp add: word_le_nat_alt unat_sub)
    ultimately show ?thesis using p(1) by (auto simp: word_less_nat_alt)
  qed
  with s' show ?thesis by simp
qed

text \<open>
  C38: The figures shown of a server make sense whatever its collectors wrote.  When a report is
  accepted, the share of processor time is that of a positive number of ticks since the previous
  snapshot, and never above the whole; used and available memory add up to a total that is not zero;
  and the rates of a network interface are increases since the previous snapshot, over a time that
  is positive.  No difference has wrapped around.
\<close>

theorem figures_in_range:
  assumes "ParseSnapshot report now prev = (None, s)"
  shows "(\<forall>busy whole. mt_Value (sn_CPU s) = Share busy whole \<longrightarrow>
            0 < whole \<and> busy \<le> whole \<and> (\<exists>p. prev = Some p \<and> unat (sn_TotalTicks s) = unat (sn_TotalTicks p) + unat whole))
     \<and> (\<forall>whole avail used. mt_Value (sn_Memory s) = Sizes whole avail used \<longrightarrow>
            0 < whole \<and> unat used + unat avail = unat whole)
     \<and> (\<forall>rs elapsed. mt_Value (sn_Network s) = Rates rs elapsed \<longrightarrow>
            0 < elapsed \<and> (\<exists>p. prev = Some p \<and> (\<forall>(name, rx, tx) \<in> set rs. \<exists>rx0 tx0 rx1 tx1.
              map_of (sn_Net p) name = Some (rx0, tx0) \<and> (name, rx1, tx1) \<in> set (sn_Net s)
              \<and> unat rx1 = unat rx0 + unat rx \<and> unat tx1 = unat tx0 + unat tx)))"
proof -
  let ?s = "sections_snapshot (read_sections [] [] [] (Split report newline)) now"
  obtain s1 where s1: "parse_cpu prev ?s = (None, s1)" and s: "s = parse_network prev (s1\<lparr>sn_Memory := parse_memory (sn_Memory s1)\<rparr>)"
    using assms by (auto simp: ParseSnapshot_def Let_def split: prod.splits option.splits)
  have parts: "section_like (sn_CPU ?s)" "section_like (sn_Memory ?s)" "section_like (sn_Network ?s)"
    by (simp_all add: sections_snapshot_def part_section)
  note cpu = parse_cpu_range [OF s1 parts(1)]
  have kept: "sn_CPU s = sn_CPU s1" "sn_TotalTicks s = sn_TotalTicks s1" "sn_Memory s = parse_memory (sn_Memory s1)"
    unfolding s by (simp_all add: parse_network_def Let_def)
  have memory: "0 < whole \<and> unat used + unat avail = unat whole"
    if "section_like mt" "mt_Value (parse_memory mt) = Sizes whole avail used" for mt whole avail used
    using that
    by (auto simp: parse_memory_def section_like_def good_def Let_def unat_sub not_less word_le_nat_alt word_neq_0_conv
      split: option.splits if_splits)
  have network: "0 < elapsed \<and> (\<exists>p. prev = Some p \<and> (\<forall>(name, rx, tx) \<in> set rs. \<exists>rx0 tx0 rx1 tx1.
      map_of (sn_Net p) name = Some (rx0, tx0) \<and> (name, rx1, tx1) \<in> set (sn_Net s)
      \<and> unat rx1 = unat rx0 + unat rx \<and> unat tx1 = unat tx0 + unat tx))"
    if "mt_Value (sn_Network s) = Rates rs elapsed" for rs elapsed
  proof -
    from that s cpu parts(3) obtain p where "prev = Some p" "sn_At p < now" "elapsed = now - sn_At p" "rs = rates (sn_Net p) (sn_Net s)"
      by (auto simp: parse_network_def Let_def section_like_def good_def warming_up_def sections_snapshot_def
        split: option.splits if_splits)
    then show ?thesis using rates_sound by fastforce
  qed
  from cpu memory [OF parts(2)] network kept show ?thesis by auto
qed

subsection \<open>Reading back what the script prints\<close>

lemma Split_marks:
  "d \<notin> set p \<Longrightarrow> d \<notin> set q \<Longrightarrow>
     Split (d # p @ d # out @ d # q @ d # t) [d] = [] # p # Split out [d] @ q # Split t [d]"
  by (simp add: Split_char Split_around Split_alone)

definition printed_section :: "string \<times> string \<times> string \<Rightarrow> string" where
  "printed_section x = (case x of (name, out, code) \<Rightarrow>
     newline @ ''@@'' @ name @ newline @ out @ newline @ ''@@exit:'' @ code @ newline)"

text \<open>What is printed is unambiguous when no line of a collector looks like a mark of the script.\<close>

definition plain_section :: "string \<times> string \<times> string \<Rightarrow> bool" where
  "plain_section x = (case x of (name, out, code) \<Rightarrow>
     name \<noteq> [] \<and> \<not> HasPrefix name ''exit:'' \<and> CHR 0x0A \<notin> set name \<and> CHR 0x0A \<notin> set code
       \<and> (\<forall>l \<in> set (Split out newline). \<not> HasPrefix l ''@@''))"

lemma collect_plain:
  "\<forall>l \<in> set xs. \<not> HasPrefix l ''@@'' \<Longrightarrow> active \<noteq> [] \<Longrightarrow>
     read_sections parts active held (xs @ ls) = read_sections parts active (held @ xs) ls"
proof (induction xs arbitrary: held)
  case (Cons l xs)
  then have "\<not> HasPrefix l ''@@exit:''" by (auto simp: HasPrefix_iff)
  with Cons show ?case by simp
qed simp

lemma collect_section:
  assumes "plain_section (name, out, code)"
  shows "read_sections parts [] [] (Split (printed_section (name, out, code) @ t) newline)
    = read_sections ((name, section_metric code (Split out newline)) # parts) [] [] (Split t newline)"
proof -
  let ?nl = "CHR 0x0A"
  have "?nl \<notin> set (''@@'' @ name)" "?nl \<notin> set (''@@exit:'' @ code)"
    using assms by (auto simp: plain_section_def)
  from Split_marks [OF this, of out t]
  have "Split (printed_section (name, out, code) @ t) newline
      = [] # (''@@'' @ name) # Split out newline @ (''@@exit:'' @ code) # Split t newline"
    by (simp add: printed_section_def newline_def)
  moreover have "\<not> HasPrefix (''@@'' @ name) ''@@exit:''" "TrimPrefix (''@@exit:'' @ code) ''@@exit:'' = code"
    "TrimPrefix (''@@'' @ name) ''@@'' = name" "HasPrefix (''@@exit:'' @ code) ''@@exit:''" "HasPrefix (''@@'' @ name) ''@@''"
    using assms by (auto simp: plain_section_def HasPrefix_def TrimPrefix_def)
  moreover have "read_sections parts name [] (Split out newline @ (''@@exit:'' @ code) # Split t newline)
      = read_sections parts name (Split out newline) ((''@@exit:'' @ code) # Split t newline)"
    using assms collect_plain [of "Split out newline" name parts "[]"] by (simp add: plain_section_def)
  ultimately show ?thesis by (simp add: HasPrefix_def [of "[]"])
qed

lemma collect_all:
  "list_all plain_section xs \<Longrightarrow>
     read_sections parts [] [] (Split (concat (map printed_section xs)) newline)
       = rev (map (\<lambda>(name, out, code). (name, section_metric code (Split out newline))) xs) @ parts"
proof (induction xs arbitrary: parts)
  case Nil
  show ?case by (simp add: newline_def Split_Nil HasPrefix_def)
next
  case (Cons x xs)
  obtain name out code where x: "x = (name, out, code)" by (cases x)
  with Cons show ?case by (simp add: collect_section)
qed

text \<open>
  A failed collector is not a zero figure.  From what the script prints for any sections with
  distinct names, whose lines do not look like its own marks, every section is read back: the trimmed
  output when the collector succeeded, otherwise no value, but the output as the error and whether
  the command was missing; and a section that was not printed is unsupported.
\<close>

theorem sections_are_read_back:
  assumes "list_all plain_section xs" and "distinct (map fst xs)"
  shows "(\<forall>(name, out, code) \<in> set xs.
       get_part (read_sections [] [] [] (Split (concat (map printed_section xs)) newline)) name
         = (if code = ''0'' then \<lparr>mt_Value = Words (TrimSpace out), mt_State = ''ok'', mt_Error = []\<rparr>
            else \<lparr>mt_Value = Nothing, mt_State = (if code = ''127'' then ''unsupported'' else ''error''), mt_Error = TrimSpace out\<rparr>))
     \<and> (\<forall>name. name \<notin> set (map fst xs) \<longrightarrow>
          mt_State (get_part (read_sections [] [] [] (Split (concat (map printed_section xs)) newline)) name) = ''unsupported'')"
proof -
  let ?f = "\<lambda>(name, out, code). (name, section_metric code (Split out newline))"
  let ?parts = "rev (map ?f xs)"
  have parts: "read_sections [] [] [] (Split (concat (map printed_section xs)) newline) = ?parts"
    using collect_all [OF assms(1), of "[]"] by simp
  have names: "map fst (map ?f xs) = map fst xs" by (simp add: case_prod_beta)
  have found: "map_of ?parts name = Some (section_metric code (Split out newline))" if "(name, out, code) \<in> set xs" for name out code
  proof (rule map_of_is_SomeI)
    show "distinct (map fst ?parts)" using assms(2) names by (simp add: rev_map [symmetric] del: map_map)
    show "(name, section_metric code (Split out newline)) \<in> set ?parts" using that by force
  qed
  have missing: "map_of ?parts name = None" if "name \<notin> set (map fst xs)" for name
  proof -
    have "name \<notin> set (map fst ?parts)" using that names by (simp add: rev_map [symmetric] del: map_map)
    then show ?thesis by (simp add: map_of_eq_None_iff)
  qed
  have "get_part ?parts name = (if code = ''0'' then \<lparr>mt_Value = Words (TrimSpace out), mt_State = ''ok'', mt_Error = []\<rparr>
      else \<lparr>mt_Value = Nothing, mt_State = (if code = ''127'' then ''unsupported'' else ''error''), mt_Error = TrimSpace out\<rparr>)"
    if "(name, out, code) \<in> set xs" for name out code
    using found [OF that] by (simp add: get_part_def section_metric_def good_def Let_def Join_Split)
  moreover have "mt_State (get_part ?parts name) = ''unsupported''" if "name \<notin> set (map fst xs)" for name
    using missing [OF that] by (simp add: get_part_def)
  ultimately show ?thesis unfolding parts by auto
qed

text \<open>The sections of a small server without \<open>ss\<close>.\<close>

definition demo_sections :: "(string \<times> string \<times> string) list" where
  "demo_sections = [(''memory'', ''MemTotal: 8 kB'' @ newline @ ''MemAvailable: 2 kB'', ''0''), (''ports'', ''not found'', ''127'')]"

lemma demo_lines:
  "Split (''MemTotal: 8 kB'' @ newline @ ''MemAvailable: 2 kB'') newline = [''MemTotal: 8 kB'', ''MemAvailable: 2 kB'']"
  "Split ''not found'' newline = [''not found'']"
  using Split_around [of "''MemTotal: 8 kB''" "CHR 0x0A" "''MemAvailable: 2 kB''"] Split_alone [of "CHR 0x0A"]
  by (simp_all add: newline_def)

lemma demo_plain: "list_all plain_section demo_sections \<and> distinct (map fst demo_sections)"
proof -
  have "plain_section (''memory'', ''MemTotal: 8 kB'' @ newline @ ''MemAvailable: 2 kB'', ''0'')" "plain_section (''ports'', ''not found'', ''127'')"
    unfolding plain_section_def prod.case demo_lines by (simp_all add: HasPrefix_def)
  then show ?thesis by (simp add: demo_sections_def)
qed

theorem sections_are_read_back_witness:
  "mt_State (get_part (read_sections [] [] [] (Split (concat (map printed_section demo_sections)) newline)) ''ports'') = ''unsupported''
   \<and> mt_State (get_part (read_sections [] [] [] (Split (concat (map printed_section demo_sections)) newline)) ''memory'') = ''ok''"
proof -
  have "(''memory'', ''MemTotal: 8 kB'' @ newline @ ''MemAvailable: 2 kB'', ''0'') \<in> set demo_sections"
    "(''ports'', ''not found'', ''127'') \<in> set demo_sections" by (simp_all add: demo_sections_def)
  with sections_are_read_back [OF conjunct1 [OF demo_plain] conjunct2 [OF demo_plain]] show ?thesis by fastforce
qed

lemma demo_memory:
  "parse_memory (section_metric ''0'' (Split (''MemTotal: 8 kB'' @ newline @ ''MemAvailable: 2 kB'') newline))
     = good (Sizes 8192 2048 6144)"
proof -
  let ?m = "''MemTotal: 8 kB'' @ newline @ ''MemAvailable: 2 kB''"
  have trimmed: "TrimSpace ?m = ?m"
    by (rule TrimSpace_plain) (simp_all add: space_prefix_def space_suffix_def space_encodings_def HasPrefix_def HasSuffix_def newline_def)
  note lines = demo_lines(1)
  have fields: "Fields ''MemTotal: 8 kB'' = [''MemTotal:'', ''8'', ''kB'']" "Fields ''MemAvailable: 2 kB'' = [''MemAvailable:'', ''2'', ''kB'']"
    by (simp_all add: Fields_def fields_loop.simps space_prefix_def space_encodings_def HasPrefix_def)
  have numbers: "ParseUint ''8'' = Some 8" "ParseUint ''2'' = Some 2"
    by (simp_all add: ParseUint_def digits_ok_def is_digit_def decimal_value_def digit_value_def)
  have names: "TrimSuffix ''MemTotal:'' '':'' = ''MemTotal''" "TrimSuffix ''MemAvailable:'' '':'' = ''MemAvailable''"
    by (simp_all add: TrimSuffix_def HasSuffix_def)
  have "section_metric ''0'' (Split ?m newline) = good (Words ?m)"
    unfolding section_metric_def Join_Split trimmed by simp
  moreover have "words_of (good (Words ?m)) = ?m" unfolding good_def by simp
  ultimately show ?thesis
    unfolding parse_memory_def by (simp only: lines) (simp add: good_def fields numbers names)
qed

theorem figures_in_range_witness:
  "\<exists>s. ParseSnapshot (printed_section (''memory'', ''MemTotal: 8 kB'' @ newline @ ''MemAvailable: 2 kB'', ''0'')) 5 None = (None, s)
     \<and> mt_Value (sn_Memory s) = Sizes 8192 2048 6144 \<and> unat (6144 :: 64 word) + unat (2048 :: 64 word) = unat (8192 :: 64 word)"
proof -
  let ?m = "''MemTotal: 8 kB'' @ newline @ ''MemAvailable: 2 kB''"
  let ?x = "(''memory'', ?m, ''0'')"
  define s where "s = snd (ParseSnapshot (printed_section ?x) 5 None)"
  have parts: "read_sections [] [] [] (Split (printed_section ?x) newline) = [(''memory'', section_metric ''0'' (Split ?m newline))]"
    using collect_all [of "[?x]" "[]"] demo_plain by (simp only: demo_sections_def) simp
  have run: "ParseSnapshot (printed_section ?x) 5 None = (None, s)" and shown: "mt_Value (sn_Memory s) = Sizes 8192 2048 6144"
    unfolding s_def ParseSnapshot_def parts
    using demo_memory by (simp_all add: sections_snapshot_def get_part_def parse_cpu_def parse_network_def good_def)
  from figures_in_range [OF run] run shown show ?thesis by blast
qed

subsection \<open>Lines of disks\<close>

definition gap :: "string \<Rightarrow> bool" where
  "gap s \<longleftrightarrow> s \<noteq> [] \<and> list_all re_space s"

lemma digit_not_space: "is_digit c \<Longrightarrow> \<not> re_space c"
  by (auto simp: is_digit_def re_space_def)

lemma spaced_digits_read:
  assumes "gap g" and "digits_ok ds" and "rest = [] \<or> \<not> is_digit (hd rest)"
  shows "spaced_digits n (g @ ds @ rest) = Some (ds, rest)" and "spaced_digits True (g @ ''-'' @ ds @ rest) = Some (''-'' @ ds, rest)"
proof -
  obtain d t where d: "ds = d # t" "is_digit d" using assms(2) by (cases ds) (auto simp: digits_ok_def)
  have digits: "takeWhile is_digit (ds @ rest) = ds" "dropWhile is_digit (ds @ rest) = rest"
    using assms(2,3) by (cases rest; simp add: digits_ok_def list_all_iff takeWhile_append2 dropWhile_append2)+
  have drop: "dropWhile re_space (g @ c # u) = c # u" if "\<not> re_space c" for c u
    using assms(1) that by (simp add: gap_def list_all_iff dropWhile_append2)
  have "d \<noteq> CHR ''-''" using d(2) by (auto simp: is_digit_def)
  moreover have "re_space (hd g)" "g \<noteq> []" using assms(1) by (cases g; simp add: gap_def)+
  ultimately show "spaced_digits n (g @ ds @ rest) = Some (ds, rest)"
    using digits drop [OF digit_not_space [OF d(2)], of "t @ rest"] d
    by (simp add: spaced_digits_def HasPrefix_def)
  show "spaced_digits True (g @ ''-'' @ ds @ rest) = Some (''-'' @ ds, rest)"
    using digits d drop [of "CHR ''-''" "ds @ rest"] \<open>re_space (hd g)\<close> \<open>g \<noteq> []\<close>
    by (simp add: spaced_digits_def HasPrefix_def re_space_def)
qed

lemma columns_after_word: "s \<noteq> [] \<Longrightarrow> \<not> re_space (hd s) \<Longrightarrow> columns_after s = None"
  by (simp add: columns_after_def spaced_digits_def)

lemma columns_after_read:
  assumes "gap a" "gap b" "gap c" "gap d" "gap e" and "digits_ok t" "digits_ok u" "digits_ok v" "digits_ok p"
    and "sign \<in> {[], ''-''}" and "mount \<noteq> []" "\<not> re_space (hd mount)" "CHR 0x0A \<notin> set mount"
  shows "columns_after (a @ t @ b @ u @ c @ sign @ v @ d @ p @ ''%'' @ e @ mount) = Some (t, u, sign @ v, p, mount)"
proof -
  have start: "g @ x \<noteq> [] \<and> \<not> is_digit (hd (g @ x))" if "gap g" for g x
    using that digit_not_space by (cases g) (auto simp: gap_def)
  have mount: "last_column (e @ mount) = Some mount"
    using assms(5,11-13) by (cases mount)
      (simp_all add: last_column_def gap_def list_all_iff takeWhile_append2 dropWhile_append2)
  have avail: "spaced_digits True (c @ sign @ v @ d @ p @ ''%'' @ e @ mount) = Some (sign @ v, d @ p @ ''%'' @ e @ mount)"
    using spaced_digits_read [OF assms(3,8), of "d @ p @ ''%'' @ e @ mount"] start [OF assms(4)] assms(10) by auto
  have percent: "spaced_digits False (d @ p @ ''%'' @ e @ mount) = Some (p, ''%'' @ e @ mount)"
    by (rule spaced_digits_read [OF assms(4,9)]) (simp add: is_digit_def)
  let ?avail = "c @ sign @ v @ d @ p @ ''%'' @ e @ mount"
  have used: "spaced_digits False (b @ u @ ?avail) = Some (u, ?avail)"
    by (rule spaced_digits_read [OF assms(2,7)]) (use start [OF assms(3)] in blast)
  have whole: "spaced_digits False (a @ t @ b @ u @ ?avail) = Some (t, b @ u @ ?avail)"
    by (rule spaced_digits_read [OF assms(1,6)]) (use start [OF assms(2)] in blast)
  show ?thesis
    unfolding columns_after_def whole option.case prod.case used avail percent using mount by simp
qed

text \<open>
  A line as \<open>df\<close> prints it is read back column by column, however wide the columns are: the name of a
  file system has no spaces, the mount point may.
\<close>

lemma disk_line_read:
  assumes "name \<noteq> []" "list_all (\<lambda>c. \<not> re_space c) name" and "columns_after rest = Some x" "rest \<noteq> []"
  shows "disk_columns start (name @ rest) = Some (start @ name, x)"
  using assms
proof (induction name arbitrary: start)
  case (Cons c name)
  have "c \<noteq> CHR 0x0A" using Cons.prems by (auto simp: re_space_def)
  show ?case
  proof (cases name)
    case Nil
    with Cons.prems \<open>c \<noteq> CHR 0x0A\<close> show ?thesis by simp
  next
    case (Cons d name')
    then have "columns_after (name @ rest) = None" using Cons.prems by (intro columns_after_word) auto
    with Cons.IH [of "start @ [c]"] Cons.prems Cons \<open>c \<noteq> CHR 0x0A\<close> show ?thesis by simp
  qed
qed simp

lemma disk_line_row:
  "t < 2 ^ 64 \<Longrightarrow> u < 2 ^ 64 \<Longrightarrow> v < 2 ^ 63 \<Longrightarrow> p < 2 ^ 64 \<Longrightarrow>
     disk_row (name, FormatNat t, FormatNat u, FormatNat v, FormatNat p, mount)
       = Some \<lparr>du_Filesystem = name, du_Mount = mount, du_Total = t, du_Used = u, du_Available = int v, du_Percent = p\<rparr>"
  by (simp add: disk_row_def ParseUint_def FormatNat_digits decimal_value_FormatNat ParseInt_FormatNat)

end
