(* ===== verification/Processes.thy ===== *)
theory Processes
  imports Complex_Main Command GoJsonRead
begin

text \<open>
  \<open>internal/remote/process_ports.go\<close>: the rows of \<open>ps\<close> and \<open>ss\<close>, with \<open>strconv.ParseFloat\<close> and
  \<open>strconv.Unquote\<close> as far as they are called.

  A number of \<open>ParseFloat\<close> is kept as the exact value of its text, before it is rounded to 64 bits; a
  value that would round to an infinity is an error, as in the code.
\<close>

subsection \<open>Floating-point texts\<close>

datatype float64 = Finite rat | Infinite bool | NotANumber

definition ascii_lower :: "char \<Rightarrow> char" where
  "ascii_lower c = (if code_in 65 90 c then char_of (of_char c + (32 :: nat)) else c)"

text \<open>The value of a digit in a base of 10 or 16.\<close>

definition base_digit :: "nat \<Rightarrow> char \<Rightarrow> nat option" where
  "base_digit base c =
     (if is_digit c then Some (digit_value c)
      else if base = 16 \<and> code_in 97 102 (ascii_lower c) then Some (of_char (ascii_lower c) - 87) else None)"

text \<open>The digits of a mantissa: their value, how many follow the point, and whether there is any.\<close>

fun mantissa :: "nat \<Rightarrow> nat \<Rightarrow> nat option \<Rightarrow> bool \<Rightarrow> string \<Rightarrow> nat \<times> nat option \<times> bool \<times> string" where
  "mantissa base n point some_digit [] = (n, point, some_digit, [])"
| "mantissa base n point some_digit (c # s) =
     (if c = CHR ''_'' then mantissa base n point some_digit s
      else if c = CHR ''.'' then (if point = None then mantissa base n (Some 0) some_digit s else (n, point, some_digit, c # s))
      else case base_digit base c of
        Some d \<Rightarrow> mantissa base (n * base + d) (map_option Suc point) True s
      | None \<Rightarrow> (n, point, some_digit, c # s))"

fun exponent_digits :: "nat \<Rightarrow> string \<Rightarrow> nat \<times> string" where
  "exponent_digits e [] = (e, [])"
| "exponent_digits e (c # s) =
     (if c = CHR ''_'' then exponent_digits e s
      else if is_digit c then exponent_digits (if e < 10000 then e * 10 + digit_value c else e) s
      else (e, c # s))"

definition read_exponent_part :: "nat \<Rightarrow> string \<Rightarrow> (int \<times> string) option" where
  "read_exponent_part base s =
     (case s of
        [] \<Rightarrow> if base = 16 then None else Some (0, [])
      | c # t \<Rightarrow>
          if ascii_lower c = (if base = 16 then CHR ''p'' else CHR ''e'')
          then (let (neg, u) = (case t of d # u \<Rightarrow> if d = CHR ''+'' then (False, u) else if d = CHR ''-'' then (True, u) else (False, t)
                                | [] \<Rightarrow> (False, []))
                in if u = [] \<or> \<not> is_digit (hd u) then None
                   else case exponent_digits 0 u of (e, rest) \<Rightarrow> Some (if neg then - int e else int e, rest))
          else if base = 16 then None else Some (0, s))"

text \<open>\<open>underscoreOK\<close>: underscores stand between digits, or after the prefix of a base.\<close>

fun underscores_ok :: "bool \<Rightarrow> char \<Rightarrow> string \<Rightarrow> bool" where
  "underscores_ok hex saw [] \<longleftrightarrow> saw \<noteq> CHR ''_''"
| "underscores_ok hex saw (c # s) \<longleftrightarrow>
     (if is_digit c \<or> hex \<and> code_in 97 102 (ascii_lower c) then underscores_ok hex (CHR ''0'') s
      else if c = CHR ''_'' then saw = CHR ''0'' \<and> underscores_ok hex (CHR ''_'') s
      else saw \<noteq> CHR ''_'' \<and> underscores_ok hex (CHR ''!'') s)"

definition without_sign :: "string \<Rightarrow> string" where
  "without_sign s = (if s \<noteq> [] \<and> (hd s = CHR ''+'' \<or> hd s = CHR ''-'') then tl s else s)"

definition underscoreOK :: "string \<Rightarrow> bool" where
  "underscoreOK s =
     (let t = without_sign s
      in case t of
           z # b # u \<Rightarrow>
             if z = CHR ''0'' \<and> ascii_lower b \<in> {CHR ''b'', CHR ''o'', CHR ''x''}
             then underscores_ok (ascii_lower b = CHR ''x'') (CHR ''0'') u else underscores_ok False (CHR ''^'') t
         | _ \<Rightarrow> underscores_ok False (CHR ''^'') t)"

definition power_of :: "rat \<Rightarrow> int \<Rightarrow> rat" where
  "power_of b e = (if 0 \<le> e then b ^ nat e else 1 / b ^ nat (- e))"

definition float_overflow :: rat where
  "float_overflow = 2 ^ 1024 - 2 ^ 970"

definition ParseFloat :: "string \<Rightarrow> float64 option" where
  "ParseFloat s =
     (let negative = (s \<noteq> [] \<and> hd s = CHR ''-''); t = without_sign s; l = map ascii_lower t
      in if l = ''inf'' \<or> l = ''infinity'' then Some (Infinite negative)
         else if map ascii_lower s = ''nan'' then Some NotANumber
         else let hex = (2 < length t \<and> hd t = CHR ''0'' \<and> ascii_lower (t ! 1) = CHR ''x'');
                  base = (if hex then 16 else 10)
              in case mantissa base 0 None False (if hex then drop 2 t else t) of
                (n, point, some_digit, rest) \<Rightarrow>
                  if \<not> some_digit then None
                  else (case read_exponent_part base rest of
                          Some (e, []) \<Rightarrow>
                            if CHR ''_'' \<in> set s \<and> \<not> underscoreOK s then None
                            else let after = int (case point of None \<Rightarrow> 0 | Some k \<Rightarrow> k);
                                     x = rat_of_nat n * (if hex then power_of 2 (e - 4 * after) else power_of 10 (e - after))
                                 in if float_overflow \<le> x then None else Some (Finite (if negative then - x else x))
                        | _ \<Rightarrow> None))"

text \<open>A number that is less than zero after rounding: tiny ones round to zero.\<close>

definition below_zero :: "float64 \<Rightarrow> bool" where
  "below_zero x = (case x of Finite q \<Rightarrow> q < - (1 / 2 ^ 1075) | Infinite neg \<Rightarrow> neg | NotANumber \<Rightarrow> False)"

subsection \<open>Quoted names\<close>

text \<open>\<open>UnquoteChar\<close> in double quotes: what one character stands for, and the rest.\<close>

definition hex_number :: "nat \<Rightarrow> string \<Rightarrow> nat option" where
  "hex_number k s =
     (if length s < k \<or> \<not> list_all (\<lambda>c. base_digit 16 c \<noteq> None) (take k s) then None
      else Some (foldl (\<lambda>n c. n * 16 + (case base_digit 16 c of Some d \<Rightarrow> d | None \<Rightarrow> 0)) 0 (take k s)))"

definition valid_rune :: "nat \<Rightarrow> bool" where
  "valid_rune n \<longleftrightarrow> n < 0xD800 \<or> 0xDFFF < n \<and> n \<le> 0x10FFFF"

definition unquote_escape :: "char \<Rightarrow> string \<Rightarrow> (string \<times> string) option" where
  "unquote_escape c s =
     (case map_of [(CHR ''a'', CHR 0x07), (CHR ''b'', CHR 0x08), (CHR ''f'', CHR 0x0C), (CHR ''n'', CHR 0x0A), (CHR ''r'', CHR 0x0D),
                   (CHR ''t'', CHR 0x09), (CHR ''v'', CHR 0x0B), (CHR 0x5C, CHR 0x5C), (CHR 0x22, CHR 0x22)] c of
        Some d \<Rightarrow> Some ([d], s)
      | None \<Rightarrow>
          if c = CHR ''x'' then map_option (\<lambda>n. ([char_of n], drop 2 s)) (hex_number 2 s)
          else if c = CHR ''u'' \<or> c = CHR ''U''
          then (let k = (if c = CHR ''u'' then 4 else 8)
                in case hex_number k s of Some n \<Rightarrow> if valid_rune n then Some (encode_rune n, drop k s) else None | None \<Rightarrow> None)
          else if code_in 48 55 c
          then (if length s < 2 \<or> \<not> list_all (code_in 48 55) (take 2 s) then None
                else let n = (digit_value c * 8 + digit_value (s ! 0)) * 8 + digit_value (s ! 1)
                     in if 255 < n then None else Some ([char_of n], drop 2 s))
          else None)"

text \<open>The contents of a literal; the fuel is the number of characters, each step takes one.\<close>

fun unquote_chars :: "nat \<Rightarrow> string \<Rightarrow> string option" where
  "unquote_chars k [] = Some []"
| "unquote_chars 0 (c # s) = None"
| "unquote_chars (Suc k) (c # s) =
     (if c = CHR 0x0A \<or> c = CHR 0x22 then None
      else if c = CHR 0x5C
      then (case s of [] \<Rightarrow> None
            | d # t \<Rightarrow> (case unquote_escape d t of None \<Rightarrow> None | Some (x, rest) \<Rightarrow> map_option ((@) x) (unquote_chars k rest)))
      else if utf8_width (c # s) = 0 then map_option ((@) (encode_rune 0xFFFD)) (unquote_chars k s)
      else map_option ((@) (take (utf8_width (c # s)) (c # s))) (unquote_chars k (drop (utf8_width (c # s)) (c # s))))"

text \<open>\<open>Unquote\<close> of \<open>s\<close> between double quotes.\<close>

definition Unquote :: "string \<Rightarrow> string option" where
  "Unquote s = unquote_chars (length s) s"

subsection \<open>Fields\<close>

definition blank :: "char \<Rightarrow> bool" where
  "blank c \<longleftrightarrow> c = CHR '' '' \<or> c = CHR 0x09"

fun take_fields :: "nat \<Rightarrow> string \<Rightarrow> (string list \<times> string) option" where
  "take_fields 0 rest = Some ([], rest)"
| "take_fields (Suc n) rest =
     (let w = takeWhile (\<lambda>c. \<not> blank c) rest; t = dropWhile (\<lambda>c. \<not> blank c) rest
      in if t = [] then (if n = 0 \<and> rest \<noteq> [] then Some ([rest], []) else None)
         else map_option (\<lambda>(fs, r). (w # fs, r)) (take_fields n (dropWhile blank t)))"

definition takeFields :: "string \<Rightarrow> nat \<Rightarrow> (string list \<times> string) option" where
  "takeFields line n = take_fields n (TrimSpace line)"

subsection \<open>Processes\<close>

record process_info =
  pr_PID :: int
  pr_User :: string
  pr_Name :: string
  pr_CPU :: float64
  pr_Memory :: float64

definition process_number :: "string \<Rightarrow> float64 option" where
  "process_number s =
     (case ParseFloat s of
        Some x \<Rightarrow> if below_zero x \<or> (case x of Finite _ \<Rightarrow> False | _ \<Rightarrow> True) then None else Some x
      | None \<Rightarrow> None)"

definition header_line :: "string \<Rightarrow> string \<Rightarrow> bool" where
  "header_line word line \<longleftrightarrow> HasPrefix line (word @ '' '') \<or> HasPrefix line (word @ [CHR 0x09])"

definition process_row :: "nat \<Rightarrow> string \<Rightarrow> err + process_info" where
  "process_row i line =
     (case takeFields line 4 of
        Some ([pid, user, cpu, mem], name) \<Rightarrow>
          if name = [] then Inl (Msg (''malformed process line '' @ FormatNat (i + 1)))
          else (case (ParseInt pid, process_number cpu, process_number mem) of
                  (Some p, Some c, Some m) \<Rightarrow>
                    if p \<le> 0 then Inl (Msg (''invalid number in process line '' @ FormatNat (i + 1)))
                    else Inr \<lparr>pr_PID = p, pr_User = user, pr_Name = name, pr_CPU = c, pr_Memory = m\<rparr>
                | _ \<Rightarrow> Inl (Msg (''invalid number in process line '' @ FormatNat (i + 1))))
      | _ \<Rightarrow> Inl (Msg (''malformed process line '' @ FormatNat (i + 1))))"

text \<open>The rows of all lines but the empty ones and the headers; the first error ends the reading.\<close>

fun read_rows :: "(nat \<Rightarrow> string \<Rightarrow> err + 'a) \<Rightarrow> string \<Rightarrow> nat \<Rightarrow> string list \<Rightarrow> err + 'a list" where
  "read_rows row word i [] = Inr []"
| "read_rows row word i (l # ls) =
     (let line = TrimSpace l
      in if line = [] \<or> header_line word line then read_rows row word (Suc i) ls
         else case row i line of
           Inl e \<Rightarrow> Inl e
         | Inr r \<Rightarrow> (case read_rows row word (Suc i) ls of Inl e \<Rightarrow> Inl e | Inr rs \<Rightarrow> Inr (r # rs)))"

definition ParseProcesses :: "string \<Rightarrow> err + process_info list" where
  "ParseProcesses out = read_rows process_row ''PID'' 0 (Split out newline)"

subsection \<open>Ports\<close>

record port_owner =
  po_Name :: string
  po_PID :: int
  po_FD :: int

record port_info =
  pt_Owners :: "port_owner list"
  pt_Protocol :: string
  pt_State :: string
  pt_Local :: string
  pt_Peer :: string
  pt_Process :: string
  pt_ReceiveQueue :: nat
  pt_SendQueue :: nat

text \<open>
  \<open>portOwnerPattern\<close> at the front of a text.  The name ends at the first quote that is not escaped; a dot
  of the expression does not match a newline.
\<close>

fun quoted_name :: "string \<Rightarrow> (string \<times> string) option" where
  "quoted_name [] = None"
| "quoted_name [c] = (if c = CHR 0x22 then Some ([], []) else None)"
| "quoted_name (c # d # s) =
     (if c = CHR 0x22 then Some ([], d # s)
      else if c = CHR 0x5C
      then (if d = CHR 0x0A then None else map_option (\<lambda>(n, r). (c # d # n, r)) (quoted_name s))
      else map_option (\<lambda>(n, r). (c # n, r)) (quoted_name (d # s)))"

definition labelled_digits :: "string \<Rightarrow> string \<Rightarrow> (string \<times> string) option" where
  "labelled_digits label s =
     (if \<not> HasPrefix s label then None
      else let t = drop (length label) s
           in if t = [] \<or> \<not> is_digit (hd t) then None else Some (takeWhile is_digit t, dropWhile is_digit t))"

definition owner_at :: "string \<Rightarrow> (string \<times> string \<times> string \<times> string) option" where
  "owner_at s =
     (if \<not> HasPrefix s [CHR ''('', CHR 0x22] then None
      else case quoted_name (drop 2 s) of None \<Rightarrow> None
      | Some (name, s1) \<Rightarrow> (case labelled_digits '',pid='' s1 of None \<Rightarrow> None
      | Some (pid, s2) \<Rightarrow> (case labelled_digits '',fd='' s2 of None \<Rightarrow> None
      | Some (fd, s3) \<Rightarrow> if HasPrefix s3 '')'' then Some (name, pid, fd, tl s3) else None)))"

text \<open>All matches from left to right; the fuel is the length of the text.\<close>

fun owners_in :: "nat \<Rightarrow> string \<Rightarrow> (string \<times> string \<times> string) list" where
  "owners_in 0 s = []"
| "owners_in (Suc k) s =
     (if s = [] then []
      else case owner_at s of
        Some (name, pid, fd, rest) \<Rightarrow> (name, pid, fd) # owners_in k rest
      | None \<Rightarrow> owners_in k (tl s))"

fun port_owners :: "nat \<Rightarrow> (string \<times> string \<times> string) list \<Rightarrow> err + port_owner list" where
  "port_owners i [] = Inr []"
| "port_owners i ((name, pid, fd) # ms) =
     (case Unquote name of
        None \<Rightarrow> Inl (Msg (''invalid process name in port line '' @ FormatNat (i + 1)))
      | Some n \<Rightarrow>
          (case (ParseInt pid, ParseInt fd) of
             (Some p, Some f) \<Rightarrow>
               if p \<le> 0 then Inl (Msg (''invalid process in port line '' @ FormatNat (i + 1)))
               else (case port_owners i ms of Inl e \<Rightarrow> Inl e | Inr os \<Rightarrow> Inr (\<lparr>po_Name = n, po_PID = p, po_FD = f\<rparr> # os))
           | _ \<Rightarrow> Inl (Msg (''invalid process in port line '' @ FormatNat (i + 1)))))"

definition port_row :: "nat \<Rightarrow> string \<Rightarrow> err + port_info" where
  "port_row i line =
     (case takeFields line 6 of
        Some ([protocol, state, received, sent, here, peer], process) \<Rightarrow>
          if protocol \<notin> {''tcp'', ''udp'', ''tcp6'', ''udp6''} then Inl (Msg (''malformed port line '' @ FormatNat (i + 1)))
          else (case (ParseUint received, ParseUint sent) of
                  (Some rx, Some tx) \<Rightarrow>
                    if \<not> Contains here '':'' \<or> \<not> Contains peer '':'' then Inl (Msg (''invalid field in port line '' @ FormatNat (i + 1)))
                    else (case port_owners i (owners_in (length process) process) of
                            Inl e \<Rightarrow> Inl e
                          | Inr os \<Rightarrow> Inr \<lparr>pt_Owners = os, pt_Protocol = protocol, pt_State = state, pt_Local = here, pt_Peer = peer,
                                          pt_Process = process, pt_ReceiveQueue = rx, pt_SendQueue = tx\<rparr>)
                | _ \<Rightarrow> Inl (Msg (''invalid field in port line '' @ FormatNat (i + 1))))
      | _ \<Rightarrow> Inl (Msg (''malformed port line '' @ FormatNat (i + 1))))"

definition ParsePorts :: "string \<Rightarrow> err + port_info list" where
  "ParsePorts out = read_rows port_row ''Netid'' 0 (Split out newline)"

subsection \<open>Every line becomes a row\<close>

lemma read_rows_complete:
  "read_rows row word i ls = Inr rs \<Longrightarrow>
     length rs = length (filter (\<lambda>l. TrimSpace l \<noteq> [] \<and> \<not> header_line word (TrimSpace l)) ls)
     \<and> (\<forall>r \<in> set rs. \<exists>j l. row j l = Inr r)"
  by (induction ls arbitrary: i rs) (auto simp: Let_def split: if_splits sum.splits, blast)

text \<open>
  Processes and ports are read completely or not at all: there is a row for every line that is neither
  empty nor a header; a process has a positive number and shares that are finite and not negative, and
  a port has owners with positive numbers.
\<close>

lemma processes_complete:
  assumes "ParseProcesses out = Inr rs"
  shows "length rs = length (filter (\<lambda>l. TrimSpace l \<noteq> [] \<and> \<not> header_line ''PID'' (TrimSpace l)) (Split out newline))
     \<and> (\<forall>r \<in> set rs. 0 < pr_PID r \<and> pr_Name r \<noteq> [] \<and> \<not> below_zero (pr_CPU r) \<and> \<not> below_zero (pr_Memory r))"
proof -
  have number: "\<not> below_zero x" if "process_number s = Some x" for s x
    using that by (auto simp: process_number_def split: option.splits if_splits)
  have "0 < pr_PID r \<and> pr_Name r \<noteq> [] \<and> \<not> below_zero (pr_CPU r) \<and> \<not> below_zero (pr_Memory r)" if "process_row j l = Inr r" for j l r
    using that number by (auto simp: process_row_def split: option.splits list.splits if_splits)
  with read_rows_complete [OF assms [unfolded ParseProcesses_def]] show ?thesis by metis
qed

lemma port_owners_positive: "port_owners i ms = Inr os \<Longrightarrow> length os = length ms \<and> (\<forall>p \<in> set os. 0 < po_PID p)"
  by (induction i ms arbitrary: os rule: port_owners.induct) (auto split: option.splits sum.splits if_splits)

lemma port_row_owners: "port_row i l = Inr r \<Longrightarrow> port_owners i (owners_in (length (pt_Process r)) (pt_Process r)) = Inr (pt_Owners r)"
  by (auto simp: port_row_def split: option.splits list.splits if_splits sum.splits)

lemma ports_complete:
  assumes "ParsePorts out = Inr rs"
  shows "length rs = length (filter (\<lambda>l. TrimSpace l \<noteq> [] \<and> \<not> header_line ''Netid'' (TrimSpace l)) (Split out newline))
     \<and> (\<forall>r \<in> set rs. length (pt_Owners r) = length (owners_in (length (pt_Process r)) (pt_Process r)) \<and> (\<forall>p \<in> set (pt_Owners r). 0 < po_PID p))"
  using read_rows_complete [OF assms [unfolded ParsePorts_def]] port_owners_positive [OF port_row_owners] by metis

end
