(* ===== verification/Startup.thy ===== *)
theory Startup
  imports RemoteFiles Command
begin

text \<open>
  \<open>internal/remote/directory.go\<close>: how a terminal is started, so that the process of its shell is known
  without reading what the shell prints afterwards, and how its directory is asked for.
\<close>

definition marker_end :: char where
  "marker_end = CHR 0x1F"

definition terminal_marker :: "string \<Rightarrow> string" where
  "terminal_marker i = [CHR 0x1E] @ ''NexShell:'' @ i @ '':''"

definition terminal_script :: "string \<Rightarrow> string" where
  "terminal_script i = ''printf '' @ Quote (terminal_marker i @ ''%s'' @ [marker_end]) @ '' '' @ [CHR 0x22] @ ''$$'' @ [CHR 0x22]
     @ ''; exec '' @ [CHR 0x22] @ ''$SHELL'' @ [CHR 0x22] @ '' -l''"

definition terminalStartup :: "string \<Rightarrow> string \<times> string" where
  "terminalStartup i = (''exec /bin/sh -c '' @ Quote (terminal_script i), terminal_marker i)"

definition startup_limit :: nat where
  "startup_limit = 65536"

text \<open>
  The output is read byte by byte; \<open>seen\<close> is what was read so far, and the stream ends with an error.
  The rest of the output is what came before the marker, followed by what comes after it.
\<close>

fun read_pid :: "string \<Rightarrow> string \<Rightarrow> string \<Rightarrow> err + int \<times> string" where
  "read_pid marker seen [] =
     Inl (Msg (if length seen < startup_limit then ''EOF'' else ''the output before the start is too long''))"
| "read_pid marker seen (b # rest) =
     (if startup_limit \<le> length seen then Inl (Msg ''the output before the start is too long'')
      else if b \<noteq> marker_end then read_pid marker (seen @ [b]) rest
      else case Index (seen @ [b]) marker of
        None \<Rightarrow> read_pid marker (seen @ [b]) rest
      | Some start \<Rightarrow>
          (case ParseInt (drop (start + length marker) seen) of
             Some pid \<Rightarrow> if pid \<le> 0 then Inl (Msg ''the process of the terminal is not known'') else Inr (pid, take start seen @ rest)
           | None \<Rightarrow> Inl (Msg ''the process of the terminal is not known'')))"

definition readTerminalPID :: "string \<Rightarrow> string \<Rightarrow> err + int \<times> string" where
  "readTerminalPID marker out = read_pid marker [] out"

lemma read_pid_skip:
  "marker_end \<notin> set s \<Longrightarrow> length seen + length s \<le> startup_limit \<Longrightarrow>
     read_pid marker seen (s @ t) = read_pid marker (seen @ s) t"
proof (induction s arbitrary: seen)
  case (Cons b s)
  from Cons.IH [of "seen @ [b]"] Cons.prems show ?case by auto
qed simp

lemma Index_first:
  "c \<notin> set a \<Longrightarrow> Index (a @ (c # s) @ t) (c # s) = Some (length a)"
proof (induction a)
  case Nil
  have "HasPrefix ((c # s) @ t) (c # s)" by (rule HasPrefix_append)
  then show ?case by simp
next
  case (Cons d a)
  then have "\<not> HasPrefix (d # a @ (c # s) @ t) (c # s)" by (auto simp: HasPrefix_iff)
  with Cons show ?case by simp
qed

lemma FormatNat_plain: "marker_end \<notin> set (FormatNat n)"
  using FormatNat_digits [of n] by (auto simp: digits_ok_def list_all_iff is_digit_def marker_end_def)

text \<open>
  What starts the terminal is invisible.  Whatever the server prints before it, as long as it is short
  and has no control characters of the marker, the process is read from the answer of the script, and
  the output is that of the server without the answer.
\<close>

lemma terminal_start_is_hidden:
  assumes "CHR 0x1E \<notin> set banner" "marker_end \<notin> set banner" "CHR 0x1E \<notin> set i" "marker_end \<notin> set i" "0 < pid" "pid < 2 ^ 63"
    and "length (banner @ terminal_marker i @ FormatNat pid) < startup_limit"
  shows "readTerminalPID (terminal_marker i) (banner @ terminal_marker i @ FormatNat pid @ marker_end # rest) = Inr (int pid, banner @ rest)"
proof -
  let ?seen = "banner @ terminal_marker i @ FormatNat pid"
  have "marker_end \<notin> set ?seen"
    using assms(2,4) FormatNat_plain by (simp add: terminal_marker_def marker_end_def)
  with assms(7) have "read_pid (terminal_marker i) [] (?seen @ marker_end # rest) = read_pid (terminal_marker i) ?seen (marker_end # rest)"
    using read_pid_skip [of ?seen "[]" "terminal_marker i" "marker_end # rest"] by simp
  moreover have "Index (?seen @ [marker_end]) (terminal_marker i) = Some (length banner)"
    using Index_first [OF assms(1), of "''NexShell:'' @ i @ '':''" "FormatNat pid @ [marker_end]"] by (simp add: terminal_marker_def)
  ultimately show ?thesis
    using assms(5-7) ParseInt_FormatNat [OF assms(6)] by (simp add: readTerminalPID_def)
qed

text \<open>The shell of the account gets the script as one word.\<close>

lemma startup_words: "shell_words (fst (terminalStartup i)) = Some [''exec'', ''/bin/sh'', ''-c'', terminal_script i]"
  using lex_Quote [of "\<lambda>_. None" None "terminal_script i" "[]"]
  by (simp add: terminalStartup_def shell_words_def special_def apostrophe_def)

subsection \<open>The directory of a terminal\<close>

text \<open>\<open>closed\<close> and \<open>closed_since\<close> are the two looks at the channel that tells whether the session is closed.\<close>

definition TerminalDirectory :: "'w outside \<Rightarrow> 'w call \<Rightarrow> string \<Rightarrow> int \<Rightarrow> bool \<Rightarrow> bool \<Rightarrow> ('w, string) mact" where
  "TerminalDirectory R c host pid closed closed_since =
     (if closed then throw (Msg ''the terminal is closed'')
      else andThen (SFTP R c host) (\<lambda>_.
           andThen (attempt (on_net (read_link R host (''/proc/'' @ FormatInt pid @ ''/cwd'')))) (\<lambda>x.
             case x of
               Inl e \<Rightarrow> throw (Msg ''reading the directory of the terminal failed'')
             | Inr dir \<Rightarrow>
                 if \<not> HasPrefix dir ''/'' then throw (Msg ''the directory of the terminal is not absolute'')
                 else if closed_since then throw (Msg ''the terminal is closed'')
                 else ret dir)))"

lemma terminal_directory_absolute:
  assumes "TerminalDirectory R c host pid closed closed_since m = (Inr dir, m')"
  shows "IsAbs dir \<and> \<not> closed \<and> \<not> closed_since"
  using assms by (auto simp: TerminalDirectory_def IsAbs_def elim!: andThen_Inr split: if_splits sum.splits)

end
