(* ===== verification/TerminalCore.thy ===== *)
theory TerminalCore
  imports Monitor
begin

text \<open>
  \<open>internal/terminal/core.go\<close>, \<open>input.go\<close> and \<open>output_table.go\<close>: what surrounds the terminal emulator.

  The emulator is a library: a model of this theory sees of it what \<open>Core\<close> asks for, its size, its
  cells and lines, and is told what an operation of it does, as a list of effects.  Widths of texts
  and grapheme clusters come from a library too, and \<open>unicode\<close> holds the tables of Unicode that the
  code uses.
\<close>

subsection \<open>The queue of encoded input\<close>

record input_buffer =
  ib_data :: string
  ib_err :: "err option"

definition maxPendingInput :: nat where
  "maxPendingInput = 1024 * 1024"

definition newInputBuffer :: input_buffer where
  "newInputBuffer = \<lparr>ib_data = [], ib_err = None\<rparr>"

definition ib_fail :: "err \<Rightarrow> input_buffer \<Rightarrow> input_buffer" where
  "ib_fail e p = (if ib_err p \<noteq> None then p else p\<lparr>ib_err := Some e, ib_data := []\<rparr>)"

definition backlog :: err where
  "backlog = Msg ''more than 1 MiB of terminal input is waiting''"

definition ib_write :: "string \<Rightarrow> input_buffer \<Rightarrow> (nat \<times> err option) \<times> input_buffer" where
  "ib_write b p =
     (case ib_err p of
        Some e \<Rightarrow> ((0, Some e), p)
      | None \<Rightarrow>
          if maxPendingInput - length (ib_data p) < length b then ((0, Some backlog), ib_fail backlog p)
          else ((length b, None), p\<lparr>ib_data := ib_data p @ b\<rparr>))"

text \<open>\<open>None\<close> means that the reader goes on waiting.\<close>

definition ib_read :: "nat \<Rightarrow> input_buffer \<Rightarrow> (err + string) option \<times> input_buffer" where
  "ib_read n p =
     (if n = 0 then (Some (Inr []), p)
      else case ib_err p of
        Some e \<Rightarrow> (Some (Inl e), p)
      | None \<Rightarrow>
          if ib_data p = [] then (None, p) else (Some (Inr (take n (ib_data p))), p\<lparr>ib_data := drop n (ib_data p)\<rparr>))"

definition end_of_file :: err where
  "end_of_file = Msg ''EOF''"

definition closed_pipe :: err where
  "closed_pipe = Msg ''io: read/write on closed pipe''"

definition ib_close :: "input_buffer \<Rightarrow> input_buffer" where
  "ib_close = ib_fail end_of_file"

definition ib_error :: "input_buffer \<Rightarrow> err option" where
  "ib_error p = (if ib_err p = Some end_of_file then Some closed_pipe else ib_err p)"

text \<open>Any use of a queue: what was accepted and what was read, besides the queue.\<close>

inductive piped :: "string \<Rightarrow> string \<Rightarrow> input_buffer \<Rightarrow> bool" where
  piped_new: "piped [] [] newInputBuffer"
| piped_write: "piped acc got p \<Longrightarrow> ib_write b p = ((n, e), q) \<Longrightarrow> piped (acc @ take n b) got q"
| piped_read: "piped acc got p \<Longrightarrow> ib_read n p = (x, q) \<Longrightarrow> piped acc (got @ (case x of Some (Inr b) \<Rightarrow> b | _ \<Rightarrow> [])) q"
| piped_close: "piped acc got p \<Longrightarrow> piped acc got (ib_close p)"

lemma ib_write_cases:
  assumes "ib_write b p = ((n, e), q)"
  shows "(\<exists>x. ib_err p = Some x) \<and> q = p \<and> n = 0 \<and> e \<noteq> None
    \<or> ib_err p = None \<and> ib_err q = Some backlog \<and> ib_data q = [] \<and> n = 0 \<and> e \<noteq> None
    \<or> ib_err p = None \<and> ib_err q = None \<and> ib_data q = ib_data p @ b \<and> n = length b \<and> e = None
       \<and> length (ib_data p) + length b \<le> max maxPendingInput (length (ib_data p))"
proof (cases "ib_err p")
  case None
  with assms show ?thesis by (cases "maxPendingInput - length (ib_data p) < length b") (auto simp: ib_write_def ib_fail_def)
qed (use assms in \<open>auto simp: ib_write_def\<close>)

lemma ib_read_cases:
  assumes "ib_read n p = (x, q)"
  shows "ib_err q = ib_err p \<and> (case x of Some (Inr b) \<Rightarrow> b | _ \<Rightarrow> []) @ ib_data q = ib_data p
     \<or> ib_err p \<noteq> None \<and> q = p \<and> (case x of Some (Inr b) \<Rightarrow> b | _ \<Rightarrow> []) = []"
  using assms by (cases "ib_err p") (auto simp: ib_read_def split: if_splits)

definition piped_ok :: "string \<Rightarrow> string \<Rightarrow> input_buffer \<Rightarrow> bool" where
  "piped_ok acc got p \<longleftrightarrow> length (ib_data p) \<le> maxPendingInput \<and> (\<exists>lost. acc = got @ lost)
     \<and> (case ib_err p of None \<Rightarrow> acc = got @ ib_data p | Some _ \<Rightarrow> ib_data p = [])"

lemma piped_state: "piped acc got p \<Longrightarrow> piped_ok acc got p"
proof (induction rule: piped.induct)
  case piped_new
  then show ?case by (simp add: newInputBuffer_def piped_ok_def)
next
  case (piped_write acc got p b n e q)
  from ib_write_cases [OF piped_write.hyps(2)] piped_write.IH show ?case
    by (elim disjE) (auto simp: piped_ok_def)
next
  case (piped_read acc got p n x q)
  from ib_read_cases [OF piped_read.hyps(2)] piped_read.IH show ?case
  proof (elim disjE conjE)
    assume q: "ib_err q = ib_err p" "(case x of Some (Inr b) \<Rightarrow> b | _ \<Rightarrow> []) @ ib_data q = ib_data p"
    let ?b = "case x of Some (Inr b) \<Rightarrow> b | _ \<Rightarrow> []"
    have "length (ib_data q) \<le> length (ib_data p)" using q(2) by (metis length_append le_add2)
    moreover have "ib_data p = [] \<Longrightarrow> ?b = [] \<and> ib_data q = []" using q(2) by (metis append_is_Nil_conv)
    moreover have "\<exists>lost. ib_data p = ?b @ lost" using q(2) by metis
    ultimately show ?thesis using piped_read.IH q by (cases "ib_err p") (auto simp: piped_ok_def)
  qed simp
next
  case (piped_close acc got p)
  then show ?case by (cases "ib_err p") (auto simp: ib_close_def ib_fail_def piped_ok_def)
qed

text \<open>
  C39: Input to a terminal is delivered in order and never piles up.  However writes, reads and the
  closing follow each other, at most 1 MiB waits; what was read is a beginning of what was accepted;
  as long as no error is set, the rest is exactly what waits; and a write is either accepted whole
  or refused whole.
\<close>

theorem input_is_bounded_fifo:
  assumes "piped acc got p"
  shows "length (ib_data p) \<le> maxPendingInput \<and> (\<exists>rest. acc = got @ rest) \<and> (ib_err p = None \<longrightarrow> acc = got @ ib_data p)
     \<and> (\<forall>b n e q. ib_write b p = ((n, e), q) \<longrightarrow> (n = length b \<and> e = None) \<or> (n = 0 \<and> e \<noteq> None \<and> ib_err q \<noteq> None))"
proof -
  have "(n = length b \<and> e = None) \<or> (n = 0 \<and> e \<noteq> None \<and> ib_err q \<noteq> None)" if "ib_write b p = ((n, e), q)" for b n e q
    using ib_write_cases [OF that] by auto
  then show ?thesis using piped_state [OF assms] by (auto simp: piped_ok_def)
qed

lemma ib_write_new: "length b \<le> maxPendingInput \<Longrightarrow> ib_write b newInputBuffer = ((length b, None), \<lparr>ib_data = b, ib_err = None\<rparr>)"
  by (simp add: ib_write_def newInputBuffer_def)

theorem input_is_bounded_fifo_witness:
  "\<exists>p. piped ''abc'' ''ab'' p \<and> ib_err p = None \<and> ''abc'' = ''ab'' @ ib_data p"
proof -
  have few: "length ''abc'' \<le> maxPendingInput" by (simp add: maxPendingInput_def del: One_nat_def)
  have "piped ([] @ take 3 ''abc'') [] \<lparr>ib_data = ''abc'', ib_err = None\<rparr>"
    by (rule piped_write [OF piped_new, of "''abc''" 3 None]) (use ib_write_new [OF few] in simp)
  then have "piped ''abc'' [] \<lparr>ib_data = ''abc'', ib_err = None\<rparr>" by simp
  from piped_read [OF this, of 2 "Some (Inr ''ab'')" "\<lparr>ib_data = ''c'', ib_err = None\<rparr>"]
  have run: "piped ''abc'' ''ab'' \<lparr>ib_data = ''c'', ib_err = None\<rparr>" by (simp add: ib_read_def numeral_2_eq_2)
  from input_is_bounded_fifo [OF run] run show ?thesis
    by (intro exI [of _ "\<lparr>ib_data = ''c'', ib_err = None\<rparr>"] conjI) simp_all
qed

subsection \<open>The screen\<close>

record 'y cell =
  cell_Text :: string
  cell_Width :: nat
  cell_Style :: 'y

text \<open>What is seen of the emulator; a position may have no cell.\<close>

record 'y emulator =
  em_width :: nat
  em_height :: nat
  em_alt :: bool
  em_cursor :: "nat \<times> nat"
  em_history :: nat
  em_old :: "nat \<Rightarrow> nat \<Rightarrow> 'y cell option"
  em_cell :: "nat \<Rightarrow> nat \<Rightarrow> 'y cell option"
  em_lines :: "string list"

record 'y screen =
  sc_Rows :: "'y cell option list list"
  sc_CursorX :: int
  sc_CursorY :: int
  sc_Alt :: bool
  sc_History :: nat

datatype effect = Reply string | Cursor bool | Mode_on nat | Mode_off nat

record 'y core =
  co_vt :: "'y emulator"
  co_input :: input_buffer
  co_visible :: bool
  co_modes :: "nat list"

text \<open>The four modes in which the program of the terminal follows the mouse.\<close>

definition mouse_modes :: "nat list" where
  "mouse_modes = [9, 1000, 1002, 1003]"

fun apply_effect :: "effect \<Rightarrow> 'y core \<Rightarrow> 'y core" where
  "apply_effect (Reply b) c = c\<lparr>co_input := snd (ib_write b (co_input c))\<rparr>"
| "apply_effect (Cursor v) c = c\<lparr>co_visible := v\<rparr>"
| "apply_effect (Mode_on m) c = (if m \<in> set mouse_modes then c\<lparr>co_modes := List.insert m (co_modes c)\<rparr> else c)"
| "apply_effect (Mode_off m) c = c\<lparr>co_modes := removeAll m (co_modes c)\<rparr>"

text \<open>\<open>feed\<close> is an operation of the emulator: its new state, what it does besides, and its outcome.\<close>

definition Core_Write :: "(string \<Rightarrow> 'y emulator \<Rightarrow> 'y emulator \<times> effect list \<times> nat \<times> err option) \<Rightarrow> string \<Rightarrow> 'y core
    \<Rightarrow> (nat \<times> err option) \<times> 'y core" where
  "Core_Write feed b c =
     (case feed b (co_vt c) of
        (vt, effects, n, e) \<Rightarrow>
          let c1 = fold apply_effect effects (c\<lparr>co_vt := vt\<rparr>)
          in ((n, if e = None then ib_error (co_input c1) else e), c1))"

definition Core_send :: "('i \<Rightarrow> 'y emulator \<Rightarrow> effect list) \<Rightarrow> 'i \<Rightarrow> 'y core \<Rightarrow> 'y core" where
  "Core_send encode i c = fold apply_effect (encode i (co_vt c)) c"

definition Core_Resize :: "(nat \<Rightarrow> nat \<Rightarrow> 'y emulator \<Rightarrow> 'y emulator) \<Rightarrow> nat \<Rightarrow> nat \<Rightarrow> 'y core \<Rightarrow> 'y core" where
  "Core_Resize resize cols rows c = (if cols < 2 \<or> rows < 2 then c else c\<lparr>co_vt := resize cols rows (co_vt c)\<rparr>)"

definition MouseTracking :: "'y core \<Rightarrow> bool" where
  "MouseTracking c \<longleftrightarrow> co_modes c \<noteq> []"

definition history_of :: "'y emulator \<Rightarrow> nat" where
  "history_of vt = (if em_alt vt then 0 else em_history vt)"

text \<open>A line of the history, or of the screen below it.\<close>

definition cell_at :: "'y emulator \<Rightarrow> nat \<Rightarrow> nat \<Rightarrow> nat \<Rightarrow> 'y cell option" where
  "cell_at vt history x y = (if y < history then em_old vt x y else em_cell vt x (y - history))"

definition clamp_offset :: "int \<Rightarrow> nat \<Rightarrow> nat" where
  "clamp_offset offset history = nat (max 0 (min offset (int history)))"

definition Snapshot_core :: "int \<Rightarrow> 'y core \<Rightarrow> 'y screen" where
  "Snapshot_core offset c =
     (let vt = co_vt c; history = history_of vt; back = clamp_offset offset history
      in \<lparr>sc_Rows = map (\<lambda>y. map (\<lambda>x. cell_at vt history x (history - back + y)) [0 ..< em_width vt]) [0 ..< em_height vt],
          sc_CursorX = int (fst (em_cursor vt)),
          sc_CursorY = (if co_visible c then int (snd (em_cursor vt)) + int back else - 1),
          sc_Alt = em_alt vt, sc_History = history\<rparr>)"

definition cell_text :: "'y cell option \<Rightarrow> string" where
  "cell_text x =
     (case x of None \<Rightarrow> '' ''
      | Some c \<Rightarrow> if cell_Width c = 0 then [] else if cell_Text c = [] then '' '' else cell_Text c)"

definition Lines :: "'y core \<Rightarrow> string list" where
  "Lines c =
     (let vt = co_vt c; history = history_of vt
      in map (\<lambda>y. TrimRight (concat (map (\<lambda>x. cell_text (cell_at vt history x y)) [0 ..< em_width vt])) '' '')
           [0 ..< history + em_height vt])"

record unicode =
  to_lower :: "string \<Rightarrow> string"
  to_upper :: "string \<Rightarrow> string"
  has_letter :: "string \<Rightarrow> bool"

definition Search :: "unicode \<Rightarrow> string \<Rightarrow> 'y core \<Rightarrow> nat list" where
  "Search U query c =
     (if query = [] then []
      else let ls = Lines c in filter (\<lambda>i. Contains (to_lower U (ls ! i)) (to_lower U query)) [0 ..< length ls])"

subsection \<open>Tables in the output\<close>

record output_table =
  ot_Headers :: "string list"
  ot_Rows :: "string list list"

text \<open>\<open>tableGap\<close>: the runs of two or more spaces, with their ends.\<close>

function table_gaps :: "nat \<Rightarrow> string \<Rightarrow> (nat \<times> nat) list" where
  "table_gaps i s =
     (case s of
        [] \<Rightarrow> []
      | c # t \<Rightarrow>
          if c \<noteq> CHR '' '' then table_gaps (Suc i) t
          else let n = length (takeWhile (\<lambda>c. c = CHR '' '') s)
               in (if 2 \<le> n then [(i, i + n)] else []) @ table_gaps (i + n) (dropWhile (\<lambda>c. c = CHR '' '') s))"
  by pat_completeness auto
termination
  by (relation "measure (\<lambda>(i, s). length s)") (auto simp: le_imp_less_Suc length_dropWhile_le)

declare table_gaps.simps [simp del]

definition column_starts :: "string \<Rightarrow> nat list" where
  "column_starts header = 0 # map snd (filter (\<lambda>(a, b). 0 < a \<and> b < length header) (table_gaps 0 header))"

definition column_names :: "string \<Rightarrow> nat list \<Rightarrow> string list" where
  "column_names header starts =
     map (\<lambda>(a, b). TrimSpace (take (b - a) (drop a header))) (zip starts (tl starts @ [length header]))"

definition header_name :: "unicode \<Rightarrow> string \<Rightarrow> bool" where
  "header_name U name \<longleftrightarrow> name \<noteq> [] \<and> has_letter U name \<and> name = to_upper U name"

definition shell_prompt :: "string \<Rightarrow> bool" where
  "shell_prompt l \<longleftrightarrow>
     (let w = takeWhile (\<lambda>c. \<not> re_space c) l in w \<noteq> [] \<and> last w \<in> set ''#$>'' \<and> length w < length l)"

fun close_columns :: "nat \<Rightarrow> string \<Rightarrow> nat list \<Rightarrow> string list \<times> string \<times> nat list" where
  "close_columns pos v [] = ([], v, [])"
| "close_columns pos v (b # bs) =
     (if b \<le> pos then (case close_columns pos [] bs of (cells, v1, bs1) \<Rightarrow> (TrimSpace v # cells, v1, bs1)) else ([], v, b # bs))"

text \<open>A line as its grapheme clusters with their widths; the columns that are left begin at \<open>bs\<close>.\<close>

fun split_cells :: "nat list \<Rightarrow> nat \<Rightarrow> string \<Rightarrow> (string \<times> nat) list \<Rightarrow> string list" where
  "split_cells bs pos v [] = TrimSpace v # replicate (length bs) []"
| "split_cells bs pos v ((c, w) # cs) =
     (case close_columns pos v bs of (cells, v1, bs1) \<Rightarrow> cells @ split_cells bs1 (pos + w) (v1 @ c) cs)"

definition splitDisplayColumns :: "(string \<Rightarrow> (string \<times> nat) list) \<Rightarrow> string \<Rightarrow> nat list \<Rightarrow> string list" where
  "splitDisplayColumns clusters line columns = split_cells (tl columns) 0 [] (clusters line)"

fun table_rows :: "(string \<Rightarrow> (string \<times> nat) list) \<Rightarrow> nat list \<Rightarrow> string list \<Rightarrow> string list list" where
  "table_rows clusters columns [] = []"
| "table_rows clusters columns (l # ls) =
     (if TrimSpace l = [] \<or> shell_prompt l then []
      else let cells = splitDisplayColumns clusters l columns
           in if length (filter (\<lambda>c. c \<noteq> []) cells) < 2 then [] else cells # table_rows clusters columns ls)"

text \<open>The table whose header is the last one: the lines come from the last to the first.\<close>

fun find_table :: "unicode \<Rightarrow> (string \<Rightarrow> nat) \<Rightarrow> (string \<Rightarrow> (string \<times> nat) list) \<Rightarrow> string list \<Rightarrow> string list \<Rightarrow> output_table option" where
  "find_table U width clusters [] below = None"
| "find_table U width clusters (header # earlier) below =
     (let starts = column_starts header; names = column_names header starts
      in if length starts < 2 \<or> \<not> list_all (header_name U) names then find_table U width clusters earlier (header # below)
         else Some \<lparr>ot_Headers = names, ot_Rows = table_rows clusters (map (\<lambda>a. width (take a header)) starts) below\<rparr>)"

definition ParseOutputTable :: "unicode \<Rightarrow> (string \<Rightarrow> nat) \<Rightarrow> (string \<Rightarrow> (string \<times> nat) list) \<Rightarrow> string list \<Rightarrow> output_table option" where
  "ParseOutputTable U width clusters ls = find_table U width clusters (rev ls) []"

definition tab :: string where
  "tab = [CHR 0x09]"

definition TSV :: "output_table \<Rightarrow> string" where
  "TSV t = Join (map (\<lambda>row. Join row tab) (ot_Headers t # ot_Rows t)) newline"

definition LatestTable :: "unicode \<Rightarrow> (string \<Rightarrow> nat) \<Rightarrow> (string \<Rightarrow> (string \<times> nat) list) \<Rightarrow> 'y core \<Rightarrow> output_table option" where
  "LatestTable U width clusters c =
     (if em_alt (co_vt c) then None else ParseOutputTable U width clusters (em_lines (co_vt c)))"

lemma close_columns_length:
  "close_columns pos v bs = (cells, v1, bs1) \<Longrightarrow> length cells + length bs1 = length bs"
  by (induction pos v bs arbitrary: cells v1 bs1 rule: close_columns.induct) (auto split: if_splits prod.splits)

lemma split_cells_length: "length (split_cells bs pos v cs) = Suc (length bs)"
  by (induction bs pos v cs rule: split_cells.induct) (auto split: prod.split dest: close_columns_length)

lemma table_rows_length:
  "columns \<noteq> [] \<Longrightarrow> row \<in> set (table_rows clusters columns ls) \<Longrightarrow> length row = length columns
     \<and> 2 \<le> length (filter (\<lambda>c. c \<noteq> []) row)"
  by (induction ls) (auto simp: Let_def splitDisplayColumns_def split_cells_length split: if_splits)

text \<open>
  Every row of a table that is shown has one cell for each header, so that no index is out of
  range, whatever the program printed; a table has at least two columns, each with a name, and each
  of its rows at least two cells that are not empty.
\<close>

theorem table_is_rectangular:
  assumes "ParseOutputTable U width clusters ls = Some t"
  shows "2 \<le> length (ot_Headers t) \<and> list_all (header_name U) (ot_Headers t)
     \<and> (\<forall>row \<in> set (ot_Rows t). length row = length (ot_Headers t) \<and> 2 \<le> length (filter (\<lambda>c. c \<noteq> []) row))"
proof -
  have "2 \<le> length (ot_Headers t) \<and> list_all (header_name U) (ot_Headers t)
     \<and> (\<forall>row \<in> set (ot_Rows t). length row = length (ot_Headers t) \<and> 2 \<le> length (filter (\<lambda>c. c \<noteq> []) row))"
    if "find_table U width clusters rs below = Some t" for rs below
    using that
  proof (induction U width clusters rs below rule: find_table.induct)
    case (2 U width clusters header earlier below)
    have names: "length (column_names header starts) = length starts" if "starts \<noteq> []" for starts
      using that by (cases starts) (simp_all add: column_names_def)
    have "column_starts header \<noteq> []" by (simp add: column_starts_def)
    with 2 names table_rows_length [of "map (\<lambda>a. width (take a header)) (column_starts header)" _ clusters below]
    show ?case by (auto simp: Let_def split: if_splits)
  qed simp
  with assms show ?thesis by (simp add: ParseOutputTable_def)
qed

text \<open>The tables for ASCII, where every character is as wide as it is long.\<close>

definition ascii :: unicode where
  "ascii = \<lparr>to_lower = map (\<lambda>c. if c \<in> set ''ABCDEFGHIJKLMNOPQRSTUVWXYZ'' then char_of (of_char c + (32 :: nat)) else c),
     to_upper = map (\<lambda>c. if c \<in> set ''abcdefghijklmnopqrstuvwxyz'' then char_of (of_char c - (32 :: nat)) else c),
     has_letter = list_ex (\<lambda>c. c \<in> set ''ABCDEFGHIJKLMNOPQRSTUVWXYZabcdefghijklmnopqrstuvwxyz'')\<rparr>"

definition ascii_clusters :: "string \<Rightarrow> (string \<times> nat) list" where
  "ascii_clusters s = map (\<lambda>c. ([c], 1)) s"

lemma demo_table: "ParseOutputTable ascii length ascii_clusters [''ID  NAME'', ''1   web''] = Some \<lparr>ot_Headers = [''ID'', ''NAME''], ot_Rows = [[''1'', ''web'']]\<rparr>"
  by code_simp

theorem table_is_rectangular_witness:
  "ParseOutputTable ascii length ascii_clusters [''ID  NAME'', ''1   web''] = Some \<lparr>ot_Headers = [''ID'', ''NAME''], ot_Rows = [[''1'', ''web'']]\<rparr>
   \<and> (\<forall>row \<in> set [[''1'', ''web'']]. length row = length [''ID'', ''NAME''])"
  using demo_table table_is_rectangular [OF demo_table] by simp

end
