(* ===== verification/TerminalView.thy ===== *)
theory TerminalView
  imports Complex_Main TerminalCore "HOL-Library.Sublist"
begin

text \<open>
  \<open>internal/terminal/view.go\<close>: the state of a terminal's widget, its queues and what the user does.

  Positions are cells, already divided by the size of a cell.  Painting and the timer that refreshes
  the widget are not modelled; the goroutines that take from the queues are steps of their own.
\<close>

subsection \<open>State\<close>

datatype modifier = Shift | Ctrl | Alt

datatype button = Primary | Secondary

text \<open>What is put on the queue for the emulator: a key with its modifiers, a text that is typed or pasted, the mouse.\<close>

datatype mouse_event = Click | Release | Motion | Wheel_up | Wheel_down

datatype action =
    Press string "modifier set"
  | Type string
  | Paste string
  | Mouse mouse_event bool nat nat "modifier set"

record 'y view =
  v_core :: "'y core"
  v_cols :: nat
  v_rows :: nat
  v_offset :: int
  v_focused :: bool
  v_from :: int
  v_to :: int
  v_selecting :: bool
  v_screen :: "'y screen option"
  v_keys :: "action list"
  v_done :: bool
  v_modifier :: "modifier set"
  v_reports :: "err list"
  v_resize :: "(nat \<times> nat) option"
  v_background :: rat

definition NewView :: "'y emulator \<Rightarrow> 'y view" where
  "NewView vt = \<lparr>v_core = \<lparr>co_vt = vt, co_input = newInputBuffer, co_visible = True, co_modes = []\<rparr>, v_cols = 80, v_rows = 24,
     v_offset = 0, v_focused = False, v_from = - 1, v_to = - 1, v_selecting = False, v_screen = None, v_keys = [], v_done = False,
     v_modifier = {}, v_reports = [], v_resize = None, v_background = 0\<rparr>"

definition clearSelection :: "'y view \<Rightarrow> 'y view" where
  "clearSelection v = v\<lparr>v_screen := None, v_from := - 1, v_to := - 1\<rparr>"

definition queue_size :: nat where
  "queue_size = 256"

definition short_write :: err where
  "short_write = Msg ''short write''"

definition enqueue :: "action \<Rightarrow> 'y view \<Rightarrow> 'y view" where
  "enqueue a v =
     (if v_done v then v
      else if length (v_keys v) < queue_size then v\<lparr>v_keys := v_keys v @ [a]\<rparr>
      else v\<lparr>v_reports := v_reports v @ [short_write]\<rparr>)"

definition Close_view :: "'y view \<Rightarrow> 'y view" where
  "Close_view v =
     (if v_done v then v else v\<lparr>v_done := True, v_core := (v_core v)\<lparr>co_input := ib_close (co_input (v_core v))\<rparr>\<rparr>)"

subsection \<open>Resizing\<close>

text \<open>A mailbox of one request: a new one replaces the one that waits.\<close>

definition queueResize :: "nat \<times> nat \<Rightarrow> 'y view \<Rightarrow> 'y view" where
  "queueResize r v = (if v_done v then v else v\<lparr>v_resize := Some r\<rparr>)"

text \<open>\<open>cols\<close> and \<open>rows\<close> are how many cells fit; \<open>follow\<close> says that the session is told.\<close>

definition Resize_view :: "(nat \<Rightarrow> nat \<Rightarrow> 'y emulator \<Rightarrow> 'y emulator) \<Rightarrow> bool \<Rightarrow> nat \<Rightarrow> nat \<Rightarrow> 'y view \<Rightarrow> 'y view" where
  "Resize_view resize follow cols0 rows0 v =
     (let cols = max 2 cols0; rows = max 2 rows0
      in if cols = v_cols v \<and> rows = v_rows v then v
         else let v1 = (clearSelection v)\<lparr>v_cols := cols, v_rows := rows, v_core := Core_Resize resize cols rows (v_core v)\<rparr>
              in if follow then queueResize (rows, cols) v1 else v1)"

subsection \<open>The keyboard\<close>

definition FocusGained :: "'y view \<Rightarrow> 'y view" where
  "FocusGained v = v\<lparr>v_focused := True\<rparr>"

definition FocusLost :: "'y view \<Rightarrow> 'y view" where
  "FocusLost v = v\<lparr>v_focused := False, v_modifier := {}\<rparr>"

definition TypedRune :: "string \<Rightarrow> 'y view \<Rightarrow> 'y view" where
  "TypedRune r v = enqueue (Type r) ((clearSelection v)\<lparr>v_offset := 0\<rparr>)"

definition special_keys :: "string list" where
  "special_keys = [''Return'', ''KP_Enter'', ''Tab'', ''BackSpace'', ''Delete'', ''Escape'', ''Up'', ''Down'', ''Left'', ''Right'',
     ''Home'', ''End'', ''Prior'', ''Next'', ''F1'', ''F2'', ''F3'', ''F4'', ''F5'', ''F6'', ''F7'', ''F8'', ''F9'', ''F10'', ''F11'', ''F12'']"

definition TypedKey :: "string \<Rightarrow> 'y view \<Rightarrow> 'y view" where
  "TypedKey key v =
     (let v1 = clearSelection v
      in if key \<notin> set special_keys then v1 else enqueue (Press key (v_modifier v)) (v1\<lparr>v_offset := 0\<rparr>))"

definition TypedPaste :: "string \<Rightarrow> 'y view \<Rightarrow> 'y view" where
  "TypedPaste words = enqueue (Paste words)"

definition TypedControl :: "(string \<Rightarrow> string) \<Rightarrow> modifier set \<Rightarrow> string \<Rightarrow> 'y view \<Rightarrow> 'y view" where
  "TypedControl lower_case mods key v =
     (if Ctrl \<in> mods \<and> Shift \<notin> mods \<and> length (lower_case key) = 1 then enqueue (Press (lower_case key) {Ctrl}) v else v)"

definition KeyDown :: "modifier option \<Rightarrow> 'y view \<Rightarrow> 'y view" where
  "KeyDown m v = (case m of None \<Rightarrow> v | Some m \<Rightarrow> v\<lparr>v_modifier := insert m (v_modifier v)\<rparr>)"

definition KeyUp :: "modifier option \<Rightarrow> 'y view \<Rightarrow> 'y view" where
  "KeyUp m v = (case m of None \<Rightarrow> v | Some m \<Rightarrow> v\<lparr>v_modifier := v_modifier v - {m}\<rparr>)"

definition Send_text :: "string \<Rightarrow> 'y view \<Rightarrow> 'y view" where
  "Send_text words = enqueue (Type words)"

subsection \<open>Selecting and copying\<close>

definition view_position :: "int \<Rightarrow> int \<Rightarrow> 'y view \<Rightarrow> int" where
  "view_position px py v =
     min (int (v_rows v) - 1) (max 0 py) * int (v_cols v) + min (int (v_cols v) - 1) (max 0 px)"

text \<open>The selected cells of a row, and whether the row ends a line of the copy.\<close>

definition copied_row :: "nat \<Rightarrow> int \<Rightarrow> int \<Rightarrow> nat \<times> 'y cell option list \<Rightarrow> string" where
  "copied_row cols a b r =
     (case r of (y, row) \<Rightarrow>
        concat (map (\<lambda>(x, cell).
            let i = int (y * cols + x)
            in case cell of
                 None \<Rightarrow> []
               | Some c \<Rightarrow>
                   if i < a \<or> b < i \<or> cell_Width c = 0 then [] else if cell_Text c = [] then '' '' else cell_Text c)
          (enumerate 0 row))
        @ (if int (y * cols) \<le> b \<and> a < int ((y + 1) * cols) \<and> int (y * cols) < b then newline else []))"

definition Copy_selection :: "'y view \<Rightarrow> string option" where
  "Copy_selection v =
     (let s = (case v_screen v of Some s \<Rightarrow> s | None \<Rightarrow> Snapshot_core (v_offset v) (v_core v));
          a = min (v_from v) (v_to v); b = max (v_from v) (v_to v)
      in if v_from v < 0 \<or> v_to v < 0 then None
         else Some (TrimSuffix (concat (map (copied_row (v_cols v) a b) (enumerate 0 (sc_Rows s)))) newline))"

text \<open>Whether the mouse goes to the program in the terminal, and the event it gets.\<close>

definition mouse_at :: "mouse_event \<Rightarrow> bool \<Rightarrow> int \<Rightarrow> int \<Rightarrow> 'y view \<Rightarrow> action" where
  "mouse_at event right px py v = Mouse event right (nat px) (nat py) (v_modifier v)"

definition MouseDown :: "button \<Rightarrow> bool \<Rightarrow> int \<Rightarrow> int \<Rightarrow> 'y view \<Rightarrow> 'y view" where
  "MouseDown b shift px py v =
     (if MouseTracking (v_core v) \<and> \<not> shift then enqueue (mouse_at Click (b = Secondary) px py v) v
      else if b = Primary
      then v\<lparr>v_screen := Some (Snapshot_core (v_offset v) (v_core v)), v_from := view_position px py v,
             v_to := view_position px py v, v_selecting := True\<rparr>
      else v)"

definition MouseUp :: "int \<Rightarrow> int \<Rightarrow> 'y view \<Rightarrow> 'y view" where
  "MouseUp px py v =
     (if \<not> v_selecting v \<and> MouseTracking (v_core v) then enqueue (mouse_at Release False px py v) v else v)\<lparr>v_selecting := False\<rparr>"

definition Dragged :: "int \<Rightarrow> int \<Rightarrow> 'y view \<Rightarrow> 'y view" where
  "Dragged px py v =
     (if \<not> v_selecting v \<and> MouseTracking (v_core v) then enqueue (mouse_at Motion False px py v) v
      else if v_selecting v then v\<lparr>v_to := view_position px py v\<rparr> else v)"

definition DragEnd :: "'y view \<Rightarrow> 'y view" where
  "DragEnd v = v\<lparr>v_selecting := False\<rparr>"

definition Scrolled :: "int \<Rightarrow> bool \<Rightarrow> int \<Rightarrow> int \<Rightarrow> 'y view \<Rightarrow> 'y view" where
  "Scrolled dy up px py v =
     (if MouseTracking (v_core v) \<and> Shift \<notin> v_modifier v
      then enqueue (mouse_at (if up then Wheel_up else Wheel_down) False px py v) v
      else (clearSelection v)\<lparr>v_offset :=
             max 0 (min (int (sc_History (Snapshot_core (v_offset v) (v_core v)))) (v_offset v + dy * 3))\<rparr>)"

definition Search_view :: "unicode \<Rightarrow> string \<Rightarrow> 'y view \<Rightarrow> nat \<times> 'y view" where
  "Search_view U query v =
     (let hits = Search U query (v_core v)
      in if hits = [] then (0, v)
         else (length hits, v\<lparr>v_offset := max 0 (int (sc_History (Snapshot_core 0 (v_core v))) - int (last hits))\<rparr>))"

text \<open>The opacity of a background is at most 0.15.\<close>

definition SetBackground :: "rat \<Rightarrow> 'y view \<Rightarrow> 'y view" where
  "SetBackground opacity v = v\<lparr>v_background := max 0 (min (15 / 100) opacity)\<rparr>"

subsection \<open>What is searched for is shown\<close>

lemma Search_hits:
  "i \<in> set (Search U query c) \<Longrightarrow> query \<noteq> [] \<and> i < history_of (co_vt c) + em_height (co_vt c)
     \<and> Contains (to_lower U (Lines c ! i)) (to_lower U query)"
  by (auto simp: Search_def Let_def Lines_def split: if_splits)

text \<open>
  A search that finds something shows it, on a screen that has a row.  The view scrolls to the last line that contains the
  text in any case, and a row of the screen that is shown then has exactly the cells of that line;
  the offset stays within the history.
\<close>

theorem search_shows_the_hit:
  assumes "Search_view U query v = (n, v')" and "0 < n" and "0 < em_height (co_vt (v_core v))"
  shows "0 \<le> v_offset v' \<and> v_offset v' \<le> int (history_of (co_vt (v_core v)))
     \<and> (\<exists>y < em_height (co_vt (v_core v)). \<exists>row.
          sc_Rows (Snapshot_core (v_offset v') (v_core v')) ! y = row
          \<and> Contains (to_lower U (TrimRight (concat (map cell_text row)) '' '')) (to_lower U query))"
proof -
  let ?vt = "co_vt (v_core v)" and ?hits = "Search U query (v_core v)"
  let ?h = "history_of ?vt"
  have hits: "?hits \<noteq> []" and v': "v' = v\<lparr>v_offset := max 0 (int ?h - int (last ?hits))\<rparr>"
    using assms by (auto simp: Search_view_def Let_def Snapshot_core_def split: if_splits)
  from Search_hits [of "last ?hits" U query "v_core v"] hits
  have hit: "last ?hits < ?h + em_height ?vt" "Contains (to_lower U (Lines (v_core v) ! last ?hits)) (to_lower U query)"
    by auto
  define y where "y = last ?hits - ?h"
  let ?up = "clamp_offset (v_offset v') ?h"
  have rows: "?h - ?up + y = last ?hits" "y < em_height ?vt"
    using hit(1) assms(3) by (auto simp: v' clamp_offset_def y_def)
  have core: "v_core v' = v_core v" by (simp add: v')
  let ?row = "map (\<lambda>x. cell_at ?vt ?h x (last ?hits)) [0 ..< em_width ?vt]"
  have "sc_Rows (Snapshot_core (v_offset v') (v_core v')) ! y = ?row"
    using rows by (simp add: Snapshot_core_def Let_def core)
  moreover have "Lines (v_core v) ! last ?hits = TrimRight (concat (map cell_text ?row)) '' ''"
    using hit(1) by (simp add: Lines_def Let_def comp_def)
  ultimately show ?thesis using hit(2) rows(2) by (auto simp: v')
qed

definition demo_emulator :: "unit emulator" where
  "demo_emulator = \<lparr>em_width = 2, em_height = 1, em_alt = False, em_cursor = (0, 0), em_history = 1,
     em_old = (\<lambda>x y. Some \<lparr>cell_Text = ''A'', cell_Width = 1, cell_Style = ()\<rparr>), em_cell = (\<lambda>x y. None), em_lines = []\<rparr>"

lemma demo_search: "fst (Search_view ascii ''a'' (NewView demo_emulator)) = 1" "v_offset (snd (Search_view ascii ''a'' (NewView demo_emulator))) = 1"
  by code_simp+

theorem search_shows_the_hit_witness:
  "v_offset (snd (Search_view ascii ''a'' (NewView demo_emulator))) = 1 \<and> (1 :: int) \<le> int (history_of demo_emulator)"
  using search_shows_the_hit [of ascii "''a''" "NewView demo_emulator", OF prod.collapse [symmetric]] demo_search
  by (simp add: NewView_def demo_emulator_def history_of_def)

subsection \<open>Queues\<close>

text \<open>
  The goroutine that applies sizes: it takes the request that waits, and applies it unless the view
  was closed meanwhile.  A state is the mailbox, whether the view is closed, the request in the
  goroutine's hand and the sizes applied so far.
\<close>

record resizing =
  waiting :: "(nat \<times> nat) option"
  stopped :: bool
  in_hand :: "(nat \<times> nat) option"
  applied :: "(nat \<times> nat) list"

inductive resizes :: "(nat \<times> nat) list \<Rightarrow> resizing \<Rightarrow> bool" where
  resize_begun: "resizes [] \<lparr>waiting = None, stopped = False, in_hand = None, applied = []\<rparr>"
| resize_asked: "resizes asked z \<Longrightarrow> \<not> stopped z \<Longrightarrow> resizes (asked @ [r]) (z\<lparr>waiting := Some r\<rparr>)"
| resize_taken: "resizes asked z \<Longrightarrow> \<not> stopped z \<Longrightarrow> in_hand z = None \<Longrightarrow> waiting z = Some r \<Longrightarrow>
    resizes asked (z\<lparr>waiting := None, in_hand := Some r\<rparr>)"
| resize_applied: "resizes asked z \<Longrightarrow> \<not> stopped z \<Longrightarrow> in_hand z = Some r \<Longrightarrow> resizes asked (z\<lparr>in_hand := None, applied := applied z @ [r]\<rparr>)"
| resize_stopped: "resizes asked z \<Longrightarrow> resizes asked (z\<lparr>stopped := True\<rparr>)"

definition list_of :: "'a option \<Rightarrow> 'a list" where
  "list_of x = (case x of None \<Rightarrow> [] | Some y \<Rightarrow> [y])"

lemma resizes_state:
  "resizes asked z \<Longrightarrow> subseq (applied z @ list_of (in_hand z) @ list_of (waiting z)) asked
     \<and> (asked \<noteq> [] \<longrightarrow> (applied z @ list_of (in_hand z) @ list_of (waiting z)) \<noteq> []
          \<and> last (applied z @ list_of (in_hand z) @ list_of (waiting z)) = last asked)"
proof (induction rule: resizes.induct)
  case (resize_asked asked z r)
  let ?front = "applied z @ list_of (in_hand z)"
  have "subseq ?front (?front @ list_of (waiting z))" by (simp add: prefix_imp_subseq del: append_assoc)
  with resize_asked.IH have "subseq ?front asked" using subseq_order.trans by fastforce
  then have "subseq (?front @ [r]) (asked @ [r])" by (rule list_emb_append_mono) simp
  then show ?case by (simp add: list_of_def)
qed (auto simp: list_of_def)

text \<open>
  The session of a terminal gets the latest size.  The sizes applied are some of those that were
  asked for, in the order in which they were asked for; and when nothing waits and nothing is in
  hand, the last size applied is the last one that was asked for.
\<close>

theorem latest_size_wins:
  assumes "resizes asked z"
  shows "subseq (applied z) asked
     \<and> (waiting z = None \<and> in_hand z = None \<and> asked \<noteq> [] \<longrightarrow> applied z \<noteq> [] \<and> last (applied z) = last asked)"
proof -
  have "subseq (applied z) (applied z @ list_of (in_hand z) @ list_of (waiting z))" by (simp add: prefix_imp_subseq)
  with resizes_state [OF assms] have "subseq (applied z) asked" using subseq_order.trans by blast
  with resizes_state [OF assms] show ?thesis by (auto simp: list_of_def)
qed

theorem latest_size_wins_witness:
  "\<exists>z. resizes [(24, 80), (30, 100), (40, 120)] z \<and> subseq (applied z) [(24, 80), (30, 100), (40, 120)]
     \<and> applied z = [(24, 80), (40, 120)] \<and> last (applied z) = last [(24, 80), (30, 100), (40, 120)]"
proof -
  let ?z = "\<lambda>w h a. \<lparr>waiting = w, stopped = False, in_hand = h, applied = a\<rparr>"
  have 1: "resizes [(24, 80)] (?z (Some (24, 80)) None [])" using resize_asked [OF resize_begun, of "(24, 80)"] by simp
  have 2: "resizes [(24, 80)] (?z None (Some (24, 80)) [])" using resize_taken [OF 1, of "(24, 80)"] by simp
  have 3: "resizes [(24, 80), (30, 100)] (?z (Some (30, 100)) (Some (24, 80)) [])" using resize_asked [OF 2, of "(30, 100)"] by simp
  have 4: "resizes [(24, 80), (30, 100), (40, 120)] (?z (Some (40, 120)) (Some (24, 80)) [])"
    using resize_asked [OF 3, of "(40, 120)"] by simp
  have 5: "resizes [(24, 80), (30, 100), (40, 120)] (?z (Some (40, 120)) None [(24, 80)])"
    using resize_applied [OF 4, of "(24, 80)"] by simp
  have 6: "resizes [(24, 80), (30, 100), (40, 120)] (?z None (Some (40, 120)) [(24, 80)])"
    using resize_taken [OF 5, of "(40, 120)"] by simp
  have 7: "resizes [(24, 80), (30, 100), (40, 120)] (?z None None [(24, 80), (40, 120)])"
    using resize_applied [OF 6, of "(40, 120)"] by simp
  from latest_size_wins [OF 7] 7 show ?thesis by (intro exI [of _ "?z None None [(24, 80), (40, 120)]"]) simp
qed

end
