(* ===== verification/Memory.thy ===== *)
theory Memory
  imports Service
begin

text \<open>
  \<open>internal/agent/memory_backend.go\<close> and \<open>memory.go\<close>: what the assistant remembers between tasks.

  A memory is a document in the kind of its scope, the user's preferences or one server.  A backend
  lives for one run and remembers the settings it was made under and the digests of what it has
  read or written.  \<open>doublestar.Match\<close> and the memory library are parameters.
\<close>

definition utf8 :: "nat list \<Rightarrow> string" where
  "utf8 = map char_of"

subsection \<open>Credentials\<close>

text \<open>The alternatives of \<open>credentialText\<close>, in any case, at the front of a text.\<close>

definition credential_words :: "string list" where
  "credential_words =
     [''password'', ''apikey'', ''api key'', ''api_key'', ''api-key'', ''accesstoken'', ''access token'', ''access_token'', ''access-token'',
      ''secret'', ''private key'', utf8 [0xE5, 0xAF, 0x86, 0xE7, 0xA0, 0x81], utf8 [0xE5, 0xAF, 0x86, 0xE9, 0x92, 0xA5],
      utf8 [0xE5, 0x8F, 0xA3, 0xE4, 0xBB, 0xA4]]"

definition secret_key :: "string \<Rightarrow> bool" where
  "secret_key s \<longleftrightarrow> HasPrefix s ''sk-'' \<and> 15 \<le> length s
     \<and> list_all (\<lambda>c. code_in 97 122 c \<or> code_in 48 57 c) (take 12 (drop 3 s))"

fun credential_in :: "string \<Rightarrow> bool" where
  "credential_in [] = False"
| "credential_in (c # s) \<longleftrightarrow> list_ex (HasPrefix (c # s)) credential_words \<or> secret_key (c # s) \<or> credential_in s"

definition containsCredential :: "string \<Rightarrow> bool" where
  "containsCredential s = credential_in (fold_key s)"

subsection \<open>Settings\<close>

definition memorySettings :: "string \<Rightarrow> memory_settings sact" where
  "memorySettings scope = andThen (attempt (Load as_settings ''memory_settings'' scope)) (\<lambda>x.
     case x of Inr v \<Rightarrow> ret v
     | Inl e \<Rightarrow> if e = NoRows then ret \<lparr>ms_Disabled = False, ms_Generation = 0\<rparr> else throw e)"

definition MemoryEnabled :: "bool sact" where
  "MemoryEnabled = andThen (memorySettings ''global'') (\<lambda>v. ret (\<not> ms_Disabled v))"

definition SetMemoryEnabled :: "bool \<Rightarrow> unit sact" where
  "SetMemoryEnabled enabled = andThen (memorySettings ''global'') (\<lambda>v.
     Put ''memory_settings'' ''global'' (SettingsDoc \<lparr>ms_Disabled = \<not> enabled, ms_Generation = ms_Generation v + 1\<rparr>))"

definition memory_kind :: "string \<Rightarrow> string" where
  "memory_kind scope = ''memory:'' @ scope"

definition ListMemory :: "string \<Rightarrow> memory_record list sact" where
  "ListMemory scope = All as_memory (memory_kind scope)"

definition DeleteMemory :: "string \<Rightarrow> string \<Rightarrow> unit sact" where
  "DeleteMemory scope name = andThen (memorySettings scope) (\<lambda>v.
     andThen (Put ''memory_settings'' scope (SettingsDoc (v\<lparr>ms_Generation := ms_Generation v + 1\<rparr>))) (\<lambda>_.
       Delete (memory_kind scope) name))"

subsection \<open>The backend\<close>

record backend =
  b_scope :: string
  b_root :: string
  b_generation :: "64 word"
  b_global :: "64 word"
  revisions :: "(string \<times> string) list"

definition newMemoryBackend :: "string \<Rightarrow> backend sact" where
  "newMemoryBackend scope =
     andThen (memorySettings scope) (\<lambda>v.
     andThen (memorySettings ''global'') (\<lambda>g s.
       (Inr \<lparr>b_scope = scope, b_root = JoinPath [Dir s, ''memory'', Digest_string scope], b_generation = ms_Generation v,
             b_global = ms_Generation g, revisions = []\<rparr>, s)))"

text \<open>An operation of a backend: on the machine and the backend.\<close>

type_synonym ('w, 'a) bact = "('w machine \<times> backend, err, 'a) act"

definition beside :: "('w, 'a) mact \<Rightarrow> ('w, 'a) bact" where
  "beside f = (\<lambda>(m, b). case f m of (x, m1) \<Rightarrow> (x, (m1, b)))"

definition the_backend :: "('w, backend) bact" where
  "the_backend = asks snd"

definition record_digest :: "memory_record \<Rightarrow> string" where
  "record_digest doc = Digest (JObj
     [(''Path'', JStr (mr_Path doc)), (''Content'', JStr (mr_Content doc)), (''UpdatedAt'', JStr (rfc3339 (mr_UpdatedAt doc)))])"

definition set_revision :: "string \<Rightarrow> memory_record \<Rightarrow> ('w, unit) bact" where
  "set_revision key doc = (\<lambda>(m, b). (Inr (), (m, b\<lparr>revisions := (key, record_digest doc) # revisions b\<rparr>)))"

definition valid :: "backend \<Rightarrow> ('w, unit) mact" where
  "valid b =
     andThen Err (\<lambda>_.
     andThen (on_db (memorySettings ''global'')) (\<lambda>g.
     andThen (on_db (memorySettings (b_scope b))) (\<lambda>v.
       if ms_Disabled g \<or> ms_Generation g \<noteq> b_global b \<or> ms_Generation v \<noteq> b_generation b
       then throw (Msg ''the memory settings have changed'') else ret ())))"

definition outside_root :: "string \<Rightarrow> bool" where
  "outside_root rel \<longleftrightarrow> rel = ''..'' \<or> HasPrefix rel ''../''"

definition memory_key :: "backend \<Rightarrow> string \<Rightarrow> err + string" where
  "memory_key b p =
     (if CHR 0x00 \<in> set p then Inl (Msg ''invalid memory path'')
      else case Rel (b_root b) (Clean (if IsAbs p then p else JoinPath [b_root b, p])) of
        None \<Rightarrow> Inl (Msg ''the memory path is outside or not Markdown'')
      | Some rel \<Rightarrow>
          if outside_root rel \<or> Ext rel \<noteq> ''.md'' then Inl (Msg ''the memory path is outside or not Markdown'') else Inr rel)"

definition load_record :: "backend \<Rightarrow> string \<Rightarrow> ('w, memory_record) mact" where
  "load_record b key = on_db (Load as_memory (memory_kind (b_scope b)) key)"

text \<open>The lines from an offset that counts from 1, at most \<open>limit\<close> of them when it is positive.\<close>

definition line_window :: "int \<Rightarrow> int \<Rightarrow> string list \<Rightarrow> string list" where
  "line_window offset limit ls =
     (let rest = drop (nat (max 0 (offset - 1))) ls in if 0 < limit then take (nat limit) rest else rest)"

definition Read_memory :: "string \<Rightarrow> int \<Rightarrow> int \<Rightarrow> ('w, string) bact" where
  "Read_memory p offset limit =
     andThen the_backend (\<lambda>b.
     andThen (beside (valid b)) (\<lambda>_.
     andThen (outcome (memory_key b p)) (\<lambda>key.
     andThen (attempt (beside (load_record b key))) (\<lambda>x.
       case x of
         Inl e \<Rightarrow> throw (if e = NoRows then NotExist else e)
       | Inr doc \<Rightarrow>
           andThen (set_revision key doc) (\<lambda>_.
             ret (Join (line_window offset limit (Split (mr_Content doc) [CHR 0x0A])) [CHR 0x0A]))))))"

definition write_record :: "backend \<Rightarrow> string \<Rightarrow> string \<Rightarrow> ('w, memory_record) mact" where
  "write_record b key content =
     andThen (valid b) (\<lambda>_.
       if 65536 < length content then throw (Msg ''a memory is at most 64 KiB'')
       else if containsCredential content then throw (Msg ''a memory cannot hold credentials'')
       else andThen (on_db Now) (\<lambda>now.
            let doc = \<lparr>mr_Path = key, mr_Content = content, mr_UpdatedAt = now\<rparr>
            in andThen (on_db (Put (memory_kind (b_scope b)) key (MemoryDoc doc))) (\<lambda>_. ret doc)))"

definition save_record :: "backend \<Rightarrow> string \<Rightarrow> string \<Rightarrow> ('w, unit) bact" where
  "save_record b key content = andThen (beside (write_record b key content)) (\<lambda>doc. set_revision key doc)"

definition Write_memory :: "string \<Rightarrow> string \<Rightarrow> ('w, unit) bact" where
  "Write_memory p content =
     andThen the_backend (\<lambda>b.
     andThen (outcome (memory_key b p)) (\<lambda>key.
     andThen (attempt (beside (load_record b key))) (\<lambda>x.
       case x of
         Inr old \<Rightarrow>
           if map_of (revisions b) key \<noteq> Some (record_digest old) then throw (Msg ''the memory has changed; read it again'')
           else save_record b key content
       | Inl e \<Rightarrow> if e \<noteq> NoRows then throw e else save_record b key content)))"

definition Edit_memory :: "string \<Rightarrow> string \<Rightarrow> string \<Rightarrow> bool \<Rightarrow> ('w, unit) bact" where
  "Edit_memory p old new every =
     andThen the_backend (\<lambda>b.
     andThen (beside (valid b)) (\<lambda>_.
     andThen (outcome (memory_key b p)) (\<lambda>key.
     andThen (beside (load_record b key)) (\<lambda>doc.
       if old = [] \<or> Count (mr_Content doc) old = 0 \<or> \<not> every \<and> Count (mr_Content doc) old \<noteq> 1
       then throw (Msg ''the text to replace does not match once'')
       else save_record b key (if every then ReplaceAll (mr_Content doc) old new else ReplaceOnce (mr_Content doc) old new)))))"

text \<open>The files below a directory whose names match; a name is relative to that directory.\<close>

record memory_file =
  mf_Path :: string
  mf_Size :: nat
  mf_ModifiedAt :: string

fun matching :: "(string \<Rightarrow> string \<Rightarrow> err + bool) \<Rightarrow> backend \<Rightarrow> string \<Rightarrow> string \<Rightarrow> memory_record list \<Rightarrow> err + memory_file list" where
  "matching glob b base pattern [] = Inr []"
| "matching glob b base pattern (d # ds) =
     (case Rel base (JoinPath [b_root b, mr_Path d]) of
        None \<Rightarrow> matching glob b base pattern ds
      | Some name \<Rightarrow>
          if HasPrefix name ''..'' then matching glob b base pattern ds
          else (case (glob pattern name, matching glob b base pattern ds) of
                  (Inl e, _) \<Rightarrow> Inl e
                | (_, Inl e) \<Rightarrow> Inl e
                | (Inr found, Inr fs) \<Rightarrow>
                    Inr (if found then \<lparr>mf_Path = JoinPath [b_root b, mr_Path d], mf_Size = length (mr_Content d),
                                        mf_ModifiedAt = rfc3339 (mr_UpdatedAt d - mr_UpdatedAt d mod 1000000000)\<rparr> # fs else fs)))"

definition GlobInfo :: "(string \<Rightarrow> string \<Rightarrow> err + bool) \<Rightarrow> string \<Rightarrow> string \<Rightarrow> ('w, memory_file list) bact" where
  "GlobInfo glob p pattern =
     andThen the_backend (\<lambda>b.
     andThen (beside (valid b)) (\<lambda>_.
       let base0 = (if p = [] then b_root b else p);
           base = (if IsAbs base0 then base0 else JoinPath [b_root b, base0])
       in case Rel (b_root b) (Clean base) of
            None \<Rightarrow> throw (Msg ''the memory directory is outside'')
          | Some rel \<Rightarrow>
              if outside_root rel then throw (Msg ''the memory directory is outside'')
              else andThen (beside (on_db (All as_memory (memory_kind (b_scope b))))) (\<lambda>ds.
                   outcome (matching glob b base pattern ds))))"

subsection \<open>What is offered for remembering\<close>

definition preference_marks :: "string list" where
  "preference_marks = [utf8 [0xE5, 0x81, 0x8F, 0xE5, 0xA5, 0xBD], utf8 [0xE8, 0xAF, 0xB7, 0xE8, 0xAE, 0xB0, 0xE4, 0xBD, 0x8F],
     utf8 [0xE4, 0xBB, 0xA5, 0xE5, 0x90, 0x8E, 0xE8, 0xAF, 0xB7]]"

definition sent_mark :: string where
  "sent_mark = [CHR 0x0A, CHR 0x0A, CHR ''[''] @ utf8 [0xE5, 0x8F, 0x91, 0xE9, 0x80, 0x81, 0xE6, 0x97, 0xB6]"

text \<open>Whether a text names one of the hosts.\<close>

fun names_host :: "string \<Rightarrow> string list \<Rightarrow> ('w, bool) mact" where
  "names_host s [] = ret False"
| "names_host s (i # is) =
     andThen (on_db (Host i)) (\<lambda>h.
       if host_Name h \<noteq> [] \<and> Contains s (host_Name h) \<or> host_Address h \<noteq> [] \<and> Contains s (host_Address h) then ret True
       else names_host s is)"

definition preference_input :: "task \<Rightarrow> message list \<Rightarrow> ('w, string) mact" where
  "preference_input t msgs =
     (case find (\<lambda>m. m_Role m = ''user'') (rev msgs) of
        None \<Rightarrow> ret []
      | Some m \<Rightarrow>
          (let said = hd (Split (m_Content m) sent_mark)
           in andThen (names_host said (HostIDs (Grant t))) (\<lambda>named.
                if \<not> named \<and> length said \<le> 1024 \<and> \<not> containsCredential said \<and> list_ex (Contains said) preference_marks
                then ret (''a preference of the user, not a fact about a server:'' @ newline @ said) else ret [])))"

definition fact_json :: "string \<Rightarrow> result \<Rightarrow> string \<Rightarrow> string" where
  "fact_json host r words = render (JObj [(''HostID'', JStr host), (''ExecutionID'', JStr (res_ID r)),
     (''Operation'', JStr (Operation (res_Request r))), (''Resource'', JStr (Resource (res_Request r))), (''VerifiedText'', JStr words)])"

definition fact_input :: "task \<Rightarrow> string \<Rightarrow> ('w, string) mact" where
  "fact_input t host =
     andThen (attempt (on_db (Load as_verification (''verification:'' @ task_ID t) host))) (\<lambda>x.
       case x of
         Inl _ \<Rightarrow> ret []
       | Inr proof_doc \<Rightarrow>
           if containsCredential (v_ExpectedText proof_doc) \<or> 256 < length (v_ExpectedText proof_doc) then ret []
           else andThen (on_db (Results (task_ID t))) (\<lambda>rs.
                case find (\<lambda>r. HostID (res_Request r) = host) (rev rs) of
                  None \<Rightarrow> ret []
                | Some r \<Rightarrow>
                    if res_ID r \<noteq> v_ExecutionID proof_doc \<or> res_Status r \<noteq> ''succeeded''
                       \<or> containsCredential (fact_json host r (v_ExpectedText proof_doc))
                    then ret []
                    else ret (''a verified fact about this server only:'' @ newline @ fact_json host r (v_ExpectedText proof_doc))))"

definition memoryInput :: "task \<Rightarrow> string \<Rightarrow> message list \<Rightarrow> ('w, string) mact" where
  "memoryInput t scope msgs =
     (if scope = ''preferences'' then preference_input t msgs else fact_input t (TrimPrefix scope ''host:''))"

definition memory_scopes :: "task \<Rightarrow> string list" where
  "memory_scopes t = ''preferences'' # map (\<lambda>i. ''host:'' @ i) (HostIDs (Grant t))"

definition memoryEvent :: "string \<Rightarrow> string \<Rightarrow> string \<Rightarrow> string \<Rightarrow> ('w, unit) mact" where
  "memoryEvent i scope status msg =
     log_event i ''memory_state'' (render (JObj [(''Scope'', JStr scope), (''Status'', JStr status), (''Message'', JStr msg)]))"

text \<open>
  After a turn: each scope's handler of the memory library gets its input.  \<open>handle\<close> is that handler;
  its value says whether it reported a failure.
\<close>

fun after_scopes :: "(string \<Rightarrow> string \<Rightarrow> ('w, bool) mact) \<Rightarrow> task \<Rightarrow> message list \<Rightarrow> string list \<Rightarrow> ('w, unit) mact" where
  "after_scopes handle t msgs [] = ret ()"
| "after_scopes handle t msgs (scope # scopes) =
     andThen Err (\<lambda>_.
     andThen (memoryInput t scope msgs) (\<lambda>given.
       if given = [] then after_scopes handle t msgs scopes
       else andThen (handle scope given) (\<lambda>failed.
            andThen (if failed then ret () else memoryEvent (task_ID t) scope ''processed'' ''the turn was remembered'') (\<lambda>_.
              after_scopes handle t msgs scopes))))"

definition AfterAgent :: "(string \<Rightarrow> string \<Rightarrow> ('w, bool) mact) \<Rightarrow> task \<Rightarrow> message list \<Rightarrow> ('w, unit) mact" where
  "AfterAgent handle t msgs = andThen (on_db MemoryEnabled) (\<lambda>enabled.
     if enabled then after_scopes handle t msgs (memory_scopes t) else ret ())"

definition BeforeAgent :: "(string \<Rightarrow> ('w, unit) mact) \<Rightarrow> task \<Rightarrow> ('w, unit) mact" where
  "BeforeAgent prepare t = andThen (on_db MemoryEnabled) (\<lambda>enabled.
     if enabled then forEach prepare (memory_scopes t) else ret ())"

subsection \<open>What a backend may write\<close>

text \<open>The settings in force, and whether a backend was made under them.\<close>

definition settings_in :: "store \<Rightarrow> string \<Rightarrow> memory_settings" where
  "settings_in s scope = (case find_doc ''memory_settings'' scope s of
     Some (SettingsDoc v) \<Rightarrow> v | _ \<Rightarrow> \<lparr>ms_Disabled = False, ms_Generation = 0\<rparr>)"

definition current :: "backend \<Rightarrow> store \<Rightarrow> bool" where
  "current b s \<longleftrightarrow> \<not> ms_Disabled (settings_in s ''global'') \<and> ms_Generation (settings_in s ''global'') = b_global b
     \<and> ms_Generation (settings_in s (b_scope b)) = b_generation b"

definition guarded_write :: "backend \<Rightarrow> store \<Rightarrow> store \<Rightarrow> bool" where
  "guarded_write b s s' \<longleftrightarrow>
     documents s' = documents s
     \<or> current b s
       \<and> (\<exists>key doc. documents s' = documents (put_doc (memory_kind (b_scope b)) key (MemoryDoc doc) s)
            \<and> mr_Path doc = key \<and> \<not> outside_root key \<and> Ext key = ''.md''
            \<and> length (mr_Content doc) \<le> 65536 \<and> \<not> containsCredential (mr_Content doc))"

lemma as_settings_Some: "as_settings d = Some v \<longleftrightarrow> d = SettingsDoc v"
  by (cases d) auto

lemma records_settings: "keeps same_records (memorySettings scope)"
  unfolding memorySettings_def
  by (intro records.keeps_andThen records.keeps_attempt records_Load keeps_sum_case records.keeps_if records.keeps_ret records.keeps_throw)

lemma Load_missing: "Load as kind i s = (Inl NoRows, s') \<Longrightarrow> find_doc kind i s = None"
  using records.keepsD [OF records_statement, of s]
  by (cases "statement s")
    (auto simp: Load_def statement_def andThen_def find_doc_def same_records_def split: sum.splits option.splits list.splits)

lemma memorySettings_Inr: "memorySettings scope s = (Inr v, s') \<Longrightarrow> v = settings_in s scope"
  by (cases "Load as_settings ''memory_settings'' scope s")
    (auto simp: memorySettings_def andThen_def attempt_def ret_def throw_def settings_in_def as_settings_Some
      split: sum.splits if_splits dest: Load_found Load_missing)

lemma settings_cong: "same_records s s' \<Longrightarrow> settings_in s' = settings_in s"
  by (auto simp: settings_in_def same_records_find)

definition unread :: "store \<Rightarrow> 'w machine \<Rightarrow> bool" where
  "unread s m \<longleftrightarrow> same_records s (db m)"

lemma unread_on_db: "keeps same_records f \<Longrightarrow> spec (unread s) (on_db f) (unread s) (\<lambda>_. unread s)"
proof (rule specI)
  fix m :: "'w machine" and e m'
  assume f: "keeps same_records f" and m: "unread s m" "on_db f m = (Inl e, m')"
  then obtain u where "f (db m) = (Inl e, u)" "m' = m\<lparr>db := u\<rparr>" by (auto simp: on_db_def split: prod.splits)
  with records.keepsD [OF f] m(1) show "unread s m'" by (auto simp: unread_def intro: records.trans)
next
  fix m :: "'w machine" and x m'
  assume f: "keeps same_records f" and m: "unread s m" "on_db f m = (Inr x, m')"
  then obtain u where "f (db m) = (Inr x, u)" "m' = m\<lparr>db := u\<rparr>" by (auto simp: on_db_def split: prod.splits)
  with records.keepsD [OF f] m(1) show "unread s m'" by (auto simp: unread_def intro: records.trans)
qed

lemma unread_Err: "spec (unread s) Err (unread s) (\<lambda>_. unread s)"
  by (rule specI) (metis db_Err snd_conv unread_def)+

lemma settings_spec: "spec (unread s) (on_db (memorySettings scope)) (unread s) (\<lambda>v m. unread s m \<and> v = settings_in s scope)"
proof (rule specI)
  fix m :: "'w machine" and v m'
  assume m: "unread s m" "on_db (memorySettings scope) m = (Inr v, m')"
  have "v = settings_in (db m) scope" using memorySettings_Inr [OF on_db_result [OF m(2)]] .
  then have "v = settings_in s scope" using settings_cong [of s "db m"] m(1) by (simp add: unread_def)
  with specD [OF unread_on_db [OF records_settings] m] show "unread s m' \<and> v = settings_in s scope" by simp
qed (use specE [OF unread_on_db [OF records_settings]] in blast)

lemma valid_spec: "spec (unread s) (valid b) (unread s) (\<lambda>_ m. unread s m \<and> current b s)"
  unfolding valid_def
proof (rule spec_andThen [OF unread_Err], rule spec_andThen [OF settings_spec])
  fix u g
  show "spec (\<lambda>m. unread s m \<and> g = settings_in s ''global'')
     (andThen (on_db (memorySettings (b_scope b))) (\<lambda>v.
       if ms_Disabled g \<or> ms_Generation g \<noteq> b_global b \<or> ms_Generation v \<noteq> b_generation b
       then throw (Msg ''the memory settings have changed'') else ret ())) (unread s) (\<lambda>_ m. unread s m \<and> current b s)"
  proof (rule spec_andThen [where Q = "\<lambda>v m. unread s m \<and> g = settings_in s ''global'' \<and> v = settings_in s (b_scope b)"])
    show "spec (\<lambda>m. unread s m \<and> g = settings_in s ''global'') (on_db (memorySettings (b_scope b))) (unread s)
        (\<lambda>v m. unread s m \<and> g = settings_in s ''global'' \<and> v = settings_in s (b_scope b))"
      using specD [OF settings_spec [of s "b_scope b"]] specE [OF settings_spec [of s "b_scope b"]] by (intro specI) auto
  qed (auto simp: current_def intro!: spec_if spec_throw spec_ret)
qed

lemma Put_Inl_documents: "Put kind i d s = (x, s') \<Longrightarrow> documents s' = documents s \<or> documents s' = documents (put_doc kind i d s)"
  using Put_documents by blast

text \<open>After the checks: what \<open>write_record\<close> does to the documents.\<close>

lemma write_record_guarded:
  assumes key: "\<not> outside_root key" "Ext key = ''.md''"
  shows "spec (unread s) (write_record b key content) (\<lambda>m. guarded_write b s (db m)) (\<lambda>_ m. guarded_write b s (db m))"
proof -
  have quiet: "guarded_write b s (db m)" if "unread s m" for m :: "'w machine"
    using that by (simp add: guarded_write_def unread_def same_records_def)
  have put: "spec (\<lambda>m. unread s m \<and> current b s)
      (andThen (on_db Now) (\<lambda>now. let doc = \<lparr>mr_Path = key, mr_Content = content, mr_UpdatedAt = now\<rparr>
            in andThen (on_db (Put (memory_kind (b_scope b)) key (MemoryDoc doc))) (\<lambda>_. ret doc)))
      (\<lambda>m. guarded_write b s (db m)) (\<lambda>_ m. guarded_write b s (db m))"
    if ok: "length content \<le> 65536" "\<not> containsCredential content"
  proof (rule spec_andThen [where Q = "\<lambda>_ m. unread s m \<and> current b s"])
    show "spec (\<lambda>m. unread s m \<and> current b s) (on_db Now) (\<lambda>m. guarded_write b s (db m)) (\<lambda>_ m. unread s m \<and> current b s)"
      using specD [OF unread_on_db [OF records_Now, of s]] specE [OF unread_on_db [OF records_Now, of s]] quiet
      by (intro specI) blast+
    fix now
    let ?doc = "\<lparr>mr_Path = key, mr_Content = content, mr_UpdatedAt = now\<rparr>"
    have "guarded_write b s u" if "Put (memory_kind (b_scope b)) key (MemoryDoc ?doc) (db m) = (x, u)" "unread s m" "current b s"
      for m :: "'w machine" and x u
    proof -
      have docs: "documents (db m) = documents s" using that(2) by (simp add: unread_def same_records_def)
      then have "documents (put_doc (memory_kind (b_scope b)) key (MemoryDoc ?doc) (db m))
          = documents (put_doc (memory_kind (b_scope b)) key (MemoryDoc ?doc) s)" by (simp add: put_doc_def)
      with Put_Inl_documents [OF that(1)] docs that(3) ok key show ?thesis
        unfolding guarded_write_def by (metis memory_record.select_convs(1,2))
    qed
    then show "spec (\<lambda>m. unread s m \<and> current b s)
        (let doc = ?doc in andThen (on_db (Put (memory_kind (b_scope b)) key (MemoryDoc doc))) (\<lambda>_. ret doc))
        (\<lambda>m. guarded_write b s (db m)) (\<lambda>_ m. guarded_write b s (db m))"
      by (fastforce simp: spec_def Let_def andThen_def on_db_def ret_def split: prod.splits sum.splits)
  qed
  have valid: "spec (unread s) (valid b) (\<lambda>m. guarded_write b s (db m)) (\<lambda>_ m. unread s m \<and> current b s)"
    by (rule spec_weaken [OF valid_spec]) (auto intro: quiet)
  show ?thesis unfolding write_record_def by (rule spec_andThen [OF valid]) (auto intro!: spec_if spec_throw put intro: quiet)
qed

lemma memory_key_Inr: "memory_key b p = Inr key \<Longrightarrow> \<not> outside_root key \<and> Ext key = ''.md''"
  by (auto simp: memory_key_def split: if_splits option.splits)

text \<open>Operations of a backend: the state of the database when they began, and the backend itself.\<close>

definition began :: "backend \<Rightarrow> store \<Rightarrow> 'w machine \<times> backend \<Rightarrow> bool" where
  "began b s p \<longleftrightarrow> unread s (fst p) \<and> snd p = b"

definition wrote :: "backend \<Rightarrow> store \<Rightarrow> 'w machine \<times> backend \<Rightarrow> bool" where
  "wrote b s p \<longleftrightarrow> guarded_write b s (db (fst p))"

lemma began_wrote: "began b s p \<Longrightarrow> wrote b s p"
  by (simp add: began_def wrote_def guarded_write_def unread_def same_records_def)

lemma began_beside:
  fixes f :: "('w, 'a) mact"
  assumes "spec (unread s) f (unread s) (\<lambda>_. unread s)"
  shows "spec (began b s) (beside f) (began b s) (\<lambda>_. began b s)"
proof (rule specI)
  fix p :: "'w machine \<times> backend" and e p'
  assume "began b s p" "beside f p = (Inl e, p')"
  with specE [OF assms] show "began b s p'" by (auto simp: began_def beside_def split: prod.splits)
next
  fix p :: "'w machine \<times> backend" and x p'
  assume "began b s p" "beside f p = (Inr x, p')"
  with specD [OF assms] show "began b s p'" by (auto simp: began_def beside_def split: prod.splits)
qed

lemma began_valid: "spec (began b s) (beside (valid b)) (began b s) (\<lambda>_. began b s)"
  by (rule began_beside, rule spec_weaken [OF valid_spec]) auto

lemma began_load: "spec (began b s) (beside (load_record b key)) (began b s) (\<lambda>_. began b s)"
  unfolding load_record_def by (rule began_beside [OF unread_on_db [OF records_Load]])

lemma save_record_guarded:
  assumes "\<not> outside_root key" "Ext key = ''.md''"
  shows "spec (began b s) (save_record b key content :: ('w, unit) bact) (wrote b s) (\<lambda>_. wrote b s)"
proof -
  note w = write_record_guarded [OF assms, of s b content]
  have "spec (began b s) (beside (write_record b key content) :: ('w, memory_record) bact) (wrote b s) (\<lambda>_. wrote b s)"
  proof (rule specI)
    fix p :: "'w machine \<times> backend" and e p'
    assume "began b s p" "beside (write_record b key content) p = (Inl e, p')"
    with specE [OF w] show "wrote b s p'" by (auto simp: began_def wrote_def beside_def split: prod.splits)
  next
    fix p :: "'w machine \<times> backend" and x p'
    assume "began b s p" "beside (write_record b key content) p = (Inr x, p')"
    with specD [OF w] show "wrote b s p'" by (auto simp: began_def wrote_def beside_def split: prod.splits)
  qed
  moreover have "spec (wrote b s) (set_revision key doc) (wrote b s) (\<lambda>_. wrote b s)" for doc
    by (simp add: spec_def set_revision_def wrote_def split: prod.split)
  ultimately show ?thesis unfolding save_record_def by (rule spec_andThen)
qed

lemma began_backend: "spec (began b s) the_backend (wrote b s) (\<lambda>c p. began b s p \<and> c = b)"
  by (simp add: spec_def the_backend_def asks_def began_def)

lemma began_key: "spec (began b s) (outcome (memory_key b p)) (wrote b s)
    (\<lambda>key q. began b s q \<and> \<not> outside_root key \<and> Ext key = ''.md'')"
  by (rule spec_outcome) (auto intro: began_wrote dest: memory_key_Inr)

lemma to_wrote: "spec P m (began b s) Q \<Longrightarrow> spec P m (wrote b s) Q"
  by (erule spec_weaken) (auto intro: began_wrote)

lemma spec_pure: "(A \<Longrightarrow> spec P m E Q) \<Longrightarrow> spec (\<lambda>s. P s \<and> A) m E Q"
  by (auto simp: spec_def)

lemma began_finish: "(\<And>q. began b s q \<Longrightarrow> P q) \<Longrightarrow> spec (began b s) (throw e) P Q"
  by (rule spec_throw)

lemma Write_spec: "spec (began b s) (Write_memory p content) (wrote b s) (\<lambda>_. wrote b s)"
  unfolding Write_memory_def
proof (rule spec_andThen [OF began_backend], rule spec_pure)
  fix c assume c: "c = b"
  show "spec (began b s) (andThen (outcome (memory_key c p)) (\<lambda>key.
     andThen (attempt (beside (load_record c key))) (\<lambda>x.
       case x of
         Inl e \<Rightarrow> if e \<noteq> NoRows then throw e else save_record c key content
       | Inr old \<Rightarrow>
           if map_of (revisions c) key \<noteq> Some (record_digest old) then throw (Msg ''the memory has changed; read it again'')
           else save_record c key content))) (wrote b s) (\<lambda>_. wrote b s)"
    unfolding c
  proof (rule spec_andThen [OF began_key], rule spec_pure)
    fix key assume key: "\<not> outside_root key \<and> Ext key = ''.md''"
    have "spec (began b s) (attempt (beside (load_record b key))) (wrote b s) (\<lambda>_. began b s)"
      by (rule spec_attempt, rule spec_weaken [OF began_load]) auto
    then show "spec (began b s) (andThen (attempt (beside (load_record b key))) (\<lambda>x.
       case x of
         Inl e \<Rightarrow> if e \<noteq> NoRows then throw e else save_record b key content
       | Inr old \<Rightarrow>
           if map_of (revisions b) key \<noteq> Some (record_digest old) then throw (Msg ''the memory has changed; read it again'')
           else save_record b key content)) (wrote b s) (\<lambda>_. wrote b s)"
      by (rule spec_andThen) (use key in \<open>auto split: sum.split intro!: spec_if spec_throw save_record_guarded began_wrote\<close>)
  qed
qed

lemma Edit_spec: "spec (began b s) (Edit_memory p old new every) (wrote b s) (\<lambda>_. wrote b s)"
  unfolding Edit_memory_def
proof (rule spec_andThen [OF began_backend], rule spec_pure)
  fix c assume c: "c = b"
  let ?rest = "\<lambda>key. andThen (beside (load_record b key)) (\<lambda>doc.
       if old = [] \<or> Count (mr_Content doc) old = 0 \<or> \<not> every \<and> Count (mr_Content doc) old \<noteq> 1
       then throw (Msg ''the text to replace does not match once'')
       else save_record b key (if every then ReplaceAll (mr_Content doc) old new else ReplaceOnce (mr_Content doc) old new))"
  have rest: "spec (\<lambda>q. began b s q \<and> \<not> outside_root key \<and> Ext key = ''.md'') (?rest key) (wrote b s) (\<lambda>_. wrote b s)" for key
    by (intro spec_pure spec_andThen [OF to_wrote [OF began_load]]) (auto intro!: spec_if spec_throw save_record_guarded began_wrote)
  show "spec (began b s) (andThen (beside (valid c)) (\<lambda>_. andThen (outcome (memory_key c p)) (\<lambda>key.
     andThen (beside (load_record c key)) (\<lambda>doc.
       if old = [] \<or> Count (mr_Content doc) old = 0 \<or> \<not> every \<and> Count (mr_Content doc) old \<noteq> 1
       then throw (Msg ''the text to replace does not match once'')
       else save_record c key (if every then ReplaceAll (mr_Content doc) old new else ReplaceOnce (mr_Content doc) old new)))))
     (wrote b s) (\<lambda>_. wrote b s)"
    unfolding c by (rule spec_andThen [OF to_wrote [OF began_valid]], rule spec_andThen [OF began_key], rule rest)
qed

text \<open>
  C32: What the memory library may do through a backend.  A write or an edit changes at most one
  document: a memory of the backend's own scope, under a Markdown path below its root, of at most
  64 KiB and without anything that looks like a credential; and only while remembering is enabled
  and neither the global settings nor those of the scope have changed since the backend was made.
\<close>

theorem memory_writes_guarded:
  "guarded_write b (db m) (db (fst (snd (Write_memory p content (m, b)))))
   \<and> guarded_write b (db m) (db (fst (snd (Edit_memory p old new every (m, b)))))"
proof -
  have start: "began b (db m) (m, b)" by (simp add: began_def unread_def records.refl)
  have outcome: "wrote b (db m) (snd (f (m, b)))" if f: "spec (began b (db m)) f (wrote b (db m)) (\<lambda>_. wrote b (db m))"
    for f :: "('a, unit) bact"
    using specD [OF f start] specE [OF f start] by (cases "f (m, b)"; cases "fst (f (m, b))") auto
  from outcome [OF Write_spec] outcome [OF Edit_spec] show ?thesis by (simp add: wrote_def)
qed

end
