(* ===== verification/TaskView.thy ===== *)
theory TaskView
  imports Memory
begin

text \<open>
  \<open>internal/ui/task_history.go\<close> and the messages of \<open>conversation_view.go\<close>: what is shown of a task.

  A worker reads the events of the selected task after the last one it has seen, and keeps the texts
  and messages built from all of them.  The widgets that show them, the timer that bounds the rate of
  the readings and the goroutine itself are not modelled.
\<close>

subsection \<open>Messages\<close>

record chat_message =
  cm_kind :: string
  cm_text :: string

fun plan_items :: "any list \<Rightarrow> (string \<times> string) list option" where
  "plan_items [] = Some []"
| "plan_items (x # xs) =
     (case (case x of
              Null \<Rightarrow> Some ([], [])
            | Object ms \<Rightarrow>
                (case (string_field ''content'' [] ms, string_field ''status'' [] ms) of (Some c, Some s) \<Rightarrow> Some (c, s) | _ \<Rightarrow> None)
            | _ \<Rightarrow> None) of
        None \<Rightarrow> None
      | Some i \<Rightarrow> map_option ((#) i) (plan_items xs))"

definition plan_of :: "string \<Rightarrow> (string \<times> string) list option" where
  "plan_of s =
     (if \<not> Valid s then None
      else case Decode_first s of Some Null \<Rightarrow> Some [] | Some (Array xs) \<Rightarrow> plan_items xs | _ \<Rightarrow> None)"

definition plan_line :: "string \<times> string \<Rightarrow> string" where
  "plan_line i =
     (if snd i = ''in_progress'' then utf8 [0xE2, 0x96, 0xB6] else if snd i = ''completed'' then utf8 [0xE2, 0x9C, 0x93]
      else utf8 [0xE2, 0x97, 0x8B]) @ '' '' @ fst i"

text \<open>The fields of an object that are strings; \<open>null\<close> in place of the object leaves them empty.\<close>

definition object_of :: "string \<Rightarrow> (string \<times> any) list option" where
  "object_of s =
     (if \<not> Valid s then None
      else case Decode_first s of Some Null \<Rightarrow> Some [] | Some (Object ms) \<Rightarrow> Some ms | _ \<Rightarrow> None)"

definition subtask_of :: "string \<Rightarrow> subtask_event option" where
  "subtask_of s =
     (case object_of s of None \<Rightarrow> None
      | Some ms \<Rightarrow>
          (case (string_field ''runid'' [] ms, string_field ''agent'' [] ms, string_field ''state'' [] ms, string_field ''message'' [] ms) of
             (Some r, Some a, Some st, Some m) \<Rightarrow> Some \<lparr>st_RunID = r, st_Agent = a, st_State = st, st_Message = m\<rparr>
           | _ \<Rightarrow> None))"

definition memory_message :: "string \<Rightarrow> string" where
  "memory_message s =
     (case object_of s of None \<Rightarrow> s
      | Some ms \<Rightarrow>
          (case (string_field ''scope'' [] ms, string_field ''status'' [] ms, string_field ''message'' [] ms) of
             (Some _, Some _, Some m) \<Rightarrow> m | _ \<Rightarrow> s))"

definition agentLabel :: "string \<Rightarrow> string" where
  "agentLabel name =
     (if name = ''operator'' then ''main assistant'' else if name = ''operations_worker'' then ''operations assistant''
      else ''assistant'')"

definition subtask_state :: "string \<Rightarrow> string" where
  "subtask_state st =
     (if st = ''running'' then ''running'' else if st = ''completed'' then ''returned a result''
      else if st = ''interrupted'' then ''to be resumed'' else if st = ''failed'' then ''not completed'' else [])"

definition subtask_text :: "subtask_event \<Rightarrow> string" where
  "subtask_text e = agentLabel (st_Agent e) @ '' '' @ utf8 [0xC2, 0xB7] @ '' '' @ subtask_state (st_State e) @ newline @ st_Message e"

text \<open>The message of an event, if it is shown.\<close>

definition event_message :: "event \<Rightarrow> chat_message option" where
  "event_message e =
     (let kind = ev_Kind e; words = ev_Text e; shown = (\<lambda>k x. Some \<lparr>cm_kind = k, cm_text = x\<rparr>)
      in if kind = ''user'' then shown ''user'' (hd (Split words sent_mark))
         else if kind = ''assistant_delta'' \<or> kind = ''assistant'' then shown ''assistant'' words
         else if kind = ''execution_start'' \<or> kind = ''execution_result'' \<or> kind = ''tool_feedback'' then shown ''execution'' words
         else if kind = ''verified'' then shown ''verified'' words
         else if kind = ''plan_updated''
         then map_option (\<lambda>is. \<lparr>cm_kind = ''plan'', cm_text = Join (map plan_line is) newline\<rparr>) (plan_of words)
         else if kind = ''subtask_state''
         then map_option (\<lambda>x. \<lparr>cm_kind = ''subtask'', cm_text = subtask_text x\<rparr>) (subtask_of words)
         else if kind = ''memory_state'' then shown ''memory'' (memory_message words)
         else if kind = ''approval_required'' then shown ''notice'' ''confirm the operation''
         else None)"

definition appendChatEvent :: "chat_message list \<Rightarrow> event \<Rightarrow> chat_message list" where
  "appendChatEvent ms e =
     (case event_message e of
        None \<Rightarrow> ms
      | Some m \<Rightarrow>
          if ms \<noteq> [] \<and> cm_kind (last ms) = cm_kind m \<and> (cm_kind m = ''assistant'' \<or> cm_kind m = ''execution'')
          then butlast ms @ [(last ms)\<lparr>cm_text := cm_text (last ms) @ (if cm_kind m = ''execution'' then newline else []) @ cm_text m\<rparr>]
          else ms @ [m])"

definition taskEventText :: "event \<Rightarrow> string" where
  "taskEventText e =
     (let kind = ev_Kind e; words = ev_Text e
      in if kind \<in> {''assistant_delta'', ''assistant'', ''execution_delta''} then words
         else if kind = ''user'' then newline @ newline @ ''you: '' @ words @ newline @ newline
         else if kind = ''execution_start'' then newline @ newline @ ''execution: '' @ words @ newline
         else if kind = ''execution_result'' then newline @ words @ newline
         else if kind = ''verified'' then newline @ ''verified: '' @ words @ newline
         else if kind = ''approval_required'' then newline @ ''confirm the operation'' @ newline
         else [])"

subsection \<open>The history of the selected task\<close>

record task_history =
  th_messages :: "chat_message list"
  th_id :: string
  th_after :: nat
  running :: string
  settled :: string
  th_status :: string
  th_summary :: string
  loaded :: bool

record task_update =
  tu_id :: string
  tu_status :: string
  tu_text :: string
  tu_messages :: "chat_message list"

definition new_history :: "string \<Rightarrow> task_history" where
  "new_history i = \<lparr>th_messages = [], th_id = i, th_after = 0, running = [], settled = [], th_status = [], th_summary = [], loaded = False\<rparr>"

definition take_event :: "event \<Rightarrow> task_history \<Rightarrow> task_history" where
  "take_event e h = h\<lparr>th_messages := appendChatEvent (th_messages h) e, running := running h @ taskEventText e,
     settled := (if ev_Kind e \<noteq> ''execution_delta'' then settled h @ taskEventText e else settled h), th_after := Sequence e\<rparr>"

definition shown_text :: "task \<Rightarrow> task_history \<Rightarrow> string" where
  "shown_text t h = (if Status t = ''running'' then running h else settled h)
     @ (if Status t = ''failed'' \<or> Status t = ''blocked'' then newline @ Summary t else [])"

definition shown_messages :: "task \<Rightarrow> task_history \<Rightarrow> chat_message list" where
  "shown_messages t h = th_messages h
     @ (if Status t = ''blocked'' then [\<lparr>cm_kind = ''notice'', cm_text = Summary t\<rparr>]
        else if Status t = ''failed''
        then [\<lparr>cm_kind = ''execution'', cm_text = Summary t\<rparr>, \<lparr>cm_kind = ''notice'', cm_text = ''the turn cannot go on for now''\<rparr>]
        else [])"

text \<open>An operation of the worker: on the store and the history.\<close>

type_synonym 'a hact = "(store \<times> task_history, err, 'a) act"

definition from_store :: "'a sact \<Rightarrow> 'a hact" where
  "from_store f = (\<lambda>(s, h). case f s of (x, s1) \<Rightarrow> (x, (s1, h)))"

definition load_view :: "string \<Rightarrow> task_update option hact" where
  "load_view i = (\<lambda>(s, h0).
     andThen (from_store (Load as_task ''tasks'' i)) (\<lambda>t.
     andThen (\<lambda>(s, h). from_store (Events i (th_after h)) (s, h)) (\<lambda>es (s, h).
       let changed = (\<not> loaded h \<or> th_status h \<noteq> Status t \<or> th_summary h \<noteq> Summary t \<or> es \<noteq> []);
           h1 = (fold take_event es h)\<lparr>loaded := True, th_status := Status t, th_summary := Summary t\<rparr>
       in (Inr (if changed
                then Some \<lparr>tu_id = i, tu_status = Status t, tu_text = shown_text t h1, tu_messages = shown_messages t h1\<rparr>
                else None), (s, h1))))
     (s, if th_id h0 = i then h0 else new_history i))"

text \<open>A new selection makes the next reading an update, whether or not anything changed.\<close>

definition select_task :: "task_history \<Rightarrow> task_history" where
  "select_task h = h\<lparr>loaded := False\<rparr>"

subsection \<open>What is shown is the whole log\<close>

definition task_events :: "string \<Rightarrow> store \<Rightarrow> event list" where
  "task_events i s = filter (\<lambda>e. ev_TaskID e = i \<and> 0 < Sequence e) (events s)"

definition events_text :: "event list \<Rightarrow> string" where
  "events_text es = concat (map taskEventText es)"

definition shows_events :: "task_history \<Rightarrow> event list \<Rightarrow> bool" where
  "shows_events h es \<longleftrightarrow> th_messages h = foldl appendChatEvent [] es \<and> running h = events_text es
     \<and> settled h = events_text (filter (\<lambda>e. ev_Kind e \<noteq> ''execution_delta'') es)"

lemma fold_take_event:
  "shows_events h es \<Longrightarrow> shows_events (fold take_event new h) (es @ new)
     \<and> th_id (fold take_event new h) = th_id h \<and> th_after (fold take_event new h) = next_after (th_after h) new"
proof (induction new arbitrary: h es)
  case (Cons e new)
  have "shows_events (take_event e h) (es @ [e])"
    using Cons.prems by (auto simp: shows_events_def take_event_def events_text_def)
  from Cons.IH [OF this] show ?case
    by (cases new) (auto simp: take_event_def next_after_def)
qed (simp add: next_after_def)

text \<open>The history is that of the events up to the last one seen, which the log still holds.\<close>

definition keeps_up :: "store \<times> task_history \<Rightarrow> bool" where
  "keeps_up p \<longleftrightarrow> (case p of (s, h) \<Rightarrow>
     events_ok s \<and> th_after h \<le> event_seq s \<and> shows_events h (filter (\<lambda>e. Sequence e \<le> th_after h) (task_events (th_id h) s)))"

lemma keeps_up_new:
  assumes "events_ok s"
  shows "keeps_up (s, new_history i)"
proof -
  have none: "filter (\<lambda>e. Sequence e \<le> 0) (task_events i s) = []" by (auto simp: task_events_def filter_empty_conv)
  show ?thesis
    unfolding keeps_up_def new_history_def shows_events_def events_text_def prod.case task_history.select_convs none
    using assms by simp
qed

lemma events_ok_extends: "events_ok s \<Longrightarrow> log_extends s s' \<Longrightarrow> events_ok s'"
  by (fastforce simp: events_ok_def log_extends_def sorted_wrt_append)

lemma keeps_up_extends:
  assumes "keeps_up (s, h)" and "log_extends s s'"
  shows "keeps_up (s', h)"
proof -
  from assms(2) obtain new where new: "events s' = events s @ new" "\<forall>e \<in> set new. event_seq s < Sequence e" "event_seq s \<le> event_seq s'"
    by (auto simp: log_extends_def)
  have "th_after h \<le> event_seq s" using assms(1) by (simp add: keeps_up_def)
  then have "filter (\<lambda>e. Sequence e \<le> th_after h) (task_events (th_id h) s')
      = filter (\<lambda>e. Sequence e \<le> th_after h) (task_events (th_id h) s)"
    using new by (fastforce simp: task_events_def filter_empty_conv)
  with assms new(3) events_ok_extends [OF _ assms(2)] show ?thesis by (auto simp: keeps_up_def)
qed

lemma split_after:
  "filter (\<lambda>e. Sequence e \<le> n) (task_events i s) @ filter (\<lambda>e. ev_TaskID e = i \<and> n < Sequence e) (events s)
     = task_events i s" if "events_ok s"
proof -
  have "filter (\<lambda>e. P e \<and> 0 < Sequence e \<and> Sequence e \<le> n) es @ filter (\<lambda>e. P e \<and> n < Sequence e) es
      = filter (\<lambda>e. P e \<and> 0 < Sequence e) es"
    if "sorted_wrt (<) (map Sequence es)" for P :: "event \<Rightarrow> bool" and es
    using that
  proof (induction es rule: rev_induct)
    case (snoc e es)
    then have "sorted_wrt (<) (map Sequence es)" "\<forall>d \<in> set es. Sequence d < Sequence e" by (auto simp: sorted_wrt_append)
    moreover from this have "filter (\<lambda>e. P e \<and> n < Sequence e) es = []" if "Sequence e \<le> n"
      using that by (fastforce simp: filter_empty_conv)
    ultimately show ?case using snoc.IH by (cases "Sequence e \<le> n") auto
  qed simp
  from this [of "events s" "\<lambda>e. ev_TaskID e = i"] that show ?thesis
    by (simp add: events_ok_def task_events_def conj_ac)
qed

lemma load_view_Inr:
  assumes "load_view i (s, h) = (Inr upd, (s', h'))"
  obtains t h0 where "h0 = (if th_id h = i then h else new_history i)" "events s' = events s" "event_seq s' = event_seq s"
    "h' = (fold take_event (filter (\<lambda>e. ev_TaskID e = i \<and> th_after h0 < Sequence e) (events s)) h0)
            \<lparr>loaded := True, th_status := Status t, th_summary := Summary t\<rparr>"
    "find_doc ''tasks'' i s = Some (TaskDoc t)"
proof -
  define h0 where "h0 = (if th_id h = i then h else new_history i)"
  obtain x s1 where x: "Load as_task ''tasks'' i s = (x, s1)" by fastforce
  have same: "same_records s s1" by (rule records.keepsD [OF records_Load x])
  have ev: "events s1 = events s \<and> event_seq s1 = event_seq s"
    using x statement_same [of s]
    by (auto simp: Load_def andThen_def ret_def throw_def split: prod.splits sum.splits option.splits)
  from assms obtain t where t: "x = Inr t"
    unfolding load_view_def h0_def [symmetric]
    using x by (cases x) (auto simp: andThen_def from_store_def)
  from assms obtain es where es: "Events i (th_after h0) s1 = (Inr es, s')"
    and h': "h' = (fold take_event es h0)\<lparr>loaded := True, th_status := Status t, th_summary := Summary t\<rparr>"
    unfolding load_view_def h0_def [symmetric]
    using x t by (auto simp: andThen_def from_store_def Let_def h0_def split: prod.splits sum.splits)
  show thesis
  proof (rule that [OF h0_def])
    show "find_doc ''tasks'' i s = Some (TaskDoc t)" using x t Load_found [of as_task] by (fastforce simp: as_task_Some)
  qed (use Events_Inr [OF es] ev h' in auto)
qed

lemma load_view_complete:
  assumes "events_ok s" "keeps_up (s, h)" and "load_view i (s, h) = (Inr upd, (s', h'))"
  shows "keeps_up (s', h') \<and> th_id h' = i \<and> shows_events h' (task_events i s)"
proof -
  from assms(3) obtain t h0 where h0: "h0 = (if th_id h = i then h else new_history i)"
    and s': "events s' = events s" "event_seq s' = event_seq s"
    and h': "h' = (fold take_event (filter (\<lambda>e. ev_TaskID e = i \<and> th_after h0 < Sequence e) (events s)) h0)
            \<lparr>loaded := True, th_status := Status t, th_summary := Summary t\<rparr>"
    and "find_doc ''tasks'' i s = Some (TaskDoc t)"
    by (rule load_view_Inr)
  let ?new = "filter (\<lambda>e. ev_TaskID e = i \<and> th_after h0 < Sequence e) (events s)"
  have k: "keeps_up (s, h0)" "th_id h0 = i"
    using assms(1,2) keeps_up_new [OF assms(1)] by (auto simp: h0 new_history_def)
  from fold_take_event [of h0 "filter (\<lambda>e. Sequence e \<le> th_after h0) (task_events i s)" ?new] k split_after [OF assms(1), of "th_after h0" i]
  have all: "shows_events h' (task_events i s)" "th_id h' = i" "th_after h' = next_after (th_after h0) ?new"
    unfolding h' by (simp_all add: keeps_up_def shows_events_def)
  have last: "th_after h' \<le> event_seq s"
    using all(3) k(1) assms(1) after_last [of "events s" ?new "\<lambda>e. ev_TaskID e = i" "th_after h0"]
    by (cases "?new = []") (auto simp: next_after_def keeps_up_def events_ok_def)
  have "Sequence e \<le> th_after h'" if "e \<in> set (task_events i s)" for e
  proof (rule ccontr)
    assume "\<not> Sequence e \<le> th_after h'"
    then have "e \<in> set (filter (\<lambda>e. ev_TaskID e = i \<and> next_after (th_after h0) ?new < Sequence e) (events s))"
      using that all(3) by (simp add: task_events_def)
    with after_last [of "events s" ?new "\<lambda>e. ev_TaskID e = i" "th_after h0"] assms(1) show False
      by (simp add: events_ok_def)
  qed
  then have "filter (\<lambda>e. Sequence e \<le> th_after h') (task_events i s) = task_events i s"
    by (simp add: filter_id_conv)
  with all last s' assms(1) show ?thesis by (simp add: keeps_up_def events_ok_def task_events_def)
qed

text \<open>The worker and the rest of the program: selections, readings that succeed or fail, and anything the store does.\<close>

inductive viewed :: "store \<times> task_history \<Rightarrow> store \<times> task_history \<Rightarrow> bool" where
  view_begun: "viewed p p"
| view_changed: "viewed p (s, h) \<Longrightarrow> store_run s s' \<Longrightarrow> viewed p (s', h)"
| view_selected: "viewed p (s, h) \<Longrightarrow> viewed p (s, select_task h)"
| view_left: "viewed p (s, h) \<Longrightarrow> viewed p (s, new_history [])"
| view_loaded: "viewed p q \<Longrightarrow> load_view i q = (x, r) \<Longrightarrow> viewed p r"

lemma load_view_failed:
  assumes "events_ok s" "keeps_up (s, h)" and "load_view i (s, h) = (Inl e, (s', h'))"
  shows "keeps_up (s', h')"
proof -
  define h0 where "h0 = (if th_id h = i then h else new_history i)"
  have k: "keeps_up (s, h0)" using assms(1,2) keeps_up_new by (simp add: h0_def)
  obtain x s1 where x: "Load as_task ''tasks'' i s = (x, s1)" by fastforce
  obtain y s2 where y: "Events i (th_after h0) s1 = (y, s2)" by fastforce
  have same: "events s1 = events s \<and> event_seq s1 = event_seq s" "events s2 = events s1 \<and> event_seq s2 = event_seq s1"
    using x y statement_same [of s] statement_same [of s1]
    by (auto simp: Load_def Events_def andThen_def ret_def throw_def split: prod.splits sum.splits option.splits)
  have "h' = h0 \<and> (s' = s1 \<or> s' = s2)"
    using assms(3) x y unfolding load_view_def h0_def [symmetric]
    by (auto simp: andThen_def from_store_def Let_def h0_def split: sum.splits)
  with k same show ?thesis by (auto simp: keeps_up_def events_ok_def task_events_def)
qed

lemma viewed_keeps_up:
  "viewed p q \<Longrightarrow> keeps_up p \<Longrightarrow> keeps_up q"
proof (induction rule: viewed.induct)
  case (view_changed p s h s')
  then show ?case using keeps_up_extends log.run by blast
next
  case (view_selected p s h)
  then show ?case by (simp add: keeps_up_def select_task_def shows_events_def)
next
  case (view_left p s h)
  then show ?case using keeps_up_new by (simp add: keeps_up_def)
next
  case (view_loaded p q i x r)
  obtain s h s' h' where "q = (s, h)" "r = (s', h')" by (metis surj_pair)
  with view_loaded show ?case
    using load_view_failed [of s h i _ s' h'] load_view_complete [of s h i _ s' h'] by (cases x) (auto simp: keeps_up_def)
qed simp


text \<open>A task with one event.\<close>

definition demo_log :: store where
  "demo_log = snd (Event ''t1'' ''assistant'' ''hi'' crashed_store)"

lemma demo_log_ok: "events_ok crashed_store" "store_run crashed_store demo_log"
  using store_run.event [OF store_run.none] by (simp_all add: events_ok_def crashed_store_def empty_store_def demo_log_def)


end
