(* ===== verification/Composer.thy ===== *)
theory Composer
  imports TaskView
begin

text \<open>
  \<open>internal/ui/attachments.go\<close> and the sending of \<open>tasks.go\<close>: the files that go with a message.

  The composer holds the files the user added, those the text of the message names, and those of the
  latter the user took out again.  The disk does not change while a message is written.
\<close>

record composer =
  c_text :: string
  revision :: "64 word"
  explicit :: "string list"
  detected :: "string list"
  dismissed :: "string set"

definition newAttachmentComposer :: composer where
  "newAttachmentComposer = \<lparr>c_text = [], revision = 0, explicit = [], detected = [], dismissed = {}\<rparr>"

text \<open>The files shown and sent: each once, and none that was taken out.\<close>

fun keep_first :: "string set \<Rightarrow> string list \<Rightarrow> string list \<Rightarrow> string list" where
  "keep_first gone out [] = out"
| "keep_first gone out (p # ps) = keep_first gone (if p \<in> set out \<or> p \<in> gone then out else out @ [p]) ps"

definition paths :: "composer \<Rightarrow> string list" where
  "paths c = keep_first (dismissed c) [] (explicit c @ detected c)"

definition refresh :: "composer \<Rightarrow> composer" where
  "refresh c = c\<lparr>revision := revision c + 1\<rparr>"

definition text_changed :: "disk \<Rightarrow> string \<Rightarrow> composer \<Rightarrow> composer" where
  "text_changed d words c =
     (let found = References d words
      in refresh (c\<lparr>c_text := words, detected := found, dismissed := {p \<in> dismissed c. p \<in> set found}\<rparr>))"

fun validate_all :: "disk \<Rightarrow> string list \<Rightarrow> string list checked" where
  "validate_all d [] = Inr []"
| "validate_all d (p # ps) =
     (case ResolveReference d p of
        Inl x \<Rightarrow> Inl (''cannot add '' @ p @ '': '' @ x)
      | Inr real \<Rightarrow> (case validate_all d ps of Inl x \<Rightarrow> Inl x | Inr out \<Rightarrow> Inr (real # out)))"

definition add_files :: "disk \<Rightarrow> string list \<Rightarrow> composer \<Rightarrow> string option \<times> composer" where
  "add_files d ps c =
     (case validate_all d ps of
        Inl e \<Rightarrow> (Some e, c)
      | Inr real \<Rightarrow> (None, refresh (c\<lparr>dismissed := dismissed c - set real, explicit := explicit c @ real\<rparr>)))"

definition remove_file :: "string \<Rightarrow> composer \<Rightarrow> composer" where
  "remove_file p c =
     refresh (c\<lparr>explicit := filter (\<lambda>q. q \<noteq> p) (explicit c),
                dismissed := (if p \<in> set (detected c) then insert p (dismissed c) else dismissed c - {p})\<rparr>)"

text \<open>Setting the text to nothing reports a change when there was a text.\<close>

definition clear_composer :: "disk \<Rightarrow> composer \<Rightarrow> composer" where
  "clear_composer d c =
     (let c1 = c\<lparr>explicit := [], detected := [], dismissed := {}\<rparr>
      in refresh (if c_text c = [] then c1 else text_changed d [] c1))"

text \<open>
  Sending takes the text and the files as they are; when it has succeeded, the composer is cleared
  only if nothing was done to it meanwhile.
\<close>

definition send_message :: "composer \<Rightarrow> (string \<times> string list \<times> 64 word) option" where
  "send_message c =
     (if TrimSpace (c_text c) = [] \<and> paths c = [] then None else Some (c_text c, paths c, revision c))"

definition message_sent :: "disk \<Rightarrow> 64 word \<Rightarrow> composer \<Rightarrow> composer" where
  "message_sent d version c = (if revision c = version then clear_composer d c else c)"

inductive composed :: "disk \<Rightarrow> composer \<Rightarrow> nat \<Rightarrow> composer \<Rightarrow> bool" where
  compose_begun: "composed d c 0 c"
| compose_typed: "composed d c0 n c \<Longrightarrow> composed d c0 (Suc n) (text_changed d words c)"
| compose_added: "composed d c0 n c \<Longrightarrow> add_files d ps c = (None, c') \<Longrightarrow> composed d c0 (Suc n) c'"
| compose_removed: "composed d c0 n c \<Longrightarrow> composed d c0 (Suc n) (remove_file p c)"

lemma keep_first_set: "set (keep_first gone out ps) = set out \<union> (set ps - gone)"
  by (induction gone out ps rule: keep_first.induct) auto

lemma keep_first_distinct: "distinct out \<Longrightarrow> distinct (keep_first gone out ps)"
  by (induction gone out ps rule: keep_first.induct) auto

lemma paths_set: "set (paths c) = (set (explicit c) \<union> set (detected c)) - dismissed c"
  by (auto simp: paths_def keep_first_set)

lemma References_real: "list_all (real_file d) (References d words)"
  by (simp add: References_def collect_real)

lemma validate_all_real: "validate_all d ps = Inr real \<Longrightarrow> list_all (real_file d) real"
  by (induction d ps arbitrary: real rule: validate_all.induct) (auto split: sum.splits dest: ResolveReference_real)

definition composer_ok :: "disk \<Rightarrow> composer \<Rightarrow> bool" where
  "composer_ok d c \<longleftrightarrow> list_all (real_file d) (explicit c) \<and> detected c = References d (c_text c) \<and> dismissed c \<subseteq> set (detected c)"

lemma composed_ok: "composed d c0 n c \<Longrightarrow> composer_ok d c0 \<Longrightarrow> composer_ok d c \<and> revision c = revision c0 + of_nat n"
proof (induction rule: composed.induct)
  case (compose_added d c0 n c ps c')
  then show ?case
    by (auto simp: add_files_def composer_ok_def refresh_def dest: validate_all_real split: sum.splits)
next
  case (compose_removed d c0 n c p)
  from compose_removed.IH [OF compose_removed.prems]
  have c: "list_all (real_file d) (explicit c)" "detected c = References d (c_text c)" "\<And>x. x \<in> dismissed c \<Longrightarrow> x \<in> set (detected c)"
    "revision c = revision c0 + of_nat n"
    by (auto simp: composer_ok_def)
  have "list_all (real_file d) (filter (\<lambda>q. q \<noteq> p) (explicit c))" using c(1) by (simp add: list_all_iff)
  moreover have "(if p \<in> set (detected c) then insert p (dismissed c) else dismissed c - {p}) \<subseteq> set (detected c)"
    using c(3) by auto
  ultimately show ?case using c(2,4) by (simp add: remove_file_def composer_ok_def refresh_def)
qed (auto simp: text_changed_def composer_ok_def refresh_def Let_def)

lemma no_text: "References d [] = []"
proof -
  have "Split [] [CHR 0x0A] = [[]]" by (rule Split_Nil)
  moreover have "TrimSpace [] = []" by (rule TrimSpace_plain) (simp_all add: space_prefix_def space_suffix_def space_encodings_def HasPrefix_def HasSuffix_def)
  moreover have "ResolveReference d [] = Inl x \<Longrightarrow> line_candidates d [] = []" for x
    using calculation by (simp add: line_candidates_def find_tokens.simps [of "[]"] Let_def)
  moreover have "\<exists>x. ResolveReference d [] = Inl x"
    using calculation by (simp add: ResolveReference_def HasPrefix_def expand_home_def ValidatePath_def Let_def)
  ultimately show ?thesis by (auto simp: References_def)
qed

lemma new_ok: "composer_ok d newAttachmentComposer"
  by (simp add: newAttachmentComposer_def composer_ok_def no_text)

lemma composed_none: "composed d c n c' \<Longrightarrow> n = 0 \<Longrightarrow> c' = c"
  by (induction rule: composed.induct) auto

text \<open>
  C40: What is sent is what is shown, and nothing written meanwhile is lost.  In any state that the
  user can bring the composer to, the files of a message are distinct, are real paths of regular
  files without links, and are those that were added or that the text names, without the ones taken
  out.  When the message has been sent, the composer is cleared exactly if nothing was typed, added or
  taken out since.
\<close>

theorem sent_as_shown:
  assumes "composed d newAttachmentComposer k c" and "send_message c = Some (words, attached, version)"
    and "composed d c n c'" and "n < 2 ^ 64"
  shows "words = c_text c \<and> distinct attached \<and> list_all (real_file d) attached
     \<and> set attached = (set (explicit c) \<union> set (References d words)) - dismissed c
     \<and> (message_sent d version c' = (if n = 0 then clear_composer d c else c'))"
proof -
  from composed_ok [OF assms(1) new_ok] have ok: "composer_ok d c" by simp
  from assms(2) have sent: "words = c_text c" "attached = paths c" "version = revision c"
    by (auto simp: send_message_def split: if_splits)
  have attached: "set attached = (set (explicit c) \<union> set (References d words)) - dismissed c"
    using ok sent by (simp add: paths_set composer_ok_def)
  have "list_all (real_file d) attached"
    using ok References_real [of d words] attached by (auto simp: composer_ok_def list_all_iff)
  moreover have "distinct attached" unfolding sent(2) paths_def by (rule keep_first_distinct) simp
  moreover have "message_sent d version c' = (if n = 0 then clear_composer d c else c')"
  proof (cases "n = 0")
    case True
    with composed_none [OF assms(3)] sent show ?thesis by (simp add: message_sent_def)
  next
    case False
    have "(of_nat n :: 64 word) \<noteq> 0" using False assms(4) by (simp add: of_nat_eq_0_iff word_of_nat_eq_0_iff nat_dvd_not_less)
    with composed_ok [OF assms(3) ok] sent False show ?thesis by (simp add: message_sent_def)
  qed
  ultimately show ?thesis using attached sent by simp
qed

lemma removed_not_sent: "p \<notin> set (paths (remove_file p c))"
  by (simp add: paths_set remove_file_def refresh_def)

text \<open>A message that is changed while it is sent.\<close>

definition composer_disk :: disk where
  "composer_disk = \<lparr>tree = Folder 0 [] [(''a'', Regular [] ''x'')], kernel_links = 40, root_links = 8, home = None, cwd = []\<rparr>"

theorem sent_as_shown_witness:
  "\<exists>c c'. composed composer_disk newAttachmentComposer 1 c \<and> composed composer_disk c 1 c' \<and> c_text c' = ''see /b''
     \<and> send_message c = Some (''see /a'', paths c, revision c) \<and> list_all (real_file composer_disk) (paths c) \<and> message_sent composer_disk (revision c) c' = c'"
proof -
  let ?c = "text_changed composer_disk ''see /a'' newAttachmentComposer"
  let ?d = "text_changed composer_disk ''see /b'' ?c"
  have c: "composed composer_disk newAttachmentComposer 1 ?c" "composed composer_disk ?c 1 ?d"
    using compose_typed [OF compose_begun] by (simp_all add: One_nat_def)
  have words: "c_text ?c = ''see /a''" "c_text ?d = ''see /b''" by (simp_all add: text_changed_def refresh_def Let_def)
  have "TrimSpace ''see /a'' = ''see /a''"
    by (rule TrimSpace_plain) (simp_all add: space_prefix_def space_suffix_def space_encodings_def HasPrefix_def HasSuffix_def)
  with words(1) have send: "send_message ?c = Some (''see /a'', paths ?c, revision ?c)" by (simp add: send_message_def)
  from sent_as_shown [OF c(1) send c(2)] have "list_all (real_file composer_disk) (paths ?c)" "message_sent composer_disk (revision ?c) ?d = ?d"
    by simp_all
  with c words(2) send show ?thesis by blast
qed

end
