(* ===== verification/Skills.thy ===== *)
theory Skills
  imports Memory
begin

text \<open>
  \<open>internal/agent/skills.go\<close> and \<open>skill_backend.go\<close>: the manuals the assistant can read.

  The built-in manuals are files that are compiled in, given here as names with contents, and
  \<open>yaml.Unmarshal\<close> is a parameter.  The disk has one error for a path that cannot be followed, which
  counts as a directory that does not exist.
\<close>

type_synonym manuals = "(string \<times> string) list"

definition local_folders :: "disk \<Rightarrow> string \<Rightarrow> err + string list" where
  "local_folders d root =
     (case walk (tree d) (kernel_links d) (if IsAbs root then [] else cwd d) (target_elements root) of
        None \<Rightarrow> Inr []
      | Some loc \<Rightarrow>
          (case look (tree d) loc of
             Some (Folder _ _ es) \<Rightarrow> Inr (map fst (filter (\<lambda>(_, n). is_folder n) es))
           | _ \<Rightarrow> Inl (Msg os_error)))"

definition skill_names :: "disk \<Rightarrow> manuals \<Rightarrow> string \<Rightarrow> err + string" where
  "skill_names d builtin root =
     (case local_folders d root of Inl e \<Rightarrow> Inl e
      | Inr found \<Rightarrow>
          Inr (Join (sort (map (\<lambda>(n, _). ''builtin:'' @ n) builtin @ map (\<lambda>n. ''local:'' @ n) found)) newline))"

definition manual_file :: string where
  "manual_file = ''SKILL.md''"

definition local_skill :: "disk \<Rightarrow> string \<Rightarrow> string \<Rightarrow> err + string" where
  "local_skill d root0 short =
     (case EvalSymlinks d root0 of None \<Rightarrow> Inl (Msg os_error)
      | Some root \<Rightarrow>
          (case EvalSymlinks d (JoinPath [root, short, manual_file]) of None \<Rightarrow> Inl (Msg os_error)
           | Some p \<Rightarrow>
               (case Rel root p of None \<Rightarrow> Inl (Msg ''the manual is outside'')
                | Some relative \<Rightarrow>
                    if relative = ''..'' \<or> HasPrefix relative ''../'' then Inl (Msg ''the manual is outside'')
                    else (case real_node d p of
                            Some (Regular _ b) \<Rightarrow>
                              if 32768 < length (take 32769 b) then Inl (Msg ''the manual is longer than 32 KiB'') else Inr (take 32769 b)
                          | _ \<Rightarrow> Inl (Msg os_error)))))"

definition Read_skill :: "disk \<Rightarrow> manuals \<Rightarrow> string \<Rightarrow> string \<Rightarrow> err + string" where
  "Read_skill d builtin root name =
     (if name = [] then skill_names d builtin root
      else case Cut name '':'' of
        (origin0, short0, found) \<Rightarrow>
          let origin = (if found then origin0 else ''builtin''); short = (if found then short0 else name)
          in if Base short \<noteq> short \<or> short = ''.'' \<or> short = ''..'' \<or> short = [] then Inl (Msg ''invalid manual name'')
             else if origin = ''builtin'' then (case map_of builtin short of None \<Rightarrow> Inl (Msg os_error) | Some b \<Rightarrow> Inr b)
             else if origin \<noteq> ''local'' then Inl (Msg ''unknown origin of a manual'')
             else local_skill d root short)"

record front_matter =
  fm_Name :: string
  fm_Description :: string
  fm_Context :: string
  fm_Agent :: string
  fm_Model :: string

definition Get_skill :: "disk \<Rightarrow> manuals \<Rightarrow> string \<Rightarrow> (string \<Rightarrow> err + front_matter) \<Rightarrow> string \<Rightarrow> ('w, front_matter \<times> string) mact" where
  "Get_skill d builtin root yaml name =
     andThen Err (\<lambda>_.
     andThen (outcome (Read_skill d builtin root name)) (\<lambda>text_read.
       let parts = SplitN text_read ''---'' 3
       in if length parts \<noteq> 3 \<or> TrimSpace (parts ! 0) \<noteq> [] then throw (Msg ''the skill has no YAML header'')
          else andThen (outcome (yaml (parts ! 1))) (\<lambda>meta.
            if fm_Context meta \<noteq> [] \<or> fm_Agent meta \<noteq> [] \<or> fm_Model meta \<noteq> []
            then throw (Msg ''a skill cannot create agents or change the model'')
            else ret (meta\<lparr>fm_Name := name\<rparr>, parts ! 2))))"

fun get_all :: "(string \<Rightarrow> ('w, front_matter \<times> string) mact) \<Rightarrow> string list \<Rightarrow> ('w, front_matter list) mact" where
  "get_all get [] = ret []"
| "get_all get (n # ns) =
     (if n = [] then get_all get ns
      else andThen (get n) (\<lambda>x. andThen (get_all get ns) (\<lambda>xs. ret (fst x # xs))))"

definition List_skills :: "disk \<Rightarrow> manuals \<Rightarrow> string \<Rightarrow> (string \<Rightarrow> err + front_matter) \<Rightarrow> ('w, front_matter list) mact" where
  "List_skills d builtin root yaml =
     andThen (outcome (Read_skill d builtin root [])) (\<lambda>names.
       get_all (Get_skill d builtin root yaml) (Split names newline))"

subsection \<open>Manuals come from their directories\<close>

lemma local_skill_below:
  assumes "local_skill d root0 short = Inr b"
  shows "\<exists>root p. EvalSymlinks d root0 = Some root \<and> EvalSymlinks d (JoinPath [root, short, manual_file]) = Some p
    \<and> Within root p \<and> (\<exists>t. real_node d p = Some (Regular t b)) \<and> length b \<le> 32768"
proof -
  from assms obtain root p r t c where r: "EvalSymlinks d root0 = Some root" "EvalSymlinks d (JoinPath [root, short, manual_file]) = Some p"
    "Rel root p = Some r" "\<not> (r = ''..'' \<or> HasPrefix r ''../'')" "real_node d p = Some (Regular t c)" "\<not> 32768 < length (take 32769 c)"
    "b = take 32769 c"
    unfolding local_skill_def by (auto split: option.splits if_splits node.splits)
  from r(6) have "length c \<le> 32768" by (simp add: min_def split: if_splits)
  with r(7) have "b = c" by simp
  with r \<open>length c \<le> 32768\<close> show ?thesis by (auto simp: Within_def)
qed

text \<open>
  What is read as a manual is a built-in manual of that name, or a file of at most 32 KiB whose real
  path lies below the real directory of the manuals; a skill that is used names no agent, model or
  context of its own, and carries the name it was asked for.
\<close>

lemma manual_is_confined:
  assumes "Read_skill d builtin root0 name = Inr b" and "name \<noteq> []"
  shows "(\<exists>short. map_of builtin short = Some b) \<or>
    (\<exists>root p t. EvalSymlinks d root0 = Some root \<and> EvalSymlinks d p = Some p \<and> Within root p
        \<and> real_node d p = Some (Regular t b) \<and> length b \<le> 32768)"
proof -
  obtain a c f where cut: "Cut name '':'' = (a, c, f)" by (metis prod_cases3)
  from assms cut have "(\<exists>short. map_of builtin short = Some b) \<or> (\<exists>short. local_skill d root0 short = Inr b)"
    by (auto simp: Read_skill_def Let_def split: if_splits option.splits)
  then show ?thesis using local_skill_below EvalSymlinks_idem by metis
qed

lemma skill_is_plain:
  "Get_skill d builtin root yaml name m = (Inr (meta, words), m') \<Longrightarrow>
     fm_Name meta = name \<and> fm_Context meta = [] \<and> fm_Agent meta = [] \<and> fm_Model meta = []"
  by (auto simp: Get_skill_def andThen_def outcome_def throw_def ret_def Let_def split: prod.splits sum.splits if_splits)

end
