(* ===== verification/FileBrowser.thy ===== *)
theory FileBrowser
  imports Startup
begin

text \<open>
  The files of a workspace: \<open>internal/ui/workspace.go\<close> and \<open>files_interaction.go\<close>.

  The state is what the pane shows: the directory in its field, the listing and the directory it is of, and
  the selected row.  Listings are read in the background, so the answer to a request arrives when the
  field may long say something else.  A change of the server's files is what is asked of the SFTP client.
\<close>

subsection \<open>Paths of a directory\<close>

lemma elements_from_around: "elements_from cur (a @ slash # b) = elements_from cur a @ elements_from [] b"
  by (induction a arbitrary: cur) simp_all

lemma elements_around: "elements (a @ slash # b) = elements a @ elements b"
  by (simp add: elements_def elements_from_around)

definition entry_name :: "string \<Rightarrow> bool" where
  "entry_name x \<longleftrightarrow> plain x \<and> x \<noteq> ''.'' \<and> x \<noteq> ''..''"

lemma clean_elements_snoc: "entry_name x \<Longrightarrow> clean_elements r (xs @ [x]) = clean_elements r xs @ [x]"
  by (simp add: clean_elements_def clean_step_def entry_name_def)

lemma JoinPath_entry:
  assumes "IsAbs dir" "entry_name x"
  shows "JoinPath [dir, x] = abs_path (path_elements dir @ [x])"
proof -
  have ne: "dir \<noteq> []" "x \<noteq> []" using assms by (auto simp: IsAbs_def HasPrefix_def entry_name_def plain_def)
  have "IsAbs (dir @ slash # x)" using assms(1) ne(1) by (cases dir) (auto simp: IsAbs_def HasPrefix_def)
  moreover have "elements x = [x]" using assms(2) by (simp add: entry_name_def elements_single)
  ultimately have "path_elements (dir @ slash # x) = path_elements dir @ [x]"
    using assms by (simp add: path_elements_def elements_around clean_elements_snoc)
  with \<open>IsAbs (dir @ slash # x)\<close> ne show ?thesis by (simp add: JoinPath_def Clean_abs)
qed

lemma upto_last_slash_entry: "slash \<notin> set x \<Longrightarrow> upto_last_slash (a @ slash # x) = a @ [slash]"
proof -
  assume "slash \<notin> set x"
  then have "dropWhile (\<lambda>c. c \<noteq> slash) (rev x @ slash # rev a) = slash # rev a"
    by (subst dropWhile_append2) auto
  then show ?thesis by (simp add: upto_last_slash_def)
qed

lemma Join_snoc: "xs \<noteq> [] \<Longrightarrow> Join (xs @ [x]) sep = Join xs sep @ sep @ x"
  by (induction xs sep rule: Join.induct) auto

lemma Dir_entry:
  assumes "real_elements (xs @ [x])"
  shows "GoPath.Dir (abs_path (xs @ [x])) = abs_path xs"
proof -
  have x: "slash \<notin> set x" "list_all plain xs" "real_elements xs" using assms by (auto simp: real_elements_def plain_def list_all_iff)
  have up: "upto_last_slash (abs_path (xs @ [x])) = (if xs = [] then [slash] else abs_path xs @ [slash])"
  proof (cases "xs = []")
    case True
    then show ?thesis using upto_last_slash_entry [OF x(1), of "[]"] by (simp add: abs_path_def)
  next
    case False
    then show ?thesis using upto_last_slash_entry [OF x(1), of "abs_path xs"] by (simp add: abs_path_def Join_snoc)
  qed
  have e: "elements (if xs = [] then [slash] else abs_path xs @ [slash]) = xs"
    using elements_around [of "abs_path xs" "[]"] elements_around [of "[]" "[]"] x(2) by (auto simp: elements_abs_path) (simp_all add: elements_def)
  have "IsAbs (if xs = [] then [slash] else abs_path xs @ [slash])"
    by (simp add: abs_path_def IsAbs_def HasPrefix_def)
  from Clean_abs [OF this] have "Clean (if xs = [] then [slash] else abs_path xs @ [slash]) = abs_path xs"
    using e x(3) clean_elements_id by (simp add: path_elements_def \<open>IsAbs _\<close>)
  then show ?thesis by (simp add: GoPath.Dir_def up)
qed

lemma Dir_JoinPath:
  assumes "IsAbs dir" "entry_name x"
  shows "GoPath.Dir (JoinPath [dir, x]) = Clean dir"
proof -
  have "real_elements (path_elements dir @ [x])"
    using path_elements_real [OF assms(1)] assms(2) by (auto simp: real_elements_def entry_name_def)
  then show ?thesis using assms by (simp add: JoinPath_entry Dir_entry Clean_abs)
qed

subsection \<open>The pane\<close>

text \<open>An entry as the server lists it: name, size, permissions, time of change, and whether it is a directory.\<close>

type_synonym entry = "string \<times> int \<times> string \<times> time \<times> bool"

record browser =
  b_dir :: string
  listed :: string
  entries :: "entry list"
  row_selected :: int
  follow :: bool
  dir_status :: string
  left :: bool

definition new_browser :: browser where
  "new_browser = \<lparr>b_dir = [], listed = [], entries = [], row_selected = - 1, follow = True, dir_status = [], left = False\<rparr>"

text \<open>The directory that is asked for, if any, and the pane while the answer is awaited.\<close>

definition refreshFiles :: "browser \<Rightarrow> string option \<times> browser" where
  "refreshFiles w =
     (if b_dir w = [] then (None, w)
      else (Some (b_dir w), if listed w \<noteq> b_dir w then w\<lparr>entries := [], row_selected := - 1\<rparr> else w))"

definition files_arrived :: "string \<Rightarrow> entry list \<Rightarrow> browser \<Rightarrow> browser" where
  "files_arrived dir fs w =
     (if b_dir w \<noteq> dir \<or> left w then w else w\<lparr>listed := dir, entries := fs, row_selected := - 1\<rparr>)"

definition selection :: "browser \<Rightarrow> err + entry \<times> string" where
  "selection w =
     (if listed w \<noteq> b_dir w \<or> row_selected w < 0 \<or> int (length (entries w)) \<le> row_selected w then Inl (Msg ''select a file'')
      else let f = entries w ! nat (row_selected w) in Inr (f, JoinPath [b_dir w, fst f]))"

definition is_directory :: "entry \<Rightarrow> bool" where
  "is_directory f = (case f of (name, n, mode, modified, d) \<Rightarrow> d)"

text \<open>Opening a row goes into a directory; of a file the path is read, by the result.\<close>

definition openSelected :: "browser \<Rightarrow> (err + string option) \<times> browser" where
  "openSelected w =
     (case selection w of
        Inl e \<Rightarrow> (Inl e, w)
      | Inr (f, p) \<Rightarrow> if is_directory f then (Inr None, snd (refreshFiles (w\<lparr>b_dir := p\<rparr>))) else (Inr (Some p), w))"

definition set_follow :: "bool \<Rightarrow> browser \<Rightarrow> browser" where
  "set_follow enabled w = (if enabled = follow w then w else (let w1 = w\<lparr>follow := enabled\<rparr> in if enabled then w1\<lparr>b_dir := []\<rparr> else w1))"

text \<open>
  What becomes of the directory of the terminal, when it was asked for: \<open>current\<close> says whether the session is
  still the active one, \<open>changed\<close> whether session or directory differ from those of the last answer.
\<close>

definition directory_arrived :: "bool \<Rightarrow> bool \<Rightarrow> err + string \<Rightarrow> browser \<Rightarrow> browser" where
  "directory_arrived current changed x w =
     (if left w \<or> \<not> current then w
      else case x of
        Inl e \<Rightarrow> w\<lparr>dir_status := ''no directory of the terminal''\<rparr>
      | Inr dir \<Rightarrow>
          let w1 = w\<lparr>dir_status := []\<rparr>
          in if b_dir w = [] \<or> follow w \<and> changed then snd (refreshFiles (w1\<lparr>b_dir := dir\<rparr>)) else w1)"

text \<open>The watcher's own memory: the session and the directory of the last answer.\<close>

definition watch_directory :: "string \<Rightarrow> err + string \<Rightarrow> (string option \<times> string) \<Rightarrow> bool \<times> (string option \<times> string)" where
  "watch_directory session x prev =
     (let dir = (case x of Inr d \<Rightarrow> d | Inl e \<Rightarrow> [])
      in (Some session \<noteq> fst prev \<or> dir \<noteq> snd prev, case x of Inr d \<Rightarrow> (Some session, d) | Inl e \<Rightarrow> prev))"

datatype pane_event =
    Typed string
  | Submitted
  | Row_chosen int
  | Opened
  | Up
  | Followed bool
  | Answered string "entry list"
  | Directory bool bool "err + string"
  | Left

fun browse :: "pane_event \<Rightarrow> browser \<Rightarrow> browser" where
  "browse (Typed t) w = w\<lparr>b_dir := t\<rparr>"
| "browse Submitted w = snd (refreshFiles w)"
| "browse (Row_chosen i) w = w\<lparr>row_selected := i\<rparr>"
| "browse Opened w = snd (openSelected w)"
| "browse Up w = snd (refreshFiles (w\<lparr>b_dir := GoPath.Dir (b_dir w)\<rparr>))"
| "browse (Followed enabled) w = set_follow enabled w"
| "browse (Answered dir fs) w = files_arrived dir fs w"
| "browse (Directory current changed x) w = directory_arrived current changed x w"
| "browse Left w = w\<lparr>left := True\<rparr>"

definition browsed :: "pane_event list \<Rightarrow> browser" where
  "browsed es = fold browse es new_browser"

subsection \<open>Changing the files\<close>

datatype file_change = Mkdir string | Rename string string | Chmod string nat | Remove_entry string | Remove_directory string

datatype command = New_directory string | Rename_to string | Set_permissions string | Delete_selected

definition valid_name :: "string \<Rightarrow> bool" where
  "valid_name x \<longleftrightarrow> x \<noteq> [] \<and> x \<noteq> ''.'' \<and> x \<noteq> ''..'' \<and> slash \<notin> set x \<and> CHR 0x5C \<notin> set x \<and> CHR 0x00 \<notin> set x"

text \<open>\<open>strconv.ParseUint(s, 8, 12)\<close>.\<close>

definition parse_mode :: "string \<Rightarrow> nat option" where
  "parse_mode s =
     (if s = [] \<or> \<not> list_all (code_in 0x30 0x37) s then None
      else let n = foldl (\<lambda>n c. n * 8 + digit_value c) 0 s in if n < 2 ^ 12 then Some n else None)"

fun requested :: "browser \<Rightarrow> command \<Rightarrow> err + file_change" where
  "requested w (New_directory name) =
     (if valid_name name then Inr (Mkdir (JoinPath [b_dir w, name])) else Inl (Msg ''invalid name''))"
| "requested w (Rename_to name) =
     (case selection w of
        Inl e \<Rightarrow> Inl e
      | Inr (f, p) \<Rightarrow>
          if valid_name name then Inr (Rename p (JoinPath [GoPath.Dir p, name])) else Inl (Msg ''invalid name''))"
| "requested w (Set_permissions mode) =
     (case selection w of
        Inl e \<Rightarrow> Inl e
      | Inr (f, p) \<Rightarrow> (case parse_mode mode of None \<Rightarrow> Inl (Msg ''invalid syntax'') | Some n \<Rightarrow> Inr (Chmod p n)))"
| "requested w Delete_selected =
     (case selection w of
        Inl e \<Rightarrow> Inl e
      | Inr (f, p) \<Rightarrow> Inr (if is_directory f then Remove_directory p else Remove_entry p))"

definition download_source :: "browser \<Rightarrow> err + string" where
  "download_source w =
     (case selection w of
        Inl e \<Rightarrow> Inl e
      | Inr (f, p) \<Rightarrow> if is_directory f then Inl (Msg ''compress the directory first'') else Inr p)"

subsection \<open>What is changed was listed\<close>

lemma browse_listing:
  "(listed (browse e w), entries (browse e w)) = (listed w, entries w) \<or> entries (browse e w) = []
     \<or> e = Answered (listed (browse e w)) (entries (browse e w))"
  by (cases e)
    (auto simp: refreshFiles_def files_arrived_def openSelected_def set_follow_def directory_arrived_def Let_def split: sum.splits)

lemma entries_answered: "entries (browsed es) = [] \<or> Answered (listed (browsed es)) (entries (browsed es)) \<in> set es"
proof (induction es rule: rev_induct)
  case (snoc e es)
  then show ?case using browse_listing [of e "browsed es"] by (auto simp: browsed_def)
qed (simp add: browsed_def new_browser_def)

lemma selection_listed:
  assumes "selection (browsed es) = Inr (f, p)"
  shows "p = JoinPath [b_dir (browsed es), fst f]" and "\<exists>fs. Answered (b_dir (browsed es)) fs \<in> set es \<and> f \<in> set fs"
proof -
  let ?w = "browsed es"
  have sel: "listed ?w = b_dir ?w" "nat (row_selected ?w) < length (entries ?w)" "f = entries ?w ! nat (row_selected ?w)"
    using assms by (auto simp: selection_def Let_def split: if_splits)
  show "p = JoinPath [b_dir ?w, fst f]" using assms by (auto simp: selection_def Let_def split: if_splits)
  from sel(2) have "entries ?w \<noteq> []" by auto
  with entries_answered [of es] sel show "\<exists>fs. Answered (b_dir ?w) fs \<in> set es \<and> f \<in> set fs" by auto
qed

fun changed_paths :: "file_change \<Rightarrow> string list" where
  "changed_paths (Mkdir p) = [p]"
| "changed_paths (Rename p q) = [p, q]"
| "changed_paths (Chmod p n) = [p]"
| "changed_paths (Remove_entry p) = [p]"
| "changed_paths (Remove_directory p) = [p]"

lemma valid_name_entry: "valid_name x \<Longrightarrow> entry_name x"
  by (simp add: valid_name_def entry_name_def plain_def)

lemma requested_cases:
  assumes "requested w cmd = Inr change"
  obtains (create) name where "cmd = New_directory name" "entry_name name" "changed_paths change = [JoinPath [b_dir w, name]]"
  | (rename) name f p where "selection w = Inr (f, p)" "entry_name name" "changed_paths change = [p, JoinPath [GoPath.Dir p, name]]"
  | (alter) f p where "selection w = Inr (f, p)" "changed_paths change = [p]"
  using assms by (cases cmd) (auto split: if_splits sum.splits option.splits prod.splits dest: valid_name_entry)

text \<open>
  C36: A change of the server's files names what the user saw.  After any sequence of typing, choosing
  rows, changes of the terminal's directory and answers in any order, what is renamed, removed or given
  other permissions is an entry of a listing that the server gave for the directory in the field,
  and everything that a change names, the new name too, lies directly in that directory.
\<close>

theorem changes_follow_a_listing:
  assumes "requested (browsed es) cmd = Inr change" and "IsAbs (b_dir (browsed es))"
    and names: "\<And>d fs f. Answered d fs \<in> set es \<Longrightarrow> f \<in> set fs \<Longrightarrow> entry_name (fst f)"
  shows "(\<forall>p \<in> set (changed_paths change). GoPath.Dir p = Clean (b_dir (browsed es)))
     \<and> ((\<exists>name. cmd = New_directory name)
        \<or> (\<exists>fs f. Answered (b_dir (browsed es)) fs \<in> set es \<and> f \<in> set fs
              \<and> hd (changed_paths change) = JoinPath [b_dir (browsed es), fst f]))"
  using assms(1)
proof (cases rule: requested_cases)
  case (create name)
  then show ?thesis using Dir_JoinPath [OF assms(2)] by simp
next
  case (rename name f p)
  note p = selection_listed [OF rename(1)]
  then have "entry_name (fst f)" using names by blast
  with p(1) assms(2) have dir: "GoPath.Dir p = Clean (b_dir (browsed es))" by (simp add: Dir_JoinPath)
  have "IsAbs (Clean (b_dir (browsed es)))" using assms(2) by (simp add: Clean_abs)
  with dir rename(2) assms(2) have "GoPath.Dir (JoinPath [GoPath.Dir p, name]) = Clean (b_dir (browsed es))"
    by (simp add: Dir_JoinPath Clean_idem_abs)
  moreover obtain fs where "Answered (b_dir (browsed es)) fs \<in> set es" "f \<in> set fs" using p(2) by blast
  ultimately show ?thesis using dir rename(3) p(1) by (intro conjI disjI2 exI [of _ fs] exI [of _ f]) simp_all
next
  case (alter f p)
  note p = selection_listed [OF alter(1)]
  then obtain fs where "Answered (b_dir (browsed es)) fs \<in> set es" "f \<in> set fs" by blast
  with p(1) alter(2) assms(2) names show ?thesis by (intro conjI disjI2 exI [of _ fs] exI [of _ f]) (auto simp: Dir_JoinPath)
qed

definition demo_browsing :: "pane_event list" where
  "demo_browsing = [Typed ''/srv'', Submitted, Answered ''/srv'' [(''a'', 3, ''-rw-r--r--'', 0, False)], Row_chosen 0]"

theorem changes_follow_a_listing_witness:
  "requested (browsed demo_browsing) (Rename_to ''b'') = Inr (Rename ''/srv/a'' ''/srv/b'')
     \<and> GoPath.Dir ''/srv/b'' = Clean ''/srv''"
proof -
  have w: "b_dir (browsed demo_browsing) = ''/srv''"
    "requested (browsed demo_browsing) (Rename_to ''b'') = Inr (Rename ''/srv/a'' ''/srv/b'')"
    by code_simp+
  have "entry_name (fst f)" if "Answered d fs \<in> set demo_browsing" "f \<in> set fs" for d fs f
    using that by (auto simp: demo_browsing_def entry_name_def plain_def)
  from changes_follow_a_listing [OF w(2) _ this] w show ?thesis by (simp add: IsAbs_def HasPrefix_def)
qed

text \<open>
  Two readings of the same directory are not told apart: the answer to the older one may arrive last, and
  what it lists replaces what the newer one listed.
\<close>

lemma older_listing_stays:
  "entries (browsed (es @ [Typed d, Submitted, Submitted, Answered d new, Answered d old])) = old
     \<or> left (browsed (es @ [Typed d]))"
  by (auto simp: browsed_def refreshFiles_def files_arrived_def)

subsection \<open>Uploads\<close>

text \<open>\<open>os.Stat\<close>, which follows links: whether the path is a regular file.\<close>

definition stat_regular :: "disk \<Rightarrow> string \<Rightarrow> bool option" where
  "stat_regular d p =
     (case walk (tree d) (kernel_links d) (if IsAbs p then [] else cwd d) (target_elements p) of None \<Rightarrow> None
      | Some loc \<Rightarrow> map_option is_regular (look (tree d) loc))"

fun check_uploads :: "disk \<Rightarrow> string list \<Rightarrow> err + unit" where
  "check_uploads d [] = Inr ()"
| "check_uploads d (p # ps) =
     (case stat_regular d p of
        None \<Rightarrow> Inl (Msg ''no such file'')
      | Some regular \<Rightarrow> if regular then check_uploads d ps else Inl (Msg (Base p @ '' is not a regular file'')))"

text \<open>The files with their destinations; none is uploaded unless all can be.\<close>

definition queueUploads :: "disk \<Rightarrow> bool \<Rightarrow> string list \<Rightarrow> string \<Rightarrow> err + (string \<times> string) list" where
  "queueUploads d gone locals directory =
     (if locals = [] \<or> gone then Inr []
      else if \<not> IsAbs directory then Inl (Msg ''choose a directory for the upload'')
      else case check_uploads d locals of
        Inl e \<Rightarrow> Inl e
      | Inr _ \<Rightarrow> Inr (map (\<lambda>p. (p, JoinPath [directory, Base p])) locals))"

text \<open>
  What happens at the destination: an upload that does not replace anything, or a question whether to continue or
  replace what is there.  The outcome of \<open>Lstat\<close> tells whether it is a regular file.
\<close>

datatype next_step = Upload_new | Ask_mode | Nothing_to_do

definition upload_offer :: "bool \<Rightarrow> err + bool \<Rightarrow> err + next_step" where
  "upload_offer gone x =
     (case x of
        Inl e \<Rightarrow> if e \<noteq> NotExist then Inl e else Inr (if gone then Nothing_to_do else Upload_new)
      | Inr regular \<Rightarrow> if \<not> regular then Inl (Msg ''the destination is not a regular file'')
                       else Inr (if gone then Nothing_to_do else Ask_mode))"

lemma check_uploads_regular: "check_uploads d ps = Inr () \<longleftrightarrow> (\<forall>p \<in> set ps. stat_regular d p = Some True)"
  by (induction ps) (auto split: option.splits)

text \<open>Uploads are of regular files, each to its own name directly in the directory that was shown.\<close>

lemma uploads_in_directory:
  assumes "queueUploads d gone locals directory = Inr us" "us \<noteq> []"
  shows "IsAbs directory \<and> map fst us = locals
     \<and> (\<forall>(p, q) \<in> set us. stat_regular d p = Some True \<and> q = JoinPath [directory, Base p]
          \<and> (entry_name (Base p) \<longrightarrow> GoPath.Dir q = Clean directory))"
  using assms check_uploads_regular [of d locals]
  by (auto simp: queueUploads_def comp_def Dir_JoinPath split: if_splits sum.splits)

subsection \<open>Commands of the pane\<close>

definition compress_command :: "string \<Rightarrow> string" where
  "compress_command p = ''tar -czf '' @ Quote (p @ ''.tar.gz'') @ '' -C '' @ Quote (GoPath.Dir p) @ '' -- '' @ Quote (Base p)"

definition diagnose_command :: "bool \<Rightarrow> string \<Rightarrow> string option" where
  "diagnose_command trace destination =
     (if HasPrefix destination ''-'' \<or> destination = [] then None
      else Some ((if trace then ''traceroute -- '' else ''ping -c 4 -- '') @ Quote destination))"

definition enter_directory :: "browser \<Rightarrow> string" where
  "enter_directory w = ''cd -- '' @ Quote (b_dir w) @ [CHR 0x0D]"

lemma lex_Quote_last: "lex vals Bare w (map Literal (Quote v)) = lex vals Bare (add w v) []"
  using lex_Quote [of vals w v "[]"] by simp

text \<open>The names in the commands are single words for the shell, whatever they hold.\<close>

lemma compress_words:
  "shell_words (compress_command p) = Some [''tar'', ''-czf'', p @ ''.tar.gz'', ''-C'', GoPath.Dir p, ''--'', Base p]"
  by (simp add: compress_command_def shell_words_def lex_Quote lex_Quote_last special_def apostrophe_def del: map_append)

lemma diagnose_words:
  "diagnose_command trace x = Some cmd \<Longrightarrow>
     shell_words cmd = Some ((if trace then [''traceroute'', ''--''] else [''ping'', ''-c'', ''4'', ''--'']) @ [x])"
  by (auto simp: diagnose_command_def shell_words_def lex_Quote_last special_def apostrophe_def split: if_splits)

end
