(* ===== verification/Workbench.thy ===== *)
theory Workbench
  imports Connection "HOL-Library.Multiset"
begin

text \<open>
  \<open>internal/ui/app.go\<close>, \<open>workspace.go\<close>, \<open>companion.go\<close>, \<open>desktop.go\<close>, \<open>lifecycle.go\<close>, \<open>monitor.go\<close>,
  \<open>commands.go\<close> and \<open>design_tabs.go\<close>: the workspaces, their tabs and the sessions they own.

  A session is dialled in the background and handed over on the thread of the user interface; a closed
  workspace is cleaned up in the background.  Both waits are lists of the state, and an event takes an
  element out of them, so events in any order are the interleavings of the goroutines.  Sessions, tabs and
  terminals are numbers; those of the terminals are given with the event, as \<open>domain.ID\<close> is random.
\<close>

subsection \<open>State\<close>

datatype desk_tab = Home | Tab nat

record workspace =
  ws_tab :: nat
  ws_host :: string
  ws_sessions :: "nat list"
  ws_terminals :: "string list"
  ws_live :: bool

text \<open>Who asked for a session: the user or the agent for a new workspace, or a workspace for a split.\<close>

datatype arrival = By_user string | By_agent string | By_split nat

record desk =
  spaces :: "workspace list"
  items :: "desk_tab list"
  current :: "desk_tab option"
  registered :: "(string \<times> string) list"
  active :: string
  chosen_host :: string
  shown_host :: "string option"
  connecting :: "string set"
  closing :: bool
  saved_hosts :: "host list"
  next_tab :: nat
  next_session :: nat
  opened :: "nat set"
  dialling :: "arrival list"
  arriving :: "(arrival \<times> nat option) list"
  to_close :: "workspace list"

definition new_desk :: "host list \<Rightarrow> desk" where
  "new_desk hs =
     \<lparr>spaces = [], items = [Home], current = Some Home, registered = [], active = [], chosen_host = [], shown_host = None,
      connecting = {}, closing = False, saved_hosts = hs, next_tab = 0, next_session = 0, opened = {}, dialling = [],
      arriving = [], to_close = []\<rparr>"

subsection \<open>Tabs\<close>

definition space_of :: "desk_tab option \<Rightarrow> desk \<Rightarrow> workspace option" where
  "space_of t d = find (\<lambda>w. Some (Tab (ws_tab w)) = t \<and> ws_live w) (spaces d)"

definition selectWorkspace :: "desk_tab option \<Rightarrow> desk \<Rightarrow> desk" where
  "selectWorkspace t d =
     (case space_of t d of
        None \<Rightarrow> d\<lparr>active := [], shown_host := None\<rparr>
      | Some w \<Rightarrow> d\<lparr>active := (case ws_terminals w of [] \<Rightarrow> [] | i # _ \<Rightarrow> i), chosen_host := ws_host w, shown_host := Some (ws_host w)\<rparr>)"

definition tab_Select :: "desk_tab \<Rightarrow> desk \<Rightarrow> desk" where
  "tab_Select t d =
     (if t \<notin> set (items d) \<or> current d = Some t then d else selectWorkspace (Some t) (d\<lparr>current := Some t\<rparr>))"

definition tab_Append :: "desk_tab \<Rightarrow> desk \<Rightarrow> desk" where
  "tab_Append t d = d\<lparr>items := items d @ [t], current := (case current d of None \<Rightarrow> Some t | Some c \<Rightarrow> Some c)\<rparr>"

definition tab_after :: "desk_tab \<Rightarrow> desk_tab list \<Rightarrow> desk_tab option" where
  "tab_after t ts =
     (let i = length (takeWhile (\<lambda>x. x \<noteq> t) ts); rest = remove1 t ts
      in if rest = [] then None else Some (rest ! (i - 1)))"

definition tab_Remove :: "desk_tab \<Rightarrow> desk \<Rightarrow> desk" where
  "tab_Remove t d =
     (if t \<notin> set (items d) then d
      else let c = (if current d = Some t then tab_after t (items d) else current d)
           in selectWorkspace c (d\<lparr>items := remove1 t (items d), current := c\<rparr>))"

subsection \<open>Workspaces\<close>

text \<open>\<open>DesktopTerminals\<close>, as far as the workspaces use it.\<close>

definition unregister :: "string list \<Rightarrow> desk \<Rightarrow> desk" where
  "unregister is d =
     d\<lparr>registered := filter (\<lambda>(i, h). i \<notin> set is) (registered d), active := (if active d \<in> set is then [] else active d)\<rparr>"

definition newWorkspace :: "string \<Rightarrow> nat \<Rightarrow> string \<Rightarrow> desk \<Rightarrow> workspace \<times> desk" where
  "newWorkspace h s i d =
     (\<lparr>ws_tab = next_tab d, ws_host = h, ws_sessions = [s], ws_terminals = [i], ws_live = True\<rparr>,
      d\<lparr>next_tab := next_tab d + 1, registered := registered d @ [(i, h)]\<rparr>)"

definition showWorkspace :: "workspace \<Rightarrow> desk \<Rightarrow> desk" where
  "showWorkspace w d =
     tab_Remove Home (tab_Select (Tab (ws_tab w)) (tab_Append (Tab (ws_tab w)) (d\<lparr>spaces := spaces d @ [w]\<rparr>)))"

definition cancelled :: "workspace \<Rightarrow> workspace" where
  "cancelled w = w\<lparr>ws_live := False\<rparr>"

text \<open>\<open>workspace.close\<close>, which closes what the workspace owns and takes its terminals off the list.\<close>

definition close_space :: "workspace \<Rightarrow> desk \<Rightarrow> desk" where
  "close_space w d = unregister (ws_terminals w) (d\<lparr>opened := opened d - set (ws_sessions w)\<rparr>)"

definition closeWorkspace :: "desk_tab \<Rightarrow> desk \<Rightarrow> desk" where
  "closeWorkspace t d =
     (if t = Home then d
      else let d1 = (case find (\<lambda>w. Tab (ws_tab w) = t) (spaces d) of
                       None \<Rightarrow> d
                     | Some w \<Rightarrow> unregister (ws_terminals w) (d\<lparr>spaces := remove1 w (spaces d), to_close := to_close d @ [cancelled w]\<rparr>));
               d2 = tab_Remove t d1;
               d3 = (if items d2 = [] then tab_Select Home (tab_Append Home d2) else d2)
           in selectWorkspace (current d3) d3)"

subsection \<open>Connecting\<close>

definition App_connect :: "string \<Rightarrow> desk \<Rightarrow> desk" where
  "App_connect h d =
     (case find (\<lambda>w. ws_host w = h \<and> ws_live w) (spaces d) of
        Some w \<Rightarrow> tab_Select (Tab (ws_tab w)) d
      | None \<Rightarrow>
          if closing d \<or> h \<in> connecting d then d
          else d\<lparr>connecting := insert h (connecting d), dialling := dialling d @ [By_user h]\<rparr>)"

text \<open>A dial ends with a session or without one; the answer waits for the thread of the interface.\<close>

definition dialled :: "arrival \<Rightarrow> bool \<Rightarrow> desk \<Rightarrow> desk" where
  "dialled a ok d =
     (if a \<notin> set (dialling d) then d
      else let d1 = d\<lparr>dialling := remove1 a (dialling d)\<rparr>
           in if ok then d1\<lparr>arriving := arriving d @ [(a, Some (next_session d))], opened := insert (next_session d) (opened d),
                            next_session := next_session d + 1\<rparr>
              else d1\<lparr>arriving := arriving d @ [(a, None)]\<rparr>)"

definition close_session :: "nat \<Rightarrow> desk \<Rightarrow> desk" where
  "close_session s d = d\<lparr>opened := opened d - {s}\<rparr>"

definition open_space :: "string \<Rightarrow> nat \<Rightarrow> string \<Rightarrow> desk \<Rightarrow> desk" where
  "open_space h s i d = (let (w, d1) = newWorkspace h s i d in showWorkspace w d1)"

definition split_space :: "nat \<Rightarrow> nat \<Rightarrow> string \<Rightarrow> desk \<Rightarrow> desk" where
  "split_space t s i d =
     (case find (\<lambda>w. ws_tab w = t \<and> ws_live w) (spaces d) of
        None \<Rightarrow> close_session s d
      | Some v \<Rightarrow>
          d\<lparr>spaces := map (\<lambda>w. if ws_tab w = t \<and> ws_live w
                              then w\<lparr>ws_sessions := ws_sessions w @ [s], ws_terminals := ws_terminals w @ [i]\<rparr> else w) (spaces d),
            registered := registered d @ [(i, ws_host v)]\<rparr>)"

text \<open>The handover; \<open>gone\<close> says whether the context of the agent's request has ended.\<close>

fun handed_over :: "arrival \<Rightarrow> nat option \<Rightarrow> bool \<Rightarrow> string \<Rightarrow> desk \<Rightarrow> desk" where
  "handed_over (By_user h) None gone i d = d\<lparr>connecting := connecting d - {h}\<rparr>"
| "handed_over (By_user h) (Some s) gone i d =
     (let d1 = d\<lparr>connecting := connecting d - {h}\<rparr> in if closing d1 then close_session s d1 else open_space h s i d1)"
| "handed_over (By_agent h) None gone i d = d"
| "handed_over (By_agent h) (Some s) gone i d = (if closing d \<or> gone then close_session s d else open_space h s i d)"
| "handed_over (By_split t) None gone i d = d"
| "handed_over (By_split t) (Some s) gone i d = split_space t s i d"

definition arrived :: "arrival \<Rightarrow> nat option \<Rightarrow> bool \<Rightarrow> string \<Rightarrow> desk \<Rightarrow> desk" where
  "arrived a r gone i d =
     (if (a, r) \<notin> set (arriving d) then d else handed_over a r gone i (d\<lparr>arriving := remove1 (a, r) (arriving d)\<rparr>))"

subsection \<open>Deleting a host, and the end\<close>

fun close_each :: "workspace list \<Rightarrow> desk \<Rightarrow> desk" where
  "close_each [] d = d"
| "close_each (w # ws) d =
     close_each ws (tab_Remove (Tab (ws_tab w)) (close_space w (d\<lparr>spaces := map (\<lambda>v. if v = w then cancelled v else v) (spaces d)\<rparr>)))"

definition deleteHost :: "string \<Rightarrow> desk \<Rightarrow> desk" where
  "deleteHost h d =
     (if h \<notin> host_ID ` set (saved_hosts d) \<or> (\<exists>v \<in> set (saved_hosts d). host_JumpID v = h) then d
      else (close_each (filter (\<lambda>w. ws_host w = h) (spaces d)) d)
             \<lparr>chosen_host := [], saved_hosts := filter (\<lambda>v. host_ID v \<noteq> h) (saved_hosts d)\<rparr>)"

definition quit :: "desk \<Rightarrow> desk" where
  "quit d =
     (if closing d then d
      else d\<lparr>closing := True, to_close := to_close d @ map cancelled (spaces d), spaces := []\<rparr>)"

definition closed_up :: "workspace \<Rightarrow> desk \<Rightarrow> desk" where
  "closed_up w d = (if w \<notin> set (to_close d) then d else close_space w (d\<lparr>to_close := remove1 w (to_close d)\<rparr>))"

datatype happening =
    Connect_to string
  | Agent_opens string
  | Split nat
  | Dialled arrival bool
  | Arrived arrival "nat option" bool string
  | Select_tab desk_tab
  | Close_tab desk_tab
  | Closed_up workspace
  | Delete_host string
  | Session_ended nat
  | Quit

fun happen :: "happening \<Rightarrow> desk \<Rightarrow> desk" where
  "happen (Connect_to h) d = App_connect h d"
| "happen (Agent_opens h) d = d\<lparr>dialling := dialling d @ [By_agent h]\<rparr>"
| "happen (Split t) d = d\<lparr>dialling := dialling d @ [By_split t]\<rparr>"
| "happen (Dialled a ok) d = dialled a ok d"
| "happen (Arrived a r gone i) d = arrived a r gone i d"
| "happen (Select_tab t) d = tab_Select t d"
| "happen (Close_tab t) d = closeWorkspace t d"
| "happen (Closed_up w) d = closed_up w d"
| "happen (Delete_host h) d = deleteHost h d"
| "happen (Session_ended s) d = close_session s d"
| "happen Quit d = quit d"

definition history :: "host list \<Rightarrow> happening list \<Rightarrow> desk" where
  "history hs es = fold happen es (new_desk hs)"

end
