(* ===== verification/WorkbenchSafe.thy ===== *)
theory WorkbenchSafe
  imports Workbench
begin

text \<open>
  What holds of the workbench after any interleaving: sessions have an owner, the tabs are the workspaces, and
  a host has one workspace unless the agent opens another.
\<close>

subsection \<open>Nothing stays open without an owner\<close>

text \<open>What the tabs do not touch.\<close>

definition holdings :: "desk \<Rightarrow> workspace list \<times> nat set \<times> (string \<times> string) list \<times> (arrival \<times> nat option) list \<times> workspace list \<times> bool" where
  "holdings d = (spaces d, opened d, registered d, arriving d, to_close d, closing d)"

definition requests :: "desk \<Rightarrow> arrival list \<times> string set" where
  "requests d = (dialling d, connecting d)"

named_theorems desk_simps \<open>what the operations leave alone\<close>

lemma selectWorkspace_same [desk_simps]:
  "holdings (selectWorkspace t d) = holdings d" "requests (selectWorkspace t d) = requests d"
  "items (selectWorkspace t d) = items d" "current (selectWorkspace t d) = current d"
  by (simp_all add: selectWorkspace_def holdings_def requests_def split: option.split)

lemma tab_Select_same [desk_simps]:
  "holdings (tab_Select t d) = holdings d" "requests (tab_Select t d) = requests d" "items (tab_Select t d) = items d"
  by (simp_all add: tab_Select_def desk_simps) (simp_all add: holdings_def requests_def)

lemma tab_Append_same [desk_simps]:
  "holdings (tab_Append t d) = holdings d" "requests (tab_Append t d) = requests d"
  by (simp_all add: tab_Append_def holdings_def requests_def)

lemma tab_Remove_same [desk_simps]:
  "holdings (tab_Remove t d) = holdings d" "requests (tab_Remove t d) = requests d"
  by (simp_all add: tab_Remove_def Let_def desk_simps) (simp_all add: holdings_def requests_def)

definition held_by :: "desk \<Rightarrow> nat \<Rightarrow> bool" where
  "held_by d s \<longleftrightarrow> (\<exists>a. (a, Some s) \<in> set (arriving d)) \<or> (\<exists>w \<in> set (spaces d). ws_live w \<and> s \<in> set (ws_sessions w))
     \<or> (\<exists>w \<in> set (to_close d). s \<in> set (ws_sessions w))"

definition listed_for :: "desk \<Rightarrow> string \<Rightarrow> bool" where
  "listed_for d i \<longleftrightarrow> (\<exists>w \<in> set (spaces d). ws_live w \<and> i \<in> set (ws_terminals w)) \<or> (\<exists>w \<in> set (to_close d). i \<in> set (ws_terminals w))"

text \<open>All but the sessions in \<open>X\<close> have an owner.\<close>

definition owned_but :: "nat set \<Rightarrow> desk \<Rightarrow> bool" where
  "owned_but X d \<longleftrightarrow> (\<forall>s \<in> opened d - X. held_by d s) \<and> (\<forall>(i, h) \<in> set (registered d). listed_for d i) \<and> (closing d \<longrightarrow> spaces d = [])"

lemma held_byI:
  "(a, Some s) \<in> set (arriving d) \<Longrightarrow> held_by d s"
  "w \<in> set (spaces d) \<Longrightarrow> ws_live w \<Longrightarrow> s \<in> set (ws_sessions w) \<Longrightarrow> held_by d s"
  "w \<in> set (to_close d) \<Longrightarrow> s \<in> set (ws_sessions w) \<Longrightarrow> held_by d s"
  by (auto simp: held_by_def)

lemma held_byE:
  assumes "held_by d s"
  obtains (arriving) a where "(a, Some s) \<in> set (arriving d)"
  | (live) w where "w \<in> set (spaces d)" "ws_live w" "s \<in> set (ws_sessions w)"
  | (closing) w where "w \<in> set (to_close d)" "s \<in> set (ws_sessions w)"
  using assms by (auto simp: held_by_def)

lemma listed_forI:
  "w \<in> set (spaces d) \<Longrightarrow> ws_live w \<Longrightarrow> i \<in> set (ws_terminals w) \<Longrightarrow> listed_for d i"
  "w \<in> set (to_close d) \<Longrightarrow> i \<in> set (ws_terminals w) \<Longrightarrow> listed_for d i"
  by (auto simp: listed_for_def)

lemma listed_forE:
  assumes "listed_for d i"
  obtains (live) w where "w \<in> set (spaces d)" "ws_live w" "i \<in> set (ws_terminals w)"
  | (closing) w where "w \<in> set (to_close d)" "i \<in> set (ws_terminals w)"
  using assms by (auto simp: listed_for_def)

lemma owned_butI:
  assumes "owned_but X d"
    and "\<And>s. s \<in> opened d' \<Longrightarrow> s \<notin> X' \<Longrightarrow> s \<in> opened d \<and> s \<notin> X \<and> (held_by d s \<longrightarrow> held_by d' s) \<or> held_by d' s"
    and "\<And>i h. (i, h) \<in> set (registered d') \<Longrightarrow> (i, h) \<in> set (registered d) \<and> (listed_for d i \<longrightarrow> listed_for d' i) \<or> listed_for d' i"
    and "closing d' \<Longrightarrow> spaces d' = []"
  shows "owned_but X' d'"
  using assms unfolding owned_but_def by blast

lemma owned_but_cong: "holdings d = holdings d' \<Longrightarrow> owned_but X d = owned_but X d'"
  by (simp add: owned_but_def held_by_def listed_for_def holdings_def)

lemma owned_tabs [desk_simps]:
  "owned_but X (selectWorkspace t d) = owned_but X d" "owned_but X (tab_Select tb d) = owned_but X d"
  "owned_but X (tab_Append tb d) = owned_but X d" "owned_but X (tab_Remove tb d) = owned_but X d"
  by (rule owned_but_cong, simp add: desk_simps)+

lemma owned_open_space:
  assumes "owned_but {s} d" "\<not> closing d"
  shows "owned_but {} (open_space h s i d)"
proof -
  let ?w = "\<lparr>ws_tab = next_tab d, ws_host = h, ws_sessions = [s], ws_terminals = [i], ws_live = True\<rparr>"
  let ?d = "d\<lparr>next_tab := next_tab d + 1, registered := registered d @ [(i, h)], spaces := spaces d @ [?w]\<rparr>"
  have "owned_but {} ?d" using assms by (auto simp: owned_but_def held_by_def listed_for_def)
  then show ?thesis by (simp add: open_space_def newWorkspace_def showWorkspace_def desk_simps)
qed

lemma owned_close_session: "owned_but X d \<Longrightarrow> X \<subseteq> {s} \<Longrightarrow> owned_but {} (close_session s d)"
  by (auto simp: close_session_def owned_but_def held_by_def listed_for_def)

lemma owned_split_space: "owned_but {s} d \<Longrightarrow> owned_but {} (split_space t s i d)"
proof (cases "find (\<lambda>w. ws_tab w = t \<and> ws_live w) (spaces d)")
  case None
  then show "owned_but {s} d \<Longrightarrow> ?thesis" by (simp add: split_space_def owned_close_session)
next
  case (Some v)
  then have v: "v \<in> set (spaces d)" "ws_tab v = t" "ws_live v" by (auto simp: find_Some_iff)
  let ?add = "\<lambda>w. if ws_tab w = t \<and> ws_live w then w\<lparr>ws_sessions := ws_sessions w @ [s], ws_terminals := ws_terminals w @ [i]\<rparr> else w"
  let ?d = "d\<lparr>spaces := map ?add (spaces d), registered := registered d @ [(i, ws_host v)]\<rparr>"
  have grown: "?add w \<in> set (spaces ?d)" "ws_live (?add w) = ws_live w" "set (ws_sessions w) \<subseteq> set (ws_sessions (?add w))"
    "set (ws_terminals w) \<subseteq> set (ws_terminals (?add w))" if "w \<in> set (spaces d)" for w
    using that by auto
  have new: "held_by ?d s" "listed_for ?d i"
    using held_byI(2) [OF grown(1) [OF v(1)], of s] listed_forI(1) [OF grown(1) [OF v(1)], of i] v by simp_all
  have "held_by ?d s'" if "held_by d s'" for s'
    using that
  proof (cases rule: held_byE)
    case (live w)
    show ?thesis by (rule held_byI(2) [OF grown(1) [OF live(1)]]) (use live in auto)
  qed (auto simp: held_by_def)
  moreover have "listed_for ?d j" if "listed_for d j" for j
    using that
  proof (cases rule: listed_forE)
    case (live w)
    show ?thesis by (rule listed_forI(1) [OF grown(1) [OF live(1)]]) (use live in auto)
  qed (auto simp: listed_for_def)
  moreover assume o: "owned_but {s} d"
  ultimately have "owned_but {} ?d"
    by (intro owned_butI [OF o]) (use new o in \<open>auto simp: owned_but_def\<close>)
  with Some show ?thesis by (simp add: split_space_def)
qed

lemma owned_handed_over: "owned_but (set_option r) d \<Longrightarrow> owned_but {} (handed_over a r gone i d)"
proof (cases a)
  case (By_user h)
  have "owned_but X (d\<lparr>connecting := connecting d - {h}\<rparr>) = owned_but X d" for X
    by (rule owned_but_cong) (simp add: holdings_def)
  then show "owned_but (set_option r) d \<Longrightarrow> ?thesis"
    using By_user by (cases r) (auto simp: Let_def intro: owned_open_space owned_close_session)
next
  case (By_agent h)
  then show "owned_but (set_option r) d \<Longrightarrow> ?thesis"
    by (cases r) (auto intro: owned_open_space owned_close_session)
next
  case (By_split t)
  then show "owned_but (set_option r) d \<Longrightarrow> ?thesis" by (cases r) (auto intro: owned_split_space)
qed

lemma in_remove1_other: "x \<in> set xs \<Longrightarrow> x \<noteq> y \<Longrightarrow> x \<in> set (remove1 y xs)"
  by (induction xs) auto

lemma owned_arrived: "owned_but {} d \<Longrightarrow> owned_but {} (arrived a r gone i d)"
proof (cases "(a, r) \<in> set (arriving d)")
  case True
  assume o: "owned_but {} d"
  have "held_by (d\<lparr>arriving := remove1 (a, r) (arriving d)\<rparr>) s" if "held_by d s" "r \<noteq> Some s" for s
    using that(1) by (cases rule: held_byE) (use that(2) in \<open>auto simp: held_by_def intro: in_remove1_other\<close>)
  with o have "owned_but (set_option r) (d\<lparr>arriving := remove1 (a, r) (arriving d)\<rparr>)"
    by (cases r) (auto simp: owned_but_def listed_for_def)
  with True show ?thesis by (simp add: arrived_def owned_handed_over)
qed (simp add: arrived_def)

lemma owned_dialled: "owned_but {} d \<Longrightarrow> owned_but {} (dialled a ok d)"
  by (auto simp: dialled_def Let_def owned_but_def held_by_def listed_for_def)

lemma owned_close_space:
  assumes "owned_but {} d" and "set (spaces d') \<supseteq> {v \<in> set (spaces d). v \<noteq> w}" and "set (to_close d') \<supseteq> {v \<in> set (to_close d). v \<noteq> w}"
    and "opened d' = opened d" "registered d' = registered d" "arriving d' = arriving d" "closing d' = closing d"
    and "closing d' \<Longrightarrow> spaces d' = []"
  shows "owned_but {} (close_space w d')"
proof (rule owned_butI [OF assms(1)])
  let ?d = "close_space w d'"
  have same: "spaces ?d = spaces d'" "to_close ?d = to_close d'" "arriving ?d = arriving d" "closing ?d = closing d'"
    "opened ?d = opened d - set (ws_sessions w)" "registered ?d = filter (\<lambda>(i, h). i \<notin> set (ws_terminals w)) (registered d)"
    using assms(4-6) by (simp_all add: close_space_def unregister_def)
  show "closing ?d \<Longrightarrow> spaces ?d = []" using assms(8) same by simp
  have keep: "v \<in> set (spaces d) \<Longrightarrow> v \<noteq> w \<Longrightarrow> v \<in> set (spaces ?d)" "v \<in> set (to_close d) \<Longrightarrow> v \<noteq> w \<Longrightarrow> v \<in> set (to_close ?d)" for v
    using assms(2,3) same by auto
  show "s \<in> opened d \<and> s \<notin> {} \<and> (held_by d s \<longrightarrow> held_by ?d s) \<or> held_by ?d s" if "s \<in> opened ?d" for s
  proof -
    have s: "s \<in> opened d" "s \<notin> set (ws_sessions w)" using that same by auto
    have "held_by ?d s" if "held_by d s"
      using that by (cases rule: held_byE) (use s(2) keep same(3) held_byI in \<open>metis\<close>)+
    with s(1) show ?thesis by blast
  qed
  show "(i, h) \<in> set (registered d) \<and> (listed_for d i \<longrightarrow> listed_for ?d i) \<or> listed_for ?d i" if "(i, h) \<in> set (registered ?d)" for i h
  proof -
    have i: "(i, h) \<in> set (registered d)" "i \<notin> set (ws_terminals w)" using that same by auto
    have "listed_for ?d i" if "listed_for d i"
      using that by (cases rule: listed_forE) (use i(2) keep listed_forI in \<open>metis\<close>)+
    with i(1) show ?thesis by blast
  qed
qed

lemma owned_closed_up: "owned_but {} d \<Longrightarrow> owned_but {} (closed_up w d)"
proof (cases "w \<in> set (to_close d)")
  case True
  assume "owned_but {} d"
  then have "owned_but {} (close_space w (d\<lparr>to_close := remove1 w (to_close d)\<rparr>))"
    by (rule owned_close_space) (use \<open>owned_but {} d\<close> in \<open>auto simp: in_remove1_other owned_but_def\<close>)
  with True show ?thesis by (simp add: closed_up_def)
qed (simp add: closed_up_def)

lemma owned_close_each: "owned_but {} d \<Longrightarrow> owned_but {} (close_each ws d)"
proof (induction ws d rule: close_each.induct)
  case (2 w ws d)
  have "owned_but {} (close_space w (d\<lparr>spaces := map (\<lambda>v. if v = w then cancelled v else v) (spaces d)\<rparr>))"
    using 2(2) by (rule owned_close_space) (use 2(2) in \<open>auto simp: owned_but_def image_iff\<close>)
  with 2(1) show ?case by (simp add: desk_simps)
qed simp

lemma owned_closeWorkspace: "owned_but {} d \<Longrightarrow> owned_but {} (closeWorkspace t d)"
proof -
  assume o: "owned_but {} d"
  have "owned_but {} (unregister (ws_terminals w) (d\<lparr>spaces := remove1 w (spaces d), to_close := to_close d @ [cancelled w]\<rparr>))" for w
  proof -
    have "v \<in> set (remove1 w (spaces d))" if "v \<in> set (spaces d)" "v \<noteq> w" for v using that by (rule in_remove1_other)
    let ?d = "unregister (ws_terminals w) (d\<lparr>spaces := remove1 w (spaces d), to_close := to_close d @ [cancelled w]\<rparr>)"
    have same: "spaces ?d = remove1 w (spaces d)" "to_close ?d = to_close d @ [cancelled w]" "arriving ?d = arriving d"
      "opened ?d = opened d" "closing ?d = closing d" "registered ?d = filter (\<lambda>(i, h). i \<notin> set (ws_terminals w)) (registered d)"
      by (simp_all add: unregister_def)
    have "held_by ?d s" if "held_by d s" for s
      using that
    proof (cases rule: held_byE)
      case (live v)
      show ?thesis
      proof (cases "v = w")
        case True
        show ?thesis by (rule held_byI(3) [of "cancelled w"]) (use True live same in \<open>simp_all add: cancelled_def\<close>)
      next
        case False
        show ?thesis by (rule held_byI(2) [of v]) (use False live same in_remove1_other in \<open>auto\<close>)
      qed
    qed (auto simp: held_by_def same)
    moreover have "listed_for ?d i" if "listed_for d i" "i \<notin> set (ws_terminals w)" for i
      using that(1) by (cases rule: listed_forE) (use that(2) in_remove1_other in \<open>auto simp: listed_for_def same intro: in_remove1_other\<close>)
    moreover have "spaces ?d = []" if "closing d" using o that by (simp add: unregister_def owned_but_def)
    ultimately show ?thesis by (intro owned_butI [OF o]) (auto simp: same(4-6))
  qed
  with o show ?thesis by (simp add: closeWorkspace_def Let_def desk_simps split: option.split)
qed

lemma owned_quit: "owned_but {} d \<Longrightarrow> owned_but {} (quit d)"
proof (cases "closing d")
  case False
  let ?d = "d\<lparr>closing := True, to_close := to_close d @ map cancelled (spaces d), spaces := []\<rparr>"
  have "held_by ?d s" if "held_by d s" for s
    using that
  proof (cases rule: held_byE)
    case (live w)
    show ?thesis by (rule held_byI(3) [of "cancelled w"]) (use live in \<open>simp_all add: cancelled_def\<close>)
  qed (auto simp: held_by_def)
  moreover have "listed_for ?d i" if "listed_for d i" for i
    using that
  proof (cases rule: listed_forE)
    case (live w)
    show ?thesis by (rule listed_forI(2) [of "cancelled w"]) (use live in \<open>simp_all add: cancelled_def\<close>)
  qed (auto simp: listed_for_def)
  moreover assume o: "owned_but {} d"
  ultimately have "owned_but {} ?d" by (intro owned_butI [OF o]) auto
  with False show ?thesis by (simp add: quit_def)
qed (simp add: quit_def)

lemma owned_connect: "owned_but {} d \<Longrightarrow> owned_but {} (App_connect h d)"
  by (auto simp: App_connect_def desk_simps split: option.split) (simp_all add: owned_but_def held_by_def listed_for_def)

lemma owned_happen: "owned_but {} d \<Longrightarrow> owned_but {} (happen e d)"
proof (cases e)
  case (Delete_host h)
  assume o: "owned_but {} d"
  let ?f = "close_each (filter (\<lambda>w. ws_host w = h) (spaces d)) d"
  have "owned_but {} (?f\<lparr>chosen_host := [], saved_hosts := hs\<rparr>) = owned_but {} ?f" for hs
    by (rule owned_but_cong) (simp add: holdings_def)
  with o Delete_host show ?thesis by (simp add: deleteHost_def owned_close_each)
qed (simp_all add: owned_connect owned_dialled owned_arrived owned_closeWorkspace owned_closed_up owned_quit desk_simps owned_close_session,
     simp_all add: owned_but_def held_by_def listed_for_def)

text \<open>
  C35: No session is lost.  After any interleaving of connecting, splitting, closing, deleting hosts and
  quitting, with connections asked for by the user and by the agent, an open session is on its way to
  the interface, belongs to a live workspace, or to one that is being closed; the terminals the agent may use
  are those of such workspaces.  Once the application is quitting, and when what was under way has
  been dealt with, no session is open and no terminal is on the list.
\<close>

theorem sessions_are_owned:
  "(\<forall>s \<in> opened (history hs es). held_by (history hs es) s)
   \<and> (\<forall>(i, h) \<in> set (registered (history hs es)). listed_for (history hs es) i)
   \<and> (closing (history hs es) \<and> arriving (history hs es) = [] \<and> to_close (history hs es) = []
      \<longrightarrow> opened (history hs es) = {} \<and> registered (history hs es) = [])"
proof -
  have "owned_but {} (history hs es)"
  proof (induction es rule: rev_induct)
    case (snoc e es)
    then show ?case by (simp add: history_def owned_happen)
  qed (simp add: history_def new_desk_def owned_but_def)
  moreover from this have "opened (history hs es) = {} \<and> registered (history hs es) = []"
    if "closing (history hs es)" "arriving (history hs es) = []" "to_close (history hs es) = []"
    using that by (cases "registered (history hs es)") (auto simp: owned_but_def held_by_def listed_for_def)
  ultimately show ?thesis by (simp add: owned_but_def)
qed

theorem sessions_are_owned_witness:
  "\<exists>es. closing (history [] es) \<and> next_session (history [] es) = 2 \<and> opened (history [] es) = {}"
proof -
  let ?w = "\<lparr>ws_tab = 0, ws_host = ''a'', ws_sessions = [0], ws_terminals = [''t''], ws_live = False\<rparr>"
  let ?es = "[Connect_to ''a'', Dialled (By_user ''a'') True, Arrived (By_user ''a'') (Some 0) False ''t'', Split 0,
     Dialled (By_split 0) True, Quit, Arrived (By_split 0) (Some 1) False ''u'', Closed_up ?w]"
  have q: "closing (history [] ?es)" "next_session (history [] ?es) = 2" "arriving (history [] ?es) = []" "to_close (history [] ?es) = []"
    by code_simp+
  from sessions_are_owned [of "[]" ?es] q have "opened (history [] ?es) = {}" by blast
  with q show ?thesis by blast
qed

subsection \<open>A tab for every workspace\<close>

lemma tab_spaces [desk_simps]:
  "spaces (selectWorkspace t d) = spaces d" "spaces (tab_Select tb d) = spaces d" "spaces (tab_Append tb d) = spaces d"
  "spaces (tab_Remove tb d) = spaces d" "closing (selectWorkspace t d) = closing d" "closing (tab_Select tb d) = closing d"
  "closing (tab_Append tb d) = closing d" "closing (tab_Remove tb d) = closing d"
  using selectWorkspace_same(1) [of t d] tab_Select_same(1) [of tb d] tab_Append_same(1) [of tb d] tab_Remove_same(1) [of tb d]
  by (simp_all add: holdings_def)

lemma tab_next [desk_simps]:
  "next_tab (selectWorkspace t d) = next_tab d" "next_tab (tab_Select tb d) = next_tab d" "next_tab (tab_Append tb d) = next_tab d"
  "next_tab (tab_Remove tb d) = next_tab d"
  by (simp_all add: tab_Select_def tab_Append_def tab_Remove_def selectWorkspace_def Let_def split: option.split)

lemma tab_after_in: "t \<in> set ts \<Longrightarrow> remove1 t ts \<noteq> [] \<Longrightarrow> \<exists>u \<in> set (remove1 t ts). tab_after t ts = Some u"
proof -
  assume t: "t \<in> set ts" and ne: "remove1 t ts \<noteq> []"
  let ?i = "length (takeWhile (\<lambda>x. x \<noteq> t) ts)"
  have "?i < length ts" using t by (induction ts) auto
  moreover have "length (remove1 t ts) = length ts - 1" using t by (simp add: length_remove1)
  ultimately have "?i - 1 < length (remove1 t ts)" using ne by (cases "remove1 t ts") auto
  with ne show ?thesis by (auto simp: tab_after_def Let_def)
qed

text \<open>The tabs shown are the workspaces, or the page of the application when there is none.\<close>

definition tabs_for :: "workspace list \<Rightarrow> desk_tab list" where
  "tabs_for ws = (if ws = [] then [Home] else map (\<lambda>w. Tab (ws_tab w)) ws)"

definition tabs_ok :: "desk \<Rightarrow> bool" where
  "tabs_ok d \<longleftrightarrow> items d = tabs_for (spaces d) \<and> (\<exists>t \<in> set (items d). current d = Some t)
     \<and> distinct (map ws_tab (spaces d)) \<and> (\<forall>w \<in> set (spaces d). ws_tab w < next_tab d)"

lemma tabs_ok_same:
  "items d' = items d \<Longrightarrow> current d' = current d \<Longrightarrow> map ws_tab (spaces d') = map ws_tab (spaces d) \<Longrightarrow> next_tab d' = next_tab d \<Longrightarrow>
     tabs_ok d \<Longrightarrow> tabs_ok d'"
proof -
  assume same: "items d' = items d" "current d' = current d" "map ws_tab (spaces d') = map ws_tab (spaces d)" "next_tab d' = next_tab d"
    and ok: "tabs_ok d"
  have "(spaces d' = []) = (spaces d = [])" using same(3) by (metis map_is_Nil_conv)
  moreover have "map (\<lambda>w. Tab (ws_tab w)) (spaces d') = map (\<lambda>w. Tab (ws_tab w)) (spaces d)"
    using arg_cong [OF same(3), of "map Tab"] by (simp add: comp_def)
  ultimately have tabs: "tabs_for (spaces d') = tabs_for (spaces d)" by (simp add: tabs_for_def)
  have "ws_tab ` set (spaces d') = ws_tab ` set (spaces d)" using arg_cong [OF same(3), of set] by simp
  then have "(\<forall>w \<in> set (spaces d'). ws_tab w < next_tab d) = (\<forall>w \<in> set (spaces d). ws_tab w < next_tab d)"
    by (metis (no_types, lifting) image_iff)
  with tabs same ok show ?thesis by (auto simp: tabs_ok_def)
qed

lemma tabs_Select: "tabs_ok d \<Longrightarrow> tabs_ok (tab_Select t d)"
  by (auto simp: tab_Select_def tabs_ok_def desk_simps)

lemma tabs_open_space:
  assumes "tabs_ok d"
  shows "tabs_ok (open_space h s i d)"
proof -
  let ?n = "next_tab d"
  let ?w = "\<lparr>ws_tab = ?n, ws_host = h, ws_sessions = [s], ws_terminals = [i], ws_live = True\<rparr>"
  let ?d = "d\<lparr>next_tab := ?n + 1, registered := registered d @ [(i, h)], spaces := spaces d @ [?w]\<rparr>"
  from assms have fresh: "Tab ?n \<notin> set (items d)" and cur: "\<exists>t. current d = Some t \<and> t \<noteq> Tab ?n"
    by (cases "spaces d = []"; auto simp: tabs_ok_def tabs_for_def)+
  let ?e = "tab_Select (Tab ?n) (tab_Append (Tab ?n) ?d)"
  have e: "items ?e = items d @ [Tab ?n]" "current ?e = Some (Tab ?n)" "spaces ?e = spaces d @ [?w]" "next_tab ?e = ?n + 1"
    using cur by (auto simp: desk_simps) (auto simp: tab_Append_def tab_Select_def desk_simps)
  have "items (tab_Remove Home ?e) = tabs_for (spaces d @ [?w])"
    using assms e by (auto simp: tab_Remove_def desk_simps tabs_ok_def tabs_for_def Let_def)
  moreover have "current (tab_Remove Home ?e) = Some (Tab ?n)"
    using e by (simp add: tab_Remove_def desk_simps Let_def)
  ultimately have "tabs_ok (tab_Remove Home ?e)"
    using assms e by (auto simp: tabs_ok_def desk_simps tabs_for_def less_Suc_eq)
  then show ?thesis by (simp add: open_space_def newWorkspace_def showWorkspace_def)
qed

lemma remove1_map: "distinct (map f xs) \<Longrightarrow> x \<in> set xs \<Longrightarrow> remove1 (f x) (map f xs) = map f (remove1 x xs)"
proof (induction xs)
  case (Cons a xs)
  then show ?case by (cases "x = a") (auto simp: image_iff)
qed simp

lemma tabs_closeWorkspace:
  assumes "tabs_ok d" "t \<noteq> Home"
  shows "tabs_ok (closeWorkspace t d)"
proof (cases "find (\<lambda>w. Tab (ws_tab w) = t) (spaces d)")
  case None
  then have "t \<notin> set (items d)" using assms by (auto simp: tabs_ok_def tabs_for_def find_None_iff split: if_splits)
  with None assms show ?thesis by (auto simp: closeWorkspace_def tab_Remove_def Let_def tabs_ok_def desk_simps tabs_for_def)
next
  case (Some w)
  then have w: "w \<in> set (spaces d)" "t = Tab (ws_tab w)" by (auto simp: find_Some_iff)
  let ?d = "unregister (ws_terminals w) (d\<lparr>spaces := remove1 w (spaces d), to_close := to_close d @ [cancelled w]\<rparr>)"
  have d: "spaces ?d = remove1 w (spaces d)" "items ?d = items d" "current ?d = current d" "next_tab ?d = next_tab d"
    by (simp_all add: unregister_def)
  have ne: "spaces d \<noteq> []" using w by auto
  then have its: "items d = map (\<lambda>w. Tab (ws_tab w)) (spaces d)" using assms by (simp add: tabs_ok_def tabs_for_def)
  have "distinct (map (\<lambda>w. Tab (ws_tab w)) (spaces d))"
    using assms by (simp add: tabs_ok_def distinct_map inj_on_def)
  from remove1_map [OF this w(1)] its have rest: "remove1 t (items d) = map (\<lambda>w. Tab (ws_tab w)) (remove1 w (spaces d))"
    using w(2) by simp
  have t: "t \<in> set (items d)" using its w by auto
  let ?e = "tab_Remove t ?d"
  have e: "items ?e = remove1 t (items d)" "spaces ?e = remove1 w (spaces d)" "next_tab ?e = next_tab d"
    "current ?e = (if current d = Some t then tab_after t (items d) else current d)"
    using t d by (simp_all add: desk_simps) (simp_all add: tab_Remove_def desk_simps Let_def)
  have part: "distinct (map ws_tab (remove1 w (spaces d)))" "\<forall>v \<in> set (remove1 w (spaces d)). ws_tab v < next_tab d"
    using assms set_remove1_subset [of w "spaces d"] by (auto simp: tabs_ok_def distinct_map distinct_remove1 inj_on_def)
  have result: "closeWorkspace t d
      = (let d3 = (if items ?e = [] then tab_Select Home (tab_Append Home ?e) else ?e) in selectWorkspace (current d3) d3)"
    using Some assms(2) by (simp add: closeWorkspace_def Let_def)
  show ?thesis
  proof (cases "remove1 w (spaces d) = []")
    case True
    then have "items ?e = []" using e rest by simp
    moreover from this t have "current ?e = None"
      using e assms its rest True ne by (auto simp: tabs_ok_def tab_after_def Let_def) (metis in_remove1_other empty_iff list.set(1))+
    ultimately show ?thesis using e True
      by (simp add: result tab_Append_def tab_Select_def tabs_ok_def desk_simps tabs_for_def)
  next
    case False
    then have "items ?e \<noteq> []" "remove1 t (items d) \<noteq> []" using e rest by simp_all
    moreover have "\<exists>u \<in> set (remove1 t (items d)). current ?e = Some u"
      using e assms tab_after_in [OF t calculation(2)] by (auto simp: tabs_ok_def in_remove1_other)
    ultimately show ?thesis using e part rest False
      by (simp add: result tabs_ok_def desk_simps tabs_for_def)
  qed
qed

lemma tabs_handed_over: "tabs_ok d \<Longrightarrow> tabs_ok (handed_over a r gone i d)"
proof (cases a)
  case (By_user h)
  have "tabs_ok d \<Longrightarrow> tabs_ok (d\<lparr>connecting := connecting d - {h}\<rparr>)" by (erule tabs_ok_same [rotated 4]) simp_all
  moreover have "tabs_ok d \<Longrightarrow> tabs_ok (close_session s d)" for s d by (erule tabs_ok_same [rotated 4]) (simp_all add: close_session_def)
  ultimately show "tabs_ok d \<Longrightarrow> ?thesis" using By_user by (cases r) (simp_all add: Let_def tabs_open_space)
next
  case (By_agent h)
  have "tabs_ok d \<Longrightarrow> tabs_ok (close_session s d)" for s d by (erule tabs_ok_same [rotated 4]) (simp_all add: close_session_def)
  then show "tabs_ok d \<Longrightarrow> ?thesis" using By_agent by (cases r) (simp_all add: tabs_open_space)
next
  case (By_split t)
  have "tabs_ok d \<Longrightarrow> tabs_ok (split_space t s i d)" for s
    by (erule tabs_ok_same [rotated 4]) (simp_all add: split_space_def close_session_def split: option.split)
  then show "tabs_ok d \<Longrightarrow> ?thesis" using By_split by (cases r) simp_all
qed

lemma closing_handed_over: "closing (handed_over a r gone i d) = closing d"
  by (cases a; cases r)
    (simp_all add: Let_def open_space_def newWorkspace_def showWorkspace_def desk_simps close_session_def split_space_def split: option.split)

lemma tabs_happen:
  assumes "\<not> closing d \<Longrightarrow> tabs_ok d" "\<not> closing (happen e d)" "\<And>h. e \<noteq> Delete_host h"
  shows "tabs_ok (happen e d)"
proof -
  have "\<not> closing d"
    using assms(2,3) by (cases e)
      (auto simp: closing_handed_over App_connect_def desk_simps dialled_def Let_def arrived_def closeWorkspace_def closed_up_def close_space_def unregister_def
         close_session_def quit_def split: option.splits if_splits)
  with assms(1) have ok: "tabs_ok d" .
  have same: "tabs_ok (d\<lparr>arriving := x\<rparr>)" for x by (rule tabs_ok_same [OF _ _ _ _ ok]) simp_all
  show ?thesis
  proof (cases e)
    case (Connect_to h)
    then show ?thesis
      using ok tabs_Select [OF ok] by (auto simp: App_connect_def split: option.split) (erule tabs_ok_same [rotated 4]; simp)
  next
    case (Arrived a r gone i)
    then show ?thesis using ok tabs_handed_over [OF same] by (simp add: arrived_def)
  next
    case (Close_tab t)
    then show ?thesis using tabs_closeWorkspace [OF ok, of t] ok by (cases "t = Home") (simp_all add: closeWorkspace_def)
  next
    case Quit
    then show ?thesis using assms(2) by (simp add: quit_def split: if_splits)
  qed (use assms(3) tabs_Select [OF ok] ok in
      \<open>auto simp: dialled_def Let_def closed_up_def close_space_def unregister_def close_session_def elim!: tabs_ok_same [rotated 4]\<close>)
qed


definition two_hosts :: "happening list" where
  "two_hosts = [Connect_to ''a'', Dialled (By_user ''a'') True, Arrived (By_user ''a'') (Some 0) False ''t'', Connect_to ''b'',
     Dialled (By_user ''b'') True, Arrived (By_user ''b'') (Some 1) False ''u'', Close_tab (Tab 0), Close_tab (Tab 1)]"


text \<open>Deleting the host of the only workspace leaves no tab at all: the home page does not come back.\<close>

definition lone_host :: host where
  "lone_host = \<lparr>host_ID = ''a'', host_Name = ''a'', host_Address = ''a'', host_Port = 22, host_User = ''ops'', host_Group = [],
      host_Tags = [], host_Auth = ''agent'', host_KeyPath = [], host_JumpID = [], host_Proxy = []\<rparr>"

lemma deleting_leaves_no_tab:
  "items (history [lone_host] (take 3 two_hosts @ [Delete_host ''a''])) = []
   \<and> current (history [lone_host] (take 3 two_hosts @ [Delete_host ''a''])) = None"
  by code_simp

subsection \<open>One workspace for a host\<close>

definition asked :: "desk \<Rightarrow> arrival multiset" where
  "asked d = mset (dialling d) + image_mset fst (mset (arriving d))"

definition live_hosts :: "desk \<Rightarrow> string list" where
  "live_hosts d = map ws_host (filter ws_live (spaces d))"

definition one_each :: "desk \<Rightarrow> bool" where
  "one_each d \<longleftrightarrow> (\<forall>h. count (asked d) (By_user h) = (if h \<in> connecting d then 1 else 0) \<and> count (asked d) (By_agent h) = 0)
     \<and> distinct (live_hosts d) \<and> set (live_hosts d) \<inter> connecting d = {}"

lemma one_each_cong: "holdings d' = holdings d \<Longrightarrow> requests d' = requests d \<Longrightarrow> one_each d' = one_each d"
  by (simp add: one_each_def asked_def live_hosts_def holdings_def requests_def)

lemma one_each_tabs [desk_simps]:
  "one_each (selectWorkspace t d) = one_each d" "one_each (tab_Select tb d) = one_each d"
  "one_each (tab_Append tb d) = one_each d" "one_each (tab_Remove tb d) = one_each d"
  by (rule one_each_cong; simp add: desk_simps)+

lemma one_each_eq: "one_each d \<Longrightarrow> asked d' = asked d \<Longrightarrow> live_hosts d' = live_hosts d \<Longrightarrow> connecting d' = connecting d \<Longrightarrow> one_each d'"
  by (simp add: one_each_def)

text \<open>Workspaces may be closed, and sessions come and go.\<close>

lemma one_each_fewer:
  assumes "one_each d" "asked d' = asked d" "connecting d' = connecting d"
    and "distinct (live_hosts d')" "set (live_hosts d') \<subseteq> set (live_hosts d)"
  shows "one_each d'"
  using assms by (auto simp: one_each_def)

lemma live_hosts_remove1: "distinct (live_hosts d) \<Longrightarrow> distinct (map ws_host (filter ws_live (remove1 w (spaces d))))
   \<and> set (map ws_host (filter ws_live (remove1 w (spaces d)))) \<subseteq> set (live_hosts d)"
  using set_remove1_subset [of w "filter ws_live (spaces d)"] unfolding live_hosts_def
  by (auto simp: distinct_map filter_remove1 distinct_remove1 inj_on_def)

lemma live_hosts_cancel:
  "distinct (map ws_host (filter ws_live ws)) \<Longrightarrow>
     distinct (map ws_host (filter ws_live (map (\<lambda>v. if v = w then cancelled v else v) ws)))
     \<and> set (map ws_host (filter ws_live (map (\<lambda>v. if v = w then cancelled v else v) ws))) \<subseteq> set (map ws_host (filter ws_live ws))"
  by (induction ws) (auto simp: cancelled_def)

lemma one_each_close_each: "one_each d \<Longrightarrow> one_each (close_each ws d)"
proof (induction ws d rule: close_each.induct)
  case (2 w ws d)
  let ?d = "close_space w (d\<lparr>spaces := map (\<lambda>v. if v = w then cancelled v else v) (spaces d)\<rparr>)"
  have same: "asked ?d = asked d" "connecting ?d = connecting d"
    "live_hosts ?d = map ws_host (filter ws_live (map (\<lambda>v. if v = w then cancelled v else v) (spaces d)))"
    by (simp_all add: close_space_def unregister_def asked_def live_hosts_def)
  have "distinct (live_hosts d)" using 2(2) by (simp add: one_each_def)
  then have "one_each ?d"
    using live_hosts_cancel [of "spaces d" w, folded same(3)] by (intro one_each_fewer [OF 2(2) same(1,2)]) (simp_all add: live_hosts_def)
  with 2(1) show ?case by (simp add: desk_simps)
qed simp

lemma one_each_open_space:
  assumes "one_each d" "h \<notin> set (live_hosts d)" "h \<notin> connecting d"
  shows "one_each (open_space h s i d)"
proof -
  let ?w = "\<lparr>ws_tab = next_tab d, ws_host = h, ws_sessions = [s], ws_terminals = [i], ws_live = True\<rparr>"
  have "one_each (d\<lparr>next_tab := next_tab d + 1, registered := registered d @ [(i, h)], spaces := spaces d @ [?w]\<rparr>)"
    using assms by (auto simp: one_each_def asked_def live_hosts_def)
  then show ?thesis by (simp add: open_space_def newWorkspace_def showWorkspace_def desk_simps)
qed

lemma asked_arrived: "(a, r) \<in> set (arriving d) \<Longrightarrow> asked d = add_mset a (asked (d\<lparr>arriving := remove1 (a, r) (arriving d)\<rparr>))"
proof -
  assume "(a, r) \<in> set (arriving d)"
  then have "mset (arriving d) = add_mset (a, r) (mset (remove1 (a, r) (arriving d)))" by simp
  from arg_cong [OF this, of "image_mset fst"] show ?thesis by (simp add: asked_def)
qed

lemma one_each_arrived:
  assumes one: "one_each d"
  shows "one_each (arrived a r gone i d)"
proof (cases "(a, r) \<in> set (arriving d)")
  case True
  let ?d = "d\<lparr>arriving := remove1 (a, r) (arriving d)\<rparr>"
  note asked = asked_arrived [OF True]
  have same: "live_hosts ?d = live_hosts d" "connecting ?d = connecting d" by (simp_all add: live_hosts_def)
  show ?thesis
  proof (cases a)
    case (By_agent h)
    have "count (asked d) (By_agent h) = 0" using one by (simp add: one_each_def)
    with asked By_agent show ?thesis by simp
  next
    case (By_user h)
    have "count (asked d) (By_user h) = (if h \<in> connecting d then 1 else 0)" using one by (simp add: one_each_def)
    then have h: "h \<in> connecting d" using asked By_user by (auto split: if_splits)
    then have new: "h \<notin> set (live_hosts d)" using one by (auto simp: one_each_def)
    have d1: "one_each (?d\<lparr>connecting := connecting d - {h}\<rparr>)"
      unfolding one_each_def
    proof (intro conjI allI)
      fix k
      have "count (asked d) (By_user k) = (if k \<in> connecting d then 1 else 0)" "count (asked d) (By_agent k) = 0"
        using one by (simp_all add: one_each_def)
      with asked By_user h
      show "count (asked (?d\<lparr>connecting := connecting d - {h}\<rparr>)) (By_user k) = (if k \<in> connecting (?d\<lparr>connecting := connecting d - {h}\<rparr>) then 1 else 0)"
        "count (asked (?d\<lparr>connecting := connecting d - {h}\<rparr>)) (By_agent k) = 0"
        by (auto simp: asked_def split: if_splits)
    qed (use one in \<open>auto simp: one_each_def live_hosts_def\<close>)
    then have "one_each (close_session s (?d\<lparr>connecting := connecting d - {h}\<rparr>))" for s
      by (simp add: one_each_def asked_def live_hosts_def close_session_def)
    moreover have "one_each (open_space h s i (?d\<lparr>connecting := connecting d - {h}\<rparr>))" for s
      using d1 by (rule one_each_open_space) (use new in \<open>simp_all add: live_hosts_def\<close>)
    ultimately show ?thesis using True By_user d1 by (cases r) (simp_all add: arrived_def Let_def)
  next
    case (By_split t)
    have d1: "one_each ?d" using one asked By_split by (auto simp: one_each_def live_hosts_def)
    let ?add = "\<lambda>s (w :: workspace). if ws_tab w = t \<and> ws_live w then w\<lparr>ws_sessions := ws_sessions w @ [s], ws_terminals := ws_terminals w @ [i]\<rparr> else w"
    have "map ws_host (filter ws_live (map (?add s) ws)) = map ws_host (filter ws_live ws)" for s and ws :: "workspace list"
      by (induction ws) auto
    then have "one_each (split_space t s i ?d)" for s
      by (intro one_each_eq [OF d1]) (simp_all add: split_space_def close_session_def asked_def live_hosts_def split: option.split)
    with True By_split d1 show ?thesis by (cases r) (simp_all add: arrived_def)
  qed
qed (simp add: arrived_def one)

lemma one_each_happen:
  assumes one: "one_each d" and e: "\<And>h. e \<noteq> Agent_opens h"
  shows "one_each (happen e d)"
proof (cases e)
  case (Connect_to h)
  show ?thesis
  proof (cases "find (\<lambda>w. ws_host w = h \<and> ws_live w) (spaces d)")
    case None
    then have "h \<notin> set (live_hosts d)" by (auto simp: live_hosts_def find_None_iff)
    moreover have "asked (d\<lparr>connecting := insert h (connecting d), dialling := dialling d @ [By_user h]\<rparr>) = add_mset (By_user h) (asked d)"
      "live_hosts (d\<lparr>connecting := insert h (connecting d), dialling := dialling d @ [By_user h]\<rparr>) = live_hosts d"
      by (simp_all add: asked_def live_hosts_def)
    ultimately show ?thesis using None one Connect_to by (simp add: App_connect_def one_each_def)
  next
    case (Some w)
    then show ?thesis using one Connect_to by (simp add: App_connect_def desk_simps)
  qed
next
  case (Dialled a ok)
  have "asked (dialled a ok d) = asked d" "live_hosts (dialled a ok d) = live_hosts d" "connecting (dialled a ok d) = connecting d"
    by (auto simp: dialled_def asked_def live_hosts_def Let_def)
  with one Dialled show ?thesis by (simp add: one_each_def)
next
  case (Arrived a r gone i)
  with one show ?thesis by (simp add: one_each_arrived)
next
  case (Close_tab t)
  have "one_each (unregister (ws_terminals w) (d\<lparr>spaces := remove1 w (spaces d), to_close := to_close d @ [cancelled w]\<rparr>))" for w
    using live_hosts_remove1 [of d w] one
    by (intro one_each_fewer [OF one]) (simp_all add: unregister_def asked_def live_hosts_def one_each_def)
  with one Close_tab show ?thesis by (simp add: closeWorkspace_def Let_def desk_simps split: option.split)
next
  case (Delete_host h)
  have "one_each (close_each ws d)" for ws using one by (rule one_each_close_each)
  then have "one_each ((close_each ws d)\<lparr>chosen_host := [], saved_hosts := hs\<rparr>)" for ws hs
    by (subst one_each_cong [of _ "close_each ws d"]) (simp_all add: holdings_def requests_def)
  with one Delete_host show ?thesis by (simp add: deleteHost_def)
next
  case (Split t)
  have "count (asked (d\<lparr>dialling := dialling d @ [By_split t]\<rparr>)) a = count (asked d) a" if "a \<noteq> By_split t" for a
    using that by (simp add: asked_def)
  with one Split show ?thesis by (simp add: one_each_def live_hosts_def)
next
  case (Closed_up w)
  show ?thesis unfolding Closed_up
    by (rule one_each_eq [OF one]) (simp_all add: closed_up_def close_space_def unregister_def asked_def live_hosts_def)
next
  case (Session_ended s)
  show ?thesis unfolding Session_ended by (rule one_each_eq [OF one]) (simp_all add: close_session_def asked_def live_hosts_def)
next
  case Quit
  show ?thesis unfolding Quit
    by (rule one_each_fewer [OF one]) (use one in \<open>simp_all add: quit_def asked_def live_hosts_def one_each_def\<close>)
qed (use one e in \<open>simp_all add: desk_simps\<close>)

text \<open>
  However often the user connects to a host, it has one live workspace, or one connection being made, or
  neither, as long as the agent opens none; the agent may open a second one.
\<close>

theorem one_workspace_per_host:
  assumes "\<And>h. Agent_opens h \<notin> set es"
  shows "distinct (live_hosts (history hs es)) \<and> set (live_hosts (history hs es)) \<inter> connecting (history hs es) = {}"
proof -
  have "one_each (history hs es)" using assms
  proof (induction es rule: rev_induct)
    case (snoc e es)
    then show ?case by (auto simp: history_def intro!: one_each_happen)
  qed (simp add: history_def new_desk_def one_each_def asked_def live_hosts_def)
  then show ?thesis by (simp add: one_each_def)
qed

lemma agent_opens_second:
  "live_hosts (history [] (take 3 two_hosts @ [Agent_opens ''a'', Dialled (By_agent ''a'') True, Arrived (By_agent ''a'') (Some 1) False ''u'']))
     = [''a'', ''a'']"
  by code_simp

end
