(* ===== verification/Models.thy ===== *)
theory Models
  imports Machine GoJsonRead GoUrl
begin

text \<open>
  \<open>internal/agent/models.go\<close>, \<open>tool_arguments.go\<close> and the model page of \<open>internal/ui/settings.go\<close>: which model
  the assistant talks to.  The clients are made by libraries; \<open>construct\<close> is what their constructors return.
\<close>

datatype client = OpenAI_client string string string | Ollama_client string string

text \<open>The host of a URL with scheme \<open>http\<close> or \<open>https\<close>.\<close>

definition web_host :: "string \<Rightarrow> string option" where
  "web_host u =
     (if map lower (take 7 u) = ''http://'' then map_option (\<lambda>(_, h, _). h) (url_parse 7 u)
      else if map lower (take 8 u) = ''https://'' then map_option (\<lambda>(_, h, _). h) (url_parse 8 u)
      else None)"

definition NewModel :: "(string \<Rightarrow> ('w, string) nact) \<Rightarrow> (client \<Rightarrow> ('w, 'c) nact) \<Rightarrow> model_profile \<Rightarrow> ('w, 'c) nact" where
  "NewModel get_secret construct p =
     (case web_host (prof_BaseURL p) of
        None \<Rightarrow> throw (Msg ''the model service needs an HTTP or HTTPS address'')
      | Some h \<Rightarrow>
          if h = [] then throw (Msg ''the model service needs an HTTP or HTTPS address'')
          else if prof_Model p = [] then throw (Msg ''fill in the name of the model'')
          else if prof_Provider p = ''openai''
          then andThen (get_secret (''model:'' @ prof_ID p)) (\<lambda>key. construct (OpenAI_client key (prof_BaseURL p) (prof_Model p)))
          else if prof_Provider p = ''ollama'' then construct (Ollama_client (prof_BaseURL p) (prof_Model p))
          else throw (Msg ''unsupported provider''))"

text \<open>
  The key of a model leaves the keyring only for a client that talks to the profile's own address over HTTP
  or HTTPS.
\<close>

lemma NewModel_client:
  assumes "NewModel get_secret construct p w = (Inr c, w')"
  shows "\<exists>client w1 h. construct client w1 = (Inr c, w') \<and> web_host (prof_BaseURL p) = Some h \<and> h \<noteq> []
     \<and> ((\<exists>key. get_secret (''model:'' @ prof_ID p) w = (Inr key, w1) \<and> client = OpenAI_client key (prof_BaseURL p) (prof_Model p))
        \<or> client = Ollama_client (prof_BaseURL p) (prof_Model p) \<and> w1 = w)"
  using assms by (auto simp: NewModel_def elim!: andThen_Inr split: option.splits if_splits)

subsection \<open>Tools without arguments\<close>

text \<open>The result says whether the input is an object, \<open>Some True\<close>, or the null pointer.\<close>

definition unmarshalNoArguments :: "string \<Rightarrow> err + bool" where
  "unmarshalNoArguments arguments =
     (if TrimSpace arguments = [] then Inr True
      else if \<not> Valid arguments then Inl (Msg ''invalid JSON'')
      else case Decode_first arguments of
        Some (Object ms) \<Rightarrow> Inr True
      | Some Null \<Rightarrow> Inr False
      | _ \<Rightarrow> Inl (Msg ''not an object''))"

lemma no_arguments_examples:
  "unmarshalNoArguments '' '' = Inr True" "unmarshalNoArguments ''{}'' = Inr True" "unmarshalNoArguments ''[]'' = Inl (Msg ''not an object'')"
  "unmarshalNoArguments ''{'' = Inl (Msg ''invalid JSON'')"
  by code_simp+

subsection \<open>The settings\<close>

definition openai_base :: string where "openai_base = ''https://api.openai.com/v1''"

definition ollama_base :: string where "ollama_base = ''http://localhost:11434''"

definition default_profile :: model_profile where
  "default_profile = \<lparr>prof_ID = ''default'', prof_Name = ''default model'', prof_Provider = ''openai'', prof_BaseURL = openai_base,
     prof_Model = [], prof_ContextTokens = 32000\<rparr>"

definition edited_profile :: "model_profile list \<Rightarrow> model_profile" where
  "edited_profile ps = (case ps of [] \<Rightarrow> default_profile | p # _ \<Rightarrow> p)"

text \<open>Choosing another provider changes the address only if it is one of the standard ones.\<close>

definition provider_chosen :: "bool \<Rightarrow> string \<Rightarrow> string" where
  "provider_chosen ollama base =
     (if base = openai_base \<or> base = ollama_base \<or> base = [] then (if ollama then ollama_base else openai_base) else base)"

definition saved_profile :: "model_profile \<Rightarrow> bool \<Rightarrow> string \<Rightarrow> string \<Rightarrow> string \<Rightarrow> err + model_profile" where
  "saved_profile p ollama base model tokens =
     (case ParseInt tokens of
        None \<Rightarrow> Inl (Msg ''the context needs at least 4096 tokens'')
      | Some n \<Rightarrow>
          if n < 4096 then Inl (Msg ''the context needs at least 4096 tokens'')
          else if TrimSpace model = [] \<or> TrimSpace base = [] then Inl (Msg ''fill in the address and the model'')
          else Inr (p\<lparr>prof_Provider := (if ollama then ''ollama'' else ''openai''), prof_BaseURL := TrimSpace base,
                      prof_Model := TrimSpace model, prof_ContextTokens := n\<rparr>))"

text \<open>The key first, if one was typed; a profile is not stored without it.\<close>

definition save_profile :: "(string \<Rightarrow> string \<Rightarrow> ('w, unit) nact) \<Rightarrow> string \<Rightarrow> model_profile \<Rightarrow> ('w, unit) mact" where
  "save_profile set_secret key p =
     andThen (if key = [] then ret () else on_net (set_secret (''model:'' @ prof_ID p) key)) (\<lambda>_.
       on_db (Put ''models'' (prof_ID p) (ModelDoc p)))"

text \<open>What the dialog stores, \<open>NewModel\<close> does not refuse for its model or its provider.\<close>

lemma saved_profile_usable:
  assumes "saved_profile p ollama base model tokens = Inr q"
  shows "prof_ID q = prof_ID p \<and> prof_Model q \<noteq> [] \<and> prof_BaseURL q \<noteq> [] \<and> prof_Provider q \<in> {''openai'', ''ollama''}
     \<and> 4096 \<le> prof_ContextTokens q"
  using assms by (auto simp: saved_profile_def split: option.splits if_splits)

lemma save_profile_order:
  assumes "save_profile set_secret key p m = (Inl e, m')" "key \<noteq> []" "set_secret (''model:'' @ prof_ID p) key (net m) = (Inl e', w)"
  shows "db m' = db m"
  using assms by (auto simp: save_profile_def andThen_def on_net_def)

subsection \<open>Assembling the agent\<close>

text \<open>
  \<open>internal/agent/builder.go\<close>: the handlers of the agent library, in the order in which they wrap each other.  \<open>make\<close> is what
  the library's constructors return, and so are the two agents.
\<close>

datatype handler = Observer bool | Patch_calls | Reduction_of int | Skill_manuals | Summarise int bool | Memory_of_task

text \<open>How many tokens the conversation may have before it is summarised; the product is one of 64-bit integers.\<close>

definition summary_trigger :: "int \<Rightarrow> int" where
  "summary_trigger tokens =
     (let budget = (if tokens \<le> 0 then 32000 else tokens); n = signed_take_bit 63 (budget * 3)
      in if n < 0 then - (- n div 4) else n div 4)"

fun make_each :: "(handler \<Rightarrow> err option) \<Rightarrow> handler list \<Rightarrow> err + unit" where
  "make_each mk [] = Inr ()"
| "make_each mk (h # hs) = (case mk h of Some e \<Rightarrow> Inl e | None \<Rightarrow> make_each mk hs)"

definition agentHandlers :: "(handler \<Rightarrow> err option) \<Rightarrow> bool \<Rightarrow> bool \<Rightarrow> model_profile \<Rightarrow> err + handler list" where
  "agentHandlers mk saves root p =
     (let summary = Summarise (summary_trigger (prof_ContextTokens p)) saves
      in case make_each mk [Patch_calls, Reduction_of 16000, summary, Skill_manuals] of
        Inl e \<Rightarrow> Inl e
      | Inr _ \<Rightarrow>
          let hs = [Observer root, Patch_calls, Reduction_of 16000, Skill_manuals, summary]
          in if root then (case mk Memory_of_task of Some e \<Rightarrow> Inl (Msg ''initialising the memory'') | None \<Rightarrow> Inr (hs @ [Memory_of_task]))
             else Inr hs)"

record agent_design =
  ad_name :: string
  ad_handlers :: "handler list"
  ad_iterations :: nat

definition buildAgent :: "(handler \<Rightarrow> err option) \<Rightarrow> (agent_design \<Rightarrow> err option) \<Rightarrow> model_profile \<Rightarrow> err + agent_design \<times> agent_design" where
  "buildAgent mk agent p =
     (case agentHandlers mk False False p of
        Inl e \<Rightarrow> Inl e
      | Inr whs \<Rightarrow>
          let worker = \<lparr>ad_name = ''operations_worker'', ad_handlers = whs, ad_iterations = 100\<rparr>
          in case agent worker of
               Some e \<Rightarrow> Inl e
             | None \<Rightarrow> (case agentHandlers mk True True p of
                 Inl e \<Rightarrow> Inl e
               | Inr hs \<Rightarrow>
                   let operator = \<lparr>ad_name = ''operator'', ad_handlers = hs, ad_iterations = 100\<rparr>
                   in case agent operator of Some e \<Rightarrow> Inl e | None \<Rightarrow> Inr (operator, worker)))"

definition literalModelInput :: "string \<Rightarrow> message list \<Rightarrow> message list" where
  "literalModelInput instruction ms =
     (if instruction \<noteq> [] then [\<lparr>m_Role = ''system'', m_Content = instruction, m_ToolCallID = [], m_ToolCalls = []\<rparr>] else []) @ ms"

text \<open>Only the operator remembers and stores the conversation; its worker does neither.\<close>

lemma worker_does_not_remember:
  assumes "buildAgent mk agent p = Inr (operator, worker)"
  shows "Memory_of_task \<in> set (ad_handlers operator) \<and> Memory_of_task \<notin> set (ad_handlers worker)
     \<and> (\<forall>n saves. Summarise n saves \<in> set (ad_handlers worker) \<longrightarrow> \<not> saves) \<and> Observer True \<in> set (ad_handlers operator)
     \<and> Observer True \<notin> set (ad_handlers worker)"
  using assms by (auto simp: buildAgent_def agentHandlers_def Let_def split: sum.splits option.splits if_splits)

text \<open>The conversation is summarised before it fills the context, unless three times the context is more than the integers hold.\<close>

lemma summarised_in_time:
  assumes "0 < tokens" "tokens < 2 ^ 61"
  shows "summary_trigger tokens = tokens * 3 div 4 \<and> summary_trigger tokens < tokens"
proof -
  have "signed_take_bit 63 (tokens * 3) = tokens * 3" using assms by (intro signed_take_bit_int_eq_self) auto
  moreover have "\<not> tokens \<le> 0" "\<not> tokens * 3 < 0" using assms(1) by simp_all
  ultimately have "summary_trigger tokens = tokens * 3 div 4" unfolding summary_trigger_def Let_def by (simp only: if_False)
  then show ?thesis using assms(1) by linarith
qed

lemma huge_context_overflows: "summary_trigger (2 ^ 62) < 0"
  by (simp add: summary_trigger_def signed_take_bit_int_eq_self_iff Let_def)

end
