(* ===== verification/Hosts.thy ===== *)
theory Hosts
  imports Connection TerminalCore "HOL-Library.Product_Lexorder"
begin

text \<open>
  The saved hosts in \<open>internal/ui/app.go\<close>, \<open>desktop.go\<close> and \<open>commands.go\<close>: the list with its search, editing,
  importing and deleting.  \<open>sort.Slice\<close> leaves the order of hosts with the same group and name open; here
  it is that of the database.
\<close>

subsection \<open>The list\<close>

definition sort_hosts :: "host list \<Rightarrow> host list" where
  "sort_hosts hs = sort_key (\<lambda>h. (host_Group h, host_Name h)) hs"

definition refreshHosts :: "('w, host list) mact" where
  "refreshHosts = andThen (on_db (All as_host ''hosts'')) (\<lambda>hs. ret (sort_hosts hs))"

definition searched_text :: "host \<Rightarrow> string" where
  "searched_text h = host_Name h @ '' '' @ host_Address h @ '' '' @ host_Group h @ '' '' @ Join (host_Tags h) '' ''"

definition filterHosts :: "unicode \<Rightarrow> string \<Rightarrow> host list \<Rightarrow> host list" where
  "filterHosts U q hs = filter (\<lambda>h. Contains (to_lower U (searched_text h)) (to_lower U q)) hs"

definition group_count :: "host list \<Rightarrow> string \<Rightarrow> nat" where
  "group_count hs g = length (filter (\<lambda>h. host_Group h = g) hs)"

text \<open>A row that begins a group is higher and shows its name.\<close>

definition begins_group :: "host list \<Rightarrow> nat \<Rightarrow> bool" where
  "begins_group hs i \<longleftrightarrow> i = 0 \<or> host_Group (hs ! (i - 1)) \<noteq> host_Group (hs ! i)"

definition row_heading :: "host list \<Rightarrow> nat \<Rightarrow> string" where
  "row_heading hs i =
     (if begins_group hs i then (if host_Group (hs ! i) = [] then ''no group'' else host_Group (hs ! i)) else [])"

definition row_height :: "host list \<Rightarrow> nat \<Rightarrow> nat" where
  "row_height hs i = (if begins_group hs i then 90 else 66)"

lemma sort_hosts_sorted: "sorted (map host_Group (sort_hosts hs))"
proof -
  have "sorted (map (\<lambda>h. (host_Group h, host_Name h)) (sort_hosts hs))" by (simp add: sort_hosts_def)
  then have "sorted_wrt (\<lambda>a b. host_Group a \<le> host_Group b) (sort_hosts hs)"
    unfolding sorted_map by (rule sorted_wrt_mono_rel [rotated]) (auto simp: less_eq_prod_def)
  then show ?thesis by (simp add: sorted_map)
qed

text \<open>
  The list shows the stored hosts that match, each group in one piece: a group has its name
  at exactly one row, the first of it.
\<close>

lemma groups_in_one_piece:
  assumes "fs = filterHosts U q (sort_hosts hs)" "i < length fs" "j < length fs" "begins_group fs i" "begins_group fs j"
    and "host_Group (fs ! i) = host_Group (fs ! j)"
  shows "i = j"
proof -
  have "sorted (map host_Group fs)"
    using sort_hosts_sorted sorted_filter unfolding assms(1) filterHosts_def by blast
  then have le: "host_Group (fs ! a) \<le> host_Group (fs ! b)" if "a \<le> b" "b < length fs" for a b
    using that sorted_nth_mono [of "map host_Group fs" a b] by simp
  have "\<not> a < b" if "a < length fs" "b < length fs" "begins_group fs b" "host_Group (fs ! a) = host_Group (fs ! b)" for a b
  proof
    assume "a < b"
    then have "host_Group (fs ! a) \<le> host_Group (fs ! (b - 1))" "host_Group (fs ! (b - 1)) \<le> host_Group (fs ! b)"
      using le that(2) by simp_all
    with that \<open>a < b\<close> show False by (simp add: begins_group_def)
  qed
  from this [of i j] this [of j i] assms show ?thesis by simp
qed

lemma shown_hosts: "h \<in> set (filterHosts U q (sort_hosts hs)) \<longleftrightarrow> h \<in> set hs \<and> Contains (to_lower U (searched_text h)) (to_lower U q)"
  by (auto simp: filterHosts_def sort_hosts_def)

subsection \<open>Editing\<close>

definition splitLines :: "string \<Rightarrow> string list" where
  "splitLines s = filter (\<lambda>x. x \<noteq> []) (map TrimSpace (Split s newline))"

record host_form =
  hf_name :: string
  hf_address :: string
  hf_port :: string
  hf_user :: string
  hf_group :: string
  hf_tags :: string
  hf_auth :: string
  hf_secret :: string
  hf_key :: string
  hf_jump :: string
  hf_proxy :: string

definition new_host :: "string \<Rightarrow> host" where
  "new_host i = \<lparr>host_ID = i, host_Name = [], host_Address = [], host_Port = 22, host_User = ''root'', host_Group = [], host_Tags = [],
     host_Auth = ''password'', host_KeyPath = [], host_JumpID = [], host_Proxy = []\<rparr>"

text \<open>The hosts offered to jump over: all but the one that is edited.\<close>

definition jump_choices :: "host \<Rightarrow> host list \<Rightarrow> string list" where
  "jump_choices h hs = [] # map host_ID (filter (\<lambda>v. host_ID v \<noteq> host_ID h) hs)"

definition edited_host :: "host \<Rightarrow> host_form \<Rightarrow> err + host" where
  "edited_host h f =
     (case ParseInt (hf_port f) of
        None \<Rightarrow> Inl (Msg ''invalid port'')
      | Some p \<Rightarrow>
          let h1 = h\<lparr>host_Name := hf_name f, host_Address := hf_address f, host_Port := p, host_User := hf_user f,
                     host_Group := hf_group f, host_Tags := splitLines (ReplaceAll (hf_tags f) '','' newline), host_Auth := hf_auth f,
                     host_KeyPath := hf_key f, host_Proxy := hf_proxy f, host_JumpID := hf_jump f\<rparr>
          in case ValidateHost h1 of Inl e \<Rightarrow> Inl e | Inr _ \<Rightarrow> Inr h1)"

text \<open>Saving: the password first, if one was typed, then the host; the old connection is dropped.\<close>

definition save_host :: "(string \<Rightarrow> string \<Rightarrow> ('w, unit) nact) \<Rightarrow> string \<Rightarrow> host \<Rightarrow> ('w, unit) mact" where
  "save_host set_secret password h =
     andThen (if password = [] then ret () else on_net (set_secret (''host:'' @ host_ID h) password)) (\<lambda>_.
     andThen (on_db (Put ''hosts'' (host_ID h) (HostDoc h))) (\<lambda>_. Disconnect (host_ID h)))"

definition importHosts :: "host list \<Rightarrow> ('w, unit) mact" where
  "importHosts hs =
     andThen (forEach (\<lambda>h. outcome (ValidateHost h)) hs) (\<lambda>_.
       forEach (\<lambda>h. on_db (Put ''hosts'' (host_ID h) (HostDoc h))) hs)"

definition delete_host_record :: "(string \<Rightarrow> ('w, unit) nact) \<Rightarrow> host list \<Rightarrow> host \<Rightarrow> ('w, unit) mact" where
  "delete_host_record delete_secret hs h =
     (case find (\<lambda>v. host_JumpID v = host_ID h) hs of
        Some v \<Rightarrow> throw (Msg (''still used to jump by '' @ host_Name v))
      | None \<Rightarrow>
          andThen (Disconnect (host_ID h)) (\<lambda>_.
          andThen (on_db (Delete ''hosts'' (host_ID h))) (\<lambda>_.
          andThen (attempt (on_net (delete_secret (''host:'' @ host_ID h)))) (\<lambda>_. ret ()))))"

lemma forEach_outcome: "forEach (\<lambda>x. outcome (f x)) xs s = (Inr (), s') \<longleftrightarrow> s' = s \<and> (\<forall>x \<in> set xs. f x = Inr ())"
  by (induction xs) (auto simp: andThen_def outcome_def ret_def split: sum.split)

lemma forEach_outcome_state: "snd (forEach (\<lambda>x. outcome (f x)) xs s) = s"
  by (induction xs) (auto simp: andThen_def outcome_def ret_def split: sum.split)

text \<open>A file with one invalid host changes nothing.\<close>

lemma import_all_or_nothing:
  assumes "h \<in> set hs" "ValidateHost h = Inl e"
  shows "snd (importHosts hs m) = m" and "\<exists>e'. fst (importHosts hs m) = Inl e'"
proof -
  obtain x s where x: "forEach (\<lambda>h. outcome (ValidateHost h)) hs m = (x, s)" by fastforce
  then have "s = m" using forEach_outcome_state [of ValidateHost hs m] by simp
  moreover have "\<exists>e'. x = Inl e'" using x assms forEach_outcome [of ValidateHost hs m s] by (cases x) auto
  ultimately show "snd (importHosts hs m) = m" "\<exists>e'. fst (importHosts hs m) = Inl e'"
    using x by (auto simp: importHosts_def andThen_def)
qed

lemma edited_host_valid:
  assumes "edited_host h f = Inr h'"
  shows "ValidateHost h' = Inr () \<and> host_ID h' = host_ID h"
  using assms by (auto simp: edited_host_def Let_def split: option.splits sum.splits)

subsection \<open>Commands typed before\<close>

record command_record =
  cr_ID :: string
  cr_HostID :: string
  cr_Command :: string
  cr_At :: time

text \<open>The commands of this host, the latest first, each once.\<close>

fun each_once :: "string list \<Rightarrow> string list \<Rightarrow> string list" where
  "each_once seen [] = []"
| "each_once seen (c # cs) = (if c \<in> set seen then each_once seen cs else c # each_once (c # seen) cs)"

definition command_history :: "string \<Rightarrow> command_record list \<Rightarrow> string list" where
  "command_history host rs = each_once [] (map cr_Command (filter (\<lambda>r. cr_HostID r = host) (rev (sort_key cr_At rs))))"

lemma each_once_set: "set (each_once seen cs) = set cs - set seen"
  by (induction seen cs rule: each_once.induct) auto

lemma each_once_distinct: "distinct (each_once seen cs)"
  by (induction seen cs rule: each_once.induct) (auto simp: each_once_set)

lemma command_history_once:
  "distinct (command_history host rs) \<and> set (command_history host rs) = {cr_Command r | r. r \<in> set rs \<and> cr_HostID r = host}"
  by (auto simp: command_history_def each_once_distinct each_once_set)

end
