(* ===== verification/TaskPanel.thy ===== *)
theory TaskPanel
  imports TaskView ServiceSafe Hosts
begin

text \<open>
  The panel of the assistant: \<open>internal/ui/tasks.go\<close>, \<open>task_history.go\<close>, \<open>conversation_view.go\<close>, \<open>companion.go\<close>,
  \<open>memory.go\<close> and \<open>display_id.go\<close>.  The choices of a dialog are arguments; what they lead to are the
  operations of the service.
\<close>

subsection \<open>Names\<close>

definition shortID :: "string \<Rightarrow> string" where
  "shortID i = concat (take 8 (runes i))"

definition middle_dot :: string where
  "middle_dot = '' '' @ utf8 [0xC2, 0xB7] @ '' ''"

definition task_label :: "task \<Rightarrow> string" where
  "task_label t = shortID (task_ID t) @ middle_dot @ concat (take 18 (runes (Goal t)))"

definition host_choices :: "host list \<Rightarrow> (string \<times> string) list" where
  "host_choices hs =
     map (\<lambda>h. (host_Name h @ middle_dot @ host_User h @ ''@'' @ host_Address h @ middle_dot @ shortID (host_ID h), host_ID h)) hs"

text \<open>The tasks that can be chosen, and the label of the one that is open.\<close>

definition refreshTasks :: "string \<Rightarrow> ('w, string list \<times> string) mact" where
  "refreshTasks i =
     andThen (on_db (All as_task ''tasks'')) (\<lambda>ts.
       ret (map task_label ts, case filter (\<lambda>t. task_ID t = i) ts of [] \<Rightarrow> [] | us \<Rightarrow> task_label (last us)))"

definition task_of_label :: "string \<Rightarrow> task list \<Rightarrow> string option" where
  "task_of_label label ts = map_option task_ID (find (\<lambda>t. HasPrefix label (shortID (task_ID t) @ middle_dot)) ts)"

subsection \<open>The conversation\<close>

text \<open>The blocks keep the kind they were made with.\<close>

record chat_view =
  cv_id :: string
  cv_blocks :: "chat_message list"

fun put_blocks :: "chat_message list \<Rightarrow> chat_message list \<Rightarrow> chat_message list" where
  "put_blocks [] bs = bs"
| "put_blocks (m # ms) [] = m # put_blocks ms []"
| "put_blocks (m # ms) (b # bs) = b\<lparr>cm_text := cm_text m\<rparr> # put_blocks ms bs"

definition reset_view :: "string \<Rightarrow> chat_view" where
  "reset_view i = \<lparr>cv_id = i, cv_blocks = []\<rparr>"

definition update_view :: "string \<Rightarrow> chat_message list \<Rightarrow> chat_view \<Rightarrow> chat_view" where
  "update_view i ms v =
     (let v1 = (if cv_id v \<noteq> i then reset_view i else v)
      in if ms = [] then v1 else v1\<lparr>cv_blocks := put_blocks ms (cv_blocks v1)\<rparr>)"

lemma put_blocks_new: "put_blocks ms [] = ms"
  by (induction ms) auto

lemma put_blocks_exact:
  "map cm_kind bs = map cm_kind (take (length bs) ms) \<Longrightarrow> put_blocks ms bs = ms"
  by (induction ms bs rule: put_blocks.induct) (auto simp: put_blocks_new)

text \<open>The view shows exactly the messages, as long as they only continue those it has.\<close>

lemma view_shows_messages:
  assumes "cv_id v = i \<Longrightarrow> map cm_kind (cv_blocks v) = map cm_kind (take (length (cv_blocks v)) ms)"
  shows "cv_id (update_view i ms v) = i \<and> (ms \<noteq> [] \<longrightarrow> cv_blocks (update_view i ms v) = ms)"
  using assms put_blocks_new put_blocks_exact by (auto simp: update_view_def reset_view_def Let_def)

text \<open>
  A task that failed shows two messages more than its log.  When it is resumed they are not messages any
  more, but their blocks stay, and later messages take the form of a notice.
\<close>

lemma notice_stays:
  assumes "cv_id v = i" "cv_blocks v = ms @ [\<lparr>cm_kind = ''execution'', cm_text = e\<rparr>, \<lparr>cm_kind = ''notice'', cm_text = n\<rparr>]" "ms \<noteq> []"
  shows "cv_blocks (update_view i ms v) = cv_blocks v"
    and "cv_blocks (update_view i (ms @ [\<lparr>cm_kind = ''user'', cm_text = u\<rparr>]) v)
      = ms @ [\<lparr>cm_kind = ''execution'', cm_text = u\<rparr>, \<lparr>cm_kind = ''notice'', cm_text = n\<rparr>]"
proof -
  have "put_blocks ms (ms @ bs) = ms @ bs" for bs by (induction ms) auto
  moreover have "put_blocks (ms @ [x]) (ms @ b # bs) = ms @ b\<lparr>cm_text := cm_text x\<rparr> # bs" for x b bs by (induction ms) auto
  ultimately show "cv_blocks (update_view i ms v) = cv_blocks v"
    and "cv_blocks (update_view i (ms @ [\<lparr>cm_kind = ''user'', cm_text = u\<rparr>]) v)
      = ms @ [\<lparr>cm_kind = ''execution'', cm_text = u\<rparr>, \<lparr>cm_kind = ''notice'', cm_text = n\<rparr>]"
    using assms by (simp_all add: update_view_def Let_def)
qed

subsection \<open>The selected task\<close>

text \<open>
  The requests are a channel for one element: a new selection replaces one that the worker has not taken.
\<close>

record panel =
  p_task :: string
  p_revision :: "64 word"
  p_requests :: "(string \<times> 64 word) option"
  p_view :: chat_view
  p_status :: string
  p_stop :: bool
  p_approve :: bool

definition status_text :: "string \<Rightarrow> string" where
  "status_text st =
     (case map_of [(''blocked'', ''to be adjusted''), (''ready'', ''ready''), (''running'', ''running''),
        (''awaiting_approval'', ''waiting for a decision''), (''interrupted'', ''paused''), (''failed'', ''failed''),
        (''completed'', ''verified''), (''needs_verification'', ''waiting for verification'')] st of
        Some s \<Rightarrow> s | None \<Rightarrow> [])"

definition updateTask :: "panel \<Rightarrow> panel" where
  "updateTask p =
     (let p1 = (if cv_id (p_view p) \<noteq> p_task p
                then p\<lparr>p_view := reset_view (p_task p), p_status := [], p_stop := False, p_approve := False\<rparr> else p)
      in p1\<lparr>p_revision := p_revision p + 1, p_requests := Some (p_task p, p_revision p + 1)\<rparr>)"

definition select_in_panel :: "string \<Rightarrow> panel \<Rightarrow> panel" where
  "select_in_panel i p = updateTask (p\<lparr>p_task := i\<rparr>)"

definition delivered_update :: "string \<times> 64 word \<Rightarrow> task_update \<Rightarrow> panel \<Rightarrow> panel" where
  "delivered_update sel u p =
     (if p_task p \<noteq> fst sel \<or> p_revision p \<noteq> snd sel then p
      else p\<lparr>p_status := status_text (tu_status u), p_view := update_view (tu_id u) (tu_messages u) (p_view p),
             p_stop := (tu_status u = ''running''), p_approve := (tu_status u = ''awaiting_approval'')\<rparr>)"

text \<open>An update that was read for an earlier selection changes nothing, even of the same task.\<close>

fun select_each :: "string list \<Rightarrow> panel \<Rightarrow> panel" where
  "select_each [] p = p"
| "select_each (i # is) p = select_each is (select_in_panel i p)"

lemma select_each_revision: "p_revision (select_each is p) = p_revision p + of_nat (length is)"
  by (induction "is" p rule: select_each.induct) (simp_all add: select_in_panel_def updateTask_def Let_def)

lemma late_update_ignored:
  assumes "snd sel = p_revision p" "is \<noteq> []" "length is < 2 ^ 64"
  shows "delivered_update sel u (select_each is p) = select_each is p"
proof -
  have "(of_nat (length is) :: 64 word) \<noteq> 0"
    using assms(2,3) by (simp add: of_nat_eq_0_iff word_of_nat_eq_0_iff nat_dvd_not_less)
  then show ?thesis using assms(1) by (simp add: delivered_update_def select_each_revision)
qed

lemma request_is_latest: "is \<noteq> [] \<Longrightarrow> p_requests (select_each is p) = Some (last is, p_revision p + of_nat (length is))"
proof (induction "is" p rule: select_each.induct)
  case (2 i "is" p)
  then show ?case by (cases "is = []") (simp_all add: select_in_panel_def updateTask_def Let_def)
qed simp

subsection \<open>Sending\<close>

text \<open>The terminal that is active when a message is sent goes with it.\<close>

definition conversationInput :: "string \<Rightarrow> string \<Rightarrow> ('w, string) mact" where
  "conversationInput i words =
     andThen (attempt (load_task i)) (\<lambda>x.
       case x of
         Inl _ \<Rightarrow> ret words
       | Inr t \<Rightarrow>
           if Mode t \<noteq> ''conversation'' then ret words
           else (\<lambda>m. case filter ti_Active (List_terminals (terms m) (HostIDs (Grant t))) of
                   [] \<Rightarrow> ret (words @ sent_mark @ '' no terminal]'') m
                 | d # _ \<Rightarrow> ret (words @ sent_mark @ '' host_id='' @ ti_HostID d @ '' terminal_id='' @ ti_ID d @ '']'') m))"

text \<open>Only a terminal that the conversation may use is named, and it is the active one.\<close>

lemma conversation_input_terminal:
  assumes "conversationInput i words m = (Inr out, m')"
  shows "out = words \<or> out = words @ sent_mark @ '' no terminal]''
     \<or> (\<exists>t d. load_task i m = (Inr t, m') \<and> Mode t = ''conversation'' \<and> d \<in> set (List_terminals (terms m') (HostIDs (Grant t)))
           \<and> ti_ID d = active_terminal (terms m') \<and> ti_HostID d \<in> set (HostIDs (Grant t))
           \<and> out = words @ sent_mark @ '' host_id='' @ ti_HostID d @ '' terminal_id='' @ ti_ID d @ '']'')"
proof -
  obtain x m1 where x: "load_task i m = (x, m1)" by fastforce
  show ?thesis
  proof (cases x)
    case (Inl e)
    then show ?thesis using assms x by (simp add: conversationInput_def andThen_def attempt_def ret_def)
  next
    case (Inr t)
    let ?ds = "filter ti_Active (List_terminals (terms m1) (HostIDs (Grant t)))"
    show ?thesis
    proof (cases ?ds)
      case Nil
      then show ?thesis using assms x Inr by (auto simp: conversationInput_def andThen_def attempt_def ret_def split: if_splits)
    next
      case (Cons d ds)
      then have "d \<in> set ?ds" by simp
      then have d: "d \<in> set (List_terminals (terms m1) (HostIDs (Grant t)))" "ti_ID d = active_terminal (terms m1)" "ti_HostID d \<in> set (HostIDs (Grant t))"
        by (auto simp: List_terminals_def)
      then show ?thesis using assms x Inr Cons
        by (auto simp: conversationInput_def andThen_def attempt_def ret_def split: if_splits)
    qed
  qed
qed

text \<open>The mark never begins inside what was typed and ends behind it, so it hides exactly what was added.\<close>

lemma mark_border: "0 < k \<Longrightarrow> k < length sent_mark \<Longrightarrow> take (length sent_mark - k) sent_mark \<noteq> drop k sent_mark"
proof -
  assume k: "0 < k" "k < length sent_mark"
  have "\<forall>k \<in> set [1 ..< length sent_mark]. take (length sent_mark - k) sent_mark \<noteq> drop k sent_mark" by code_simp
  with k show ?thesis by simp
qed

lemma mark_at_end:
  assumes "HasPrefix (w @ sent_mark @ rest) sent_mark" "w \<noteq> []"
  shows "HasPrefix w sent_mark"
proof (cases "length sent_mark \<le> length w")
  case True
  then show ?thesis using assms(1) by (simp add: HasPrefix_def)
next
  case False
  let ?k = "length w" and ?n = "length sent_mark"
  have eq: "w @ take (?n - ?k) (sent_mark @ rest) = sent_mark" using assms(1) False by (simp add: HasPrefix_def)
  moreover have "take (?n - ?k) (sent_mark @ rest) = take (?n - ?k) sent_mark" by simp
  ultimately have "take (?n - ?k) sent_mark = drop ?k sent_mark" by (metis append_eq_conv_conj)
  with mark_border [of ?k] assms(2) False show ?thesis by simp
qed

lemma Index_mark: "\<not> Contains words sent_mark \<Longrightarrow> Index (words @ sent_mark @ rest) sent_mark = Some (length words)"
proof (induction words)
  case Nil
  obtain c s where mark: "sent_mark = c # s" by (simp add: sent_mark_def)
  have "HasPrefix (sent_mark @ rest) sent_mark" by (rule HasPrefix_append)
  then show ?case by (simp add: mark)
next
  case (Cons c words)
  have "\<not> HasPrefix (c # words) sent_mark" "\<not> Contains words sent_mark"
    using Cons.prems by (auto simp: Contains_def split: if_splits option.splits)
  moreover from this mark_at_end [of "c # words" rest] have "\<not> HasPrefix (c # words @ sent_mark @ rest) sent_mark" by auto
  ultimately show ?case using Cons.IH by simp
qed

lemma routing_is_hidden:
  assumes "\<not> Contains words sent_mark" "ev_Kind e = ''user''" "ev_Text e = words \<or> (\<exists>rest. ev_Text e = words @ sent_mark @ rest)"
  shows "event_message e = Some \<lparr>cm_kind = ''user'', cm_text = words\<rparr>"
proof -
  have "hd (Split words sent_mark) = words"
    using assms(1) by (subst Split.simps) (simp add: Contains_def)
  moreover have "hd (Split (words @ sent_mark @ rest) sent_mark) = words" for rest
    by (subst Split.simps) (simp add: Index_mark [OF assms(1)], simp add: sent_mark_def)
  ultimately show ?thesis using assms(2,3) by (auto simp: event_message_def Let_def)
qed

subsection \<open>Approvals\<close>

text \<open>\<open>Left_alone\<close>: the task could not be read, and nothing is shown.\<close>

datatype offer = Offer approval | No_approval | Left_alone

fun find_pending :: "string \<Rightarrow> approval list \<Rightarrow> ('w, offer) mact" where
  "find_pending i [] = ret No_approval"
| "find_pending i (a # as) =
     andThen (attempt (load_task i)) (\<lambda>x.
       case x of
         Inl _ \<Rightarrow> ret Left_alone
       | Inr t \<Rightarrow>
           if TaskID (ap_Request a) \<noteq> i \<or> Decided a \<or> ap_GrantID a \<noteq> grant_ID (Grant t) then find_pending i as
           else ret (Offer a))"

definition approvalDialog :: "string \<Rightarrow> ('w, offer) mact" where
  "approvalDialog i = andThen (on_db (All as_approval ''approvals'')) (find_pending i)"

definition upload_mode :: "string \<Rightarrow> string" where
  "upload_mode mode =
     (case map_of [([], ''new only''), (''new'', ''new only''), (''replace'', ''replace''), (''resume'', ''resume'')] mode of
        Some s \<Rightarrow> s | None \<Rightarrow> [])"

text \<open>What the user reads before deciding; \<open>h\<close> is an empty host when there is none of that number.\<close>

definition approval_text :: "host \<Rightarrow> request \<Rightarrow> string" where
  "approval_text h r =
     ''asked by: '' @ agentLabel (AgentName r) @ newline @ ''run: '' @ RunID r @ newline
     @ (if HostID r = [] then ''local operation: '' @ Operation r
        else ''server: '' @ host_Name h @ '' ('' @ host_User h @ ''@'' @ host_Address h @ '')'' @ newline @ ''operation: '' @ Operation r @ newline
          @ ''resource: '' @ Resource r @ newline @ newline @ ''command:'' @ newline @ Command r @ newline @ newline
          @ ''content to write:'' @ newline @ Content r)
     @ (if LocalPath r \<noteq> [] then newline @ ''local path: '' @ LocalPath r else [])
     @ (if Operation r = ''local_read'' then newline @ ''from byte: '' @ FormatInt (ReadOffset r) else [])
     @ (if Operation r = ''upload_local''
        then newline @ ''mode: '' @ upload_mode (UploadMode r) @ newline @ ''file SHA-256: '' @ SourceHash r else [])"

lemma find_pending_offer:
  assumes "find_pending i as m = (Inr (Offer a), m')"
  shows "a \<in> set as \<and> TaskID (ap_Request a) = i \<and> \<not> Decided a
     \<and> (\<exists>t. find_doc ''tasks'' i (db m) = Some (TaskDoc t) \<and> ap_GrantID a = grant_ID (Grant t))"
  using assms
proof (induction as arbitrary: m)
  case (Cons b as)
  obtain x m1 where x: "load_task i m = (x, m1)" by fastforce
  then have docs: "find_doc ''tasks'' i (db m1) = find_doc ''tasks'' i (db m)"
    using records.keepsD [OF records_Load, of as_task "''tasks''" i "db m"]
    by (auto simp: load_task_def on_db_def find_doc_def same_records_def split: prod.splits)
  show ?case
  proof (cases x)
    case (Inl e)
    then show ?thesis using Cons.prems x by (simp add: andThen_def attempt_def ret_def)
  next
    case (Inr t)
    have t: "find_doc ''tasks'' i (db m) = Some (TaskDoc t)"
      using x Inr Load_found [of as_task "''tasks''" i "db m" t] as_task.elims by (fastforce simp: load_task_def on_db_def split: prod.splits)
    show ?thesis
    proof (cases "TaskID (ap_Request b) \<noteq> i \<or> Decided b \<or> ap_GrantID b \<noteq> grant_ID (Grant t)")
      case True
      then have "find_pending i as m1 = (Inr (Offer a), m')" using Cons.prems x Inr by (simp add: andThen_def attempt_def)
      from Cons.IH [OF this] docs show ?thesis by auto
    next
      case False
      then show ?thesis using Cons.prems x Inr t by (auto simp: andThen_def attempt_def ret_def)
    qed
  qed
qed (simp add: ret_def)

subsection \<open>Dialogs\<close>

text \<open>The operations a new task may do without asking: three always, and those that were ticked.\<close>

definition task_operations :: "string list \<Rightarrow> string list" where
  "task_operations ticked = [''observe'', ''service_status'', ''logs''] @ ticked"

definition tickable :: "string list" where
  "tickable = [''file_read'', ''file_write'', ''service_restart'', ''package_install'']"

definition newTaskDialog :: "(run \<Rightarrow> bool) \<Rightarrow> (model_profile \<Rightarrow> ('w, unit) mact) \<Rightarrow> string \<Rightarrow> string \<Rightarrow> string list \<Rightarrow> string list
    \<Rightarrow> string \<Rightarrow> string \<Rightarrow> ('w, string) vact" where
  "newTaskDialog accepts factory goal profile hosts ticked resources roots =
     andThen (within (NewTask goal profile hosts (task_operations ticked) (splitLines resources) (splitLines roots))) (\<lambda>t.
     andThen (Submit accepts factory (task_ID t) goal) (\<lambda>_. ret (task_ID t)))"

text \<open>Neither commands nor terminal input can be among them.\<close>

lemma task_operations_bounded:
  "set ticked \<subseteq> set tickable \<Longrightarrow> ''shell'' \<notin> set (task_operations ticked) \<and> ''terminal_write'' \<notin> set (task_operations ticked)
     \<and> ''upload_local'' \<notin> set (task_operations ticked)"
  by (auto simp: task_operations_def tickable_def)

definition newConversationWithFiles :: "(run \<Rightarrow> bool) \<Rightarrow> (model_profile \<Rightarrow> ('w, unit) mact) \<Rightarrow> string \<Rightarrow> string list \<Rightarrow> string \<Rightarrow> string list
    \<Rightarrow> ('w, string) vact" where
  "newConversationWithFiles accepts factory profile hosts first attached =
     andThen (within (NewConversation profile hosts [])) (\<lambda>t.
       if first = [] \<and> attached = [] then ret (task_ID t)
       else andThen (within (conversationInput (task_ID t) first)) (\<lambda>message.
            andThen (SubmitFiles accepts factory (task_ID t) message attached) (\<lambda>_. ret (task_ID t))))"

text \<open>The servers that are ticked beforehand: that of the active terminal, else the one chosen in the list.\<close>

definition preselected_host :: "terminals \<Rightarrow> host list \<Rightarrow> string \<Rightarrow> string" where
  "preselected_host d hs chosen = foldl (\<lambda>s i. if ti_Active i then ti_HostID i else s) chosen (List_terminals d (map host_ID hs))"

text \<open>The models that can be chosen: their labels, the selected one and its number.\<close>

definition model_label :: "model_profile \<Rightarrow> string" where
  "model_label p = prof_Name p @ middle_dot @ prof_Model p"

definition refreshModelChoices :: "string \<Rightarrow> model_profile list \<Rightarrow> string list \<times> (string \<times> string) option" where
  "refreshModelChoices preferred ps =
     (map model_label ps,
      if ps = [] then None
      else let p = (case find (\<lambda>p. prof_ID p = preferred) ps of Some p \<Rightarrow> p | None \<Rightarrow> hd ps) in Some (model_label p, prof_ID p))"

text \<open>Choosing a model for which the open task was not made closes the task in the panel.\<close>

definition model_chosen :: "string \<Rightarrow> model_profile list \<Rightarrow> string \<Rightarrow> string \<Rightarrow> task option \<Rightarrow> string \<times> string" where
  "model_chosen label ps preferred i t =
     (case find (\<lambda>p. model_label p = label) ps of
        None \<Rightarrow> (preferred, i)
      | Some p \<Rightarrow>
          (prof_ID p, if i \<noteq> [] then (case t of Some t \<Rightarrow> if ProfileID t \<noteq> prof_ID p then [] else i | None \<Rightarrow> i) else i))"

text \<open>What the user confirms before a task is resumed.\<close>

fun resume_hosts :: "string list \<Rightarrow> ('w, string list) mact" where
  "resume_hosts [] = ret []"
| "resume_hosts (i # is) =
     andThen (on_db (Host i)) (\<lambda>h. andThen (resume_hosts is) (\<lambda>ls. ret ((host_Name h @ middle_dot @ host_User h @ ''@'' @ host_Address h) # ls)))"

definition resumeTask :: "string \<Rightarrow> ('w, string) mact" where
  "resumeTask i =
     andThen (load_task i) (\<lambda>t.
     andThen (resume_hosts (HostIDs (Grant t))) (\<lambda>ls.
       ret (Join (''confirm the servers and the scope, then continue:'' # ls
         @ [''operations: '' @ Join (Operations (Grant t)) '', '', ''resources: '' @ Join (Resources (Grant t)) '', '',
            ''local directories: '' @ Join (LocalRoots (Grant t)) '', '']) newline)))"

text \<open>Whose memories are shown: the general ones, or those of a host.\<close>

definition memory_scope :: "string option \<Rightarrow> string" where
  "memory_scope h = (case h of None \<Rightarrow> ''preferences'' | Some i \<Rightarrow> ''host:'' @ i)"

definition memory_paths :: "string option \<Rightarrow> string list sact" where
  "memory_paths h = andThen (ListMemory (memory_scope h)) (\<lambda>ms. ret (map mr_Path ms))"

definition memory_text :: "string option \<Rightarrow> string \<Rightarrow> string sact" where
  "memory_text h p =
     andThen (ListMemory (memory_scope h)) (\<lambda>ms. ret (case find (\<lambda>r. mr_Path r = p) ms of Some r \<Rightarrow> mr_Content r | None \<Rightarrow> []))"

definition remove_memory :: "string option \<Rightarrow> string \<Rightarrow> unit sact" where
  "remove_memory h p = (if p = [] then ret () else DeleteMemory (memory_scope h) p)"

end
