(* ===== verification/TaskWatch.thy ===== *)
theory TaskWatch
  imports TaskPanel
begin

text \<open>
  \<open>watchTaskUpdates\<close> in \<open>internal/ui/task_history.go\<close>: the worker that keeps the selected task on the screen.

  The worker waits for a selection, a wake-up of the store or the end of a frame, and then reads the
  task.  Its moves, the selections of the user and the operations of the store may come in any order; a reading
  of the task and its events is one step, and the store is not closed while the worker runs.
\<close>

subsection \<open>A subscriber is told of every change\<close>

text \<open>What a reader of task \<open>i\<close> sees of the store.\<close>

definition same_view :: "store \<Rightarrow> store \<Rightarrow> bool" where
  "same_view s s' \<longleftrightarrow> notices s' = notices s \<and> events s' = events s \<and> event_seq s' = event_seq s \<and> documents s' = documents s"

text \<open>
  While channel \<open>ch\<close> is subscribed to task \<open>i\<close>, whatever changes for the task leaves a wake-up in the channel;
  that the task is deleted needs none.
\<close>

definition told :: "string \<Rightarrow> nat \<Rightarrow> store \<Rightarrow> store \<Rightarrow> bool" where
  "told i ch s s' \<longleftrightarrow>
     (changes_ok (notices s) \<longrightarrow>
        changes_ok (notices s') \<and> ch_closed (notices s') = ch_closed (notices s) \<and> ch_subs (notices s') = ch_subs (notices s)
        \<and> set (ch_token (notices s)) \<subseteq> set (ch_token (notices s'))
        \<and> ((i, ch) \<in> set (ch_subs (notices s)) \<longrightarrow> ch \<in> set (ch_token (notices s'))
           \<or> task_events i s' = task_events i s \<and> find_doc ''tasks'' i s' \<in> {None, find_doc ''tasks'' i s}))"

interpretation view: preserved same_view
  by unfold_locales (auto simp: same_view_def)

interpretation told: preserved "told i ch" for i ch
  by unfold_locales (auto simp: told_def)

lemma same_view_told: "same_view s s' \<Longrightarrow> told i ch s s'"
  by (simp add: same_view_def told_def task_events_def find_doc_def)

lemma view_read: "keeps same_view (\<lambda>s. (g s, s))"
  by (simp add: keeps_def same_view_def)

lemma view_statement: "keeps same_view statement"
  by (auto simp: keeps_def statement_def same_view_def split: list.split option.split)

lemma view_environment: "keeps same_view Now" "keeps same_view NewID"
  by (auto simp: keeps_def Now_def NewID_def same_view_def split: list.split)

lemma view_modify: "(\<And>s. same_view s (f s)) \<Longrightarrow> keeps same_view (modify f)"
  by (simp add: keeps_def modify_def)

lemmas view_basic = view.keeps_ret view.keeps_throw view.keeps_andThen view.keeps_if view.keeps_forEach view_statement
  view_environment view_read

lemma view_Claim: "keeps same_view (Claim req)"
proof -
  have "keeps same_view (insert_execution x)" for x
    unfolding insert_execution_def by (intro view_basic) (auto simp: keeps_def same_view_def)
  moreover have "keeps same_view (\<lambda>s. case find_execution (TaskID req) (CallID req) s of
              None \<Rightarrow> (Inl NoRows, s)
            | Some x \<Rightarrow> if ex_Digest x \<noteq> Digest_request req
                then (Inl (Msg ''tool call identity reused with different arguments''), s)
                else (Inr (ex_Payload x, res_ID (ex_Payload x) = i), s))" for i
    by (auto simp: keeps_def same_view_def split: option.split)
  ultimately show ?thesis unfolding Claim_def Let_def by (intro view_basic)
qed

lemma view_Finish: "keeps same_view (Finish r)"
  unfolding Finish_def by (intro view_basic view_modify) (simp add: same_view_def)

lemma view_checkpoints: "keeps same_view (Set i b)" "keeps same_view (Delete_checkpoint i)"
  unfolding Set_def Delete_checkpoint_def by (intro view_basic view_modify; simp add: same_view_def)+

lemma view_Artifact: "keeps same_view (Artifact i)"
  unfolding Artifact_def Let_def by (intro view_basic) (auto simp: keeps_def same_view_def)

lemma view_All: "keeps same_view (All as kind)"
  unfolding All_def by (intro view_basic) (auto simp: keeps_def same_view_def split: option.split)

lemma view_Load: "keeps same_view (Load as kind i)"
  unfolding Load_def by (intro view_basic) (auto simp: keeps_def same_view_def split: option.split)

lemma view_Events: "keeps same_view (Events task after)"
  unfolding Events_def by (intro view_basic)

lemma told_view: "keeps same_view f \<Longrightarrow> keeps (told i ch) f"
  by (simp add: keeps_def same_view_told)

text \<open>A change followed by the wake-up of the task it concerns.\<close>

lemma told_wake:
  assumes "notices s1 = notices s" and "j \<noteq> i \<Longrightarrow> task_events i s1 = task_events i s \<and> find_doc ''tasks'' i s1 = find_doc ''tasks'' i s"
  shows "told i ch s (snd (wake_task j s1))"
proof -
  have "told i ch s (snd (wake_task j s1))" if ok: "changes_ok (notices s)"
  proof -
    from notify_ok [OF ok, of j] obtain t where
      t: "notify j (notices s) = Some (notices s\<lparr>ch_token := t\<rparr>)" "changes_ok (notices s\<lparr>ch_token := t\<rparr>)"
        "set t = set (ch_token (notices s)) \<union> set (subscribers j (notices s))" by blast
    then have s': "snd (wake_task j s1) = s1\<lparr>notices := notices s\<lparr>ch_token := t\<rparr>\<rparr>" by (simp add: wake_task_def assms(1))
    show ?thesis
    proof (cases "j = i")
      case True
      have "(i, ch) \<in> set (ch_subs (notices s)) \<Longrightarrow> ch \<in> set t" using t(3) True by (force simp: subscribers_def)
      with s' t show ?thesis by (auto simp: told_def)
    next
      case False
      from assms(2) [OF False] s' t show ?thesis by (auto simp: told_def task_events_def find_doc_def)
    qed
  qed
  then show ?thesis by (auto simp: told_def)
qed

lemma told_Put: "keeps (told i ch) (Put kind j d)"
proof -
  have "keeps (told i ch) (andThen (modify (put_doc kind j d)) (\<lambda>_. if kind = ''tasks'' then wake_task j else ret ()))"
  proof (cases "kind = ''tasks''")
    case True
    have "told i ch s (snd (wake_task j (put_doc kind j d s)))" for s
      by (rule told_wake) (auto simp: True put_doc_def task_events_def find_doc_def map_of_remove)
    then show ?thesis by (simp add: keeps_def andThen_def modify_def True)
  next
    case False
    then show ?thesis
      by (auto simp: keeps_def andThen_def modify_def ret_def told_def put_doc_def task_events_def find_doc_def map_of_remove)
  qed
  then show ?thesis unfolding Put_def
    by (intro told.keeps_if told.keeps_throw told.keeps_andThen [OF told_view [OF view_statement]])
qed

lemma told_Event: "keeps (told i ch) (Event j kind content)"
proof -
  have "told i ch s (snd (andThen (wake_task j) (\<lambda>_. ret e) (s\<lparr>events := events s @ [e], event_seq := n\<rparr>)))"
    if "ev_TaskID e = j" for s e n
  proof -
    have "told i ch s (snd (wake_task j (s\<lparr>events := events s @ [e], event_seq := n\<rparr>)))"
      by (rule told_wake) (auto simp: task_events_def find_doc_def that)
    then show ?thesis by (auto simp: andThen_def ret_def split: prod.split sum.split)
  qed
  then have "keeps (told i ch) (\<lambda>s. let e = \<lparr>Sequence = Suc (event_seq s), ev_TaskID = j, ev_Kind = kind, ev_Text = content, ev_Time = t\<rparr>
       in andThen (wake_task j) (\<lambda>_. ret e) (s\<lparr>events := events s @ [e], event_seq := Suc (event_seq s)\<rparr>))" for t
    by (simp add: keeps_def Let_def)
  then show ?thesis unfolding Event_def
    by (rule told.keeps_andThen [OF told_view [OF view_environment(1)] told.keeps_andThen [OF told_view [OF view_statement]]])
qed

lemma told_Delete: "keeps (told i ch) (Delete kind j)"
proof -
  have "keeps (told i ch) (modify (\<lambda>s. s\<lparr>documents := filter (\<lambda>(k, _). k \<noteq> (kind, j)) (documents s)\<rparr>))"
    by (auto simp: keeps_def modify_def told_def task_events_def find_doc_def map_of_remove)
  then show ?thesis unfolding Delete_def by (rule told.keeps_andThen [OF told_view [OF view_statement]])
qed

lemma told_Recover: "keeps (told i ch) Recover"
proof -
  have "keeps (told i ch) (andThen (forEach (\<lambda>r. Finish (interrupted_result r)) rs) (\<lambda>_.
       andThen (All as_task ''tasks'') (\<lambda>ts. forEach (\<lambda>t. Put ''tasks'' (task_ID t) (TaskDoc (interrupted_task t))) ts)))" for rs
    by (intro told.keeps_andThen told.keeps_forEach told_Put told_view view_All view_Finish view.keeps_forEach)
  then have "keeps (told i ch) (\<lambda>s. andThen (forEach (\<lambda>r. Finish (interrupted_result r))
                  (filter (\<lambda>r. res_Status r = ''running'') (map ex_Payload (executions s)))) (\<lambda>_.
       andThen (All as_task ''tasks'') (\<lambda>ts. forEach (\<lambda>t. Put ''tasks'' (task_ID t) (TaskDoc (interrupted_task t))) ts)) s)"
    by (simp add: keeps_def)
  then show ?thesis unfolding Recover_def by (rule told.keeps_andThen [OF told_view [OF view_statement]])
qed

lemma run_told: "store_run s s' \<Longrightarrow> told i ch s s'"
proof (induction rule: store_run.induct)
  case (none s)
  show ?case by (rule told.refl)
qed (use told_Put told_Delete told_Event told_Recover told_view view_Claim view_Finish view_checkpoints view_Artifact told.trans
  in \<open>(metis keeps_def)+\<close>)

subsection \<open>The worker\<close>

text \<open>
  Beside the variables of the loop: the store, the panel, the last update the panel took, and whether the last
  reading failed.  \<open>wt_reading\<close> is the part of the loop after the \<open>select\<close>.
\<close>

record watch =
  wt_store :: store
  wt_panel :: panel
  wt_selected :: "string \<times> 64 word"
  wt_channel :: "nat option"
  wt_unsubscribe :: "(string \<times> nat) option"
  wt_frame :: bool
  wt_reading :: bool
  wt_history :: task_history
  wt_shown :: "task_update option"
  wt_failed :: bool

definition new_watch :: "store \<Rightarrow> watch" where
  "new_watch s =
     \<lparr>wt_store = s, wt_panel = \<lparr>p_task = [], p_revision = 0, p_requests = None, p_view = reset_view [], p_status = [], p_stop = False,
        p_approve = False\<rparr>, wt_selected = ([], 0), wt_channel = None, wt_unsubscribe = None, wt_frame = False, wt_reading = False,
      wt_history = new_history [], wt_shown = None, wt_failed = False\<rparr>"

definition with_notices :: "changes \<Rightarrow> watch \<Rightarrow> watch" where
  "with_notices c w = w\<lparr>wt_store := (wt_store w)\<lparr>notices := c\<rparr>\<rparr>"

text \<open>Taking a selection; the result is \<open>None\<close> when a channel operation panics.\<close>

definition take_request :: "watch \<Rightarrow> watch option" where
  "take_request w =
     (case p_requests (wt_panel w) of
        None \<Rightarrow> Some w
      | Some sel \<Rightarrow>
          (case (case wt_unsubscribe w of None \<Rightarrow> Some (notices (wt_store w)) | Some (i, ch) \<Rightarrow> Unsubscribe i ch (notices (wt_store w))) of
             None \<Rightarrow> None
           | Some c \<Rightarrow>
               let w1 = w\<lparr>wt_panel := (wt_panel w)\<lparr>p_requests := None\<rparr>, wt_selected := sel, wt_channel := None, wt_unsubscribe := None,
                         wt_frame := False, wt_reading := True, wt_history := select_task (wt_history w)\<rparr>
               in if fst sel = [] then Some (with_notices c w1)
                  else (case SubscribeTask (fst sel) c of
                          None \<Rightarrow> None
                        | Some (ch, c1) \<Rightarrow> Some (with_notices c1 (w1\<lparr>wt_channel := Some ch, wt_unsubscribe := Some (fst sel, ch)\<rparr>)))))"

definition take_wake_up :: "watch \<Rightarrow> watch" where
  "take_wake_up w =
     (case wt_channel w of
        None \<Rightarrow> w
      | Some ch \<Rightarrow>
          if ch \<in> set (ch_token (notices (wt_store w)))
          then with_notices (receive ch (notices (wt_store w))) (w\<lparr>wt_frame := True\<rparr>) else w)"

definition frame_ended :: "watch \<Rightarrow> watch" where
  "frame_ended w = (if wt_frame w then w\<lparr>wt_frame := False, wt_reading := True\<rparr> else w)"

definition accepts_update :: "watch \<Rightarrow> bool" where
  "accepts_update w \<longleftrightarrow> p_task (wt_panel w) = fst (wt_selected w) \<and> p_revision (wt_panel w) = snd (wt_selected w)"

definition reads_task :: "watch \<Rightarrow> watch" where
  "reads_task w =
     (if \<not> wt_reading w then w
      else if fst (wt_selected w) = [] then w\<lparr>wt_reading := False, wt_history := new_history []\<rparr>
      else case load_view (fst (wt_selected w)) (wt_store w, wt_history w) of
        (x, (s, h)) \<Rightarrow>
          let w1 = w\<lparr>wt_reading := False, wt_store := s, wt_history := h\<rparr>
          in case x of
               Inl e \<Rightarrow> w1\<lparr>wt_failed := True\<rparr>
             | Inr None \<Rightarrow> w1\<lparr>wt_failed := False\<rparr>
             | Inr (Some u) \<Rightarrow>
                 w1\<lparr>wt_failed := False, wt_panel := delivered_update (wt_selected w) u (wt_panel w),
                    wt_shown := (if accepts_update w then Some u else wt_shown w)\<rparr>)"

text \<open>The worker waits only when it has nothing to read.\<close>

inductive watched :: "store \<Rightarrow> watch \<Rightarrow> bool" for s0 where
  watch_begun: "watched s0 (new_watch s0)"
| watch_selects: "watched s0 w \<Longrightarrow> watched s0 (w\<lparr>wt_panel := select_in_panel i (wt_panel w)\<rparr>)"
| watch_stores: "watched s0 w \<Longrightarrow> store_run (wt_store w) s \<Longrightarrow> watched s0 (w\<lparr>wt_store := s\<rparr>)"
| watch_takes: "watched s0 w \<Longrightarrow> \<not> wt_reading w \<Longrightarrow> take_request w = Some w' \<Longrightarrow> watched s0 w'"
| watch_woken: "watched s0 w \<Longrightarrow> \<not> wt_reading w \<Longrightarrow> watched s0 (take_wake_up w)"
| watch_frame: "watched s0 w \<Longrightarrow> \<not> wt_reading w \<Longrightarrow> watched s0 (frame_ended w)"
| watch_reads: "watched s0 w \<Longrightarrow> watched s0 (reads_task w)"

text \<open>The worker on its own, until it waits again.\<close>

definition settle :: "watch \<Rightarrow> watch option" where
  "settle w = (case take_request (reads_task w) of None \<Rightarrow> None | Some w1 \<Rightarrow> Some (reads_task (frame_ended (take_wake_up (reads_task w1)))))"

subsection \<open>What the worker keeps\<close>

lemma load_view_cases:
  assumes "load_view i (s, h) = (x, (s', h'))"
  obtains (failed) e where "x = Inl e" "same_view s s'" "h' = (if th_id h = i then h else new_history i)"
  | (loaded) t es h0 where "h0 = (if th_id h = i then h else new_history i)" "same_view s s'"
      "find_doc ''tasks'' i s = Some (TaskDoc t)"
      "h' = (fold take_event es h0)\<lparr>loaded := True, th_status := Status t, th_summary := Summary t\<rparr>"
      "x = Inr (if \<not> loaded h0 \<or> th_status h0 \<noteq> Status t \<or> th_summary h0 \<noteq> Summary t \<or> es \<noteq> []
                then Some \<lparr>tu_id = i, tu_status = Status t, tu_text = shown_text t h', tu_messages = shown_messages t h'\<rparr> else None)"
proof -
  define h0 where "h0 = (if th_id h = i then h else new_history i)"
  obtain a s1 where a: "Load as_task ''tasks'' i s = (a, s1)" by fastforce
  obtain b s2 where b: "Events i (th_after h0) s1 = (b, s2)" by fastforce
  have v1: "same_view s s1" using view.keepsD [OF view_Load a] .
  have v2: "same_view s s2" using view.trans [OF v1 view.keepsD [OF view_Events b]] .
  note run = assms [unfolded load_view_def prod.case, folded h0_def]
  show thesis
  proof (cases a)
    case (Inl e)
    with run a have "x = Inl e" "s' = s1" "h' = h0" by (auto simp: andThen_def from_store_def)
    with failed v1 show thesis by (simp add: h0_def)
  next
    case (Inr t)
    show thesis
    proof (cases b)
      case (Inl e)
      with run a b Inr have "x = Inl e" "s' = s2" "h' = h0" by (auto simp: andThen_def from_store_def)
      with failed v2 show thesis by (simp add: h0_def)
    next
      case es: (Inr es)
      have "find_doc ''tasks'' i s = Some (TaskDoc t)" using a Inr Load_found [of as_task] by (fastforce simp: as_task_Some)
      with run a b Inr es v2 show thesis by (intro loaded [OF h0_def]) (auto simp: andThen_def from_store_def Let_def)
    qed
  qed
qed

definition up_to_date :: "store \<Rightarrow> task_history \<Rightarrow> string \<Rightarrow> bool" where
  "up_to_date s h i \<longleftrightarrow> th_id h = i \<and> loaded h \<and> shows_events h (task_events i s)
     \<and> (\<forall>t. find_doc ''tasks'' i s = Some (TaskDoc t) \<longrightarrow> th_status h = Status t \<and> th_summary h = Summary t)"

definition update_of :: "task_history \<Rightarrow> task_update \<Rightarrow> bool" where
  "update_of h u \<longleftrightarrow> (\<exists>t. Status t = th_status h \<and> Summary t = th_summary h
     \<and> u = \<lparr>tu_id = th_id h, tu_status = Status t, tu_text = shown_text t h, tu_messages = shown_messages t h\<rparr>)"

definition subscribed :: "watch \<Rightarrow> bool" where
  "subscribed w \<longleftrightarrow>
     (if fst (wt_selected w) = [] then wt_channel w = None \<and> wt_unsubscribe w = None
      else \<exists>ch. wt_channel w = Some ch \<and> wt_unsubscribe w = Some (fst (wt_selected w), ch)
             \<and> (fst (wt_selected w), ch) \<in> set (ch_subs (notices (wt_store w))))"

definition woken :: "watch \<Rightarrow> bool" where
  "woken w \<longleftrightarrow> (case wt_channel w of None \<Rightarrow> False | Some ch \<Rightarrow> ch \<in> set (ch_token (notices (wt_store w))))"

text \<open>The request in the channel is that of the panel.\<close>

definition request_ok :: "watch \<Rightarrow> bool" where
  "request_ok w \<longleftrightarrow> p_requests (wt_panel w) \<in> {None, Some (p_task (wt_panel w), p_revision (wt_panel w))}
     \<and> (p_requests (wt_panel w) = None \<longrightarrow> accepts_update w)"

text \<open>A history that was read since the selection is the one on the screen.\<close>

definition on_screen :: "watch \<Rightarrow> bool" where
  "on_screen w \<longleftrightarrow>
     (fst (wt_selected w) \<noteq> [] \<and> loaded (wt_history w) \<and> th_id (wt_history w) = fst (wt_selected w) \<and> p_requests (wt_panel w) = None
        \<longrightarrow> (\<exists>u. wt_shown w = Some u \<and> update_of (wt_history w) u) \<and> p_status (wt_panel w) = status_text (th_status (wt_history w)))"

text \<open>Unless something is waiting to be read, everything has been.\<close>

definition has_read :: "watch \<Rightarrow> bool" where
  "has_read w \<longleftrightarrow>
     (fst (wt_selected w) \<noteq> [] \<and> \<not> wt_reading w \<and> \<not> wt_frame w \<and> \<not> wt_failed w \<and> \<not> woken w
        \<longrightarrow> up_to_date (wt_store w) (wt_history w) (fst (wt_selected w)))"

definition watch_ok :: "watch \<Rightarrow> bool" where
  "watch_ok w \<longleftrightarrow> changes_ok (notices (wt_store w)) \<and> \<not> ch_closed (notices (wt_store w)) \<and> keeps_up (wt_store w, wt_history w) \<and> subscribed w \<and> request_ok w \<and> on_screen w \<and> has_read w"

lemmas watch_parts = subscribed_def request_ok_def on_screen_def has_read_def woken_def accepts_update_def

lemma watch_ok_new: "events_ok s \<Longrightarrow> changes_ok (notices s) \<Longrightarrow> \<not> ch_closed (notices s) \<Longrightarrow> watch_ok (new_watch s)"
  by (simp add: watch_ok_def new_watch_def watch_parts keeps_up_new)

lemma woken_panel: "woken (w\<lparr>wt_panel := p\<rparr>) = woken w"
  by (simp add: woken_def cong: option.case_cong)

lemma watch_ok_selects:
  assumes ok: "watch_ok w"
  shows "watch_ok (w\<lparr>wt_panel := select_in_panel i (wt_panel w)\<rparr>)"
proof -
  have "p_requests (select_in_panel i p) = Some (p_task (select_in_panel i p), p_revision (select_in_panel i p))" for p
    by (simp add: select_in_panel_def updateTask_def Let_def)
  with ok show ?thesis
    by (simp add: watch_ok_def subscribed_def request_ok_def on_screen_def has_read_def woken_panel)
qed

lemma watch_ok_stores:
  assumes ok: "watch_ok w" and run: "store_run (wt_store w) s"
  shows "watch_ok (w\<lparr>wt_store := s\<rparr>)"
proof -
  have told: "told i ch (wt_store w) s" for i ch by (rule run_told [OF run])
  have changes: "changes_ok (notices s)" "ch_subs (notices s) = ch_subs (notices (wt_store w))" "\<not> ch_closed (notices s)"
    using ok told by (auto simp: watch_ok_def told_def)
  have keep: "keeps_up (s, wt_history w)" using ok keeps_up_extends log.run [OF run] by (auto simp: watch_ok_def)
  have "has_read (w\<lparr>wt_store := s\<rparr>)"
  proof (cases "wt_channel w")
    case None
    with ok show ?thesis by (auto simp: watch_ok_def has_read_def subscribed_def split: if_splits)
  next
    case (Some ch)
    then have "fst (wt_selected w) \<noteq> [] \<Longrightarrow> (fst (wt_selected w), ch) \<in> set (ch_subs (notices (wt_store w)))"
      using ok by (auto simp: watch_ok_def subscribed_def split: if_splits)
    with Some ok told [of "fst (wt_selected w)" ch] show ?thesis
      by (auto simp: watch_ok_def has_read_def woken_def told_def up_to_date_def)
  qed
  with ok keep changes show ?thesis by (simp add: watch_ok_def subscribed_def request_ok_def accepts_update_def on_screen_def)
qed

lemma select_unloaded [simp]: "\<not> loaded (select_task h)"
  by (simp add: select_task_def)

lemma take_request_Some:
  assumes ok: "watch_ok w"
  shows "\<exists>w'. take_request w = Some w' \<and> watch_ok w'
     \<and> (if p_requests (wt_panel w) = None then w' = w
        else wt_selected w' = (p_task (wt_panel w), p_revision (wt_panel w)) \<and> wt_reading w'
          \<and> p_requests (wt_panel w') = None \<and> p_task (wt_panel w') = p_task (wt_panel w)
          \<and> documents (wt_store w') = documents (wt_store w) \<and> events (wt_store w') = events (wt_store w) \<and> sql (wt_store w') = sql (wt_store w))"
proof (cases "p_requests (wt_panel w)")
  case None
  with ok show ?thesis by (simp add: take_request_def)
next
  case (Some sel)
  then have sel: "sel = (p_task (wt_panel w), p_revision (wt_panel w))" using ok by (auto simp: watch_ok_def request_ok_def)
  have c0: "changes_ok (notices (wt_store w))" "\<not> ch_closed (notices (wt_store w))" using ok by (simp_all add: watch_ok_def)
  have unsub: "\<exists>c. Unsubscribe i ch (notices (wt_store w)) = Some c \<and> changes_ok c \<and> \<not> ch_closed c" for i ch
    using unsubscribe_ok [OF c0(1), of i ch] c0(2) by (auto simp: Unsubscribe_def close_chan_def split: if_splits)
  obtain c where c: "(case wt_unsubscribe w of None \<Rightarrow> Some (notices (wt_store w)) | Some (i, ch) \<Rightarrow> Unsubscribe i ch (notices (wt_store w))) = Some c"
    "changes_ok c" "\<not> ch_closed c"
  proof (cases "wt_unsubscribe w")
    case None
    with that c0 show thesis by simp
  next
    case (Some u)
    obtain i ch where "u = (i, ch)" by fastforce
    with that unsub [of i ch] Some show thesis by auto
  qed
  have keep: "keeps_up (wt_store w, wt_history w)" using ok by (simp add: watch_ok_def)
  have kept: "keeps_up ((wt_store w)\<lparr>notices := n\<rparr>, select_task (wt_history w))" for n
    using keep by (simp add: keeps_up_def events_ok_def task_events_def select_task_def shows_events_def)
  show ?thesis
  proof (cases "fst sel = []")
    case True
    then show ?thesis using Some sel c kept
      by (simp add: take_request_def with_notices_def Let_def watch_ok_def subscribed_def request_ok_def accepts_update_def on_screen_def has_read_def)
  next
    case False
    obtain ch c1 where sub: "SubscribeTask (fst sel) c = Some (ch, c1)" "changes_ok c1" using subscribe_ok [OF c(2)] by blast
    then have "(fst sel, ch) \<in> set (ch_subs c1)" "\<not> ch_closed c1" using c(3) by (auto simp: SubscribeTask_def Let_def)
    then show ?thesis using Some sel c sub kept False
      by (simp add: take_request_def with_notices_def Let_def watch_ok_def subscribed_def request_ok_def accepts_update_def on_screen_def has_read_def)
  qed
qed

lemma watch_ok_woken:
  assumes ok: "watch_ok w"
  shows "watch_ok (take_wake_up w)"
proof (cases "woken w")
  case False
  then have "take_wake_up w = w" by (auto simp: take_wake_up_def woken_def split: option.split)
  with ok show ?thesis by simp
next
  case True
  then obtain ch where ch: "wt_channel w = Some ch" "ch \<in> set (ch_token (notices (wt_store w)))" by (auto simp: woken_def split: option.splits)
  have "keeps_up (wt_store w, wt_history w)" using ok by (simp add: watch_ok_def)
  then have "keeps_up ((wt_store w)\<lparr>notices := n\<rparr>, wt_history w)" for n by (simp add: keeps_up_def events_ok_def task_events_def)
  moreover have "changes_ok (receive ch c)" "ch_closed (receive ch c) = ch_closed c" "ch_subs (receive ch c) = ch_subs c" if "changes_ok c" for c
    using that by (simp_all add: receive_def changes_ok_def)
  ultimately show ?thesis using ok ch
    by (auto simp: take_wake_up_def with_notices_def watch_ok_def subscribed_def request_ok_def accepts_update_def on_screen_def has_read_def
        split: if_splits)
qed

lemma woken_frame: "woken (w\<lparr>wt_frame := b, wt_reading := r\<rparr>) = woken w"
  by (simp add: woken_def cong: option.case_cong)

lemma watch_ok_frame: "watch_ok w \<Longrightarrow> watch_ok (frame_ended w)"
  by (simp add: frame_ended_def watch_ok_def subscribed_def request_ok_def accepts_update_def on_screen_def has_read_def)

text \<open>A reading: what it does to the state, when it succeeds.\<close>

lemma reads_cases:
  assumes "watch_ok w" "wt_reading w" "fst (wt_selected w) = i" "i \<noteq> []"
  obtains (failed) e s h where "same_view (wt_store w) s" "h = (if th_id (wt_history w) = i then wt_history w else new_history i)"
      "reads_task w = w\<lparr>wt_reading := False, wt_store := s, wt_history := h, wt_failed := True\<rparr>"
      "fst (load_view i (wt_store w, wt_history w)) = Inl e"
  | (same) s where "same_view (wt_store w) s" "up_to_date s (wt_history w) i" "keeps_up (s, wt_history w)"
      "reads_task w = w\<lparr>wt_reading := False, wt_store := s, wt_failed := False\<rparr>"
  | (new) s h u where "same_view (wt_store w) s" "up_to_date s h i" "keeps_up (s, h)" "update_of h u"
      "reads_task w = w\<lparr>wt_reading := False, wt_store := s, wt_history := h, wt_failed := False,
         wt_panel := delivered_update (wt_selected w) u (wt_panel w), wt_shown := (if accepts_update w then Some u else wt_shown w)\<rparr>"
proof -
  obtain x s h where run: "load_view i (wt_store w, wt_history w) = (x, (s, h))" by (metis surj_pair)
  have k: "events_ok (wt_store w)" "keeps_up (wt_store w, wt_history w)" using assms(1) by (simp_all add: watch_ok_def keeps_up_def)
  note defs = reads_task_def Let_def assms(2-4) run
  from run show thesis
  proof (cases rule: load_view_cases)
    case (failed e)
    then show thesis using that(1) by (simp add: defs)
  next
    case (loaded t es h0)
    from load_view_complete [OF k, of i "projr x" s h] run loaded(5)
    have h: "keeps_up (s, h)" "th_id h = i" "shows_events h (task_events i (wt_store w))" by auto
    with loaded(2,3,4) have current: "up_to_date s h i"
      by (simp add: up_to_date_def same_view_def task_events_def find_doc_def)
    show thesis
    proof (cases "\<not> loaded h0 \<or> th_status h0 \<noteq> Status t \<or> th_summary h0 \<noteq> Summary t \<or> es \<noteq> []")
      case True
      let ?u = "\<lparr>tu_id = i, tu_status = Status t, tu_text = shown_text t h, tu_messages = shown_messages t h\<rparr>"
      have "update_of h ?u" using loaded(4) h(2) unfolding update_of_def by (intro exI [of _ t]) simp
      with that(3) loaded(2,5) current h(1) True show thesis by (simp add: defs)
    next
      case False
      then have id: "th_id (wt_history w) = i" "h0 = wt_history w" using loaded(1) by (auto simp: new_history_def split: if_splits)
      with False loaded(4) have "h = wt_history w\<lparr>loaded := True, th_status := Status t, th_summary := Summary t\<rparr>" by simp
      with False id have "h = wt_history w" by simp
      with that(2) loaded(2,5) id current h(1) False show thesis by (simp add: defs)
    qed
  qed
qed

lemma keeps_up_cong: "events s' = events s \<Longrightarrow> event_seq s' = event_seq s \<Longrightarrow> keeps_up (s', h) = keeps_up (s, h)"
  by (simp add: keeps_up_def events_ok_def task_events_def)

lemma read_store:
  assumes "watch_ok w" "same_view (wt_store w) s"
  shows "changes_ok (notices s) \<and> \<not> ch_closed (notices s) \<and> ch_subs (notices s) = ch_subs (notices (wt_store w))"
  using assms by (simp add: watch_ok_def same_view_def)

lemma delivered_accepted:
  assumes "accepts_update w"
  shows "p_status (delivered_update (wt_selected w) u (wt_panel w)) = status_text (tu_status u)"
  using assms by (simp add: delivered_update_def accepts_update_def)

lemma delivered_frame: "p_requests (delivered_update sel u p) = p_requests p" "p_task (delivered_update sel u p) = p_task p"
  "p_revision (delivered_update sel u p) = p_revision p"
  by (simp_all add: delivered_update_def)

lemma watch_ok_reads:
  assumes ok: "watch_ok w"
  shows "watch_ok (reads_task w)"
proof (cases "wt_reading w \<and> fst (wt_selected w) \<noteq> []")
  case False
  then consider "\<not> wt_reading w" | "wt_reading w" "fst (wt_selected w) = []" by blast
  then show ?thesis
  proof cases
    case 1
    with ok show ?thesis by (simp add: reads_task_def)
  next
    case 2
    moreover have "keeps_up (wt_store w, new_history [])"
      using ok keeps_up_new by (simp add: watch_ok_def keeps_up_def)
    ultimately show ?thesis using ok
      by (simp add: reads_task_def watch_ok_def subscribed_def request_ok_def accepts_update_def on_screen_def has_read_def)
  qed
next
  case True
  then have r: "wt_reading w" "fst (wt_selected w) \<noteq> []" by simp_all
  show ?thesis
    using ok r(1) HOL.refl r(2)
  proof (cases rule: reads_cases)
    case (failed e s h)
    have "keeps_up (wt_store w, wt_history w)" using ok by (simp add: watch_ok_def)
    moreover from this have "keeps_up (wt_store w, new_history (fst (wt_selected w)))" by (intro keeps_up_new) (simp add: keeps_up_def)
    ultimately have "keeps_up (wt_store w, h)" using failed(2) by simp
    then have "keeps_up (s, h)" using failed(1) keeps_up_cong [of s "wt_store w" h] by (simp add: same_view_def)
    moreover have "loaded h \<Longrightarrow> h = wt_history w" using failed(2) by (auto simp: new_history_def split: if_splits)
    ultimately show ?thesis using ok read_store [OF ok failed(1)]
      by (auto simp: failed(3) watch_ok_def subscribed_def request_ok_def accepts_update_def on_screen_def has_read_def)
  next
    case (same s)
    then show ?thesis using ok read_store [OF ok same(1)]
      by (auto simp: same(4) watch_ok_def subscribed_def request_ok_def accepts_update_def on_screen_def has_read_def)
  next
    case (new s h u)
    have up: "up_to_date s h (fst (wt_selected w))" by (rule new(2))
    let ?p = "delivered_update (wt_selected w) u (wt_panel w)"
    have request_ok: "request_ok (w\<lparr>wt_panel := ?p\<rparr>)" using ok by (simp add: watch_ok_def request_ok_def accepts_update_def delivered_frame)
    have "p_requests (wt_panel w) = None \<Longrightarrow> accepts_update w" using ok by (simp add: watch_ok_def request_ok_def)
    moreover have "accepts_update w \<Longrightarrow> p_status ?p = status_text (th_status h)"
      using new(4) delivered_accepted by (auto simp: update_of_def)
    ultimately show ?thesis using ok request_ok new(3,4) up read_store [OF ok new(1)]
      by (auto simp: new(5) watch_ok_def subscribed_def request_ok_def accepts_update_def on_screen_def has_read_def delivered_frame)
  qed
qed

lemma watched_ok:
  "watched s0 w \<Longrightarrow> events_ok s0 \<Longrightarrow> changes_ok (notices s0) \<Longrightarrow> \<not> ch_closed (notices s0) \<Longrightarrow> watch_ok w"
proof (induction rule: watched.induct)
  case watch_begun
  then show ?case by (rule watch_ok_new)
next
  case (watch_selects w i)
  then show ?case by (intro watch_ok_selects) simp
next
  case (watch_stores w s)
  then show ?case by (intro watch_ok_stores) simp_all
next
  case (watch_takes w w')
  then have "watch_ok w" by simp
  from take_request_Some [OF this] watch_takes(3) show ?case by auto
next
  case (watch_woken w)
  then show ?case by (intro watch_ok_woken) simp
next
  case (watch_frame w)
  then show ?case by (intro watch_ok_frame) simp
next
  case (watch_reads w)
  then show ?case by (intro watch_ok_reads) simp
qed

text \<open>Nothing is left to do: no selection, no frame, no wake-up.\<close>

definition worker_waits :: "watch \<Rightarrow> bool" where
  "worker_waits w \<longleftrightarrow> p_requests (wt_panel w) = None \<and> \<not> wt_reading w \<and> \<not> wt_frame w \<and> \<not> woken w"

lemma waiting_shows:
  assumes "watch_ok w" "worker_waits w" "\<not> wt_failed w" "p_task (wt_panel w) = i" "i \<noteq> []"
    and "find_doc ''tasks'' i (wt_store w) = Some (TaskDoc t)"
  shows "\<exists>u h. wt_shown w = Some u \<and> shows_events h (task_events i (wt_store w)) \<and> tu_id u = i \<and> tu_status u = Status t
     \<and> tu_messages u = shown_messages t h \<and> tu_text u = shown_text t h \<and> p_status (wt_panel w) = status_text (Status t)"
proof -
  have sel: "fst (wt_selected w) = i" using assms(1,2,4) by (simp add: watch_ok_def request_ok_def worker_waits_def accepts_update_def)
  then have h: "up_to_date (wt_store w) (wt_history w) i" using assms by (simp add: watch_ok_def has_read_def worker_waits_def)
  then have now: "loaded (wt_history w)" "th_id (wt_history w) = i" "th_status (wt_history w) = Status t" "th_summary (wt_history w) = Summary t"
    using assms(6) by (simp_all add: up_to_date_def)
  then have "(\<exists>u. wt_shown w = Some u \<and> update_of (wt_history w) u) \<and> p_status (wt_panel w) = status_text (Status t)"
    using assms(1,2,5) sel by (simp add: watch_ok_def on_screen_def worker_waits_def)
  then obtain u t' where u: "wt_shown w = Some u" "Status t' = Status t" "Summary t' = Summary t" "p_status (wt_panel w) = status_text (Status t)"
    "u = \<lparr>tu_id = i, tu_status = Status t', tu_text = shown_text t' (wt_history w), tu_messages = shown_messages t' (wt_history w)\<rparr>"
    unfolding update_of_def now by blast
  have "shown_messages t' (wt_history w) = shown_messages t (wt_history w)" "shown_text t' (wt_history w) = shown_text t (wt_history w)"
    using u(2,3) by (simp_all add: shown_messages_def shown_text_def)
  moreover have "shows_events (wt_history w) (task_events i (wt_store w))" using h by (simp add: up_to_date_def)
  ultimately show ?thesis using u by (intro exI [of _ u] exI [of _ "wt_history w"]) simp
qed

subsection \<open>No change is missed\<close>

text \<open>What the worker's own moves leave alone.\<close>

definition same_task :: "watch \<Rightarrow> watch \<Rightarrow> bool" where
  "same_task w w' \<longleftrightarrow> documents (wt_store w') = documents (wt_store w) \<and> events (wt_store w') = events (wt_store w)
     \<and> (sql (wt_store w) = [] \<longrightarrow> sql (wt_store w') = []) \<and> p_task (wt_panel w') = p_task (wt_panel w)"

lemma same_task_trans: "same_task w v \<Longrightarrow> same_task v u \<Longrightarrow> same_task w u"
  by (simp add: same_task_def)

lemma load_view_sql: "sql s = [] \<Longrightarrow> load_view i (s, h) = (x, (s', h')) \<Longrightarrow> s' = s
    \<and> (find_doc ''tasks'' i s = Some (TaskDoc t) \<longrightarrow> (\<exists>u. x = Inr u))"
  by (auto simp: load_view_def Load_def Events_def andThen_def statement_def from_store_def Let_def split: option.splits prod.splits sum.splits)

lemma woken_cong: "wt_channel w' = wt_channel w \<Longrightarrow> notices (wt_store w') = notices (wt_store w) \<Longrightarrow> woken w' = woken w"
  by (simp add: woken_def cong: option.case_cong)

lemma woken_read: "woken (w\<lparr>wt_reading := b, wt_history := h\<rparr>) = woken w"
  by (rule woken_cong) simp_all

lemma reads_frame:
  "same_task w (reads_task w) \<and> \<not> wt_reading (reads_task w) \<and> p_requests (wt_panel (reads_task w)) = p_requests (wt_panel w)
     \<and> wt_frame (reads_task w) = wt_frame w \<and> woken (reads_task w) = woken w \<and> wt_selected (reads_task w) = wt_selected w"
proof (cases "wt_reading w \<and> fst (wt_selected w) \<noteq> []")
  case False
  then show ?thesis by (auto simp: reads_task_def same_task_def woken_read)
next
  case True
  obtain x s h where run: "load_view (fst (wt_selected w)) (wt_store w, wt_history w) = (x, (s, h))" by (metis surj_pair)
  from run have view: "same_view (wt_store w) s" by (cases rule: load_view_cases)
  moreover have "sql (wt_store w) = [] \<Longrightarrow> sql s = []" using load_view_sql [OF _ run] by simp
  ultimately have "same_task w (reads_task w)"
    using True run by (cases x) (auto simp: reads_task_def same_task_def same_view_def delivered_frame Let_def split: option.split)
  moreover have "wt_channel (reads_task w) = wt_channel w" "notices (wt_store (reads_task w)) = notices (wt_store w)"
    using True run view by (cases x; auto simp: reads_task_def same_view_def Let_def split: option.split)+
  then have "woken (reads_task w) = woken w" by (rule woken_cong)
  ultimately show ?thesis
    using True run by (cases x) (auto simp: reads_task_def delivered_frame Let_def split: option.split)
qed

lemma reads_good:
  assumes "watch_ok w" "sql (wt_store w) = []" "p_requests (wt_panel w) = None" "p_task (wt_panel w) = i" "i \<noteq> []"
    and "find_doc ''tasks'' i (wt_store w) = Some (TaskDoc t)" "wt_reading w \<or> \<not> wt_failed w"
  shows "\<not> wt_failed (reads_task w)"
proof (cases "wt_reading w")
  case True
  have sel: "fst (wt_selected w) = i" using assms(1,3,4) by (simp add: watch_ok_def request_ok_def accepts_update_def)
  obtain x s h where run: "load_view i (wt_store w, wt_history w) = (x, (s, h))" by (metis surj_pair)
  from load_view_sql [OF assms(2) this, of t] assms(6) obtain u where "x = Inr u" by auto
  with run sel True assms(5) show ?thesis by (cases u) (simp_all add: reads_task_def Let_def)
qed (use assms(7) in \<open>simp add: reads_task_def\<close>)

lemma woken_taken: "\<not> woken (take_wake_up w)"
  by (auto simp: take_wake_up_def woken_def with_notices_def receive_def split: option.split)

lemma take_frame: "same_task w (take_wake_up w) \<and> wt_reading (take_wake_up w) = wt_reading w \<and> wt_failed (take_wake_up w) = wt_failed w
    \<and> p_requests (wt_panel (take_wake_up w)) = p_requests (wt_panel w)"
  by (auto simp: take_wake_up_def same_task_def with_notices_def split: option.split)

lemma frame_frame: "same_task w (frame_ended w) \<and> \<not> wt_frame (frame_ended w) \<and> wt_failed (frame_ended w) = wt_failed w
    \<and> p_requests (wt_panel (frame_ended w)) = p_requests (wt_panel w) \<and> woken (frame_ended w) = woken w"
  by (auto simp: frame_ended_def same_task_def woken_frame)

lemma settles:
  assumes ok: "watch_ok w" and none: "sql (wt_store w) = []" and i: "p_task (wt_panel w) = i" "i \<noteq> []"
    and t: "find_doc ''tasks'' i (wt_store w) = Some (TaskDoc t)" and failed: "\<not> wt_failed w"
  shows "\<exists>w'. settle w = Some w' \<and> watch_ok w' \<and> worker_waits w' \<and> \<not> wt_failed w' \<and> same_task w w'"
proof -
  define w1 where "w1 = reads_task w"
  have ok1: "watch_ok w1" and same1: "same_task w w1" "p_requests (wt_panel w1) = p_requests (wt_panel w)"
    using watch_ok_reads [OF ok] reads_frame [of w] by (simp_all add: w1_def)
  have doc: "find_doc ''tasks'' i (wt_store v) = Some (TaskDoc t) \<and> sql (wt_store v) = [] \<and> p_task (wt_panel v) = i" if "same_task w v" for v
    using that t none i by (simp add: same_task_def find_doc_def)
  obtain w2 where w2: "take_request w1 = Some w2" "watch_ok w2" "same_task w w2" "p_requests (wt_panel w2) = None"
    "wt_reading w2 \<or> \<not> wt_failed w2"
  proof (cases "p_requests (wt_panel w)")
    case None
    with take_request_Some [OF ok1] same1 have "take_request w1 = Some w1" by auto
    moreover have "\<not> wt_failed w1" unfolding w1_def by (rule reads_good [OF ok none None i t]) (simp add: failed)
    ultimately show thesis using that [of w1] ok1 same1 None by simp
  next
    case (Some sel)
    with take_request_Some [OF ok1] same1 obtain v where v: "take_request w1 = Some v" "watch_ok v" "wt_reading v"
      "p_requests (wt_panel v) = None" "same_task w1 v" by (auto simp: same_task_def)
    with that [of v] same_task_trans [OF same1(1) v(5)] show thesis by simp
  qed
  define w3 where "w3 = reads_task w2"
  have w3: "watch_ok w3" "same_task w w3" "p_requests (wt_panel w3) = None" "\<not> wt_failed w3"
    using watch_ok_reads [OF w2(2)] reads_frame [of w2] same_task_trans [OF w2(3)] w2(4)
      reads_good [OF w2(2) _ w2(4) _ i(2) _ w2(5)] doc [OF w2(3)] by (simp_all add: w3_def)
  define w5 where "w5 = frame_ended (take_wake_up w3)"
  have w5: "watch_ok w5" "same_task w w5" "p_requests (wt_panel w5) = None" "\<not> wt_failed w5" "\<not> wt_frame w5" "\<not> woken w5"
    using watch_ok_frame [OF watch_ok_woken [OF w3(1)]] take_frame [of w3] frame_frame [of "take_wake_up w3"] woken_taken [of w3] w3
    by (simp_all add: w5_def same_task_def)
  have "settle w = Some (reads_task w5)" by (simp add: settle_def w1_def [symmetric] w2(1) w3_def [symmetric] w5_def)
  moreover have "watch_ok (reads_task w5)" "worker_waits (reads_task w5)" "\<not> wt_failed (reads_task w5)" "same_task w (reads_task w5)"
    using watch_ok_reads [OF w5(1)] reads_frame [of w5] same_task_trans [OF w5(2)] w5
      reads_good [OF w5(1) _ w5(3) _ i(2)] doc [OF w5(2)] by (simp_all add: worker_waits_def)
  ultimately show ?thesis by blast
qed


definition demo_watch :: "nat option list \<Rightarrow> watch" where
  "demo_watch fs = (let w = new_watch (demo_log\<lparr>sql := fs\<rparr>) in w\<lparr>wt_panel := select_in_panel ''t1'' (wt_panel w)\<rparr>)"


text \<open>A reading that fails is not repeated: the worker waits, and the task is not shown until something changes again.\<close>

lemma failed_reading_waits:
  "case settle (demo_watch [Some 5]) of Some w \<Rightarrow> worker_waits w \<and> wt_shown w = None | None \<Rightarrow> False"
  by (simp add: demo_watch_def demo_log_def crashed_store_def Event_def andThen_def statement_def wake_task_def notify_def subscribers_def
      empty_store_def changes_init_def ret_def Now_def new_watch_def Let_def select_in_panel_def updateTask_def settle_def reads_task_def
      take_request_def SubscribeTask_def with_notices_def load_view_def Load_def from_store_def select_task_def new_history_def
      take_wake_up_def frame_ended_def worker_waits_def woken_def reset_view_def)

end
