(* ===== verification/MonitorView.thy ===== *)
theory MonitorView
  imports Monitor Processes
begin

text \<open>
  \<open>internal/ui/monitor.go\<close>, \<open>monitor_table.go\<close> and \<open>disk_table.go\<close>: what is shown of a server's state.

  Numbers are shown as values, which the widgets print with a fixed number of decimals; quotients of
  floating-point numbers are exact here.  The widgets themselves are not modelled.
\<close>

subsection \<open>Metrics as texts\<close>

definition dash :: string where
  "dash = map char_of [0xE2 :: nat, 0x80, 0x94]"

definition metricState :: "metric \<Rightarrow> string" where
  "metricState m =
     (if mt_State m = ''warming_up'' then dash else if mt_State m = ''unsupported'' then ''not supported''
      else if mt_State m = ''error'' then ''failed'' else ''no data'')"

text \<open>Only metrics whose value is a text, if any, are shown this way.\<close>

definition metricText :: "metric \<Rightarrow> string" where
  "metricText m = (if mt_State m \<noteq> ''ok'' then metricState m else words_of m)"

text \<open>A size with its unit and the number of decimals.\<close>

fun scale :: "rat \<Rightarrow> string list \<Rightarrow> rat \<times> string" where
  "scale v [] = (v, [])"
| "scale v [u] = (v, u)"
| "scale v (u # w # us) = (if 1024 \<le> \<bar>v\<bar> then scale (v / 1024) (w # us) else (v, u))"

definition units :: "string list" where
  "units = [''KiB'', ''MiB'', ''GiB'', ''TiB'', ''PiB'', ''EiB'']"

definition diskSize :: "rat \<Rightarrow> rat \<times> string \<times> nat" where
  "diskSize kib = (let (v, u) = scale kib units in (v, u, if u = ''KiB'' \<or> 100 \<le> \<bar>v\<bar> then 0 else 1))"

definition rateSize :: "rat \<Rightarrow> rat \<times> string \<times> nat" where
  "rateSize v = (let (x, u, n) = diskSize (v / 1024) in (x, ReplaceAll u ''i'' [] @ ''/s'', n))"

lemma scale_value:
  "us \<noteq> [] \<Longrightarrow> scale v us = (w, u) \<Longrightarrow> \<exists>i < length us. u = us ! i \<and> v = w * 1024 ^ i \<and> (Suc i < length us \<longrightarrow> \<bar>w\<bar> < 1024)
     \<and> (0 < i \<longrightarrow> 1 \<le> \<bar>w\<bar>)"
proof (induction v us arbitrary: w u rule: scale.induct)
  case (3 v u0 w0 us)
  show ?case
  proof (cases "1024 \<le> \<bar>v\<bar>")
    case True
    with 3 obtain i where i: "i < length (w0 # us)" "u = (w0 # us) ! i" "v / 1024 = w * 1024 ^ i"
      "Suc i < length (w0 # us) \<longrightarrow> \<bar>w\<bar> < 1024" "0 < i \<longrightarrow> 1 \<le> \<bar>w\<bar>" by auto
    have "i = 0 \<Longrightarrow> 1 \<le> \<bar>w\<bar>" using True i(3) by (simp add: abs_if split: if_splits)
    with i show ?thesis by (intro exI [of _ "Suc i"]) auto
  next
    case False
    with 3 show ?thesis by (intro exI [of _ 0]) auto
  qed
qed (auto intro: exI [of _ 0])

text \<open>A size is shown in the unit in which it has one to four digits before the point.\<close>

lemma diskSize_value:
  assumes "diskSize v = (w, u, n)"
  shows "\<exists>i < 6. u = units ! i \<and> v = w * 1024 ^ i \<and> (i < 5 \<longrightarrow> \<bar>w\<bar> < 1024) \<and> (0 < i \<longrightarrow> 1 \<le> \<bar>w\<bar>)"
proof -
  have "scale v units = (w, u)" using assms by (simp add: diskSize_def split: prod.splits)
  moreover have len: "length units = 6" "units \<noteq> []" by (simp_all add: units_def)
  ultimately obtain i where i: "i < 6" "u = units ! i" "v = w * 1024 ^ i" "Suc i < 6 \<longrightarrow> \<bar>w\<bar> < 1024" "0 < i \<longrightarrow> 1 \<le> \<bar>w\<bar>"
    using scale_value [of units v w u] by metis
  then show ?thesis by (intro exI [of _ i]) auto
qed

subsection \<open>Tables of processes and ports\<close>

datatype shown_cell = Cell string | Percent_cell float64

record monitor_table =
  tb_processes :: bool
  tb_rows :: "shown_cell list list"
  tb_keys :: "string list"
  tb_selected :: string
  tb_last :: string
  tb_visible :: bool
  tb_detail :: "nat option"
  tb_message :: "string option"

definition new_table :: "bool \<Rightarrow> monitor_table" where
  "new_table processes = \<lparr>tb_processes = processes, tb_rows = [], tb_keys = [], tb_selected = [], tb_last = [], tb_visible = False,
     tb_detail = None, tb_message = Some ''waiting''\<rparr>"

definition table_headers :: "monitor_table \<Rightarrow> string list" where
  "table_headers t =
     (if tb_processes t then [''process'', ''process ID'', ''user'', ''CPU'', ''memory'']
      else [''protocol'', ''local port'', ''state'', ''local address'', ''remote address'', ''receive queue'', ''send queue'', ''process''])"

definition unavailable :: "string \<Rightarrow> monitor_table \<Rightarrow> monitor_table" where
  "unavailable message t = t\<lparr>tb_last := [], tb_rows := [], tb_keys := [], tb_selected := [], tb_visible := False, tb_detail := None,
     tb_message := Some message\<rparr>"

definition process_cells :: "process_info \<Rightarrow> shown_cell list \<times> string" where
  "process_cells p = ([Cell (pr_Name p), Cell (FormatInt (pr_PID p)), Cell (pr_User p), Percent_cell (pr_CPU p), Percent_cell (pr_Memory p)],
     FormatInt (pr_PID p))"

definition portState :: "string \<Rightarrow> string" where
  "portState s =
     (case map_of [(''LISTEN'', ''listening''), (''ESTAB'', ''connected''), (''UNCONN'', ''not connected''), (''TIME-WAIT'', ''closing''),
        (''CLOSE-WAIT'', ''closing''), (''SYN-SENT'', ''connecting''), (''SYN-RECV'', ''shaking hands'')] s of Some v \<Rightarrow> v | None \<Rightarrow> s)"

definition ascii_upper :: "char \<Rightarrow> char" where
  "ascii_upper c = (if code_in 97 122 c then char_of (of_char c - (32 :: nat)) else c)"

definition after_last_colon :: "string \<Rightarrow> string" where
  "after_last_colon s = rev (takeWhile (\<lambda>c. c \<noteq> CHR '':'') (rev s))"

definition owner_text :: "port_info \<Rightarrow> string" where
  "owner_text p =
     (let owner = (if pt_Owners p = [] then pt_Process p
                   else Join (map (\<lambda>x. po_Name x @ '' (PID '' @ FormatInt (po_PID x) @ '')'') (pt_Owners p)) '', '')
      in if owner = [] then dash else owner)"

definition port_cells :: "port_info \<Rightarrow> shown_cell list \<times> string" where
  "port_cells p =
     (map Cell [map ascii_upper (pt_Protocol p), after_last_colon (pt_Local p), portState (pt_State p), pt_Local p, pt_Peer p,
        FormatNat (pt_ReceiveQueue p), FormatNat (pt_SendQueue p), owner_text p],
      pt_Protocol p @ [CHR 0x00] @ pt_Local p @ [CHR 0x00] @ pt_Peer p @ [CHR 0x00] @ pt_Process p)"

definition monitor_rows :: "bool \<Rightarrow> string \<Rightarrow> err + (shown_cell list \<times> string) list" where
  "monitor_rows processes raw =
     (if processes then (case ParseProcesses raw of Inl e \<Rightarrow> Inl e | Inr ps \<Rightarrow> Inr (map process_cells ps))
      else (case ParsePorts raw of Inl e \<Rightarrow> Inl e | Inr ps \<Rightarrow> Inr (map port_cells ps)))"

text \<open>Selecting a row shows its details.\<close>

definition select_row :: "int \<Rightarrow> monitor_table \<Rightarrow> monitor_table" where
  "select_row i t =
     (if 0 \<le> i \<and> i < int (length (tb_rows t)) then t\<lparr>tb_selected := tb_keys t ! nat i, tb_detail := Some (nat i)\<rparr> else t)"

fun position :: "'a \<Rightarrow> 'a list \<Rightarrow> nat option" where
  "position x [] = None"
| "position x (y # ys) = (if y = x then Some 0 else map_option Suc (position x ys))"

definition show_rows :: "string \<Rightarrow> (shown_cell list \<times> string) list \<Rightarrow> monitor_table \<Rightarrow> monitor_table" where
  "show_rows raw rs t =
     (let t1 = t\<lparr>tb_rows := map fst rs, tb_keys := map snd rs, tb_last := raw, tb_selected := [], tb_detail := None, tb_visible := True,
                 tb_message := (if rs = [] then Some ''none'' else None)\<rparr>
      in case position (tb_selected t) (map snd rs) of None \<Rightarrow> t1 | Some i \<Rightarrow> select_row (int i) t1)"

definition update_table :: "metric \<Rightarrow> monitor_table \<Rightarrow> monitor_table" where
  "update_table m t =
     (if mt_State m \<noteq> ''ok'' then unavailable (metricState m) t
      else case mt_Value m of
        Words raw \<Rightarrow>
          if raw = tb_last t \<and> tb_visible t then t
          else (case monitor_rows (tb_processes t) raw of
                  Inl (Msg e) \<Rightarrow> unavailable e t
                | Inl _ \<Rightarrow> unavailable [] t
                | Inr rs \<Rightarrow> show_rows raw rs t)
      | _ \<Rightarrow> unavailable ''malformed'' t)"

datatype table_event = Collected metric | Row_clicked int | Expired string

fun table_step :: "table_event \<Rightarrow> monitor_table \<Rightarrow> monitor_table" where
  "table_step (Collected m) t = update_table m t"
| "table_step (Row_clicked i) t = select_row i t"
| "table_step (Expired e) t = unavailable e t"

lemma position_Some: "position x xs = Some i \<Longrightarrow> i < length xs \<and> xs ! i = x"
  by (induction xs arbitrary: i) (auto split: if_splits)

lemma position_None: "position x xs = None \<longleftrightarrow> x \<notin> set xs"
  by (induction xs) auto

text \<open>
  A table is well formed when every row has a key and a cell for every header, and the details shown are those
  of the row whose key is selected.
\<close>

definition table_ok :: "monitor_table \<Rightarrow> bool" where
  "table_ok t \<longleftrightarrow> length (tb_keys t) = length (tb_rows t) \<and> list_all (\<lambda>r. length r = length (table_headers t)) (tb_rows t)
     \<and> (case tb_detail t of None \<Rightarrow> tb_selected t = [] | Some i \<Rightarrow> i < length (tb_rows t) \<and> tb_keys t ! i = tb_selected t)"

lemma select_row_ok: "table_ok t \<Longrightarrow> table_ok (select_row i t)"
  by (simp add: select_row_def table_ok_def table_headers_def nat_less_iff)

lemma unavailable_ok: "table_ok (unavailable e t)"
  by (simp add: unavailable_def table_ok_def)

lemma monitor_rows_cells: "monitor_rows p raw = Inr rs \<Longrightarrow> r \<in> set rs \<Longrightarrow> length (fst r) = (if p then 5 else 8)"
  by (auto simp: monitor_rows_def process_cells_def port_cells_def split: if_splits sum.splits)

lemma show_rows_ok:
  assumes "monitor_rows (tb_processes t) raw = Inr rs"
  shows "table_ok (show_rows raw rs t)"
proof -
  have "table_ok (t\<lparr>tb_rows := map fst rs, tb_keys := map snd rs, tb_last := raw, tb_selected := [], tb_detail := None, tb_visible := True,
      tb_message := msg\<rparr>)" for msg
    using monitor_rows_cells [OF assms] by (auto simp: table_ok_def table_headers_def list_all_iff)
  then show ?thesis by (auto simp: show_rows_def Let_def select_row_ok split: option.split)
qed

lemma table_step_ok: "table_ok t \<Longrightarrow> table_ok (table_step e t)"
  by (cases e) (auto simp: update_table_def unavailable_ok select_row_ok show_rows_ok split: metric_value.split sum.split err.split)

text \<open>
  The table stays well formed over any sequence of collections and clicks: a row for every key, a cell for
  every header, and the details are those of the selected process or port.
\<close>

theorem table_well_formed: "table_ok (fold table_step es (new_table processes))"
proof (induction es rule: rev_induct)
  case (snoc e es)
  then show ?case by (simp add: table_step_ok)
qed (simp add: new_table_def table_ok_def)

text \<open>The selection follows the process, not the row: it is kept exactly when the key is still there.\<close>

lemma selection_follows:
  assumes "mt_State m = ''ok''" "mt_Value m = Words raw" "monitor_rows (tb_processes t) raw = Inr rs" "\<not> (raw = tb_last t \<and> tb_visible t)"
  shows "tb_selected (update_table m t) = (if tb_selected t \<in> set (map snd rs) then tb_selected t else [])"
proof (cases "position (tb_selected t) (map snd rs)")
  case None
  then show ?thesis using assms position_None [of "tb_selected t" "map snd rs"] by (auto simp: update_table_def show_rows_def Let_def)
next
  case (Some i)
  from position_Some [OF Some] have i: "i < length rs" "snd (rs ! i) = tb_selected t" by auto
  have "tb_selected t \<in> set (map snd rs)" using Some position_None [of "tb_selected t" "map snd rs"] by auto
  moreover have "update_table m t = show_rows raw rs t" using assms by (auto simp: update_table_def)
  ultimately show ?thesis using Some i by (simp add: show_rows_def Let_def select_row_def)
qed

subsection \<open>The table of disks\<close>

record disk_table =
  dk_rows :: "disk_usage list"
  dk_mount :: string
  dk_detail :: "nat option"
  dk_message :: "string option"

definition disk_cells :: "disk_usage \<Rightarrow> string \<times> nat \<times> (rat \<times> string \<times> nat) list" where
  "disk_cells d = (du_Mount d, du_Percent d,
     [diskSize (of_int (du_Available d)), diskSize (of_nat (du_Used d)), diskSize (of_nat (du_Total d))])"

definition disks_unavailable :: "string \<Rightarrow> disk_table \<Rightarrow> disk_table" where
  "disks_unavailable message t = t\<lparr>dk_mount := [], dk_rows := [], dk_detail := None, dk_message := Some message\<rparr>"

definition select_disk :: "int \<Rightarrow> disk_table \<Rightarrow> disk_table" where
  "select_disk i t =
     (if i < 0 \<or> int (length (dk_rows t)) \<le> i then t
      else t\<lparr>dk_mount := du_Mount (dk_rows t ! nat i), dk_detail := Some (nat i)\<rparr>)"

definition show_disks :: "disk_usage list \<Rightarrow> disk_table \<Rightarrow> disk_table" where
  "show_disks rs t =
     (let t1 = t\<lparr>dk_mount := [], dk_rows := rs, dk_detail := None, dk_message := (if rs = [] then Some ''no disks'' else None)\<rparr>
      in case position (dk_mount t) (map du_Mount rs) of None \<Rightarrow> t1 | Some i \<Rightarrow> select_disk (int i) t1)"

definition update_disks :: "metric \<Rightarrow> disk_table \<Rightarrow> disk_table" where
  "update_disks m t =
     (if mt_State m \<noteq> ''ok'' then disks_unavailable (metricState m) t
      else case mt_Value m of
        Words raw \<Rightarrow> (case ParseDiskUsage raw of
            Inl (Msg e) \<Rightarrow> disks_unavailable e t | Inl _ \<Rightarrow> disks_unavailable [] t | Inr rs \<Rightarrow> show_disks rs t)
      | _ \<Rightarrow> disks_unavailable ''malformed'' t)"

lemma disk_selection_follows:
  assumes "mt_State m = ''ok''" "mt_Value m = Words raw" "ParseDiskUsage raw = Inr rs"
  shows "dk_rows (update_disks m t) = rs
     \<and> dk_mount (update_disks m t) = (if dk_mount t \<in> set (map du_Mount rs) then dk_mount t else [])"
proof (cases "position (dk_mount t) (map du_Mount rs)")
  case None
  then show ?thesis using assms position_None [of "dk_mount t" "map du_Mount rs"] by (auto simp: update_disks_def show_disks_def Let_def)
next
  case (Some i)
  from position_Some [OF Some] have i: "i < length rs" "du_Mount (rs ! i) = dk_mount t" by auto
  then have "dk_mount t \<in> set (map du_Mount rs)" by (metis image_eqI list.set_map nth_mem)
  with Some i assms show ?thesis by (auto simp: update_disks_def show_disks_def Let_def select_disk_def)
qed

subsection \<open>The state of the server\<close>

text \<open>\<open>SetValue\<close> of a meter.\<close>

definition meter :: "rat \<Rightarrow> rat" where
  "meter v = max 0 (min 1 v)"

datatype detail = Plain string | Load_words "string list" | Amounts rat rat | Used_of "rat \<times> string \<times> nat" "rat \<times> string \<times> nat"

record card =
  cd_value :: "rat option"
  cd_bar :: rat
  cd_detail :: detail

definition no_card :: "string \<Rightarrow> card" where
  "no_card s = \<lparr>cd_value = None, cd_bar = meter 0, cd_detail = Plain s\<rparr>"

definition cpu_card :: "metric \<Rightarrow> metric \<Rightarrow> card" where
  "cpu_card cpu load =
     (case mt_Value cpu of
        Share a b \<Rightarrow>
          if mt_State cpu = ''ok''
          then (let v = 100 * of_nat (unat a) / of_nat (unat b)
                in \<lparr>cd_value = Some v, cd_bar = meter (v / 100), cd_detail = Load_words (take 3 (Fields (metricText load)))\<rparr>)
          else no_card (metricState cpu)
      | _ \<Rightarrow> no_card (metricState cpu))"

definition memory_card :: "metric \<Rightarrow> card" where
  "memory_card m =
     (case mt_Value m of
        Sizes whole avail used \<Rightarrow>
          if mt_State m = ''ok'' \<and> 0 < whole
          then (let ratio = of_nat (unat used) / of_nat (unat whole)
                in \<lparr>cd_value = Some (ratio * 100), cd_bar = meter ratio,
                    cd_detail = Amounts (of_nat (unat used) / 2 ^ 30) (of_nat (unat whole) / 2 ^ 30)\<rparr>)
          else no_card (metricState m)
      | _ \<Rightarrow> no_card (metricState m))"

definition disk_card :: "disk_usage \<Rightarrow> string \<times> card" where
  "disk_card d = (du_Mount d, \<lparr>cd_value = Some (of_nat (du_Percent d)), cd_bar = meter (of_nat (du_Percent d) / 100),
     cd_detail = Used_of (diskSize (of_nat (du_Used d))) (diskSize (of_nat (du_Total d)))\<rparr>)"

text \<open>What a section shows: its rows, or a line of text.\<close>

definition disk_section :: "metric \<Rightarrow> string + (string \<times> card) list" where
  "disk_section m =
     (case ParseDiskUsage (metricText m) of
        Inr rs \<Rightarrow> if mt_State m \<noteq> ''ok'' then Inl (metricState m) else if rs = [] then Inl ''no disks'' else Inr (map disk_card rs)
      | Inl _ \<Rightarrow> Inl (if mt_State m = ''ok'' then ''malformed'' else metricState m))"

definition network_section :: "metric \<Rightarrow> string + (string \<times> (rat \<times> string \<times> nat) \<times> (rat \<times> string \<times> nat)) list" where
  "network_section m =
     (case mt_Value m of
        Rates ls elapsed \<Rightarrow>
          if mt_State m \<noteq> ''ok'' then Inl (metricState m)
          else if ls = [] then Inl ''no interfaces''
          else (let per_second = (\<lambda>x :: 64 word. rateSize (of_nat (unat x) * 10 ^ 9 / of_int elapsed))
                in Inr (map (\<lambda>(name, rx, tx). (name, per_second rx, per_second tx)) (sort_key fst ls)))
      | _ \<Rightarrow> Inl (metricState m))"

text \<open>Days and hours; \<open>None\<close> where the conversion of the number to an integer is not defined.\<close>

definition formatUptime :: "metric \<Rightarrow> (string + int \<times> int) option" where
  "formatUptime m =
     (if mt_State m \<noteq> ''ok'' \<or> Fields (metricText m) = [] then Some (Inl (metricState m))
      else case ParseFloat (hd (Fields (metricText m))) of
        None \<Rightarrow> Some (Inl ''failed'')
      | Some (Finite v) \<Rightarrow>
          Some (if below_zero (Finite v) then Inl ''failed''
                else Inr (\<lfloor>max 0 v\<rfloor> div 86400, \<lfloor>max 0 v\<rfloor> mod 86400 div 3600))
      | Some (Infinite True) \<Rightarrow> Some (Inl ''failed'')
      | Some _ \<Rightarrow> None)"

record server_metrics =
  sm_state :: string
  sm_stamp :: "string + time"
  sm_cpu :: card
  sm_memory :: card
  sm_disks :: "string + (string \<times> card) list"
  sm_last_disk :: string
  sm_network :: "string + (string \<times> (rat \<times> string \<times> nat) \<times> (rat \<times> string \<times> nat)) list"
  sm_system :: string
  sm_uptime :: "(string + int \<times> int) option"
  sm_processes :: monitor_table
  sm_ports :: monitor_table

definition newServerMetrics :: server_metrics where
  "newServerMetrics =
     \<lparr>sm_state = ''connected'', sm_stamp = Inl ''waiting'', sm_cpu = no_card dash, sm_memory = no_card dash, sm_disks = Inl ''waiting'',
      sm_last_disk = [], sm_network = Inl ''waiting'', sm_system = dash, sm_uptime = Some (Inl dash), sm_processes = new_table True,
      sm_ports = new_table False\<rparr>"

definition expired :: string where
  "expired = ''expired''"

text \<open>The disks are drawn again only when their report has changed.\<close>

definition apply_snapshot :: "err + snapshot \<Rightarrow> server_metrics \<Rightarrow> server_metrics" where
  "apply_snapshot x m =
     (case x of
        Inl e \<Rightarrow>
          m\<lparr>sm_state := ''failed'', sm_stamp := Inl expired, sm_cpu := no_card expired, sm_memory := no_card expired,
            sm_disks := Inl expired, sm_network := Inl expired, sm_last_disk := [], sm_system := expired, sm_uptime := Some (Inl []),
            sm_processes := unavailable expired (sm_processes m), sm_ports := unavailable expired (sm_ports m)\<rparr>
      | Inr s \<Rightarrow>
          m\<lparr>sm_state := ''connected'', sm_stamp := Inr (sn_At s), sm_cpu := cpu_card (sn_CPU s) (sn_Load s),
            sm_memory := memory_card (sn_Memory s),
            sm_disks := (if metricText (sn_Disks s) \<noteq> sm_last_disk m then disk_section (sn_Disks s) else sm_disks m),
            sm_last_disk := metricText (sn_Disks s), sm_network := network_section (sn_Network s), sm_system := metricText (sn_System s),
            sm_uptime := formatUptime (sn_Uptime s), sm_processes := update_table (sn_Processes s) (sm_processes m),
            sm_ports := update_table (sn_Ports s) (sm_ports m)\<rparr>)"

text \<open>The snapshot that the next one is compared with.\<close>

definition next_previous :: "err + snapshot \<Rightarrow> snapshot option \<Rightarrow> snapshot option" where
  "next_previous x prev = (case x of Inl e \<Rightarrow> prev | Inr s \<Rightarrow> Some s)"

lemma meter_range: "0 \<le> meter v \<and> meter v \<le> 1"
  by (simp add: meter_def)

text \<open>After a collection that failed no figure of an earlier one is left, and the tables are empty.\<close>

lemma failure_hides_figures:
  "cd_value (sm_cpu (apply_snapshot (Inl e) m)) = None \<and> cd_value (sm_memory (apply_snapshot (Inl e) m)) = None
   \<and> tb_rows (sm_processes (apply_snapshot (Inl e) m)) = [] \<and> tb_rows (sm_ports (apply_snapshot (Inl e) m)) = []
   \<and> sm_disks (apply_snapshot (Inl e) m) = Inl expired \<and> sm_network (apply_snapshot (Inl e) m) = Inl expired"
  by (simp add: apply_snapshot_def no_card_def unavailable_def)

text \<open>The disks on the screen are those of the last report, although they are not drawn every time.\<close>

lemma disk_section_cong: "metricText m = metricText n \<Longrightarrow> mt_State m = mt_State n \<Longrightarrow> disk_section m = disk_section n"
  unfolding disk_section_def metricState_def by (simp only:)

lemma disks_are_current:
  assumes "sm_last_disk m \<noteq> [] \<Longrightarrow> \<exists>d. metricText d = sm_last_disk m \<and> sm_disks m = disk_section d \<and> mt_State d = ''ok''"
    and "mt_State (sn_Disks s) = ''ok''" "metricText (sn_Disks s) \<noteq> []"
  shows "sm_disks (apply_snapshot (Inr s) m) = disk_section (sn_Disks s)"
proof (cases "metricText (sn_Disks s) = sm_last_disk m")
  case True
  with assms obtain d where "metricText d = metricText (sn_Disks s)" "sm_disks m = disk_section d" "mt_State d = ''ok''" by metis
  with True assms(2) show ?thesis by (simp add: apply_snapshot_def disk_section_cong [of d "sn_Disks s"])
qed (simp add: apply_snapshot_def)

end
