(* ===== verification/Sessions.thy ===== *)
theory Sessions
  imports Startup
begin

text \<open>
  \<open>internal/remote/session.go\<close>, \<open>tunnels.go\<close> and the ways to them in \<open>internal/ui\<close>: opening a terminal, asking the
  user about a new host key, forwarding ports, dropped files and commands that are put together in the user interface.

  Sessions and listeners are numbers that the SSH library and the operating system give; their operations are
  parameters.  The goroutines that copy bytes are not modelled.
\<close>

subsection \<open>Opening a terminal\<close>

record 'w session_library =
  new_session :: "string \<Rightarrow> ('w, nat) nact"
  stdin_pipe :: "nat \<Rightarrow> ('w, unit) nact"
  stdout_pipe :: "nat \<Rightarrow> ('w, unit) nact"
  request_pty :: "nat \<Rightarrow> int \<Rightarrow> int \<Rightarrow> ('w, unit) nact"
  start_session :: "nat \<Rightarrow> string \<Rightarrow> ('w, unit) nact"
  startup_output :: "nat \<Rightarrow> ('w, string) nact"
  window_change :: "nat \<Rightarrow> int \<Rightarrow> int \<Rightarrow> ('w, unit) nact"
  end_session :: "nat \<Rightarrow> ('w, unit) nact"

text \<open>\<open>startup_output\<close> is what arrives until the session ends or ten seconds have passed.\<close>

record session =
  sn_number :: nat
  sn_PID :: int
  sn_Output :: string

text \<open>Something that is given back when what follows fails.\<close>

definition unless :: "('w, unit) nact \<Rightarrow> ('w, 'a) mact \<Rightarrow> ('w, 'a) mact" where
  "unless undo f = (\<lambda>m. case f m of (Inl e, m1) \<Rightarrow> (Inl e, snd (on_net undo m1)) | (Inr x, m1) \<Rightarrow> (Inr x, m1))"

definition start_terminal :: "'w session_library \<Rightarrow> nat \<Rightarrow> int \<Rightarrow> int \<Rightarrow> string \<Rightarrow> ('w, session) mact" where
  "start_terminal S s rows cols i =
     andThen (on_net (stdin_pipe S s)) (\<lambda>_.
     andThen (on_net (stdout_pipe S s)) (\<lambda>_.
     andThen (on_net (request_pty S s rows cols)) (\<lambda>_.
     andThen (on_net (start_session S s (fst (terminalStartup i)))) (\<lambda>_.
     andThen (on_net (startup_output S s)) (\<lambda>out.
     andThen (outcome (readTerminalPID (snd (terminalStartup i)) out)) (\<lambda>(pid, rest).
       ret \<lparr>sn_number = s, sn_PID = pid, sn_Output = rest\<rparr>))))))"

definition Terminal :: "'w session_library \<Rightarrow> 'w outside \<Rightarrow> 'w call \<Rightarrow> string \<Rightarrow> int \<Rightarrow> int \<Rightarrow> string \<Rightarrow> ('w, session) mact" where
  "Terminal S R c host rows cols i =
     andThen (Connect R c host) (\<lambda>_.
     andThen (on_net (new_session S host)) (\<lambda>s.
     unless (end_session S s) (start_terminal S s rows cols i)))"

definition Resize :: "'w session_library \<Rightarrow> nat \<Rightarrow> int \<Rightarrow> int \<Rightarrow> ('w, unit) nact" where
  "Resize S s rows cols = (if rows < 1 \<or> cols < 1 then ret () else window_change S s rows cols)"

lemma unless_Inl: "unless undo f m = (Inl e, m') \<Longrightarrow> \<exists>m1. f m = (Inl e, m1) \<and> m' = snd (on_net undo m1)"
  by (auto simp: unless_def split: prod.splits sum.splits)

lemma unless_Inr: "unless undo f m = (Inr x, m') \<longleftrightarrow> f m = (Inr x, m')"
  by (auto simp: unless_def split: prod.splits sum.splits)

text \<open>A session is either handed out or closed, and that is the last thing done.\<close>

lemma terminal_or_closed:
  assumes "Terminal S R c host rows cols i m = (x, m')"
  shows "(\<exists>t. x = Inr t)
     \<or> (\<exists>e. x = Inl e \<and> (Connect R c host m = (Inl e, m')
          \<or> (\<exists>m1. Connect R c host m = (Inr (), m1) \<and> on_net (new_session S host) m1 = (Inl e, m'))
          \<or> (\<exists>s m2. m' = snd (on_net (end_session S s) m2))))"
proof (cases x)
  case (Inl e)
  obtain y m1 where y: "Connect R c host m = (y, m1)" by fastforce
  show ?thesis
  proof (cases y)
    case conn: (Inr u)
    obtain z m2 where z: "on_net (new_session S host) m1 = (z, m2)" by fastforce
    then show ?thesis
    proof (cases z)
      case (Inr s)
      with assms Inl conn y z have "unless (end_session S s) (start_terminal S s rows cols i) m2 = (Inl e, m')"
        by (simp add: Terminal_def andThen_def)
      with Inl show ?thesis by (blast dest: unless_Inl)
    qed (use assms Inl conn y in \<open>auto simp: Terminal_def andThen_def\<close>)
  qed (use assms Inl y in \<open>auto simp: Terminal_def andThen_def\<close>)
qed simp

lemma read_pid_positive: "read_pid marker seen out = Inr (pid, rest) \<Longrightarrow> 0 < pid"
  by (induction marker seen out rule: read_pid.induct) (auto simp: Let_def split: if_splits option.splits)

lemma terminal_pid: "Terminal S R c host rows cols i m = (Inr t, m') \<Longrightarrow> 0 < sn_PID t"
  using read_pid_positive [of "snd (terminalStartup i)" "[]"]
  by (fastforce simp: Terminal_def start_terminal_def unless_Inr outcome_def readTerminalPID_def ret_def elim!: andThen_Inr split: prod.splits)

subsection \<open>Asking about a host key\<close>

text \<open>
  How the terminal of the agent is opened (\<open>openAgentTerminal\<close> up to the handover).  \<open>answer\<close> is what becomes of
  the question about an address and a fingerprint: the user's answer, or the end of the request.  The
  error carries the key beside the fingerprint that is shown; \<open>key_of\<close> is that key.
\<close>

definition connected_session :: "'w session_library \<Rightarrow> 'w outside \<Rightarrow> 'w call \<Rightarrow> (string \<Rightarrow> string \<Rightarrow> err + bool)
    \<Rightarrow> (string \<Rightarrow> string \<Rightarrow> string) \<Rightarrow> string \<Rightarrow> string \<Rightarrow> string \<Rightarrow> ('w, session) mact" where
  "connected_session S R c answer key_of host i1 i2 =
     andThen (attempt (Terminal S R c host 24 80 i1)) (\<lambda>x.
       case x of
         Inr t \<Rightarrow> ret t
       | Inl (HostKey addr fp changed) \<Rightarrow>
           if changed then throw (HostKey addr fp changed)
           else andThen (outcome (answer addr fp)) (\<lambda>confirmed.
                if \<not> confirmed then throw (Msg ''the connection was not confirmed'')
                else andThen Err (\<lambda>_.
                     andThen (Trust R addr (key_of addr fp) changed) (\<lambda>_.
                     Terminal S R c host 24 80 i2)))
       | Inl e \<Rightarrow> throw e)"

definition openAgentTerminal :: "'w session_library \<Rightarrow> 'w outside \<Rightarrow> 'w call \<Rightarrow> (string \<Rightarrow> string \<Rightarrow> err + bool)
    \<Rightarrow> (string \<Rightarrow> string \<Rightarrow> string) \<Rightarrow> string \<Rightarrow> string \<Rightarrow> string \<Rightarrow> ('w, host \<times> session) mact" where
  "openAgentTerminal S R c answer key_of host i1 i2 =
     andThen (on_db (Host host)) (\<lambda>h. andThen (connected_session S R c answer key_of host i1 i2) (\<lambda>t. ret (h, t)))"

text \<open>What the user sees when his own connection fails.\<close>

datatype failure = Ask_to_trust string string | Show_error err

definition connection_failed :: "err \<Rightarrow> failure" where
  "connection_failed e = (case e of HostKey addr fp changed \<Rightarrow> if changed then Show_error e else Ask_to_trust addr fp | _ \<Rightarrow> Show_error e)"

definition same_known :: "'w machine \<Rightarrow> 'w machine \<Rightarrow> bool" where
  "same_known m m' \<longleftrightarrow> known_file (conns m') = known_file (conns m)"

interpretation known: preserved same_known
  by unfold_locales (auto simp: same_known_def)

lemma known_parts:
  "keeps same_known (on_db f)" "keeps same_known (on_net g)" "keeps same_known Err" "keeps same_known (\<lambda>m. (h m, m))"
  "(\<And>x. known_file (u x) = known_file x) \<Longrightarrow> keeps same_known (set_conns u)"
  by (auto simp: keeps_def same_known_def on_db_def on_net_def Err_def on_reading_def set_conns_def split: prod.split sum.split)

lemma known_auth: "keeps same_known (auth R h)"
  unfolding auth_def
  by (intro known.keeps_if known.keeps_andThen known_parts known.keeps_ret known.keeps_throw)
    (auto split: key_parse.split intro!: known.keeps_andThen known_parts known.keeps_ret known.keeps_throw)

lemma known_new_client: "keeps same_known (new_client R h i)"
  unfolding new_client_def host_key_def
  by (intro known.keeps_andThen known_auth known_parts known.keeps_if known.keeps_throw known.keeps_asks) simp_all

lemma known_connect_here: "keeps same_known (connect_here R h i)"
  unfolding connect_here_def
  by (intro known.keeps_andThen known.keeps_if known.keeps_throw known.keeps_asks)
    (auto split: option.split simp: Disconnect_def intro!: known_new_client known.keeps_andThen known.keeps_ret known_parts)

lemma known_connect: "keeps same_known (connect R c n i seen)"
proof (induction n arbitrary: i seen)
  case (Suc n)
  show ?case
    unfolding connect.simps
    by (intro known.keeps_andThen known.keeps_if known.keeps_throw known.keeps_outcome known.keeps_ret known_parts Suc known_connect_here)
qed (simp add: known.keeps_throw)

lemma known_unless: "keeps same_known f \<Longrightarrow> keeps same_known (unless undo f)"
  using known_parts(2) [of undo]
  by (simp add: keeps_def unless_def split: prod.split sum.split) (metis known.trans snd_conv)

lemma known_Terminal: "keeps same_known (Terminal S R c host rows cols i)"
proof -
  have "keeps same_known (Connect R c host)"
    unfolding keeps_def Connect_def using known_connect [of R c _ host "[]"] by (intro allI) (simp only: keeps_def)
  moreover have "keeps same_known (start_terminal S s rows cols i)" for s
    unfolding start_terminal_def
    by (intro known.keeps_andThen known_parts known.keeps_outcome) (auto intro: known.keeps_ret)
  ultimately show ?thesis unfolding Terminal_def by (intro known.keeps_andThen known_parts known_unless)
qed

text \<open>
  A key is trusted only after a person has seen its fingerprint and agreed, and never in place of
  another: all that opening a terminal for the agent may add to the known keys is the one line that
  was confirmed.
\<close>

lemma trusted_only_confirmed:
  assumes "connected_session S R c answer key_of host i1 i2 m = (x, m')"
  shows "known_file (conns m') = known_file (conns m)
     \<or> (\<exists>addr fp m1. Terminal S R c host 24 80 i1 m = (Inl (HostKey addr fp False), m1) \<and> answer addr fp = Inr True
          \<and> known_file (conns m') = known_file (conns m) @ [known_line R addr (key_of addr fp)])"
proof -
  obtain y m1 where y: "Terminal S R c host 24 80 i1 m = (y, m1)" by fastforce
  have k1: "known_file (conns m1) = known_file (conns m)"
    using known.keepsD [OF known_Terminal y] by (simp add: same_known_def)
  show ?thesis
  proof (cases "\<exists>addr fp. y = Inl (HostKey addr fp False) \<and> answer addr fp = Inr True")
    case True
    then obtain addr fp where t: "y = Inl (HostKey addr fp False)" "answer addr fp = Inr True" by blast
    obtain z m2 where z: "Err m1 = (z, m2)" by fastforce
    have k2: "known_file (conns m2) = known_file (conns m)"
      using known.keepsD [OF known_parts(3) z] k1 by (simp add: same_known_def)
    obtain v m3 where v: "Trust R addr (key_of addr fp) False m2 = (v, m3)" by fastforce
    obtain w m4 where w: "Terminal S R c host 24 80 i2 m3 = (w, m4)" by fastforce
    have k4: "known_file (conns m4) = known_file (conns m3)"
      using known.keepsD [OF known_Terminal w] by (simp add: same_known_def)
    have k3: "known_file (conns m3) = known_file (conns m) \<or> known_file (conns m3) = known_file (conns m) @ [known_line R addr (key_of addr fp)]"
      using v k2 by (auto simp: Trust_def andThen_def on_db_def set_conns_def split: prod.splits sum.splits)
    have "m' = m2 \<or> m' = m3 \<or> m' = m4"
      using assms y z v w t
      by (cases z; cases v) (auto simp: connected_session_def andThen_def attempt_def outcome_def)
    with k2 k3 k4 t y show ?thesis by fastforce
  next
    case False
    then have "m' = m1" using assms y
      by (auto simp: connected_session_def andThen_def attempt_def outcome_def ret_def throw_def split: sum.splits err.splits if_splits)
    with k1 show ?thesis by simp
  qed
qed

subsection \<open>Forwarding ports\<close>

text \<open>\<open>net.SplitHostPort\<close>.\<close>

definition split_colon :: "string \<Rightarrow> (string \<times> string) option" where
  "split_colon s =
     (if CHR '':'' \<notin> set s then None
      else Some (rev (tl (dropWhile (\<lambda>c. c \<noteq> CHR '':'') (rev s))), rev (takeWhile (\<lambda>c. c \<noteq> CHR '':'') (rev s))))"

definition SplitHostPort :: "string \<Rightarrow> err + string \<times> string" where
  "SplitHostPort s =
     (case split_colon s of
        None \<Rightarrow> Inl (Msg ''missing port in address'')
      | Some (a, port) \<Rightarrow>
          if a \<noteq> [] \<and> hd a = CHR ''[''
          then (let host = takeWhile (\<lambda>c. c \<noteq> CHR '']'') (tl a); rest = dropWhile (\<lambda>c. c \<noteq> CHR '']'') (tl a)
                in if rest = []
                   then Inl (Msg (if CHR '']'' \<in> set port then ''missing port in address'' else ''missing bracket in address''))
                   else if rest \<noteq> '']''
                   then Inl (Msg (if rest ! 1 = CHR '':'' then ''too many colons in address'' else ''missing port in address''))
                   else if CHR ''['' \<in> set host \<or> CHR ''['' \<in> set port then Inl (Msg ''unexpected [ in address'')
                   else if CHR '']'' \<in> set port then Inl (Msg ''unexpected ] in address'')
                   else Inr (host, port))
          else if CHR '':'' \<in> set a then Inl (Msg ''too many colons in address'')
          else if CHR ''['' \<in> set s then Inl (Msg ''unexpected [ in address'')
          else if CHR '']'' \<in> set s then Inl (Msg ''unexpected ] in address'')
          else Inr (a, port))"

lemma split_colon_last: "CHR '':'' \<notin> set port \<Longrightarrow> split_colon (a @ CHR '':'' # port) = Some (a, port)"
proof -
  assume p: "CHR '':'' \<notin> set port"
  have "takeWhile (\<lambda>c. c \<noteq> CHR '':'') (rev port @ CHR '':'' # rev a) = rev port"
    "dropWhile (\<lambda>c. c \<noteq> CHR '':'') (rev port @ CHR '':'' # rev a) = CHR '':'' # rev a"
    using p by (simp_all add: takeWhile_append2 takeWhile_append dropWhile_append)
  then show ?thesis by (simp add: split_colon_def)
qed

lemma takeWhile_mid: "c \<notin> set a \<Longrightarrow> takeWhile (\<lambda>x. x \<noteq> c) (a @ c # b) = a \<and> dropWhile (\<lambda>x. x \<noteq> c) (a @ c # b) = c # b"
  by (induction a) auto

text \<open>An address that \<open>JoinHostPort\<close> makes is taken apart into its host and its port.\<close>

lemma split_joined:
  assumes "CHR ''['' \<notin> set h" "CHR '']'' \<notin> set h" "set port \<inter> {CHR ''['', CHR '']'', CHR '':''} = {}"
  shows "SplitHostPort (JoinHostPort h port) = Inr (h, port)"
proof (cases "CHR '':'' \<in> set h \<or> CHR ''%'' \<in> set h")
  case True
  have "split_colon (CHR ''['' # h @ [CHR '']''] @ CHR '':'' # port) = Some (CHR ''['' # h @ [CHR '']''], port)"
    using split_colon_last [of port "CHR ''['' # h @ [CHR '']'']"] assms(3) by simp
  moreover have "JoinHostPort h port = CHR ''['' # h @ [CHR '']''] @ CHR '':'' # port" using True by (simp add: JoinHostPort_def)
  ultimately show ?thesis
    using assms takeWhile_mid [OF assms(2), of "[]"] by (simp add: SplitHostPort_def Let_def)
next
  case False
  then have "SplitHostPort (JoinHostPort h port) = SplitHostPort (h @ CHR '':'' # port)" by (simp add: JoinHostPort_def)
  moreover have "split_colon (h @ CHR '':'' # port) = Some (h, port)" using split_colon_last assms(3) by blast
  ultimately show ?thesis
    using assms False by (cases h) (auto simp: SplitHostPort_def)
qed

record 'w listeners =
  listen_there :: "string \<Rightarrow> string \<Rightarrow> ('w, nat) nact"
  listen_here :: "string \<Rightarrow> ('w, nat) nact"
  new_socks :: "('w, unit) nact"
  close_listener :: "nat \<Rightarrow> ('w, unit) nact"

definition listen :: "'w listeners \<Rightarrow> string \<Rightarrow> string \<Rightarrow> string \<Rightarrow> ('w, nat) mact" where
  "listen L host kind bind_address =
     (if kind = ''remote'' then on_net (listen_there L host bind_address)
      else if kind = ''local'' \<or> kind = ''dynamic'' then on_net (listen_here L bind_address)
      else throw (Msg ''unknown kind of forwarding''))"

definition Tunnel :: "'w listeners \<Rightarrow> 'w outside \<Rightarrow> 'w call \<Rightarrow> string \<Rightarrow> string \<Rightarrow> string \<Rightarrow> string \<Rightarrow> ('w, nat) mact" where
  "Tunnel L R c host kind bind_address destination =
     andThen (Connect R c host) (\<lambda>_.
     andThen (outcome (SplitHostPort bind_address)) (\<lambda>_.
     andThen (listen L host kind bind_address) (\<lambda>l.
     andThen (unless (close_listener L l)
                (if kind = ''dynamic'' then on_net (new_socks L)
                 else andThen (outcome (SplitHostPort destination)) (\<lambda>_. ret ()))) (\<lambda>_. ret l))))"

text \<open>Where the bytes of an accepted connection go: the address, and whether the server opens the connection.\<close>

definition tunnel_target :: "string \<Rightarrow> string \<Rightarrow> string \<Rightarrow> string \<times> bool" where
  "tunnel_target kind destination asked =
     (if kind = ''dynamic'' then (asked, True) else if kind = ''remote'' then (destination, False) else (destination, True))"

text \<open>A listener is handed out, or closed as the last thing done.\<close>

lemma tunnel_or_closed:
  assumes "Tunnel L R c host kind b d m = (Inl e, m')"
  shows "Connect R c host m = (Inl e, m') \<or> SplitHostPort b = Inl e \<or> (\<exists>m1. listen L host kind b m1 = (Inl e, m'))
     \<or> (\<exists>l m1. m' = snd (on_net (close_listener L l) m1))"
proof -
  obtain x m1 where x: "Connect R c host m = (x, m1)" by fastforce
  obtain y m2 where y: "listen L host kind b m1 = (y, m2)" by fastforce
  show ?thesis
  proof (cases x; cases "SplitHostPort b"; cases y)
    fix u p l assume "x = Inr u" "SplitHostPort b = Inr p" "y = Inr l"
    with assms x y show ?thesis
      by (auto simp: Tunnel_def andThen_def outcome_def ret_def split: prod.splits sum.splits dest!: unless_Inl)
  qed (use assms x y in \<open>auto simp: Tunnel_def andThen_def outcome_def\<close>)
qed

subsection \<open>Questions of a server\<close>

text \<open>\<open>prompt\<close>: which answers are hidden while they are typed.\<close>

definition hidden_answers :: "string list \<Rightarrow> bool list \<Rightarrow> bool list" where
  "hidden_answers questions echo = map (\<lambda>i. length echo \<le> i \<or> \<not> echo ! i) [0 ..< length questions]"

subsection \<open>Dropped files\<close>

text \<open>The positions are numbers of any kind.\<close>

definition containsPosition :: "'n :: {ord, plus} \<times> 'n \<Rightarrow> 'n \<times> 'n \<Rightarrow> 'n \<times> 'n \<Rightarrow> bool" where
  "containsPosition pos origin extent =
     (fst origin \<le> fst pos \<and> snd origin \<le> snd pos \<and> fst pos < fst origin + fst extent \<and> snd pos < snd origin + snd extent)"

type_synonym 'n box = "('n \<times> 'n) \<times> 'n \<times> 'n"

definition inside :: "'n :: {ord, plus} \<times> 'n \<Rightarrow> 'n box \<Rightarrow> bool" where
  "inside pos b = containsPosition pos (fst b) (snd b)"

record 'n drop_place =
  dp_live :: bool
  dp_selected :: bool
  dp_content :: "'n box"
  dp_files :: "'n box option"
  dp_terminals :: "'n box list"
  dp_sessions :: "nat list"
  dp_active :: "nat option"
  dp_directory :: string

text \<open>\<open>dp_files\<close> is the pane of the files, when its tab is selected.\<close>

datatype drop_action = Ignore_drop | Attach "string list" | Refuse err | Upload_to "string list" string | Upload_to_session "string list" nat

fun local_paths :: "(string \<times> string) list \<Rightarrow> string list option" where
  "local_paths [] = Some []"
| "local_paths ((scheme, p) # us) = (if scheme \<noteq> ''file'' then None else map_option ((#) p) (local_paths us))"

fun hit_session :: "'n :: {ord, plus} \<times> 'n \<Rightarrow> 'n box list \<Rightarrow> nat list \<Rightarrow> nat option" where
  "hit_session pos (b # bs) (s # ss) = (if inside pos b then Some s else hit_session pos bs ss)"
| "hit_session pos _ _ = None"

definition drop_on_place :: "'n :: {ord, plus} \<times> 'n \<Rightarrow> (string \<times> string) list \<Rightarrow> 'n drop_place \<Rightarrow> drop_action" where
  "drop_on_place pos us w =
     (case local_paths us of
        None \<Rightarrow> Refuse (Msg ''only local files can be uploaded'')
      | Some ps \<Rightarrow>
          if (case dp_files w of None \<Rightarrow> False | Some b \<Rightarrow> inside pos b) then Upload_to ps (dp_directory w)
          else (case (case hit_session pos (dp_terminals w) (dp_sessions w) of None \<Rightarrow> dp_active w | Some s \<Rightarrow> Some s) of
                  None \<Rightarrow> Refuse (Msg ''the terminal is not connected'')
                | Some s \<Rightarrow> Upload_to_session ps s))"

text \<open>\<open>dropAttachments\<close>; the area of the composer is given when it is on the screen.\<close>

definition dropAttachments :: "'n :: {ord, plus} \<times> 'n \<Rightarrow> (string \<times> string) list \<Rightarrow> 'n box option \<Rightarrow> drop_action option" where
  "dropAttachments pos us area =
     (if (case area of None \<Rightarrow> False | Some b \<Rightarrow> inside pos b)
      then Some (case local_paths us of None \<Rightarrow> Refuse (Msg ''only local files can be attached'') | Some ps \<Rightarrow> Attach ps)
      else None)"

text \<open>\<open>blocked\<close>: the application is closing, a file dialog is open, or something lies over the window.\<close>

definition filesDropped :: "bool \<Rightarrow> 'n :: {ord, plus} \<times> 'n \<Rightarrow> (string \<times> string) list \<Rightarrow> 'n box option \<Rightarrow> 'n drop_place list \<Rightarrow> drop_action" where
  "filesDropped blocked pos us area ws =
     (if blocked \<or> us = [] then Ignore_drop
      else case dropAttachments pos us area of
        Some a \<Rightarrow> a
      | None \<Rightarrow> (case find (\<lambda>w. dp_live w \<and> dp_selected w \<and> inside pos (dp_content w)) ws of
                   None \<Rightarrow> Ignore_drop | Some w \<Rightarrow> drop_on_place pos us w))"

lemma local_paths_Some: "local_paths us = Some ps \<longleftrightarrow> ps = map snd us \<and> (\<forall>u \<in> set us. fst u = ''file'')"
  by (induction us arbitrary: ps rule: local_paths.induct) auto

lemma hit_session_in: "hit_session pos bs ss = Some s \<Longrightarrow> s \<in> set ss \<and> (\<exists>b \<in> set bs. inside pos b)"
  by (induction pos bs ss rule: hit_session.induct) (auto split: if_splits)

text \<open>
  Files are uploaded only from this computer, all that were dropped, and to the live workspace on the screen on which they
  were dropped: to a session of it, or to the directory its files are listed of.
\<close>

lemma dropped_where_seen:
  assumes "filesDropped blocked pos us area ws = Upload_to_session ps s \<or> filesDropped blocked pos us area ws = Upload_to ps dir"
  shows "\<not> blocked \<and> us \<noteq> [] \<and> ps = map snd us \<and> (\<forall>u \<in> set us. fst u = ''file'')
     \<and> (\<exists>w \<in> set ws. dp_live w \<and> dp_selected w \<and> inside pos (dp_content w)
          \<and> (filesDropped blocked pos us area ws = Upload_to_session ps s \<longrightarrow> s \<in> set (dp_sessions w) \<or> dp_active w = Some s)
          \<and> (filesDropped blocked pos us area ws = Upload_to ps dir \<longrightarrow> dir = dp_directory w))"
proof -
  have open_here: "\<not> blocked" "us \<noteq> []" using assms by (auto simp: filesDropped_def)
  have none: "dropAttachments pos us area = None"
    using assms open_here by (auto simp: filesDropped_def dropAttachments_def split: if_splits option.splits)
  with assms open_here obtain w where w: "find (\<lambda>w. dp_live w \<and> dp_selected w \<and> inside pos (dp_content w)) ws = Some w"
    by (auto simp: filesDropped_def split: option.splits)
  with none open_here have eq: "filesDropped blocked pos us area ws = drop_on_place pos us w" by (simp add: filesDropped_def)
  from w have place: "w \<in> set ws" "dp_live w \<and> dp_selected w \<and> inside pos (dp_content w)"
    by (auto simp: find_Some_iff in_set_conv_nth)
  from assms eq obtain qs where "local_paths us = Some qs" "ps = qs"
    by (auto simp: drop_on_place_def split: option.splits if_splits)
  then have paths: "ps = map snd us" "\<forall>u \<in> set us. fst u = ''file''" using local_paths_Some by auto
  have "drop_on_place pos us w = Upload_to_session ps s \<Longrightarrow> s \<in> set (dp_sessions w) \<or> dp_active w = Some s"
    by (auto simp: drop_on_place_def dest: hit_session_in split: option.splits if_splits)
  moreover have "drop_on_place pos us w = Upload_to ps dir \<Longrightarrow> dir = dp_directory w"
    by (auto simp: drop_on_place_def split: option.splits if_splits)
  ultimately show ?thesis using open_here paths place eq by auto
qed

subsection \<open>Commands put together\<close>

text \<open>
  Inserting a snippet into the selected terminal; \<open>filled\<close> is what was typed into the form, \<open>None\<close> when it was
  cancelled.  The result is what is typed, if anything.
\<close>

definition insertSnippet :: "string \<Rightarrow> (string \<Rightarrow> string option) option \<Rightarrow> err + string option" where
  "insertSnippet template filled =
     (if Parameters template = [] then Inr (Some template)
      else case filled of
        None \<Rightarrow> Inr None
      | Some vals \<Rightarrow> (case ExpandSnippet template vals of Inl e \<Rightarrow> Inl e | Inr cmd \<Rightarrow> Inr (Some cmd)))"

definition shell_request :: "string \<Rightarrow> string \<Rightarrow> string \<Rightarrow> string \<Rightarrow> int \<Rightarrow> request" where
  "shell_request task call host cmd seconds =
     \<lparr>ReadOffset = 0, LocalPath = [], SourceHash = [], UploadMode = [], RunID = [], AgentName = [], TaskID = task, CallID = call,
      HostID = host, Operation = ''shell'', Resource = [], Command = cmd, Content = [], ExpectedHash = [], TimeoutSeconds = seconds\<rparr>"

definition manual_request :: "string \<Rightarrow> string \<Rightarrow> string \<Rightarrow> int \<Rightarrow> request" where
  "manual_request call host cmd seconds = shell_request (''manual:'' @ host) call host cmd seconds"

text \<open>One command for many hosts: a request each, all of one task.\<close>

definition batch_requests :: "string \<Rightarrow> string list \<Rightarrow> string list \<Rightarrow> string \<Rightarrow> err + request list" where
  "batch_requests task calls hosts cmd =
     (if hosts = [] \<or> TrimSpace cmd = [] then Inl (Msg ''choose servers and fill in a command'')
      else Inr (map (\<lambda>(call, host). shell_request task call host cmd 120) (zip calls hosts)))"

lemma batch_each_once:
  assumes "batch_requests task calls hosts cmd = Inr rs" "length calls = length hosts" "distinct calls"
  shows "map HostID rs = hosts \<and> distinct (map CallID rs) \<and> (\<forall>r \<in> set rs. Command r = cmd \<and> TaskID r = task)"
proof -
  have rs: "rs = map (\<lambda>(call, host). shell_request task call host cmd 120) (zip calls hosts)"
    using assms(1) by (auto simp: batch_requests_def split: if_splits)
  have "map HostID rs = map snd (zip calls hosts)" "map CallID rs = map fst (zip calls hosts)"
    by (auto simp: rs shell_request_def)
  with assms(2,3) show ?thesis by (auto simp: rs shell_request_def)
qed

end
