(* ===== verification/Panels.thy ===== *)
theory Panels
  imports Complex_Main Machine
begin

text \<open>
  Settings of the window: \<open>resize_divider.go\<close>, \<open>edge_layout.go\<close>, \<open>assistant_motion.go\<close>, \<open>terminal_background.go\<close>,
  \<open>file_picker.go\<close> and the sizes in \<open>settings.go\<close>, all in \<open>internal/ui\<close>.

  Widths and heights are exact here, where the code rounds to the nearest \<open>float32\<close>.
\<close>

subsection \<open>Widths of the panes\<close>

definition dividerSize :: rat where "dividerSize = 8"

definition minimumLeftWidth :: rat where "minimumLeftWidth = 200"

definition minimumCenterWidth :: rat where "minimumCenterWidth = 480"

definition minimumRightWidth :: rat where "minimumRightWidth = 280"

definition minimumTerminalHeight :: rat where "minimumTerminalHeight = 180"

definition minimumToolsHeight :: rat where "minimumToolsHeight = 150"

lemmas minimum_sizes = dividerSize_def minimumLeftWidth_def minimumCenterWidth_def minimumRightWidth_def
  minimumTerminalHeight_def minimumToolsHeight_def

text \<open>A stored number; \<open>None\<close> when it is not finite.\<close>

definition savedPanelSize :: "rat option \<Rightarrow> rat \<Rightarrow> rat" where
  "savedPanelSize v fallback = (case v of None \<Rightarrow> fallback | Some v \<Rightarrow> if v \<le> 0 \<or> 10000 < v then fallback else v)"

definition boundedPanelSize :: "rat \<Rightarrow> rat \<Rightarrow> rat \<Rightarrow> rat" where
  "boundedPanelSize v least most = min (max 0 most) (max least v)"

definition fitWorkbenchWidths :: "rat \<Rightarrow> rat \<Rightarrow> rat \<Rightarrow> bool \<Rightarrow> rat \<times> rat \<times> rat" where
  "fitWorkbenchWidths width left0 right0 assistant =
     (let gutters = (if assistant then dividerSize + dividerSize else dividerSize);
          minimumRight = (if assistant then minimumRightWidth else 0);
          right = (if assistant then max minimumRight right0 else 0);
          available = max 0 (width - gutters);
          left = max minimumLeftWidth left0;
          budget = max 0 (available - minimumCenterWidth);
          minimumSides = minimumLeftWidth + minimumRight;
          flex = left + right - minimumSides;
          scale = (if 0 < flex then (budget - minimumSides) / flex else 0);
          sides = (if left + right > budget
                   then (if budget < minimumSides
                         then (budget * minimumLeftWidth / minimumSides, budget - budget * minimumLeftWidth / minimumSides)
                         else (minimumLeftWidth + (left - minimumLeftWidth) * scale, minimumRight + (right - minimumRight) * scale))
                   else (left, right))
      in (fst sides, max 0 (available - fst sides - snd sides), snd sides))"

text \<open>
  The panes fill the window and do not overlap, and the terminal gets its least width before the panes beside it get
  theirs.
\<close>

lemma sides_within_budget:
  fixes budget left right l r :: rat
  assumes "0 \<le> budget" "0 < l" "0 \<le> r" "l \<le> left" "r \<le> right" "budget < left + right"
  shows "budget < l + r \<Longrightarrow> 0 \<le> budget * l / (l + r) \<and> budget * l / (l + r) \<le> budget"
    and "l + r \<le> budget \<Longrightarrow> (let s = (if 0 < left + right - (l + r) then (budget - (l + r)) / (left + right - (l + r)) else 0)
       in 0 \<le> s \<and> s \<le> 1 \<and> l + (left - l) * s + (r + (right - r) * s) = budget)"
proof -
  assume "budget < l + r"
  then show "0 \<le> budget * l / (l + r) \<and> budget * l / (l + r) \<le> budget"
    using assms by (simp add: field_simps)
next
  assume b: "l + r \<le> budget"
  define f where "f = left + right - (l + r)"
  have f: "0 < f" "budget - (l + r) \<le> f" using b assms(6) by (simp_all add: f_def)
  have "(left - l) * ((budget - (l + r)) / f) + (right - r) * ((budget - (l + r)) / f)
      = ((left - l) + (right - r)) * ((budget - (l + r)) / f)" by (rule distrib_right [symmetric])
  also have "(left - l) + (right - r) = f" by (simp add: f_def)
  also have "f * ((budget - (l + r)) / f) = budget - (l + r)" using f(1) by simp
  finally have eq: "(left - l) * ((budget - (l + r)) / f) + (right - r) * ((budget - (l + r)) / f) = budget - (l + r)" .
  show "let s = (if 0 < left + right - (l + r) then (budget - (l + r)) / (left + right - (l + r)) else 0)
       in 0 \<le> s \<and> s \<le> 1 \<and> l + (left - l) * s + (r + (right - r) * s) = budget"
    unfolding f_def [symmetric] Let_def using f b eq by simp
qed

lemma workbench_fits:
  assumes "fitWorkbenchWidths width left0 right0 assistant = (left, center, right)"
  defines "available \<equiv> max 0 (width - (if assistant then 2 * dividerSize else dividerSize))"
  shows "0 \<le> left \<and> 0 \<le> center \<and> 0 \<le> right \<and> left + center + right = available \<and> min available minimumCenterWidth \<le> center
     \<and> (\<not> assistant \<longrightarrow> right = 0)"
proof -
  define l where "l = max minimumLeftWidth left0"
  define r where "r = (if assistant then max minimumRightWidth right0 else 0)"
  define m where "m = (if assistant then minimumRightWidth else 0)"
  define budget where "budget = max 0 (available - minimumCenterWidth)"
  have pos: "0 \<le> budget" "0 < minimumLeftWidth" "0 \<le> m" "minimumLeftWidth \<le> l" "m \<le> r" "0 \<le> available"
    by (simp_all add: budget_def m_def l_def r_def minimum_sizes available_def)
  have room: "min available minimumCenterWidth \<le> available - s" if "s \<le> budget" for s
    using that pos(6) by (simp add: budget_def min_def max_def minimum_sizes split: if_splits)
  define f where "f = l + r - (minimumLeftWidth + m)"
  define sc where "sc = (if 0 < f then (budget - (minimumLeftWidth + m)) / f else 0)"
  have fit: "fitWorkbenchWidths width left0 right0 assistant = (a, max 0 (available - a - b), b)"
    if "(a, b) = (if l + r > budget
                   then (if budget < minimumLeftWidth + m
                         then (budget * minimumLeftWidth / (minimumLeftWidth + m), budget - budget * minimumLeftWidth / (minimumLeftWidth + m))
                         else (minimumLeftWidth + (l - minimumLeftWidth) * sc, m + (r - m) * sc))
                   else (l, r))" for a b
    using that unfolding fitWorkbenchWidths_def Let_def l_def r_def m_def budget_def available_def sc_def f_def
    by (cases assistant) (auto split: if_splits)
  have sides: "0 \<le> left \<and> 0 \<le> right \<and> left + right \<le> budget \<and> center = max 0 (available - left - right) \<and> (\<not> assistant \<longrightarrow> right = 0)"
  proof (cases "budget < l + r")
    case False
    with fit [of l r] assms(1) have "left = l" "right = r" "center = max 0 (available - l - r)" by simp_all
    with False pos show ?thesis by (auto simp: r_def)
  next
    case over: True
    note within = sides_within_budget [OF pos(1,2,3,4,5) over]
    show ?thesis
    proof (cases "budget < minimumLeftWidth + m")
      case True
      with fit over assms(1) have "left = budget * minimumLeftWidth / (minimumLeftWidth + m)" "right = budget - left"
        "center = max 0 (available - left - right)" by auto
      moreover have "\<not> assistant \<Longrightarrow> budget * minimumLeftWidth / (minimumLeftWidth + m) = budget" using pos(2) by (simp add: m_def)
      ultimately show ?thesis using within(1) [OF True] by auto
    next
      case False
      with fit over assms(1) have eq: "left = minimumLeftWidth + (l - minimumLeftWidth) * sc" "right = m + (r - m) * sc"
        "center = max 0 (available - left - right)" by auto
      have "0 \<le> sc \<and> sc \<le> 1 \<and> left + right = budget"
        using within(2) [unfolded Let_def, folded f_def, folded sc_def] False unfolding eq by simp
      moreover have "0 \<le> (l - minimumLeftWidth) * sc" "0 \<le> (r - m) * sc" if "0 \<le> sc" using that pos by simp_all
      moreover have "\<not> assistant \<Longrightarrow> right = 0" by (simp add: eq m_def r_def)
      ultimately show ?thesis using pos eq by auto
    qed
  qed
  then have "center = available - (left + right)" using pos(6) by (auto simp: budget_def max_def minimum_sizes split: if_splits)
  with sides room [of "left + right"] pos(6) show ?thesis by (auto simp: min_def minimum_sizes split: if_splits)
qed

text \<open>A height that the pane of the files gets, and the rest for the terminal (\<open>terminalFileLayout\<close>).\<close>

definition terminal_heights :: "rat \<Rightarrow> rat \<Rightarrow> rat \<times> rat" where
  "terminal_heights height bottom =
     (let available = max 0 (height - dividerSize);
          b = boundedPanelSize bottom minimumToolsHeight (available - minimumTerminalHeight)
      in (max 0 (available - b), b))"

lemma terminal_keeps_height:
  assumes "terminal_heights height bottom = (t, b)"
  shows "0 \<le> t \<and> 0 \<le> b \<and> t + b = max 0 (height - dividerSize) \<and> min minimumTerminalHeight (t + b) \<le> t"
  using assms by (auto simp: terminal_heights_def boundedPanelSize_def Let_def minimum_sizes min_def max_def split: if_splits)

text \<open>
  Dragging a divider, from the widths that are shown; the other pane keeps its width.
\<close>

definition drag_left :: "rat \<Rightarrow> bool \<Rightarrow> rat \<Rightarrow> rat \<Rightarrow> rat \<Rightarrow> rat" where
  "drag_left width assistant shown_left shown_right delta =
     (let right = (if assistant then shown_right else 0); gutters = (if assistant then dividerSize + dividerSize else dividerSize)
      in boundedPanelSize (shown_left + delta) minimumLeftWidth (width - right - minimumCenterWidth - gutters))"

definition drag_right :: "rat \<Rightarrow> rat \<Rightarrow> rat \<Rightarrow> rat \<Rightarrow> rat" where
  "drag_right width shown_left shown_right delta =
     boundedPanelSize (shown_right - delta) minimumRightWidth (width - shown_left - minimumCenterWidth - 2 * dividerSize)"

lemma dragging_leaves_center:
  assumes "minimumCenterWidth + right + 2 * dividerSize \<le> width" "0 \<le> right"
  shows "minimumCenterWidth \<le> width - 2 * dividerSize - right - drag_left width True shown_left right delta"
  using assms by (simp add: drag_left_def boundedPanelSize_def minimum_sizes Let_def min_def max_def)

text \<open>The layout of a pane with an edge on each side: offsets and sizes of the parts that are visible.\<close>

record layout_box =
  bx_x :: rat
  bx_y :: rat
  bx_w :: rat
  bx_h :: rat

definition edge_layout :: "rat option \<Rightarrow> rat option \<Rightarrow> rat option \<Rightarrow> rat option \<Rightarrow> rat \<times> rat \<Rightarrow> layout_box option list \<times> layout_box" where
  "edge_layout north south west east extent =
     (let (w, h) = extent; t = (case north of None \<Rightarrow> 0 | Some x \<Rightarrow> x); b = (case south of None \<Rightarrow> 0 | Some x \<Rightarrow> x);
          middle = max 0 (h - t - b); l = (case west of None \<Rightarrow> 0 | Some x \<Rightarrow> x); r = (case east of None \<Rightarrow> 0 | Some x \<Rightarrow> x)
      in ([map_option (\<lambda>x. \<lparr>bx_x = 0, bx_y = 0, bx_w = w, bx_h = x\<rparr>) north,
           map_option (\<lambda>x. \<lparr>bx_x = 0, bx_y = max 0 (h - x), bx_w = w, bx_h = x\<rparr>) south,
           map_option (\<lambda>x. \<lparr>bx_x = 0, bx_y = t, bx_w = x, bx_h = middle\<rparr>) west,
           map_option (\<lambda>x. \<lparr>bx_x = max 0 (w - x), bx_y = t, bx_w = x, bx_h = middle\<rparr>) east],
          \<lparr>bx_x = l, bx_y = t, bx_w = max 0 (w - l - r), bx_h = middle\<rparr>))"

subsection \<open>The pane of the assistant\<close>

text \<open>
  It slides in and out.  An animation carries the generation in which it began, so a tick of an animation that was
  stopped changes nothing.
\<close>

record slide =
  sl_reveal :: rat
  sl_generation :: "64 word"
  sl_moving :: bool
  sl_visible :: bool

record animation =
  an_from :: rat
  an_target :: rat
  an_generation :: "64 word"

definition stop_slide :: "slide \<Rightarrow> slide" where
  "stop_slide s = s\<lparr>sl_generation := sl_generation s + 1, sl_moving := False\<rparr>"

definition transition :: "bool \<Rightarrow> slide \<Rightarrow> slide \<times> animation option" where
  "transition enabled s =
     (let s1 = stop_slide s; target = (if sl_visible s then 1 else 0)
      in if \<not> enabled \<or> sl_reveal s = target then (s1\<lparr>sl_reveal := target\<rparr>, None)
         else (s1\<lparr>sl_moving := True\<rparr>, Some \<lparr>an_from = sl_reveal s, an_target = target, an_generation = sl_generation s1\<rparr>))"

definition toggleAssistant :: "bool \<Rightarrow> bool \<Rightarrow> slide \<Rightarrow> slide \<times> animation option" where
  "toggleAssistant closing enabled s = (if closing then (s, None) else transition enabled (s\<lparr>sl_visible := \<not> sl_visible s\<rparr>))"

definition tick :: "bool \<Rightarrow> bool \<Rightarrow> animation \<Rightarrow> rat \<Rightarrow> slide \<Rightarrow> slide" where
  "tick closing enabled a progress s =
     (if an_generation a \<noteq> sl_generation s \<or> closing then s
      else let p = (if enabled then progress else 1); s1 = s\<lparr>sl_reveal := an_from a + (an_target a - an_from a) * p\<rparr>
           in if 1 \<le> p then (stop_slide s1)\<lparr>sl_reveal := an_target a\<rparr> else s1)"

lemma old_tick_ignored:
  "fst (transition enabled s) = s' \<Longrightarrow> an_generation a = sl_generation s \<Longrightarrow> tick closing moving a p s' = s'"
  by (auto simp: transition_def tick_def stop_slide_def Let_def split: if_splits)

text \<open>A slide that is not disturbed ends where it should, and stays within its range on the way.\<close>

lemma slide_ends:
  assumes "transition enabled s = (s', Some a)" "1 \<le> p"
  shows "sl_reveal (tick False e a p s') = (if sl_visible s then 1 else 0) \<and> \<not> sl_moving (tick False e a p s')"
  using assms by (auto simp: transition_def tick_def stop_slide_def Let_def split: if_splits)

lemma slide_in_range:
  assumes "transition enabled s = (s', Some a)" "0 \<le> sl_reveal s" "sl_reveal s \<le> 1" "0 \<le> p" "p \<le> 1"
  shows "0 \<le> sl_reveal (tick False e a p s') \<and> sl_reveal (tick False e a p s') \<le> 1"
proof -
  have a: "an_from a = sl_reveal s" "an_target a = 0 \<or> an_target a = 1" "an_generation a = sl_generation s'"
    using assms(1) by (auto simp: transition_def stop_slide_def Let_def split: if_splits)
  have "0 \<le> x + (t - x) * q \<and> x + (t - x) * q \<le> 1" if "0 \<le> x" "x \<le> 1" "t = 0 \<or> t = 1" "0 \<le> q" "q \<le> 1" for x t q :: rat
  proof -
    have eq: "x + (t - x) * q = x * (1 - q) + t * q" by (simp add: algebra_simps)
    have "x * (1 - q) \<le> 1 * (1 - q)" using that by (intro mult_right_mono) auto
    moreover have "0 \<le> x * (1 - q)" using that by simp
    ultimately show ?thesis using that unfolding eq by auto
  qed
  from this [of "sl_reveal s" "an_target a" p] this [of "sl_reveal s" "an_target a" 1] show ?thesis
    using assms(2-5) a by (auto simp: tick_def stop_slide_def Let_def)
qed

subsection \<open>Choosing files\<close>

text \<open>At most one dialog; \<open>Picked\<close> is its end, and what the caller gets is given, if it is called back.\<close>

definition pickFiles :: "bool \<Rightarrow> (err + string list) option \<times> bool" where
  "pickFiles picker_open = (if picker_open then (Some (Inl (Msg ''close the open file dialog first'')), True) else (None, True))"

definition files_picked :: "bool \<Rightarrow> err option \<Rightarrow> (err + string list) option \<Rightarrow> (err + string list) option" where
  "files_picked closing cancelled x =
     (if closing then None
      else Some (case cancelled of
                   Some e \<Rightarrow> Inl e
                 | None \<Rightarrow> (case x of None \<Rightarrow> Inr [] | Some y \<Rightarrow> y)))"

text \<open>The hooks of a terminal's transfers: choosing nothing cancels the transfer.\<close>

definition upload_choice :: "err + string list \<Rightarrow> err + string list" where
  "upload_choice x = (case x of Inr [] \<Rightarrow> Inl (Msg ''the upload was cancelled'') | _ \<Rightarrow> x)"

definition download_choice :: "err + string list \<Rightarrow> err + string" where
  "download_choice x =
     (case x of Inl e \<Rightarrow> Inl e | Inr [] \<Rightarrow> Inl (Msg ''the download was cancelled'') | Inr (d # _) \<Rightarrow> Inr d)"

subsection \<open>The image behind the terminals\<close>

text \<open>
  \<open>dc\<close> and \<open>di\<close> are the image library: the format and size of an image, and its pixels.
\<close>

definition max_image :: nat where "max_image = 20 * 1024 * 1024"

definition decodeBackground :: "(string \<Rightarrow> err + string \<times> int \<times> int) \<Rightarrow> (string \<Rightarrow> err + 'i) \<Rightarrow> err + string \<Rightarrow> err + 'i \<times> string" where
  "decodeBackground dc di contents =
     (case contents of
        Inl e \<Rightarrow> Inl e
      | Inr d \<Rightarrow>
          let data = take (max_image + 1) d
          in if max_image < length data then Inl (Msg ''the image is larger than 20 MB'')
             else case dc data of
               Inl e \<Rightarrow> Inl (Msg ''the image cannot be read'')
             | Inr (format, w, h) \<Rightarrow>
                 if format \<noteq> ''png'' \<and> format \<noteq> ''jpeg'' then Inl (Msg ''choose a PNG or JPEG image'')
                 else if 16000000 < signed_take_bit 63 (w * h) then Inl (Msg ''the image has more than 16 million pixels'')
                 else (case di data of Inl e \<Rightarrow> Inl e | Inr i \<Rightarrow> Inr (i, data)))"

record 'i terminal_image =
  bg_file :: "string option"
  bg_name :: string
  bg_image :: "'i option"

text \<open>
  The outcomes of making, writing, closing and renaming the temporary file.  Removing it at the end does nothing when it was
  renamed.
\<close>

definition set_background :: "err + 'i \<times> string \<Rightarrow> err option \<Rightarrow> err option \<Rightarrow> err option \<Rightarrow> err option \<Rightarrow> string \<Rightarrow> 'i terminal_image
    \<Rightarrow> (err + unit) \<times> 'i terminal_image" where
  "set_background decoded made written ended renamed name b =
     (case decoded of
        Inl e \<Rightarrow> (Inl e, b)
      | Inr (i, data) \<Rightarrow>
          (case made of
             Some e \<Rightarrow> (Inl e, b)
           | None \<Rightarrow>
               (case (if written \<noteq> None then written else if ended \<noteq> None then ended else renamed) of
                  Some e \<Rightarrow> (Inl e, b)
                | None \<Rightarrow> (Inr (), b\<lparr>bg_file := Some data, bg_name := name, bg_image := Some i\<rparr>))))"

definition remove_background :: "err option \<Rightarrow> 'i terminal_image \<Rightarrow> (err + unit) \<times> 'i terminal_image" where
  "remove_background removed b =
     (case removed of
        Some e \<Rightarrow> if e \<noteq> NotExist then (Inl e, b) else (Inr (), b\<lparr>bg_file := None, bg_name := [], bg_image := None\<rparr>)
      | None \<Rightarrow> (Inr (), b\<lparr>bg_file := None, bg_name := [], bg_image := None\<rparr>))"

definition restoreTerminalBackground :: "(string \<Rightarrow> err + string \<times> int \<times> int) \<Rightarrow> (string \<Rightarrow> err + 'i) \<Rightarrow> err + string \<Rightarrow> 'i terminal_image
    \<Rightarrow> err option \<times> 'i terminal_image" where
  "restoreTerminalBackground dc di contents b =
     (if bg_name b = [] then (None, b)
      else case decodeBackground dc di contents of
        Inl e \<Rightarrow> (Some e, b) | Inr (i, d) \<Rightarrow> (None, b\<lparr>bg_image := Some i\<rparr>))"

text \<open>An image that is accepted is small enough, and one that is shown is the one that is stored.\<close>

lemma accepted_image:
  assumes "decodeBackground dc di contents = Inr (i, data)"
  shows "contents = Inr data \<and> length data \<le> max_image \<and> di data = Inr i
     \<and> (\<exists>format w h. dc data = Inr (format, w, h) \<and> format \<in> {''png'', ''jpeg''} \<and> signed_take_bit 63 (w * h) \<le> 16000000)"
  using assms by (auto simp: decodeBackground_def Let_def split: sum.splits if_splits)

lemma background_stored:
  assumes "set_background (decodeBackground dc di contents) m w c r name b = (x, b')"
  shows "(\<exists>e. x = Inl e \<and> bg_file b' = bg_file b \<and> bg_image b' = bg_image b \<and> bg_name b' = bg_name b)
     \<or> (\<exists>data i. x = Inr () \<and> bg_file b' = Some data \<and> bg_image b' = Some i \<and> di data = Inr i \<and> length data \<le> max_image)"
proof (cases "decodeBackground dc di contents")
  case (Inl e)
  with assms show ?thesis by (auto simp: set_background_def)
next
  case (Inr y)
  obtain i data where y: "y = (i, data)" by fastforce
  from accepted_image [OF Inr [unfolded y]] have "di data = Inr i" "length data \<le> max_image" by simp_all
  with assms Inr y show ?thesis by (auto simp: set_background_def split: option.splits if_splits)
qed

subsection \<open>The size of the letters\<close>

definition terminalFontOptions :: "nat list" where
  "terminalFontOptions = [8, 9, 10, 11, 12, 13, 14, 15, 16, 18, 20, 24, 28, 32, 36, 40]"

definition setTerminalSize :: "rat \<Rightarrow> rat \<Rightarrow> rat" where
  "setTerminalSize chosen size0 = (if chosen < 8 \<or> 40 < chosen then size0 else chosen)"

definition text_scale_index :: "rat \<Rightarrow> nat" where
  "text_scale_index scale = (if 11 / 10 < scale then 2 else if 102 / 100 < scale then 1 else 0)"

definition text_scale :: "nat \<Rightarrow> rat" where
  "text_scale i = (if i = 0 then 1 else if i = 1 then 15 / 14 else 16 / 14)"

lemma offered_sizes_taken: "n \<in> set terminalFontOptions \<Longrightarrow> setTerminalSize (of_nat n) s = of_nat n"
  by (auto simp: terminalFontOptions_def setTerminalSize_def)

lemma chosen_scale_shown: "i < 3 \<Longrightarrow> text_scale_index (text_scale i) = i"
  by (auto simp: text_scale_index_def text_scale_def)

text \<open>Which colours are used: the chosen ones, or those of the system.\<close>

definition is_dark :: "string \<Rightarrow> bool \<Rightarrow> bool" where
  "is_dark mode system_dark = (if mode = ''dark'' then True else if mode = ''light'' then False else system_dark)"

end
