(* ===== verification/Spec2Isabelle.thy ===== *)
theory Spec2Isabelle
  imports Router StoreFrames LocalFilesSafe References Policy RemoteFilesSafe Command Terminals ExecutorSafe Evidence ServiceSafe
    Monitor Processes Startup TerminalView Composer Skills FileBrowser WorkbenchSafe Models TaskWatch MonitorView
    Sessions Panels
begin

text \<open>
  NexShell is a desktop SSH client with an assistant that operates servers.  This development
  models the program, with the state its graphical interface keeps and the actions it offers, as
  functions that compute; drawing is left out.  The theorems named C1 to C40 in the theories say what
  makes it correct.

  \<^bold>\<open>The program\<close>

  The user opens terminals on configured hosts.  What a host sends passes a router that
  recognises ZMODEM transfers and shows everything else; the terminal widget keeps the emulator, its
  queues and its selection.  The assistant works on tasks.  A task has a grant, which names the
  hosts, the local directories and the levels that need no approval.  The model proposes a request, the
  policy decides whether it runs, needs an approval or is refused, the executor claims the request in
  the database, performs it once over SSH, SFTP, a terminal or the local disk, and records the result.
  The database wakes up the views of the tasks it changes.  The window has a tab for every workspace, which
  is a session on a host with its terminal, the host's files and its state; sessions are dialled and closed in
  the background, files and reports are read there, and their answers may come late.

  \<^bold>\<open>How the code is rendered\<close>

  An operation is a function from a state to a result and a new state; \<open>Prelude\<close> has the type,
  \<open>('s, 'e, 'a) act\<close>, its sequencing \<open>andThen\<close> and triples \<open>spec P f Q E\<close> over it.  An error is a value
  \<open>Inl e\<close>, a panic is \<open>None\<close>.  A Go string is a list of bytes (\<open>char\<close>), a Go slice a list, integers that
  may wrap are words, and those that cannot are \<open>int\<close> or \<open>nat\<close>.  Statements of the database and calls
  of the file system that may fail take their outcome from a script in the state, so every
  theorem holds for every sequence of failures.  What a lock of the code protects is one step.

  Code outside the repository is a parameter.  \<open>Machine.outside\<close> collects the operations of the SSH and SFTP
  libraries, the known-hosts file and the keyring, on a state \<open>net\<close> of which nothing is
  assumed but the named hypotheses of a theorem; \<open>DemoServer\<close> is a concrete one, on which the witnesses
  run.  The loop of the agent library, the model, the memory library, YAML, \<open>doublestar\<close>, the terminal
  emulator, the tables of Unicode and the random identifiers are parameters of the definitions that use
  them.  Texts that are shown to the user or to the model and that the source writes in Chinese are
  given as ASCII renderings; bytes on which the code decides are kept.

  \<^bold>\<open>Theories\<close>

  Go's library, as far as the code calls it:
  \<^item> \<open>Prelude\<close>: bytes, operations, triples, the locale \<open>preserved\<close> of relations that operations keep.
  \<^item> \<open>GoStrings\<close>, \<open>GoEncoding\<close>, \<open>GoJson\<close>, \<open>GoJsonRead\<close>, \<open>GoPath\<close>, \<open>GoUrl\<close>: \<open>strings\<close> and \<open>strconv\<close>,
    \<open>encoding/hex\<close> and \<open>encoding/binary\<close>, writing and reading \<open>encoding/json\<close>, \<open>path\<close> and
    \<open>path/filepath\<close>, \<open>net/url\<close>.

  File transfer (\<open>internal/transfer\<close>):
  \<^item> \<open>ZmodemCodec\<close> (\<open>zmodem/codec.go\<close>): headers, escaping, checksums, the two readers.  Reading gives back what
    was written (C3), a changed byte is noticed (C4); the locale \<open>byte_checksum\<close> serves both checksums.
  \<^item> \<open>ZmodemSend\<close>, \<open>ZmodemReceive\<close> (\<open>zmodem/transfer.go\<close>): \<open>Send\<close> and \<open>Receive\<close> with resuming and retries.
    \<open>ZmodemFrames\<close>: what a transfer may change (C2).  \<open>ZmodemTransfer\<close>: the two against each other (C1).
  \<^item> \<open>Router\<close> (\<open>router.go\<close>): \<open>pump\<close>, \<open>Write\<close>, \<open>CancelTransfer\<close>; ordinary output is shown unchanged (C5).

  Records (\<open>internal/domain\<close>, \<open>internal/store\<close>):
  \<^item> \<open>Domain\<close> (\<open>types.go\<close>): the records and \<open>Digest\<close>, with SHA-256 written out (C8).
  \<^item> \<open>Changes\<close> (\<open>changes.go\<close>): subscriptions and their channels; used by C34.
  \<^item> \<open>Store\<close> (\<open>store.go\<close>): the tables as lists of rows.  \<open>StoreFrames\<close>: locales from \<open>store_quiet\<close> to
    \<open>store_insert\<close> collect what the operations do to the database; over any history a call is
    claimed once (C6), and recovery interrupts what was running (C7).

  The local disk (\<open>internal/localfiles\<close>):
  \<^item> \<open>LocalFiles\<close>, \<open>LocalFilesSafe\<close> (\<open>files.go\<close>): a tree with links, opening below the granted roots (C11),
    reading in pages (C12), the private copy of an upload (C13).
  \<^item> \<open>References\<close> (\<open>references.go\<close>): the files a message refers to.

  Servers (\<open>internal/remote\<close>):
  \<^item> \<open>Machine\<close>: the state of the whole application, and the parameter \<open>outside\<close>.
  \<^item> \<open>Connection\<close> (\<open>connection.go\<close>): jump hosts, host keys, authentication, the cache (C14 to C16).
  \<^item> \<open>RemoteFiles\<close>, \<open>RemoteFilesSafe\<close> (\<open>files.go\<close>, \<open>authorization.go\<close>): replacing a file leaves the
    old content or the new, whatever fails (C9).
  \<^item> \<open>Command\<close> (\<open>snippets.go\<close>, \<open>session.go\<close>, part of \<open>executor.go\<close>): quoting, and the words a shell makes of it (C17).
  \<^item> \<open>Terminals\<close> (\<open>desktop.go\<close>): the terminals the assistant may look at and type into (C18).
  \<^item> \<open>Executor\<close>, \<open>ExecutorSafe\<close> (\<open>executor.go\<close>, \<open>local_upload.go\<close>): a call runs once, and its row says
    what came of it (C19 to C22).  The locale \<open>recording\<close> lifts frames of the database to the executor.
  \<^item> \<open>Monitor\<close>, \<open>Processes\<close>, \<open>Startup\<close> (\<open>monitor.go\<close>, \<open>disks.go\<close>, \<open>process_ports.go\<close>, \<open>directory.go\<close>):
    reading the reports of \<open>df\<close>, \<open>ps\<close>, \<open>ss\<close> and \<open>/proc\<close> (C38), and how a shell is started.
  \<^item> \<open>Sessions\<close> (\<open>session.go\<close>, \<open>tunnels.go\<close>): opening a terminal or a tunnel, which leaves nothing open when it
    fails; the question about a host key; batches of commands and dropped files.

  The assistant (\<open>internal/agent\<close>):
  \<^item> \<open>Policy\<close> (\<open>policy.go\<close>): what runs without asking (C10).
  \<^item> \<open>Tools\<close>, \<open>ToolsSafe\<close> (\<open>tools.go\<close>, \<open>verification.go\<close>): the tools the model calls (C23 to C25).
  \<^item> \<open>Evidence\<close>: over any history, a verification rests on a recorded check; used by C26.
  \<^item> \<open>Conversation\<close> (\<open>history_recovery.go\<close>): an interrupted history is completed (C30).
  \<^item> \<open>Recovery\<close> (\<open>model_retry.go\<close>, \<open>tool_recovery.go\<close>, \<open>runtime_observer.go\<close>): the bounds on repeated
    calls and on corrections (C31).
  \<^item> \<open>Service\<close>, \<open>ServiceSafe\<close> (\<open>service.go\<close>, \<open>events.go\<close>, \<open>conversation.go\<close>, \<open>attachments.go\<close>,
    \<open>runtime_version.go\<close>): creating, starting, resuming, deciding, ending (C26 to C29).
  \<^item> \<open>Memory\<close> (\<open>memory.go\<close>, \<open>memory_backend.go\<close>): what is remembered between tasks (C32).
  \<^item> \<open>Skills\<close> (\<open>skills.go\<close>, \<open>skill_backend.go\<close>): the manuals the assistant can read.
  \<^item> \<open>Models\<close> (\<open>models.go\<close>, \<open>builder.go\<close>, \<open>tool_arguments.go\<close>): the profile of a model, its key, the handlers of
    the agent and when it summarises.

  The state behind the interface (\<open>internal/terminal\<close>, \<open>internal/ui\<close>):
  \<^item> \<open>TerminalCore\<close> (\<open>core.go\<close>, \<open>input.go\<close>, \<open>output_table.go\<close>): the queue of input (C39), the screen with its
    history, searching, tables in the output.  \<open>TerminalView\<close> (\<open>view.go\<close>): the widget's handlers.
  \<^item> \<open>Workbench\<close> (\<open>workspace.go\<close>, \<open>app.go\<close>, \<open>lifecycle.go\<close> and others): workspaces, tabs and sessions as a state with
    events.  \<open>WorkbenchSafe\<close>: in every state that events reach, each session has an owner (C35) and the tabs are
    the workspaces (C37).
  \<^item> \<open>FileBrowser\<close> (\<open>workspace.go\<close>, \<open>files_interaction.go\<close>): the file pane; a change is asked for where
    its row was listed (C36).
  \<^item> \<open>TaskView\<close> (\<open>task_history.go\<close>, part of \<open>conversation_view.go\<close>): what is shown of a task (C33).
    \<open>TaskWatch\<close>: the worker that keeps it up to date misses no change (C34).  \<open>TaskPanel\<close> (\<open>tasks.go\<close> and others): the
    panel's dialogs.  \<open>Composer\<close> (\<open>attachments.go\<close>, sending in \<open>tasks.go\<close>): the files of a message (C40).
  \<^item> \<open>Hosts\<close>, \<open>MonitorView\<close>, \<open>Panels\<close>: the saved hosts, the tables of a server's state, and the layout
    and settings of the window.

  \<^bold>\<open>Bounds\<close>

  Loops over data recurse on the data or have a measure.  A number that counts down is either the
  bound of the code itself (the 65536 bytes skipped before a header, the twenty tries of the negotiation, the
  twelve corrections of a run, the three calls of the model, the limits of the kernel on links, which are fields of \<open>disk\<close>) or the
  length of the input, of which every step takes at least one byte (\<open>read_string\<close>, \<open>read_value\<close>,
  \<open>unquote_chars\<close>, \<open>owners_in\<close>).  Connecting recurses over jump hosts as long as there are
  host records left to visit; C14 shows that this bound never decides.  \<open>Receive\<close> may run for ever
  against a peer that never ends; \<open>recv_loop\<close> consumes the peer's bytes, which are finite, and ends with
  them.

  \<^bold>\<open>Not modelled\<close>

  Drawing and the widgets of the graphics library, which only show the state above; the
  operating system's dialogs and input methods; the goroutines that copy bytes, those of a tunnel
  included, and the timers that refresh; the keyring, one call of a library; the text of the
  agent's instruction; storing preferences and exporting hosts, which only call libraries; opening and
  closing the database file.  Widths and quotients are exact numbers where the code
  has floating-point ones.  Whether a transfer, a request or a connection takes too long is an outcome of
  the scripts above.
\<close>

end
